(* ===== verification/Tests_Prelude.thy ===== *)
theory Tests_Prelude
  imports Acp_Prelude "HOL-Library.Countable"
begin

text \<open>
  What the theories \<^verbatim>\<open>Tests_*\<close> share. Each of them states unit tests of the repository over the model: a
  definition per test, with the name of the test, over whatever the test makes up, and lemmas that it
  passes for every choice of that. The JSON library is a parameter, and a test needs of it no more than that
  it reads back what it prints, for values without floats.
\<close>

fun plain_json :: "json \<Rightarrow> bool" where
  "plain_json (JArray vs) = list_all plain_json vs"
| "plain_json (JObject kvs) = list_all (\<lambda>(k, v). plain_json v) kvs"
| "plain_json (JNumber (Float x)) = False"
| "plain_json _ = True"

definition reads_back :: "serde \<Rightarrow> bool" where
  "reads_back S \<longleftrightarrow> (\<forall>v. plain_json v \<longrightarrow> parse_json S (print_json S v) = Some v)"

text \<open>The value under a path of keys, as \<^verbatim>\<open>v["a"]["b"]\<close>; a missing key gives no value.\<close>

fun json_at :: "string list \<Rightarrow> json option \<Rightarrow> json option" where
  "json_at [] v = v"
| "json_at (k # ks) v = json_at ks (Option.bind v (json_get k))"

lemma reads_back_plain: "reads_back S \<Longrightarrow> plain_json v \<Longrightarrow> parse_json S (print_json S v) = Some v"
  by (simp add: reads_back_def)

text \<open>
  A library with an injective printer is one such: the values are countable, and a string stands for its
  length.
\<close>

instance json_number :: countable
  by countable_datatype

instance json :: countable
  by countable_datatype

lemma reads_back_possible: "\<exists>S. reads_back S"
proof
  let ?print = "\<lambda>v :: json. replicate (to_nat v) (CHR ''x'')"
  have "inj ?print" by (rule injI) (metis inj_to_nat injD length_replicate)
  then show "reads_back \<lparr>parse_json = (\<lambda>s. Some (inv ?print s)), print_json = ?print\<rparr>"
    unfolding reads_back_def by (auto intro: inv_f_f)
qed

end
