(* ===== verification/Rate_Limit.thy ===== *)
theory Rate_Limit
  imports Acp_Prelude
begin

text \<open>
  The limiter of error reports (\<^verbatim>\<open>common/src/sentry_rate_limit.rs\<close>). Instants and
  durations are counts of nanoseconds; subtraction on \<^typ>\<open>nat\<close> saturates at zero as
  \<^verbatim>\<open>saturating_duration_since\<close> does. The state is the map from keys to the instant of
  the last event sent; it is under a lock whose poisoning is ignored. Of an event, the fields that
  the key is made of are kept, and of an exception its type and value.
\<close>

definition WINDOW :: nat where "WINDOW = 60 * 10 ^ 9"

definition PRUNE_AFTER :: nat where "PRUNE_AFTER = 600 * 10 ^ 9"

definition MESSAGE_KEY_CAP :: nat where "MESSAGE_KEY_CAP = 64"

type_synonym last_seen = "string \<rightharpoonup> nat"

definition retain_recent :: "nat \<Rightarrow> nat \<Rightarrow> last_seen \<Rightarrow> last_seen" where
  "retain_recent prune_after now m =
     (\<lambda>k. case m k of None \<Rightarrow> None | Some t \<Rightarrow> if now - t < prune_after then Some t else None)"

definition should_send_inner :: "last_seen \<Rightarrow> string \<Rightarrow> nat \<Rightarrow> nat \<Rightarrow> nat \<Rightarrow> bool \<times> last_seen" where
  "should_send_inner m key now window prune_after =
     (let guard = retain_recent prune_after now m
      in case guard key of
           Some t \<Rightarrow> if now - t < window then (False, guard) else (True, guard(key \<mapsto> now))
         | None \<Rightarrow> (True, guard(key \<mapsto> now)))"

definition should_send :: "string \<Rightarrow> nat \<Rightarrow> last_seen \<Rightarrow> bool \<times> last_seen" where
  "should_send key now m = should_send_inner m key now WINDOW PRUNE_AFTER"

record event =
  ev_culprit :: "string option"
  ev_logger :: "string option"
  ev_exceptions :: "(string \<times> string option) list"
  ev_message :: "string option"
  ev_logentry :: "string option"

definition char_starts :: "string \<Rightarrow> nat list" where
  "char_starts s = filter (\<lambda>i. \<not> is_cont (s ! i)) [0..<length s]"

definition truncate_chars :: "string \<Rightarrow> nat \<Rightarrow> string" where
  "truncate_chars s max_chars =
     (if max_chars < length (char_starts s) then take (char_starts s ! max_chars) s else s)"

definition event_key :: "event \<Rightarrow> string" where
  "event_key e =
     (case ev_culprit e of
        Some c \<Rightarrow> ''culprit:'' @ c
      | None \<Rightarrow>
          let logger = unwrap_or [] (ev_logger e)
          in case ev_exceptions e of
               (ty, _) # _ \<Rightarrow> ''exc:'' @ logger @ '':'' @ ty
             | [] \<Rightarrow>
                 let msg = unwrap_or [] (case ev_message e of Some m \<Rightarrow> Some m | None \<Rightarrow> ev_logentry e)
                 in ''msg:'' @ logger @ '':'' @ truncate_chars msg MESSAGE_KEY_CAP)"

definition before_send :: "event \<Rightarrow> nat \<Rightarrow> last_seen \<Rightarrow> event option \<times> last_seen" where
  "before_send e now m = (case should_send (event_key e) now m of (b, m') \<Rightarrow> (if b then Some e else None, m'))"

text \<open>A sequence of events through the hook.\<close>

fun report_all :: "(event \<times> nat) list \<Rightarrow> last_seen \<Rightarrow> event option list" where
  "report_all [] m = []"
| "report_all ((e, now) # es) m = (case before_send e now m of (r, m') \<Rightarrow> r # report_all es m')"

text \<open>
  The specification keeps everything that was sent and never forgets: an event passes unless one
  with its key was sent less than a window before.
\<close>

fun limit_spec :: "(event \<times> nat) list \<Rightarrow> (string \<times> nat) list \<Rightarrow> event option list" where
  "limit_spec [] sent = []"
| "limit_spec ((e, now) # es) sent =
     (if list_ex (\<lambda>(k, t). k = event_key e \<and> now - t < WINDOW) sent
      then None # limit_spec es sent
      else Some e # limit_spec es ((event_key e, now) # sent))"

subsection \<open>Lemmas\<close>

text \<open>
  The map against the sends so far: an entry is the last send of its key, and a key without an
  entry was sent long ago if at all.
\<close>

definition tracks :: "nat \<Rightarrow> last_seen \<Rightarrow> (string \<times> nat) list \<Rightarrow> bool" where
  "tracks now m sent \<longleftrightarrow> (\<forall>k. case m k of
      Some t \<Rightarrow> (k, t) \<in> set sent \<and> (\<forall>t'. (k, t') \<in> set sent \<longrightarrow> t' \<le> t)
    | None \<Rightarrow> (\<forall>t'. (k, t') \<in> set sent \<longrightarrow> t' + PRUNE_AFTER \<le> now))"

lemma tracks_retain:
  assumes "tracks now m sent" and "now \<le> now'"
  shows "tracks now' (retain_recent PRUNE_AFTER now' m) sent"
  unfolding tracks_def
proof
  fix k
  from assms(1) have k: "case m k of
      Some t \<Rightarrow> (k, t) \<in> set sent \<and> (\<forall>t'. (k, t') \<in> set sent \<longrightarrow> t' \<le> t)
    | None \<Rightarrow> (\<forall>t'. (k, t') \<in> set sent \<longrightarrow> t' + PRUNE_AFTER \<le> now)" unfolding tracks_def by blast
  show "case retain_recent PRUNE_AFTER now' m k of
      Some t \<Rightarrow> (k, t) \<in> set sent \<and> (\<forall>t'. (k, t') \<in> set sent \<longrightarrow> t' \<le> t)
    | None \<Rightarrow> (\<forall>t'. (k, t') \<in> set sent \<longrightarrow> t' + PRUNE_AFTER \<le> now')"
    using k assms(2) by (cases "m k") (fastforce simp: retain_recent_def PRUNE_AFTER_def)+
qed

lemma should_send_spec:
  assumes "tracks now m sent" and "now \<le> now'"
  shows "fst (should_send key now' m) = (\<not> list_ex (\<lambda>(k, t). k = key \<and> now' - t < WINDOW) sent)"
proof -
  let ?g = "retain_recent PRUNE_AFTER now' m"
  have w: "WINDOW < PRUNE_AFTER" "0 < WINDOW" by (simp_all add: WINDOW_def PRUNE_AFTER_def)
  have t: "case ?g key of
      Some t \<Rightarrow> (key, t) \<in> set sent \<and> (\<forall>t'. (key, t') \<in> set sent \<longrightarrow> t' \<le> t)
    | None \<Rightarrow> (\<forall>t'. (key, t') \<in> set sent \<longrightarrow> t' + PRUNE_AFTER \<le> now')"
    using tracks_retain [OF assms] unfolding tracks_def by blast
  show ?thesis
  proof (cases "?g key")
    case None
    with t w show ?thesis
      by (fastforce simp: should_send_def should_send_inner_def list_ex_iff)
  next
    case (Some u)
    have "list_ex (\<lambda>(k, t). k = key \<and> now' - t < WINDOW) sent \<longleftrightarrow> now' - u < WINDOW"
      using t Some w by (fastforce simp: list_ex_iff)
    with Some show ?thesis by (simp add: should_send_def should_send_inner_def Let_def)
  qed
qed

lemma should_send_tracks:
  assumes "tracks now m sent" and "now \<le> now'" and "\<forall>(k, t) \<in> set sent. t \<le> now"
    and "should_send key now' m = (b, m')"
  shows "tracks now' m' (if b then (key, now') # sent else sent)"
proof -
  let ?g = "retain_recent PRUNE_AFTER now' m"
  note g = tracks_retain [OF assms(1,2)]
  have "m' = (if b then ?g(key \<mapsto> now') else ?g)"
    using assms(4) by (auto simp: should_send_def should_send_inner_def Let_def split: option.splits if_splits)
  moreover have "tracks now' (?g(key \<mapsto> now')) ((key, now') # sent)"
    using g assms(2,3) by (fastforce simp: tracks_def split: option.splits)
  ultimately show ?thesis using g by simp
qed

lemma report_all_limit_spec:
  assumes "tracks now m sent" and "\<forall>(k, t) \<in> set sent. t \<le> now" and "sorted (map snd es)"
    and "\<forall>(e, t) \<in> set es. now \<le> t"
  shows "report_all es m = limit_spec es sent"
  using assms
proof (induction es arbitrary: now m sent)
  case (Cons a es)
  obtain e t where a: "a = (e, t)" by (cases a)
  obtain b m' where s: "should_send (event_key e) t m = (b, m')" by (cases "should_send (event_key e) t m")
  have nt: "now \<le> t" using Cons.prems(4) a by simp
  have b: "b = (\<not> list_ex (\<lambda>(k, u). k = event_key e \<and> t - u < WINDOW) sent)"
    using should_send_spec [OF Cons.prems(1) nt, of "event_key e"] s by simp
  let ?sent = "if b then (event_key e, t) # sent else sent"
  have "tracks t m' ?sent" by (rule should_send_tracks [OF Cons.prems(1) nt Cons.prems(2) s])
  moreover have "\<forall>(k, u) \<in> set ?sent. u \<le> t" using Cons.prems(2) nt by (auto split: if_splits)
  moreover have "sorted (map snd es)" "\<forall>(e', u) \<in> set es. t \<le> u"
    using Cons.prems(3) a by auto
  ultimately have "report_all es m' = limit_spec es ?sent" by (rule Cons.IH)
  with a s b show ?case by (auto simp: before_send_def)
qed simp

subsection \<open>Properties\<close>

text \<open>
  C31: the limiter forgets nothing that matters. On any sequence of events at instants that do not
  decrease, the hook, whose map drops entries older than ten minutes, forwards exactly the events
  that a limiter with unlimited memory does: those whose key was not sent less than a minute
  before.
\<close>

theorem rate_limiter_exact:
  assumes "sorted (map snd es)"
  shows "report_all es Map.empty = limit_spec es []"
  by (rule report_all_limit_spec [where now = 0]) (auto simp: tracks_def assms)

definition demo_event :: event where
  "demo_event = \<lparr>ev_culprit = None, ev_logger = Some ''l'', ev_exceptions = [(''E'', None)], ev_message = None, ev_logentry = None\<rparr>"

theorem rate_limiter_exact_witness:
  "report_all [(demo_event, 0), (demo_event, 10 ^ 9), (demo_event, 60 * 10 ^ 9)] Map.empty
     = [Some demo_event, None, Some demo_event]"
proof -
  have "sorted (map snd [(demo_event, 0), (demo_event, 10 ^ 9), (demo_event, 60 * 10 ^ 9 :: nat)])" by simp
  from rate_limiter_exact [OF this] show ?thesis by (simp add: WINDOW_def)
qed

end
