(* ===== verification/Tests_Common.thy ===== *)
theory Tests_Common
  imports Rate_Limit
begin

text \<open>
  The unit tests of the limiter of error reports (\<^verbatim>\<open>common/src/sentry_rate_limit.rs\<close>)
  on the model. A test is a definition with the name of the test in the source; the instant at which a
  test starts is its argument, so that the lemmas, which say that the tests pass, hold at every clock.
\<close>

definition secs :: "nat \<Rightarrow> nat" where "secs s = s * 10 ^ 9"

definition fresh_map :: last_seen where "fresh_map = (\<lambda>_. None)"

text \<open>A series of calls with the window and the horizon of the tests: the answers, and the map left.\<close>

fun sends :: "(string \<times> nat) list \<Rightarrow> last_seen \<Rightarrow> bool list \<times> last_seen" where
  "sends [] m = ([], m)"
| "sends ((k, t) # cs) m =
     (let (b, m1) = should_send_inner m k t (secs 60) (secs 600); (bs, m2) = sends cs m1 in (b # bs, m2))"

subsection \<open>The limiter\<close>

definition first_call_for_a_key_is_allowed :: "nat \<Rightarrow> bool" where
  "first_call_for_a_key_is_allowed t0 \<longleftrightarrow>
     fst (should_send_inner fresh_map ''scheduler::tick'' t0 (secs 60) (secs 600))"

definition repeated_call_within_window_is_dropped :: "nat \<Rightarrow> bool" where
  "repeated_call_within_window_is_dropped t0 \<longleftrightarrow>
     fst (sends [(''k'', t0), (''k'', t0 + secs 1), (''k'', t0 + secs 59)] fresh_map) = [True, False, False]"

definition call_after_window_is_allowed_again :: "nat \<Rightarrow> bool" where
  "call_after_window_is_allowed_again t0 \<longleftrightarrow>
     fst (sends [(''k'', t0), (''k'', t0 + secs 30), (''k'', t0 + secs 60)] fresh_map) = [True, False, True]"

definition distinct_keys_do_not_interfere :: "nat \<Rightarrow> bool" where
  "distinct_keys_do_not_interfere t0 \<longleftrightarrow>
     fst (sends [(''scheduler::tick'', t0), (''redis::consumer'', t0), (''scheduler::tick'', t0), (''redis::consumer'', t0)]
       fresh_map) = [True, True, False, False]"

definition stale_entries_are_pruned :: "nat \<Rightarrow> bool" where
  "stale_entries_are_pruned t0 \<longleftrightarrow>
     (case sends [(''old'', t0), (''new'', t0 + secs 700)] fresh_map of
        (bs, m) \<Rightarrow> bs = [True, True] \<and> m ''old'' = None)"

lemma limiter_tests:
  "first_call_for_a_key_is_allowed t0" "repeated_call_within_window_is_dropped t0" "call_after_window_is_allowed_again t0"
  "distinct_keys_do_not_interfere t0" "stale_entries_are_pruned t0"
  by (simp_all add: first_call_for_a_key_is_allowed_def repeated_call_within_window_is_dropped_def
      call_after_window_is_allowed_again_def distinct_keys_do_not_interfere_def stale_entries_are_pruned_def
      should_send_inner_def retain_recent_def fresh_map_def secs_def Let_def)

subsection \<open>The keys of events\<close>

text \<open>The events of the tests start from the empty event; most of them name the logger.\<close>

definition event_default :: event where
  "event_default = \<lparr>ev_culprit = None, ev_logger = None, ev_exceptions = [], ev_message = None, ev_logentry = None\<rparr>"

definition logged :: event where "logged = event_default\<lparr>ev_logger := Some ''overloop''\<rparr>"

definition event_key_prefers_culprit :: bool where
  "event_key_prefers_culprit \<longleftrightarrow>
     event_key (logged\<lparr>ev_culprit := Some ''overloop::agentic_loop::run'', ev_message := Some ''LLM request failed''\<rparr>)
       = ''culprit:overloop::agentic_loop::run''"

definition event_key_exception_ignores_value :: bool where
  "event_key_exception_ignores_value \<longleftrightarrow>
     (let base = logged\<lparr>ev_exceptions := [(''reqwest::Error'', Some ''request id=abc123 failed'')]\<rparr>;
          variant = logged\<lparr>ev_exceptions := [(''reqwest::Error'', Some ''request id=xyz789 failed'')]\<rparr>
      in event_key base = ''exc:overloop:reqwest::Error'' \<and> event_key base = event_key variant)"

definition event_key_exception_type_still_discriminates_across_error_types :: bool where
  "event_key_exception_type_still_discriminates_across_error_types \<longleftrightarrow>
     event_key (logged\<lparr>ev_exceptions := [(''reqwest::Error'', Some ''boom'')]\<rparr>)
       \<noteq> event_key (logged\<lparr>ev_exceptions := [(''serde_json::Error'', Some ''boom'')]\<rparr>)"

definition event_key_message_is_length_capped :: bool where
  "event_key_message_is_length_capped \<longleftrightarrow>
     (let prefix = replicate (MESSAGE_KEY_CAP + 10) (CHR ''x'');
          a = logged\<lparr>ev_message := Some (prefix @ ''_tail_abc123'')\<rparr>;
          b = logged\<lparr>ev_message := Some (prefix @ ''_tail_xyz789'')\<rparr>
      in event_key a = event_key b \<and> length (event_key a) = length ''msg:overloop:'' + MESSAGE_KEY_CAP)"

definition event_key_message_discriminates_on_static_prefix :: bool where
  "event_key_message_discriminates_on_static_prefix \<longleftrightarrow>
     event_key (logged\<lparr>ev_message := Some ''LLM request failed''\<rparr>)
       \<noteq> event_key (logged\<lparr>ev_message := Some ''Tool invocation failed''\<rparr>)"

definition event_key_falls_back_to_logentry_message :: bool where
  "event_key_falls_back_to_logentry_message \<longleftrightarrow>
     event_key (logged\<lparr>ev_logentry := Some ''Stream read failed''\<rparr>) = ''msg:overloop:Stream read failed''"

text \<open>The five Greek letters of the last test, two bytes each.\<close>

definition greek :: "nat \<Rightarrow> string" where
  "greek n = concat (take n [[CHR 0xCE, CHR 0xB1], [CHR 0xCE, CHR 0xB2], [CHR 0xCE, CHR 0xB3], [CHR 0xCE, CHR 0xB4], [CHR 0xCE, CHR 0xB5]])"

definition truncate_chars_respects_utf8_boundaries :: bool where
  "truncate_chars_respects_utf8_boundaries \<longleftrightarrow>
     truncate_chars (greek 5) 3 = greek 3 \<and> truncate_chars (greek 5) 10 = greek 5"

lemma truncate_short: "length s \<le> n \<Longrightarrow> truncate_chars s n = s"
  using length_filter_le [of "\<lambda>i. \<not> is_cont (s ! i)" "[0..<length s]"] by (simp add: truncate_chars_def char_starts_def)

lemma truncate_single_bytes:
  assumes "list_all (\<lambda>c. \<not> is_cont c) s"
  shows "truncate_chars s n = take n s"
proof -
  have "char_starts s = [0..<length s]"
    using assms by (simp add: char_starts_def filter_id_conv list_all_length)
  then show ?thesis by (simp add: truncate_chars_def)
qed

lemma event_key_tests:
  "event_key_prefers_culprit" "event_key_exception_ignores_value" "event_key_exception_type_still_discriminates_across_error_types"
  "event_key_message_discriminates_on_static_prefix" "event_key_falls_back_to_logentry_message"
  by (simp_all add: event_key_prefers_culprit_def event_key_exception_ignores_value_def event_key_exception_type_still_discriminates_across_error_types_def
      event_key_message_discriminates_on_static_prefix_def event_key_falls_back_to_logentry_message_def
      event_key_def logged_def event_default_def truncate_short MESSAGE_KEY_CAP_def)

lemma utf8_test: "truncate_chars_respects_utf8_boundaries"
  by code_simp

lemma capped_test: "event_key_message_is_length_capped"
proof -
  have *: "truncate_chars (replicate 74 (CHR ''x'') @ t) 64 = replicate 64 (CHR ''x'')"
    if "list_all (\<lambda>c. \<not> is_cont c) t" for t
    using that by (subst truncate_single_bytes) (auto simp: list_all_iff is_cont_def)
  have "list_all (\<lambda>c. \<not> is_cont c) ''_tail_abc123''" "list_all (\<lambda>c. \<not> is_cont c) ''_tail_xyz789''"
    by (simp_all add: is_cont_def)
  from * [OF this(1)] * [OF this(2)] show ?thesis
    by (simp add: event_key_message_is_length_capped_def event_key_def logged_def event_default_def Let_def MESSAGE_KEY_CAP_def
        del: append_Cons)
qed

end
