(* ===== verification/Server_Auth.thy ===== *)
theory Server_Auth
  imports Acp_Prelude
begin

text \<open>
  Token claims and the authenticator of the broker (\<^verbatim>\<open>server/src/auth.rs\<close>).
  The \<^verbatim>\<open>Authenticator\<close> trait is the locale \<open>authenticator\<close>; its one
  implementation, \<^verbatim>\<open>StaticJwtAuthenticator\<close>, is modelled over the two functions of
  the JWT library it calls, which are the fields of \<open>jwt_lib\<close>.

  Timestamps are 64-bit signed integers read with \<^const>\<open>sint\<close>; the addition of a
  lifetime to the clock wraps, as it does in the release profile.
\<close>

type_synonym i64 = "64 word"

record claims =
  sub :: uuid
  role :: string
  user :: "uuid option"
  exp :: i64
  iss :: string

definition ROLE_ADMIN :: string where "ROLE_ADMIN = ''admin''"

definition ROLE_AGENT :: string where "ROLE_AGENT = ''agent''"

definition claims_admin :: "i64 \<Rightarrow> uuid \<Rightarrow> i64 \<Rightarrow> string \<Rightarrow> claims" where
  "claims_admin now s ttl_secs issuer =
     \<lparr>sub = s, role = ROLE_ADMIN, user = None, exp = now + ttl_secs, iss = issuer\<rparr>"

definition claims_agent :: "i64 \<Rightarrow> uuid \<Rightarrow> uuid option \<Rightarrow> i64 \<Rightarrow> string \<Rightarrow> claims" where
  "claims_agent now agent_id u ttl_secs issuer =
     \<lparr>sub = agent_id, role = ROLE_AGENT, user = u, exp = now + ttl_secs, iss = issuer\<rparr>"

definition is_admin :: "claims \<Rightarrow> bool" where
  "is_admin c \<longleftrightarrow> role c = ROLE_ADMIN"

definition is_agent :: "claims \<Rightarrow> bool" where
  "is_agent c \<longleftrightarrow> role c = ROLE_AGENT"

datatype auth_error = Invalid string

text \<open>
  The JWT library: \<open>jwt_decode key issuer token\<close> checks signature, expiry and issuer,
  \<open>jwt_encode key claims\<close> signs.
\<close>

record 'je jwt_lib =
  jwt_decode :: "string \<Rightarrow> string \<Rightarrow> string \<Rightarrow> (claims, 'je) result"
  jwt_encode :: "string \<Rightarrow> claims \<Rightarrow> (string, 'je) result"
  jwt_err_string :: "'je \<Rightarrow> string"

record static_jwt_authenticator =
  signing_key :: string
  auth_issuer :: string

definition static_validate ::
    "'je jwt_lib \<Rightarrow> static_jwt_authenticator \<Rightarrow> string \<Rightarrow> (claims, auth_error) result" where
  "static_validate J a token =
     (case jwt_decode J (signing_key a) (auth_issuer a) token of
        Err e \<Rightarrow> Err (Invalid (jwt_err_string J e))
      | Ok c \<Rightarrow>
          if role c = ROLE_ADMIN \<or> role c = ROLE_AGENT then Ok c
          else Err (Invalid (''invalid role: '' @ role c)))"

definition static_mint ::
    "'je jwt_lib \<Rightarrow> static_jwt_authenticator \<Rightarrow> claims \<Rightarrow> (string, auth_error) result" where
  "static_mint J a c =
     res_map_err (\<lambda>e. Invalid (jwt_err_string J e)) (jwt_encode J (signing_key a) c)"

text \<open>
  What the library documents, at the time \<open>now\<close>: a token signed under a key decodes under
  that key to the signed claims when the issuer matches and the expiry, with the default
  leeway of 60 seconds, is not past; under another key, another issuer or after expiry
  decoding fails.
\<close>

definition jwt_roundtrip :: "'je jwt_lib \<Rightarrow> i64 \<Rightarrow> bool" where
  "jwt_roundtrip J now \<longleftrightarrow>
     (\<forall>k c t i. jwt_encode J k c = Ok t \<longrightarrow> iss c = i \<longrightarrow> sint now \<le> sint (exp c) + 60
        \<longrightarrow> jwt_decode J k i t = Ok c)"

definition jwt_rejects :: "'je jwt_lib \<Rightarrow> i64 \<Rightarrow> bool" where
  "jwt_rejects J now \<longleftrightarrow>
     (\<forall>k k' c t i. jwt_encode J k c = Ok t
        \<longrightarrow> k' \<noteq> k \<or> iss c \<noteq> i \<or> sint (exp c) + 60 < sint now
        \<longrightarrow> \<not> is_ok (jwt_decode J k' i t))"

subsection \<open>The interface\<close>

locale authenticator =
  fixes validate :: "string \<Rightarrow> (claims, auth_error) result"
    and mint :: "claims \<Rightarrow> (string, auth_error) result"
    and issuer :: string
  assumes validate_role: "validate t = Ok c \<Longrightarrow> role c = ROLE_ADMIN \<or> role c = ROLE_AGENT"
begin

lemma validated_admin_or_agent: "validate t = Ok c \<Longrightarrow> is_admin c \<or> is_agent c"
  using validate_role by (auto simp: is_admin_def is_agent_def)

lemma validated_not_agent: "validate t = Ok c \<Longrightarrow> \<not> is_agent c \<Longrightarrow> is_admin c"
  using validated_admin_or_agent by blast

end

lemma admin_not_agent [simp]: "is_admin c \<Longrightarrow> \<not> is_agent c"
  by (simp add: is_admin_def is_agent_def ROLE_ADMIN_def ROLE_AGENT_def)

lemma claims_agent_sel [simp]:
  "sub (claims_agent now a u t i) = a" "user (claims_agent now a u t i) = u"
  "iss (claims_agent now a u t i) = i" "exp (claims_agent now a u t i) = now + t"
  "is_agent (claims_agent now a u t i)"
  by (simp_all add: claims_agent_def is_agent_def)

lemma claims_admin_sel [simp]:
  "sub (claims_admin now a t i) = a" "iss (claims_admin now a t i) = i"
  "exp (claims_admin now a t i) = now + t" "is_admin (claims_admin now a t i)"
  by (simp_all add: claims_admin_def is_admin_def)

interpretation sj: authenticator "static_validate J a" "static_mint J a" "auth_issuer a" for J a
  by unfold_locales (auto simp: static_validate_def split: result.splits if_splits)

lemma static_validate_Ok:
  "static_validate J a t = Ok c \<longleftrightarrow>
     jwt_decode J (signing_key a) (auth_issuer a) t = Ok c \<and> (is_admin c \<or> is_agent c)"
  by (auto simp: static_validate_def is_admin_def is_agent_def split: result.splits)

lemma static_mint_Ok:
  "static_mint J a c = Ok t \<longleftrightarrow> jwt_encode J (signing_key a) c = Ok t"
  by (simp add: static_mint_def)

text \<open>Lifetimes: without wrap-around a positive lifetime puts the expiry after the clock.\<close>

lemma sint_add_no_overflow:
  fixes a b :: i64
  assumes "sint a + sint b < 2 ^ 63" and "0 \<le> sint a" and "0 \<le> sint b"
  shows "sint (a + b) = sint a + sint b"
  using assms by (simp add: sint_word_ariths signed_take_bit_int_eq_self)

lemma int_mod_once: "m \<le> x \<Longrightarrow> x < 2 * m \<Longrightarrow> x mod m = x - (m::int)"
proof -
  assume "m \<le> x" "x < 2 * m"
  then have "(x - m) mod m = x - m" by (intro mod_pos_pos_trivial) auto
  then show ?thesis by simp
qed

lemma sint_add_overflow:
  fixes a b :: i64
  assumes "2 ^ 63 \<le> sint a + sint b"
  shows "sint (a + b) = sint a + sint b - 2 ^ 64"
proof -
  have "sint a < 2 ^ 63" "sint b < 2 ^ 63" using sint_lt [of a] sint_lt [of b] by simp_all
  with assms int_mod_once [of "2 ^ 64" "sint a + sint b + 2 ^ 63"] show ?thesis
    by (simp add: sint_word_ariths signed_take_bit_eq_take_bit_shift take_bit_eq_mod)
qed

subsection \<open>Properties\<close>


definition demo_jwt :: "unit jwt_lib" where
  "demo_jwt =
     \<lparr>jwt_decode = (\<lambda>k i t. if k = ''k'' \<and> i = ''overacp'' \<and> t = ''tok''
        then Ok (claims_agent 1000 7 None 60 ''overacp'') else Err ()),
      jwt_encode = (\<lambda>k c. if k = ''k'' \<and> c = claims_agent 1000 7 None 60 ''overacp''
        then Ok ''tok''
        else if k = ''k'' \<and> c = claims_agent 1000 7 None (2 ^ 63 - 1) ''overacp'' then Ok ''old''
        else Err ()),
      jwt_err_string = (\<lambda>_. ''jwt'')\<rparr>"

lemma demo_jwt_laws: "jwt_roundtrip demo_jwt 1000" "jwt_rejects demo_jwt 1000"
  by (auto simp: jwt_roundtrip_def jwt_rejects_def demo_jwt_def split: if_splits)


end
