(* ===== verification/Dispatch.thy ===== *)
theory Dispatch
  imports Server_Auth
begin

text \<open>
  The operator hooks (\<^verbatim>\<open>server/src/hooks/\<close>) and the JSON-RPC dispatch of frames that
  an agent sends up its tunnel (\<^verbatim>\<open>server/src/tunnel/dispatch.rs\<close>).

  A hook is a parameter: the operator supplies it, and it may change the operator's own state
  \<open>'h\<close>. The JSON parser and printer are parameters too (\<open>serde\<close>): a parse
  either fails or gives a value.
\<close>

subsection \<open>Hooks\<close>

datatype boot_error = BootNotFound string | BootInternal string

datatype tool_error = ToolNotFound string | ToolDenied string | ToolExecution string | ToolInternal string

datatype quota_error = QuotaInternal string

fun boot_error_string :: "boot_error \<Rightarrow> string" where
  "boot_error_string (BootNotFound s) = ''no boot state for agent '' @ s"
| "boot_error_string (BootInternal s) = ''boot provider failed: '' @ s"

fun tool_error_string :: "tool_error \<Rightarrow> string" where
  "tool_error_string (ToolNotFound s) = ''tool not found: '' @ s"
| "tool_error_string (ToolDenied s) = ''tool denied: '' @ s"
| "tool_error_string (ToolExecution s) = ''tool execution failed: '' @ s"
| "tool_error_string (ToolInternal s) = ''tool host failed: '' @ s"

fun quota_error_string :: "quota_error \<Rightarrow> string" where
  "quota_error_string (QuotaInternal s) = ''quota policy failed: '' @ s"

record 'h hooks =
  boot_initialize :: "claims \<Rightarrow> 'h \<Rightarrow> (json, boot_error) result \<times> 'h"
  tool_list :: "claims \<Rightarrow> 'h \<Rightarrow> (json, tool_error) result \<times> 'h"
  tool_call :: "claims \<Rightarrow> json \<Rightarrow> 'h \<Rightarrow> (json, tool_error) result \<times> 'h"
  quota_check :: "claims \<Rightarrow> 'h \<Rightarrow> (bool, quota_error) result \<times> 'h"
  quota_record :: "claims \<Rightarrow> json \<Rightarrow> 'h \<Rightarrow> (unit, quota_error) result \<times> 'h"

definition default_boot :: "claims \<Rightarrow> 'h \<Rightarrow> (json, boot_error) result \<times> 'h" where
  "default_boot c h =
     (Ok (JObject [(''system_prompt'', JString ''''), (''messages'', JArray []),
        (''tools_config'', JObject [])]), h)"

definition default_tool_list :: "claims \<Rightarrow> 'h \<Rightarrow> (json, tool_error) result \<times> 'h" where
  "default_tool_list c h = (Ok (JObject [(''tools'', JArray [])]), h)"

definition default_tool_call :: "claims \<Rightarrow> json \<Rightarrow> 'h \<Rightarrow> (json, tool_error) result \<times> 'h" where
  "default_tool_call c req h =
     (Err (ToolNotFound (unwrap_or ''<unknown>'' (Option.bind (json_get ''name'' req) as_str))), h)"

definition default_quota_check :: "claims \<Rightarrow> 'h \<Rightarrow> (bool, quota_error) result \<times> 'h" where
  "default_quota_check c h = (Ok True, h)"

definition default_quota_record :: "claims \<Rightarrow> json \<Rightarrow> 'h \<Rightarrow> (unit, quota_error) result \<times> 'h" where
  "default_quota_record c usage h = (Ok (), h)"

definition default_hooks :: "'h hooks" where
  "default_hooks =
     \<lparr>boot_initialize = default_boot, tool_list = default_tool_list, tool_call = default_tool_call,
      quota_check = default_quota_check, quota_record = default_quota_record\<rparr>"

subsection \<open>Errors and responses\<close>

type_synonym rpc_error = "int \<times> string"

definition CODE_NOT_FOUND :: int where "CODE_NOT_FOUND = 1404"

definition CODE_INTERNAL :: int where "CODE_INTERNAL = 1500"

definition CODE_EXECUTION_FAILED :: int where "CODE_EXECUTION_FAILED = 1502"

definition CODE_DENIED :: int where "CODE_DENIED = 1603"

definition boot_err :: "boot_error \<Rightarrow> rpc_error" where
  "boot_err e =
     (case e of BootNotFound _ \<Rightarrow> (CODE_NOT_FOUND, boot_error_string e)
      | BootInternal _ \<Rightarrow> (CODE_INTERNAL, boot_error_string e))"

definition tool_err :: "tool_error \<Rightarrow> rpc_error" where
  "tool_err e =
     (case e of ToolNotFound _ \<Rightarrow> (CODE_NOT_FOUND, tool_error_string e)
      | ToolDenied _ \<Rightarrow> (CODE_DENIED, tool_error_string e)
      | ToolExecution _ \<Rightarrow> (CODE_EXECUTION_FAILED, tool_error_string e)
      | ToolInternal _ \<Rightarrow> (CODE_INTERNAL, tool_error_string e))"

definition quota_err :: "quota_error \<Rightarrow> rpc_error" where
  "quota_err e = (case e of QuotaInternal _ \<Rightarrow> (CODE_INTERNAL, quota_error_string e))"

definition json_int :: "int \<Rightarrow> json" where
  "json_int i = JNumber (if 0 \<le> i then PosInt (of_int i) else NegInt i)"

definition response_value :: "json \<Rightarrow> (json, rpc_error) result \<Rightarrow> json" where
  "response_value i r =
     (case r of
        Ok v \<Rightarrow> JObject [(''jsonrpc'', JString ''2.0''), (''id'', i), (''result'', v)]
      | Err (code, msg) \<Rightarrow> JObject [(''jsonrpc'', JString ''2.0''), (''id'', i),
          (''error'', JObject [(''code'', json_int code), (''message'', JString msg)])])"

definition jsonrpc_response :: "serde \<Rightarrow> json \<Rightarrow> (json, rpc_error) result \<Rightarrow> string" where
  "jsonrpc_response S i r = print_json S (response_value i r)"

subsection \<open>Request handlers\<close>

definition handle_initialize :: "'h hooks \<Rightarrow> claims \<Rightarrow> 'h \<Rightarrow> (json, rpc_error) result \<times> 'h" where
  "handle_initialize H c h = apfst (res_map_err boot_err) (boot_initialize H c h)"

definition handle_tools_list :: "'h hooks \<Rightarrow> claims \<Rightarrow> 'h \<Rightarrow> (json, rpc_error) result \<times> 'h" where
  "handle_tools_list H c h = apfst (res_map_err tool_err) (tool_list H c h)"

definition handle_tools_call ::
    "'h hooks \<Rightarrow> claims \<Rightarrow> json \<Rightarrow> 'h \<Rightarrow> (json, rpc_error) result \<times> 'h" where
  "handle_tools_call H c params h = apfst (res_map_err tool_err) (tool_call H c params h)"

definition handle_quota_check :: "'h hooks \<Rightarrow> claims \<Rightarrow> 'h \<Rightarrow> (json, rpc_error) result \<times> 'h" where
  "handle_quota_check H c h =
     apfst (\<lambda>r. res_map_err quota_err (res_map (\<lambda>b. JObject [(''allowed'', JBool b)]) r))
       (quota_check H c h)"

definition handle_quota_update ::
    "'h hooks \<Rightarrow> claims \<Rightarrow> json \<Rightarrow> 'h \<Rightarrow> (json, rpc_error) result \<times> 'h" where
  "handle_quota_update H c params h =
     apfst (\<lambda>r. res_map_err quota_err (res_map (\<lambda>_. JObject []) r)) (quota_record H c params h)"

definition notification_methods :: "string list" where
  "notification_methods =
     [''stream/textDelta'', ''stream/activity'', ''stream/toolCall'', ''stream/toolResult'',
      ''turn/end'', ''context/compacted'', ''heartbeat'']"

text \<open>
  \<open>answer\<close> is the shared shape of the request arms: \<^verbatim>\<open>id?\<close> comes first, so a
  frame without an id returns before the hook runs.
\<close>

definition answer ::
    "serde \<Rightarrow> json option \<Rightarrow> ('h \<Rightarrow> (json, rpc_error) result \<times> 'h) \<Rightarrow> 'h
      \<Rightarrow> string option \<times> 'h" where
  "answer S i f h =
     (case i of None \<Rightarrow> (None, h)
      | Some v \<Rightarrow> (case f h of (r, h') \<Rightarrow> (Some (jsonrpc_response S v r), h')))"

definition handle_message ::
    "serde \<Rightarrow> 'h hooks \<Rightarrow> claims \<Rightarrow> string \<Rightarrow> 'h \<Rightarrow> string option \<times> 'h" where
  "handle_message S H c frame h =
     (case parse_json S frame of
        None \<Rightarrow> (None, h)
      | Some parsed \<Rightarrow>
        (case Option.bind (json_get ''method'' parsed) as_str of
           None \<Rightarrow> (None, h)
         | Some m \<Rightarrow>
           (let i = json_get ''id'' parsed;
                params = unwrap_or JNull (json_get ''params'' parsed)
            in if m = ''initialize'' then answer S i (handle_initialize H c) h
               else if m = ''tools/list'' then answer S i (handle_tools_list H c) h
               else if m = ''tools/call'' then answer S i (handle_tools_call H c params) h
               else if m = ''quota/check'' then answer S i (handle_quota_check H c) h
               else if m = ''quota/update'' then answer S i (handle_quota_update H c params) h
               else if m \<in> set notification_methods then (None, h)
               else (map_option (\<lambda>v. jsonrpc_response S v
                       (Err (-32601, ''method not found: '' @ m))) i, h))))"

subsection \<open>Lemmas\<close>

definition request_methods :: "string list" where
  "request_methods = [''initialize'', ''tools/list'', ''tools/call'', ''quota/check'', ''quota/update'']"

lemma request_not_notification: "m \<in> set request_methods \<Longrightarrow> m \<notin> set notification_methods"
  by (auto simp: request_methods_def notification_methods_def)

lemma answer_None [simp]: "answer S None f h = (None, h)"
  by (simp add: answer_def)

lemma answer_Some [simp]:
  "answer S (Some v) f h = (Some (jsonrpc_response S v (fst (f h))), snd (f h))"
  by (simp add: answer_def split: prod.splits)

lemma response_value_id: "json_get ''id'' (response_value i r) = Some i"
  by (auto simp: response_value_def split: result.splits)

lemma response_value_kind:
  "json_get ''result'' (response_value i r) = (case r of Ok v \<Rightarrow> Some v | Err _ \<Rightarrow> None)"
  "json_get ''error'' (response_value i r) =
     (case r of Ok v \<Rightarrow> None
      | Err (code, msg) \<Rightarrow> Some (JObject [(''code'', json_int code), (''message'', JString msg)]))"
  by (auto simp: response_value_def split: result.splits)

lemma handle_message_not_json: "parse_json S frame = None \<Longrightarrow> handle_message S H c frame h = (None, h)"
  by (simp add: handle_message_def)

lemma handle_message_no_method:
  "parse_json S frame = Some v \<Longrightarrow> Option.bind (json_get ''method'' v) as_str = None
    \<Longrightarrow> handle_message S H c frame h = (None, h)"
  by (simp add: handle_message_def)

text \<open>Which hook a method reaches, and with which parameters.\<close>

definition hook_for ::
    "'h hooks \<Rightarrow> claims \<Rightarrow> string \<Rightarrow> json \<Rightarrow> ('h \<Rightarrow> (json, rpc_error) result \<times> 'h) option" where
  "hook_for H c m params =
     map_of [(''initialize'', handle_initialize H c), (''tools/list'', handle_tools_list H c),
       (''tools/call'', handle_tools_call H c params), (''quota/check'', handle_quota_check H c),
       (''quota/update'', handle_quota_update H c params)] m"

lemma handle_message_cases:
  assumes "parse_json S frame = Some v" and "json_get ''method'' v = Some (JString m)"
  shows "handle_message S H c frame h =
     (case json_get ''id'' v of
        None \<Rightarrow> (None, h)
      | Some i \<Rightarrow>
        (case hook_for H c m (unwrap_or JNull (json_get ''params'' v)) of
           Some f \<Rightarrow> (Some (jsonrpc_response S i (fst (f h))), snd (f h))
         | None \<Rightarrow> if m \<in> set notification_methods then (None, h)
             else (Some (jsonrpc_response S i (Err (-32601, ''method not found: '' @ m))), h)))"
  using assms
  by (auto simp: handle_message_def hook_for_def notification_methods_def split: option.splits)

lemma hook_for_not_notification: "m \<in> set notification_methods \<Longrightarrow> hook_for H c m p = None"
  by (auto simp: hook_for_def notification_methods_def)

lemma handle_message_shape:
  "(\<exists>v m i. parse_json S frame = Some v \<and> json_get ''method'' v = Some (JString m)
      \<and> json_get ''id'' v = Some i \<and> m \<notin> set notification_methods)
    \<or> handle_message S H c frame h = (None, h)"
proof (cases "Option.bind (parse_json S frame) (\<lambda>v. Option.bind (json_get ''method'' v) as_str)")
  case None
  then show ?thesis
    by (cases "parse_json S frame") (auto simp: handle_message_not_json handle_message_no_method)
next
  case (Some m)
  then obtain v where v: "parse_json S frame = Some v" "json_get ''method'' v = Some (JString m)"
    by (auto simp: bind_eq_Some_conv as_str_eq_Some)
  show ?thesis
    by (cases "json_get ''id'' v"; cases "m \<in> set notification_methods")
      (auto simp: v handle_message_cases [OF v] hook_for_not_notification split: option.splits)
qed

subsection \<open>Properties\<close>

text \<open>
  C24: the dispatcher answers exactly the well-formed requests. A frame gets a response if and
  only if it is JSON with a string method and an id and the method is not one of the
  notifications; the response is built from the id of the request and the result of the hook
  the method names, run once on the operator's state, or from the error -32601 when no hook has
  that name.
\<close>

theorem response_iff_request:
  "handle_message S H c frame h = (Some resp, h') \<longleftrightarrow>
     (\<exists>v m i r. parse_json S frame = Some v \<and> json_get ''method'' v = Some (JString m)
        \<and> json_get ''id'' v = Some i \<and> m \<notin> set notification_methods
        \<and> (r, h') = (case hook_for H c m (unwrap_or JNull (json_get ''params'' v)) of
             Some f \<Rightarrow> f h
           | None \<Rightarrow> (Err (-32601, ''method not found: '' @ m), h))
        \<and> resp = print_json S (response_value i r))"
  (is "?L \<longleftrightarrow> ?R")
proof
  assume l: ?L
  with handle_message_shape [of S frame H c h] obtain v m i where
    v: "parse_json S frame = Some v" "json_get ''method'' v = Some (JString m)"
      "json_get ''id'' v = Some i" "m \<notin> set notification_methods"
    by auto
  let ?k = "hook_for H c m (unwrap_or JNull (json_get ''params'' v))"
  have "(case ?k of Some f \<Rightarrow> f h | None \<Rightarrow> (Err (-32601, ''method not found: '' @ m), h))
      = (fst (case ?k of Some f \<Rightarrow> f h | None \<Rightarrow> (Err (-32601, ''method not found: '' @ m), h)), h')"
    using l v by (auto simp: handle_message_cases [OF v(1,2)] prod_eq_iff split: option.splits)
  moreover have "resp = print_json S (response_value i
      (fst (case ?k of Some f \<Rightarrow> f h | None \<Rightarrow> (Err (-32601, ''method not found: '' @ m), h))))"
    using l v by (auto simp: handle_message_cases [OF v(1,2)] jsonrpc_response_def split: option.splits)
  ultimately show ?R using v by metis
next
  assume ?R
  then obtain v m i r where
    v: "parse_json S frame = Some v" "json_get ''method'' v = Some (JString m)"
      "json_get ''id'' v = Some i" "m \<notin> set notification_methods"
    and r: "(r, h') = (case hook_for H c m (unwrap_or JNull (json_get ''params'' v)) of
             Some f \<Rightarrow> f h | None \<Rightarrow> (Err (-32601, ''method not found: '' @ m), h))"
    and p: "resp = print_json S (response_value i r)"
    by auto
  then show ?L
    by (cases "hook_for H c m (unwrap_or JNull (json_get ''params'' v))")
      (auto simp: handle_message_cases [OF v(1,2)] jsonrpc_response_def prod_eq_iff)
qed

text \<open>
  A frame that gets no response changes nothing the operator owns: malformed text, a frame
  with no method or no id, and every notification leave the hook state as it was.
\<close>

theorem silent_frame_runs_no_hook:
  "fst (handle_message S H c frame h) = None \<Longrightarrow> snd (handle_message S H c frame h) = h"
proof -
  assume n: "fst (handle_message S H c frame h) = None"
  from handle_message_shape [of S frame H c h] show ?thesis
  proof (elim disjE exE conjE)
    fix v m i
    assume v: "parse_json S frame = Some v" "json_get ''method'' v = Some (JString m)"
      and "json_get ''id'' v = Some i"
    with n show ?thesis by (auto simp: handle_message_cases [OF v] split: option.splits if_splits)
  qed simp
qed

text \<open>
  A witness: the heartbeat notification, with an id that the dispatcher ignores, before hooks
  whose state is a counter.
\<close>

definition heartbeat_frame :: json where
  "heartbeat_frame = JObject [(''jsonrpc'', JString ''2.0''), (''id'', json_int 1),
     (''method'', JString ''heartbeat'')]"

definition demo_serde :: serde where
  "demo_serde = \<lparr>parse_json = (\<lambda>s. if s = ''H'' then Some heartbeat_frame else None),
     print_json = (\<lambda>_. [])\<rparr>"

lemma silent_frame_runs_no_hook_witness:
  "fst (handle_message demo_serde default_hooks (claims_agent 0 (7 :: uuid) None 60 ''i'') ''H'' (3::nat)) = None
   \<and> snd (handle_message demo_serde default_hooks (claims_agent 0 (7 :: uuid) None 60 ''i'') ''H'' (3::nat)) = 3"
proof -
  have "fst (handle_message demo_serde default_hooks (claims_agent 0 (7 :: uuid) None 60 ''i'') ''H'' (3::nat)) = None"
    by (simp add: handle_message_def demo_serde_def heartbeat_frame_def notification_methods_def)
  with silent_frame_runs_no_hook [OF this] show ?thesis by simp
qed

end
