(* ===== verification/Tests_Dispatch.thy ===== *)
theory Tests_Dispatch
  imports Dispatch Tests_Prelude
begin

text \<open>
  The unit tests of the dispatcher and of the default hooks (\<^verbatim>\<open>server/src/tunnel/dispatch.rs\<close>,
  \<^verbatim>\<open>server/src/hooks/\<close>), run on the model. A test is a definition with the name of the test in the
  source, over what the test makes up: the claims, the state of the hooks and the JSON library, of
  which it is assumed that it reads back what it prints. The lemmas show that every test passes
  whatever these are, so the model agrees with the code where the code's own tests look.
\<close>

subsection \<open>Values and frames of the tests\<close>

definition rpc_request :: "string \<Rightarrow> (string \<times> json) list \<Rightarrow> json" where
  "rpc_request m extra = JObject ([(''jsonrpc'', JString ''2.0''), (''id'', json_int 1), (''method'', JString m)] @ extra)"

definition rpc_notification :: "string \<Rightarrow> json \<Rightarrow> json" where
  "rpc_notification m params = JObject [(''jsonrpc'', JString ''2.0''), (''method'', JString m), (''params'', params)]"

definition tool_named :: "string \<Rightarrow> (string \<times> json) list" where
  "tool_named n = [(''params'', JObject [(''name'', JString n)])]"

text \<open>The response to a frame, parsed, and what the tests read of an error.\<close>

definition reply_to :: "serde \<Rightarrow> 'h hooks \<Rightarrow> claims \<Rightarrow> json \<Rightarrow> 'h \<Rightarrow> json option" where
  "reply_to S H c v h = Option.bind (fst (handle_message S H c (print_json S v) h)) (parse_json S)"

definition error_code :: "json option \<Rightarrow> json option" where "error_code v = json_at [''error'', ''code''] v"

definition error_mentions :: "json option \<Rightarrow> string \<Rightarrow> bool" where
  "error_mentions v s = (case Option.bind (json_at [''error'', ''message''] v) as_str of None \<Rightarrow> False | Some m \<Rightarrow> str_contains m s)"

text \<open>What every test shares: a frame that is printed is dispatched by its method, and its answer reads back.\<close>

lemma plain_int [simp]: "plain_json (json_int n)"
  by (simp add: json_int_def)

lemma reply_request:
  assumes "reads_back S" and "list_all (\<lambda>(k, v). plain_json v) extra" and "map_of extra ''method'' = None" and "map_of extra ''id'' = None"
    and "m \<notin> set notification_methods"
  shows "reply_to S H c (rpc_request m extra) h =
    (let params = unwrap_or JNull (map_of extra ''params'');
         r = (if m = ''initialize'' then fst (handle_initialize H c h)
              else if m = ''tools/list'' then fst (handle_tools_list H c h)
              else if m = ''tools/call'' then fst (handle_tools_call H c params h)
              else if m = ''quota/check'' then fst (handle_quota_check H c h)
              else if m = ''quota/update'' then fst (handle_quota_update H c params h)
              else Err (-32601, ''method not found: '' @ m))
     in parse_json S (print_json S (response_value (json_int 1) r)))"
proof -
  have "parse_json S (print_json S (rpc_request m extra)) = Some (rpc_request m extra)"
    using assms(1,2) by (simp add: reads_back_plain rpc_request_def)
  then show ?thesis
    using assms(5) by (simp add: reply_to_def handle_message_def jsonrpc_response_def rpc_request_def Let_def)
qed

lemma reply_notification:
  assumes "reads_back S" and "plain_json params" and "m \<in> set notification_methods"
  shows "fst (handle_message S H c (print_json S (rpc_notification m params)) h) = None"
proof -
  have "parse_json S (print_json S (rpc_notification m params)) = Some (rpc_notification m params)"
    using assms(1,2) by (simp add: reads_back_plain rpc_notification_def)
  moreover have "m \<notin> {''initialize'', ''tools/list'', ''tools/call'', ''quota/check'', ''quota/update''}"
    using assms(3) by (auto simp: notification_methods_def)
  ultimately show ?thesis using assms(3) by (simp add: handle_message_def rpc_notification_def Let_def)
qed

lemma response_plain:
  "plain_json i \<Longrightarrow> (case r of Ok v \<Rightarrow> plain_json v | Err _ \<Rightarrow> True) \<Longrightarrow> plain_json (response_value i r)"
  by (auto simp: response_value_def split: result.splits)

lemma response_parts:
  "json_get ''result'' (response_value i (Ok v)) = Some v"
  "error_code (Some (response_value i (Err (code, msg)))) = Some (json_int code)"
  "error_mentions (Some (response_value i (Err (code, msg)))) s = str_contains msg s"
  by (simp_all add: response_value_def error_code_def error_mentions_def)

subsection \<open>Framing\<close>

definition jsonrpc_response_success :: "serde \<Rightarrow> bool" where
  "jsonrpc_response_success S \<longleftrightarrow>
     (let parsed = parse_json S (jsonrpc_response S (json_int 1) (Ok (JObject [(''hello'', JString ''world'')])))
      in json_at [''id''] parsed = Some (json_int 1) \<and> json_at [''result'', ''hello''] parsed = Some (JString ''world'')
         \<and> json_at [''error''] parsed = None)"

definition jsonrpc_response_error :: "serde \<Rightarrow> bool" where
  "jsonrpc_response_error S \<longleftrightarrow>
     (let parsed = parse_json S (jsonrpc_response S (json_int 2) (Err (-32601, ''not found'')))
      in json_at [''id''] parsed = Some (json_int 2) \<and> json_at [''error'', ''code''] parsed = Some (json_int (-32601))
         \<and> json_at [''error'', ''message''] parsed = Some (JString ''not found''))"

lemma framing_tests:
  assumes "reads_back S"
  shows "jsonrpc_response_success S" "jsonrpc_response_error S"
  using assms
  by (simp_all add: jsonrpc_response_success_def jsonrpc_response_error_def jsonrpc_response_def reads_back_plain response_value_def)

subsection \<open>The default hooks\<close>

definition unknown_method_returns_method_not_found :: "serde \<Rightarrow> claims \<Rightarrow> 'h \<Rightarrow> bool" where
  "unknown_method_returns_method_not_found S c h \<longleftrightarrow>
     error_code (reply_to S default_hooks c (rpc_request ''nope'' []) h) = Some (json_int (-32601))"

definition initialize_delegates_to_boot_provider :: "serde \<Rightarrow> claims \<Rightarrow> 'h \<Rightarrow> bool" where
  "initialize_delegates_to_boot_provider S c h \<longleftrightarrow>
     (let parsed = reply_to S default_hooks c (rpc_request ''initialize'' []) h
      in json_at [''result'', ''system_prompt''] parsed = Some (JString []) \<and> json_at [''result'', ''messages''] parsed = Some (JArray []))"

definition tools_list_delegates_to_tool_host :: "serde \<Rightarrow> claims \<Rightarrow> 'h \<Rightarrow> bool" where
  "tools_list_delegates_to_tool_host S c h \<longleftrightarrow>
     json_at [''result'', ''tools''] (reply_to S default_hooks c (rpc_request ''tools/list'' []) h) = Some (JArray [])"

definition tools_call_default_returns_not_found :: "serde \<Rightarrow> claims \<Rightarrow> 'h \<Rightarrow> bool" where
  "tools_call_default_returns_not_found S c h \<longleftrightarrow>
     (let parsed = reply_to S default_hooks c (rpc_request ''tools/call'' (tool_named ''echo'')) h
      in error_code parsed = Some (json_int 1404) \<and> error_mentions parsed ''echo'')"

definition quota_check_default_allows :: "serde \<Rightarrow> claims \<Rightarrow> 'h \<Rightarrow> bool" where
  "quota_check_default_allows S c h \<longleftrightarrow>
     json_at [''result'', ''allowed''] (reply_to S default_hooks c (rpc_request ''quota/check'' []) h) = Some (JBool True)"

definition quota_update_default_returns_empty_object :: "serde \<Rightarrow> claims \<Rightarrow> 'h \<Rightarrow> bool" where
  "quota_update_default_returns_empty_object S c h \<longleftrightarrow>
     json_at [''result''] (reply_to S default_hooks c
       (rpc_request ''quota/update'' [(''params'', JObject [(''input_tokens'', json_int 10)])]) h) = Some (JObject [])"

definition turn_save_is_unknown_method :: "serde \<Rightarrow> claims \<Rightarrow> 'h \<Rightarrow> bool" where
  "turn_save_is_unknown_method S c h \<longleftrightarrow>
     error_code (reply_to S default_hooks c (rpc_request ''turn/save'' []) h) = Some (json_int (-32601))"

definition poll_new_messages_is_unknown_method :: "serde \<Rightarrow> claims \<Rightarrow> 'h \<Rightarrow> bool" where
  "poll_new_messages_is_unknown_method S c h \<longleftrightarrow>
     error_code (reply_to S default_hooks c (rpc_request ''poll/newMessages'' []) h) = Some (json_int (-32601))"

definition session_cancel_from_agent_is_method_not_found :: "serde \<Rightarrow> claims \<Rightarrow> 'h \<Rightarrow> bool" where
  "session_cancel_from_agent_is_method_not_found S c h \<longleftrightarrow>
     error_code (reply_to S default_hooks c (rpc_request ''session/cancel'' []) h) = Some (json_int (-32601))"

definition session_message_from_agent_is_method_not_found :: "serde \<Rightarrow> claims \<Rightarrow> 'h \<Rightarrow> bool" where
  "session_message_from_agent_is_method_not_found S c h \<longleftrightarrow>
     error_code (reply_to S default_hooks c (rpc_request ''session/message'' []) h) = Some (json_int (-32601))"

lemmas request_tests = reply_request response_plain response_parts reads_back_plain notification_methods_def tool_named_def
  handle_initialize_def handle_tools_list_def handle_tools_call_def handle_quota_check_def handle_quota_update_def
  default_hooks_def default_boot_def default_tool_list_def default_tool_call_def default_quota_check_def default_quota_record_def
  boot_err_def tool_err_def quota_err_def CODE_NOT_FOUND_def CODE_INTERNAL_def CODE_EXECUTION_FAILED_def CODE_DENIED_def

lemma default_hook_tests:
  assumes "reads_back S"
  shows "unknown_method_returns_method_not_found S c h" "initialize_delegates_to_boot_provider S c h"
    "tools_list_delegates_to_tool_host S c h" "tools_call_default_returns_not_found S c h" "quota_check_default_allows S c h"
    "quota_update_default_returns_empty_object S c h" "turn_save_is_unknown_method S c h" "poll_new_messages_is_unknown_method S c h"
    "session_cancel_from_agent_is_method_not_found S c h" "session_message_from_agent_is_method_not_found S c h"
  using assms
  by (simp_all add: request_tests unknown_method_returns_method_not_found_def initialize_delegates_to_boot_provider_def
      tools_list_delegates_to_tool_host_def tools_call_default_returns_not_found_def quota_check_default_allows_def
      quota_update_default_returns_empty_object_def turn_save_is_unknown_method_def poll_new_messages_is_unknown_method_def
      session_cancel_from_agent_is_method_not_found_def session_message_from_agent_is_method_not_found_def starts_with_def)

subsection \<open>Notifications and frames that are no message\<close>

definition turn_end_is_a_notification :: "serde \<Rightarrow> claims \<Rightarrow> 'h \<Rightarrow> bool" where
  "turn_end_is_a_notification S c h \<longleftrightarrow>
     fst (handle_message S default_hooks c (print_json S (rpc_notification ''turn/end''
       (JObject [(''usage'', JObject [(''input_tokens'', json_int 100), (''output_tokens'', json_int 50)])]))) h) = None"

definition context_compacted_is_a_notification :: "serde \<Rightarrow> claims \<Rightarrow> 'h \<Rightarrow> bool" where
  "context_compacted_is_a_notification S c h \<longleftrightarrow>
     fst (handle_message S default_hooks c (print_json S (rpc_notification ''context/compacted''
       (JObject [(''summary'', JString ''test''), (''messages'', JArray []),
          (''usage'', JObject [(''input_tokens'', json_int 0), (''output_tokens'', json_int 0)])]))) h) = None"

definition heartbeat_is_a_notification :: "serde \<Rightarrow> claims \<Rightarrow> 'h \<Rightarrow> bool" where
  "heartbeat_is_a_notification S c h \<longleftrightarrow>
     fst (handle_message S default_hooks c
       (print_json S (JObject [(''jsonrpc'', JString ''2.0''), (''method'', JString ''heartbeat'')])) h) = None"

definition invalid_json_returns_none :: "serde \<Rightarrow> claims \<Rightarrow> 'h \<Rightarrow> bool" where
  "invalid_json_returns_none S c h \<longleftrightarrow> fst (handle_message S default_hooks c ''not json'' h) = None"

definition missing_method_returns_none :: "serde \<Rightarrow> claims \<Rightarrow> 'h \<Rightarrow> bool" where
  "missing_method_returns_none S c h \<longleftrightarrow>
     fst (handle_message S default_hooks c (print_json S (JObject [(''jsonrpc'', JString ''2.0''), (''id'', json_int 1)])) h) = None"

lemma notification_tests:
  assumes "reads_back S"
  shows "turn_end_is_a_notification S c h" "context_compacted_is_a_notification S c h"
  using assms
  by (simp_all add: turn_end_is_a_notification_def context_compacted_is_a_notification_def reply_notification notification_methods_def)

lemma bare_frame_tests:
  assumes "reads_back S"
  shows "heartbeat_is_a_notification S c h" "missing_method_returns_none S c h"
  using assms
  by (simp_all add: heartbeat_is_a_notification_def missing_method_returns_none_def reads_back_plain handle_message_def
      notification_methods_def)

lemma no_json_test: "parse_json S ''not json'' = None \<Longrightarrow> invalid_json_returns_none S c h"
  by (simp add: invalid_json_returns_none_def handle_message_def)

subsection \<open>Hooks of an operator\<close>

text \<open>The hooks of the tests; the state of the counting one is the number of its calls.\<close>

definition counting_boot :: "claims \<Rightarrow> nat \<Rightarrow> (json, boot_error) result \<times> nat" where
  "counting_boot c calls = (Ok (JObject [(''system_prompt'', JString ''operator'')]), calls + 1)"

definition flaky_tools_list :: "claims \<Rightarrow> 'h \<Rightarrow> (json, tool_error) result \<times> 'h" where
  "flaky_tools_list c h = (Ok (JObject [(''tools'', JArray [JObject [(''name'', JString ''fail'')]])]), h)"

definition flaky_tools_call :: "claims \<Rightarrow> json \<Rightarrow> 'h \<Rightarrow> (json, tool_error) result \<times> 'h" where
  "flaky_tools_call c req h = (Err (ToolExecution ''network down''), h)"

definition forbidden_tools_list :: "claims \<Rightarrow> 'h \<Rightarrow> (json, tool_error) result \<times> 'h" where
  "forbidden_tools_list c h = (Ok (JObject [(''tools'', JArray [])]), h)"

definition forbidden_tools_call :: "claims \<Rightarrow> json \<Rightarrow> 'h \<Rightarrow> (json, tool_error) result \<times> 'h" where
  "forbidden_tools_call c req h = (Err (ToolDenied ''not authorised''), h)"

definition missing_boot :: "(uuid \<Rightarrow> string) \<Rightarrow> claims \<Rightarrow> 'h \<Rightarrow> (json, boot_error) result \<times> 'h" where
  "missing_boot U c h = (Err (BootNotFound (U (sub c))), h)"

definition broken_boot :: "claims \<Rightarrow> 'h \<Rightarrow> (json, boot_error) result \<times> 'h" where
  "broken_boot c h = (Err (BootInternal ''boot db down''), h)"

definition broken_tools_list :: "claims \<Rightarrow> 'h \<Rightarrow> (json, tool_error) result \<times> 'h" where
  "broken_tools_list c h = (Err (ToolInternal ''tool db down''), h)"

definition broken_tools_call :: "claims \<Rightarrow> json \<Rightarrow> 'h \<Rightarrow> (json, tool_error) result \<times> 'h" where
  "broken_tools_call c req h = (Err (ToolInternal ''tool db down''), h)"

definition deny_all_check :: "claims \<Rightarrow> 'h \<Rightarrow> (bool, quota_error) result \<times> 'h" where
  "deny_all_check c h = (Ok False, h)"

definition deny_all_record :: "claims \<Rightarrow> json \<Rightarrow> 'h \<Rightarrow> (unit, quota_error) result \<times> 'h" where
  "deny_all_record c usage h = (Err (QuotaInternal ''recording disabled''), h)"

abbreviation flaky_hooks :: "'h hooks" where "flaky_hooks \<equiv> default_hooks\<lparr>tool_list := flaky_tools_list, tool_call := flaky_tools_call\<rparr>"
abbreviation forbidden_hooks :: "'h hooks" where
  "forbidden_hooks \<equiv> default_hooks\<lparr>tool_list := forbidden_tools_list, tool_call := forbidden_tools_call\<rparr>"
abbreviation broken_hooks :: "'h hooks" where "broken_hooks \<equiv> default_hooks\<lparr>tool_list := broken_tools_list, tool_call := broken_tools_call\<rparr>"
abbreviation denying_hooks :: "'h hooks" where "denying_hooks \<equiv> default_hooks\<lparr>quota_check := deny_all_check, quota_record := deny_all_record\<rparr>"

definition initialize_uses_operator_boot_provider :: "serde \<Rightarrow> claims \<Rightarrow> bool" where
  "initialize_uses_operator_boot_provider S c \<longleftrightarrow>
     (let H = default_hooks\<lparr>boot_initialize := counting_boot\<rparr>
      in json_at [''result'', ''system_prompt''] (reply_to S H c (rpc_request ''initialize'' []) 0) = Some (JString ''operator'')
         \<and> snd (handle_message S H c (print_json S (rpc_request ''initialize'' [])) 0) = 1)"

definition tools_call_propagates_execution_error_as_1502 :: "serde \<Rightarrow> claims \<Rightarrow> 'h \<Rightarrow> bool" where
  "tools_call_propagates_execution_error_as_1502 S c h \<longleftrightarrow>
     (let parsed = reply_to S flaky_hooks c (rpc_request ''tools/call'' (tool_named ''fail'')) h
      in error_code parsed = Some (json_int 1502) \<and> error_mentions parsed ''network down'')"

definition flaky_tools_list_returns_the_stub_entry :: "serde \<Rightarrow> claims \<Rightarrow> 'h \<Rightarrow> bool" where
  "flaky_tools_list_returns_the_stub_entry S c h \<longleftrightarrow>
     (case Option.bind (json_at [''result'', ''tools''] (reply_to S flaky_hooks c (rpc_request ''tools/list'' []) h)) as_array of
        Some (t # _) \<Rightarrow> json_get ''name'' t = Some (JString ''fail'') | _ \<Rightarrow> False)"

definition forbidden_tools_list_returns_empty :: "serde \<Rightarrow> claims \<Rightarrow> 'h \<Rightarrow> bool" where
  "forbidden_tools_list_returns_empty S c h \<longleftrightarrow>
     json_at [''result'', ''tools''] (reply_to S forbidden_hooks c (rpc_request ''tools/list'' []) h) = Some (JArray [])"

definition broken_tools_call_internal_error_maps_to_1500 :: "serde \<Rightarrow> claims \<Rightarrow> 'h \<Rightarrow> bool" where
  "broken_tools_call_internal_error_maps_to_1500 S c h \<longleftrightarrow>
     error_code (reply_to S broken_hooks c (rpc_request ''tools/call'' (tool_named ''x'')) h) = Some (json_int 1500)"

definition quota_check_can_refuse :: "serde \<Rightarrow> claims \<Rightarrow> 'h \<Rightarrow> bool" where
  "quota_check_can_refuse S c h \<longleftrightarrow>
     json_at [''result'', ''allowed''] (reply_to S denying_hooks c (rpc_request ''quota/check'' []) h) = Some (JBool False)"

definition tools_call_denied_maps_to_1603 :: "serde \<Rightarrow> claims \<Rightarrow> 'h \<Rightarrow> bool" where
  "tools_call_denied_maps_to_1603 S c h \<longleftrightarrow>
     (let parsed = reply_to S forbidden_hooks c (rpc_request ''tools/call'' (tool_named ''x'')) h
      in error_code parsed = Some (json_int 1603) \<and> error_mentions parsed ''not authorised'')"

definition initialize_not_found_maps_to_1404 :: "serde \<Rightarrow> (uuid \<Rightarrow> string) \<Rightarrow> claims \<Rightarrow> 'h \<Rightarrow> bool" where
  "initialize_not_found_maps_to_1404 S U c h \<longleftrightarrow>
     (let parsed = reply_to S (default_hooks\<lparr>boot_initialize := missing_boot U\<rparr>) c (rpc_request ''initialize'' []) h
      in error_code parsed = Some (json_int 1404) \<and> error_mentions parsed (U (sub c)))"

definition initialize_internal_error_maps_to_1500 :: "serde \<Rightarrow> claims \<Rightarrow> 'h \<Rightarrow> bool" where
  "initialize_internal_error_maps_to_1500 S c h \<longleftrightarrow>
     (let parsed = reply_to S (default_hooks\<lparr>boot_initialize := broken_boot\<rparr>) c (rpc_request ''initialize'' []) h
      in error_code parsed = Some (json_int 1500) \<and> error_mentions parsed ''boot db down'')"

definition tools_list_internal_error_maps_to_1500 :: "serde \<Rightarrow> claims \<Rightarrow> 'h \<Rightarrow> bool" where
  "tools_list_internal_error_maps_to_1500 S c h \<longleftrightarrow>
     (let parsed = reply_to S broken_hooks c (rpc_request ''tools/list'' []) h
      in error_code parsed = Some (json_int 1500) \<and> error_mentions parsed ''tool db down'')"

definition quota_update_propagates_internal_error_as_1500 :: "serde \<Rightarrow> claims \<Rightarrow> 'h \<Rightarrow> bool" where
  "quota_update_propagates_internal_error_as_1500 S c h \<longleftrightarrow>
     (let parsed = reply_to S denying_hooks c (rpc_request ''quota/update'' []) h
      in error_code parsed = Some (json_int 1500) \<and> error_mentions parsed ''recording disabled'')"

lemmas operator_hooks = counting_boot_def flaky_tools_list_def flaky_tools_call_def forbidden_tools_list_def forbidden_tools_call_def
  missing_boot_def broken_boot_def broken_tools_list_def broken_tools_call_def deny_all_check_def deny_all_record_def

lemma contains_append: "str_contains (xs @ ys) ys"
  by (simp add: str_contains_sublist)

lemma operator_hook_tests:
  assumes "reads_back S"
  shows "tools_call_propagates_execution_error_as_1502 S c h" "flaky_tools_list_returns_the_stub_entry S c h"
    "forbidden_tools_list_returns_empty S c h" "broken_tools_call_internal_error_maps_to_1500 S c h"
    "quota_check_can_refuse S c h" "tools_call_denied_maps_to_1603 S c h" "initialize_not_found_maps_to_1404 S U c h"
    "initialize_internal_error_maps_to_1500 S c h" "tools_list_internal_error_maps_to_1500 S c h"
    "quota_update_propagates_internal_error_as_1500 S c h"
  using assms
  by (simp_all add: request_tests operator_hooks tools_call_propagates_execution_error_as_1502_def
      flaky_tools_list_returns_the_stub_entry_def forbidden_tools_list_returns_empty_def broken_tools_call_internal_error_maps_to_1500_def
      quota_check_can_refuse_def tools_call_denied_maps_to_1603_def initialize_not_found_maps_to_1404_def
      initialize_internal_error_maps_to_1500_def tools_list_internal_error_maps_to_1500_def
      quota_update_propagates_internal_error_as_1500_def starts_with_def
      str_contains_sublist sublist_appendI sublist_Cons_right sublist_append_rightI)

lemma counting_test:
  assumes "reads_back S"
  shows "initialize_uses_operator_boot_provider S c"
proof -
  have "parse_json S (print_json S (rpc_request ''initialize'' [])) = Some (rpc_request ''initialize'' [])"
    using assms by (simp add: reads_back_plain rpc_request_def)
  with assms show ?thesis
    by (simp add: initialize_uses_operator_boot_provider_def request_tests operator_hooks Let_def)
      (simp add: handle_message_def rpc_request_def handle_initialize_def counting_boot_def Let_def)
qed

subsection \<open>The tests of the hooks themselves\<close>

definition default_returns_empty_bootstrap :: "claims \<Rightarrow> 'h \<Rightarrow> bool" where
  "default_returns_empty_bootstrap c h \<longleftrightarrow>
     (case fst (default_boot c h) of
        Ok v \<Rightarrow> json_at [''system_prompt''] (Some v) = Some (JString []) \<and> json_at [''messages''] (Some v) = Some (JArray [])
          \<and> json_at [''tools_config''] (Some v) = Some (JObject [])
      | Err _ \<Rightarrow> False)"

definition default_ignores_user_field :: "i64 \<Rightarrow> uuid \<Rightarrow> uuid \<Rightarrow> uuid \<Rightarrow> 'h \<Rightarrow> bool" where
  "default_ignores_user_field ts a b u h \<longleftrightarrow>
     fst (default_boot (claims_agent ts a (Some u) 60 ''test'') h) = fst (default_boot (claims_agent ts b None 60 ''test'') h)"

definition check_always_allows :: "claims \<Rightarrow> 'h \<Rightarrow> bool" where "check_always_allows c h \<longleftrightarrow> fst (default_quota_check c h) = Ok True"

definition record_is_a_noop :: "claims \<Rightarrow> 'h \<Rightarrow> bool" where
  "record_is_a_noop c h \<longleftrightarrow> default_quota_record c (JObject [(''input_tokens'', json_int 100)]) h = (Ok (), h)"

definition list_is_empty :: "claims \<Rightarrow> 'h \<Rightarrow> bool" where
  "list_is_empty c h \<longleftrightarrow> fst (default_tool_list c h) = Ok (JObject [(''tools'', JArray [])])"

definition call_returns_not_found_with_tool_name :: "claims \<Rightarrow> 'h \<Rightarrow> bool" where
  "call_returns_not_found_with_tool_name c h \<longleftrightarrow>
     fst (default_tool_call c (JObject [(''name'', JString ''echo''), (''arguments'', JObject [])]) h) = Err (ToolNotFound ''echo'')"

definition call_handles_missing_name :: "claims \<Rightarrow> 'h \<Rightarrow> bool" where
  "call_handles_missing_name c h \<longleftrightarrow> fst (default_tool_call c (JObject []) h) = Err (ToolNotFound ''<unknown>'')"

lemma hook_tests:
  "default_returns_empty_bootstrap c h" "default_ignores_user_field ts a b u h" "check_always_allows c h" "record_is_a_noop c h"
  "list_is_empty c h" "call_returns_not_found_with_tool_name c h" "call_handles_missing_name c h"
  by (simp_all add: default_returns_empty_bootstrap_def default_ignores_user_field_def check_always_allows_def record_is_a_noop_def
      list_is_empty_def call_returns_not_found_with_tool_name_def call_handles_missing_name_def default_boot_def default_quota_check_def
      default_quota_record_def default_tool_list_def default_tool_call_def)

end
