(* ===== verification/Message_Queue.thy ===== *)
theory Message_Queue
  imports Acp_Prelude
begin

text \<open>
  The bounded per-agent buffer for \<^verbatim>\<open>session/message\<close> frames
  (\<^verbatim>\<open>server/src/registry/queue.rs\<close>). The trait \<^verbatim>\<open>MessageQueueProvider\<close>
  is the locale \<open>message_queue\<close>: its laws relate every operation to the list of frames
  buffered for each agent, and its client lemmas compare a run of operations with a plain
  bounded FIFO. \<^verbatim>\<open>InMemoryMessageQueue\<close> is the implementation.
\<close>

datatype queue_error = Full uuid nat

record in_memory_message_queue =
  queue_inner :: "uuid \<rightharpoonup> string list"
  per_agent_capacity :: nat

definition DEFAULT_PER_AGENT_CAPACITY :: nat where
  "DEFAULT_PER_AGENT_CAPACITY = 64"

definition queue_new :: "nat \<Rightarrow> in_memory_message_queue" where
  "queue_new cap = \<lparr>queue_inner = Map.empty, per_agent_capacity = cap\<rparr>"

definition queue_default :: in_memory_message_queue where
  "queue_default = queue_new DEFAULT_PER_AGENT_CAPACITY"

text \<open>\<open>push\<close> creates the slot before it looks at its length, so a refused push leaves one behind.\<close>

definition queue_push ::
    "in_memory_message_queue \<Rightarrow> uuid \<Rightarrow> string
      \<Rightarrow> (unit, queue_error) result \<times> in_memory_message_queue" where
  "queue_push q agent_id frame =
     (let slot = (case queue_inner q agent_id of None \<Rightarrow> [] | Some s \<Rightarrow> s);
          q1 = q\<lparr>queue_inner := (queue_inner q)(agent_id \<mapsto> slot)\<rparr>
      in if per_agent_capacity q \<le> length slot
         then (Err (Full agent_id (per_agent_capacity q)), q1)
         else (Ok (), q1\<lparr>queue_inner := (queue_inner q1)(agent_id \<mapsto> slot @ [frame])\<rparr>))"

text \<open>The loop that pops the removed slot from the front into the result vector.\<close>

fun pop_all :: "string list \<Rightarrow> string list \<Rightarrow> string list" where
  "pop_all out [] = out"
| "pop_all out (frame # rest) = pop_all (out @ [frame]) rest"

definition queue_drain ::
    "in_memory_message_queue \<Rightarrow> uuid \<Rightarrow> string list \<times> in_memory_message_queue" where
  "queue_drain q agent_id =
     (case queue_inner q agent_id of
        None \<Rightarrow> ([], q)
      | Some slot \<Rightarrow> (pop_all [] slot, q\<lparr>queue_inner := (queue_inner q)(agent_id := None)\<rparr>))"

definition queue_len :: "in_memory_message_queue \<Rightarrow> uuid \<Rightarrow> nat" where
  "queue_len q agent_id = (case queue_inner q agent_id of None \<Rightarrow> 0 | Some slot \<Rightarrow> length slot)"

definition queue_is_empty :: "in_memory_message_queue \<Rightarrow> uuid \<Rightarrow> bool" where
  "queue_is_empty q agent_id \<longleftrightarrow> queue_len q agent_id = 0"

definition queue_capacity :: "in_memory_message_queue \<Rightarrow> nat" where
  "queue_capacity q = per_agent_capacity q"

text \<open>The frames an observer can still receive for an agent.\<close>

definition queue_frames :: "in_memory_message_queue \<Rightarrow> uuid \<Rightarrow> string list" where
  "queue_frames q a = (case queue_inner q a of None \<Rightarrow> [] | Some slot \<Rightarrow> slot)"

definition queue_bounded :: "in_memory_message_queue \<Rightarrow> bool" where
  "queue_bounded q \<longleftrightarrow> (\<forall>a. length (queue_frames q a) \<le> per_agent_capacity q)"

subsection \<open>The abstract bounded FIFO\<close>

datatype queue_op = Push uuid string | Drain uuid

datatype queue_reply = Pushed | Refused | Drained "string list"

type_synonym buffers = "uuid \<Rightarrow> string list"

fun fifo_step :: "nat \<Rightarrow> buffers \<Rightarrow> queue_op \<Rightarrow> queue_reply \<times> buffers" where
  "fifo_step cap b (Push a f) =
     (if length (b a) < cap then (Pushed, b(a := b a @ [f])) else (Refused, b))"
| "fifo_step cap b (Drain a) = (Drained (b a), b(a := []))"

fun fifo_run :: "nat \<Rightarrow> buffers \<Rightarrow> queue_op list \<Rightarrow> queue_reply list \<times> buffers" where
  "fifo_run cap b [] = ([], b)"
| "fifo_run cap b (x # xs) =
     (let (r, b1) = fifo_step cap b x; (rs, b2) = fifo_run cap b1 xs in (r # rs, b2))"

subsection \<open>Running operations through an implementation\<close>

fun op_step ::
    "('q \<Rightarrow> uuid \<Rightarrow> string \<Rightarrow> (unit, queue_error) result \<times> 'q)
      \<Rightarrow> ('q \<Rightarrow> uuid \<Rightarrow> string list \<times> 'q) \<Rightarrow> 'q \<Rightarrow> queue_op \<Rightarrow> queue_reply \<times> 'q" where
  "op_step push drain q (Push a f) =
     (case push q a f of (Ok _, q1) \<Rightarrow> (Pushed, q1) | (Err _, q1) \<Rightarrow> (Refused, q1))"
| "op_step push drain q (Drain a) = (case drain q a of (fs, q1) \<Rightarrow> (Drained fs, q1))"

fun op_run ::
    "('q \<Rightarrow> uuid \<Rightarrow> string \<Rightarrow> (unit, queue_error) result \<times> 'q)
      \<Rightarrow> ('q \<Rightarrow> uuid \<Rightarrow> string list \<times> 'q) \<Rightarrow> 'q \<Rightarrow> queue_op list
      \<Rightarrow> queue_reply list \<times> 'q" where
  "op_run push drain q [] = ([], q)"
| "op_run push drain q (x # xs) =
     (let (r, q1) = op_step push drain q x; (rs, q2) = op_run push drain q1 xs
      in (r # rs, q2))"

subsection \<open>The interface\<close>

locale message_queue =
  fixes push :: "'q \<Rightarrow> uuid \<Rightarrow> string \<Rightarrow> (unit, queue_error) result \<times> 'q"
    and drain :: "'q \<Rightarrow> uuid \<Rightarrow> string list \<times> 'q"
    and len :: "'q \<Rightarrow> uuid \<Rightarrow> nat"
    and is_empty :: "'q \<Rightarrow> uuid \<Rightarrow> bool"
    and capacity :: "'q \<Rightarrow> nat"
    and frames :: "'q \<Rightarrow> buffers"
  assumes push_room: "length (frames q a) < capacity q \<Longrightarrow>
      fst (push q a f) = Ok () \<and> frames (snd (push q a f)) = (frames q)(a := frames q a @ [f])"
    and push_full: "capacity q \<le> length (frames q a) \<Longrightarrow>
      fst (push q a f) = Err (Full a (capacity q)) \<and> frames (snd (push q a f)) = frames q"
    and drain_frames: "fst (drain q a) = frames q a"
    and drain_clears: "frames (snd (drain q a)) = (frames q)(a := [])"
    and len_frames: "len q a = length (frames q a)"
    and is_empty_frames: "is_empty q a \<longleftrightarrow> frames q a = []"
    and capacity_push: "capacity (snd (push q a f)) = capacity q"
    and capacity_drain: "capacity (snd (drain q a)) = capacity q"
begin

lemma push_cases:
  obtains (accepted) q1 where "push q a f = (Ok (), q1)" "length (frames q a) < capacity q"
      "frames q1 = (frames q)(a := frames q a @ [f])" "capacity q1 = capacity q"
  | (refused) q1 where "push q a f = (Err (Full a (capacity q)), q1)"
      "capacity q \<le> length (frames q a)" "frames q1 = frames q" "capacity q1 = capacity q"
proof (cases "length (frames q a) < capacity q")
  case True
  with push_room [OF True, of f] capacity_push [of q a f] accepted show ?thesis
    by (cases "push q a f") auto
next
  case False
  then have "capacity q \<le> length (frames q a)" by simp
  with push_full [OF this, of f] capacity_push [of q a f] refused show ?thesis
    by (cases "push q a f") auto
qed

lemma step_refines:
  "fifo_step (capacity q) (frames q) x =
     (fst (op_step push drain q x), frames (snd (op_step push drain q x)))
   \<and> capacity (snd (op_step push drain q x)) = capacity q"
proof (cases x)
  case (Push a f)
  show ?thesis unfolding Push by (cases rule: push_cases [of q a f]) auto
next
  case (Drain a)
  show ?thesis unfolding Drain
    using drain_frames [of q a] drain_clears [of q a] capacity_drain [of q a]
    by (cases "drain q a") auto
qed

lemma run_refines:
  "fifo_run (capacity q) (frames q) xs =
     (fst (op_run push drain q xs), frames (snd (op_run push drain q xs)))"
proof (induction xs arbitrary: q)
  case (Cons x xs)
  obtain r q1 where s: "op_step push drain q x = (r, q1)" by fastforce
  with step_refines [of q x] have "fifo_step (capacity q) (frames q) x = (r, frames q1)"
    and "capacity q1 = capacity q" by auto
  with s Cons.IH [of q1] show ?case by (auto simp: Let_def split: prod.splits)
qed simp

end

subsection \<open>The in-memory implementation\<close>

lemma pop_all_append [simp]: "pop_all out slot = out @ slot"
  by (induction slot arbitrary: out) auto

interpretation mq: message_queue queue_push queue_drain queue_len queue_is_empty queue_capacity
    queue_frames
  by unfold_locales
    (auto simp: queue_push_def queue_drain_def queue_len_def queue_is_empty_def
       queue_capacity_def queue_frames_def Let_def fun_eq_iff split: option.splits)

lemma fifo_run_append:
  "fifo_run cap b (xs @ ys) =
     (let (rs, b1) = fifo_run cap b xs; (rs2, b2) = fifo_run cap b1 ys in (rs @ rs2, b2))"
  by (induction xs arbitrary: b) (auto simp: Let_def split: prod.splits)

lemma fifo_step_bounded:
  "\<forall>a. length (b a) \<le> cap \<Longrightarrow> \<forall>a. length (snd (fifo_step cap b x) a) \<le> cap"
  by (cases x) auto

lemma fifo_run_bounded:
  "\<forall>a. length (b a) \<le> cap \<Longrightarrow> \<forall>a. length (snd (fifo_run cap b xs) a) \<le> cap"
proof (induction xs arbitrary: b)
  case (Cons x xs)
  from fifo_step_bounded [OF Cons.prems] Cons.IH [of "snd (fifo_step cap b x)"] show ?case
    by (simp add: Let_def split_beta)
qed simp

lemma fifo_run_pushes:
  "length (b a) + length fs \<le> cap \<Longrightarrow>
     fifo_run cap b (map (Push a) fs) = (replicate (length fs) Pushed, b(a := b a @ fs))"
proof (induction fs arbitrary: b)
  case (Cons f fs)
  then have "fifo_run cap (b(a := b a @ [f])) (map (Push a) fs) =
      (replicate (length fs) Pushed, b(a := b a @ f # fs))"
    by (subst Cons.IH) (simp_all add: fun_eq_iff)
  with Cons.prems show ?case by (simp add: fun_eq_iff)
qed simp

lemma queue_new_frames [simp]: "queue_frames (queue_new cap) = (\<lambda>_. [])"
  "queue_capacity (queue_new cap) = cap" "per_agent_capacity (queue_new cap) = cap"
  by (simp_all add: queue_frames_def queue_new_def queue_capacity_def fun_eq_iff)

lemma op_run_capacity:
  "per_agent_capacity (snd (op_run queue_push queue_drain q xs)) = per_agent_capacity q"
proof (induction xs arbitrary: q)
  case (Cons x xs)
  from mq.step_refines [of q x] Cons.IH [of "snd (op_step queue_push queue_drain q x)"]
  show ?case by (simp add: Let_def queue_capacity_def split_beta)
qed simp

subsection \<open>Properties\<close>

text \<open>
  C1: every run of pushes and drains against the in-memory queue gives exactly the replies of
  a plain bounded FIFO per agent, and leaves exactly its buffers: frames come out in the
  order of the accepted pushes, a refused push changes nothing an observer can see, and
  agents do not influence each other.
\<close>

theorem queue_refines_fifo:
  "op_run queue_push queue_drain q xs = (rs, q') \<Longrightarrow>
     fifo_run (per_agent_capacity q) (queue_frames q) xs = (rs, queue_frames q')"
  using mq.run_refines [of q xs] by (simp add: queue_capacity_def)

theorem queue_refines_fifo_witness:
  "fifo_run 1 (\<lambda>_. []) [Push 1 ''a'', Push 1 ''b'', Push 2 ''c'', Drain 1] =
     ([Pushed, Refused, Pushed, Drained [''a'']],
      queue_frames (snd (op_run queue_push queue_drain (queue_new 1)
        [Push 1 ''a'', Push 1 ''b'', Push 2 ''c'', Drain 1])))"
proof -
  let ?xs = "[Push 1 ''a'', Push 1 ''b'', Push 2 ''c'', Drain 1]"
  have "op_run queue_push queue_drain (queue_new 1) ?xs =
      ([Pushed, Refused, Pushed, Drained [''a'']],
       snd (op_run queue_push queue_drain (queue_new 1) ?xs))"
    by (simp add: queue_push_def queue_drain_def queue_new_def)
  from queue_refines_fifo [OF this] show ?thesis
    by (simp only: queue_new_frames)
qed

text \<open>
  No run of operations ever makes an agent's buffer longer than the configured capacity,
  starting from a fresh queue.
\<close>

theorem queue_never_exceeds_capacity:
  "queue_bounded (snd (op_run queue_push queue_drain (queue_new cap) xs))"
proof -
  let ?q = "snd (op_run queue_push queue_drain (queue_new cap) xs)"
  have "queue_frames ?q = snd (fifo_run cap (queue_frames (queue_new cap)) xs)"
    using mq.run_refines [of "queue_new cap" xs] by simp
  moreover have "per_agent_capacity ?q = cap"
    by (simp add: op_run_capacity)
  ultimately show ?thesis
    using fifo_run_bounded [of "queue_frames (queue_new cap)" cap xs]
    by (simp add: queue_bounded_def)
qed

end
