(* ===== verification/Channels.thy ===== *)
theory Channels
  imports Acp_Prelude
begin

text \<open>
  The unbounded channels that carry frames to a tunnel are those of the async runtime, so the
  components take the send operation as an argument: \<open>send tx frame w\<close> gives whether the
  send was accepted, and the new state of the channels. What the runtime documents is the
  predicate \<open>mpsc_laws\<close>: a send is accepted exactly while the receiving half is alive, an
  accepted frame is appended to what the receiver will read from that channel, a refused one
  changes nothing, and no send opens or closes a channel.
\<close>

type_synonym ('tx, 'w) sender = "'tx \<Rightarrow> string \<Rightarrow> 'w \<Rightarrow> bool \<times> 'w"

definition mpsc_laws ::
    "('tx, 'w) sender \<Rightarrow> ('w \<Rightarrow> 'tx \<Rightarrow> bool) \<Rightarrow> ('w \<Rightarrow> 'tx \<Rightarrow> string list) \<Rightarrow> bool" where
  "mpsc_laws send alive sent \<longleftrightarrow>
     (\<forall>tx f w. fst (send tx f w) = alive w tx
        \<and> alive (snd (send tx f w)) = alive w
        \<and> sent (snd (send tx f w)) = (if alive w tx then (sent w)(tx := sent w tx @ [f])
            else sent w))"

lemma mpsc_accept:
  assumes "mpsc_laws send alive sent" and "alive w tx"
  obtains w' where "send tx f w = (True, w')" "sent w' = (sent w)(tx := sent w tx @ [f])"
    "alive w' = alive w"
proof (cases "send tx f w")
  case (Pair b w')
  with assms that show thesis unfolding mpsc_laws_def by (metis (full_types) fst_conv snd_conv)
qed

lemma mpsc_refuse:
  assumes "mpsc_laws send alive sent" and "\<not> alive w tx"
  obtains w' where "send tx f w = (False, w')" "sent w' = sent w" "alive w' = alive w"
proof (cases "send tx f w")
  case (Pair b w')
  with assms that show thesis unfolding mpsc_laws_def by (metis (full_types) fst_conv snd_conv)
qed

text \<open>Sending a list of frames, ignoring the outcome of each send.\<close>

fun send_all :: "('tx, 'w) sender \<Rightarrow> 'tx \<Rightarrow> string list \<Rightarrow> 'w \<Rightarrow> 'w" where
  "send_all send tx [] w = w"
| "send_all send tx (f # fs) w = send_all send tx fs (snd (send tx f w))"

lemma send_all_alive:
  assumes "mpsc_laws send alive sent"
  shows "alive (send_all send tx fs w) = alive w"
  using assms by (induction fs arbitrary: w) (auto simp: mpsc_laws_def)

lemma send_all_sent:
  assumes "mpsc_laws send alive sent" and "alive w tx"
  shows "sent (send_all send tx fs w) = (sent w)(tx := sent w tx @ fs)"
  using assms
proof (induction fs arbitrary: w)
  case (Cons f fs)
  from mpsc_accept [OF Cons.prems, of f] obtain w' where
    w': "send tx f w = (True, w')" "sent w' = (sent w)(tx := sent w tx @ [f])" "alive w' = alive w" .
  with Cons.IH [of w'] Cons.prems show ?case by (simp add: fun_eq_iff)
qed simp

text \<open>A concrete world of channels: which receivers are alive, and what each will read.\<close>

type_synonym world = "(nat \<Rightarrow> bool) \<times> (nat \<Rightarrow> string list)"

definition world_send :: "(nat, world) sender" where
  "world_send tx f w =
     (if fst w tx then (True, (fst w, (snd w)(tx := snd w tx @ [f]))) else (False, w))"

definition world_init :: world where
  "world_init = ((\<lambda>_. True), (\<lambda>_. []))"

lemma world_laws: "mpsc_laws world_send fst snd"
  by (simp add: mpsc_laws_def world_send_def)

end
