(* ===== verification/Agent_Registry.thy ===== *)
theory Agent_Registry
  imports Server_Auth Channels
begin

text \<open>
  The routing table of connected agents (\<^verbatim>\<open>server/src/registry/agent.rs\<close>). The trait
  \<^verbatim>\<open>AgentRegistryProvider\<close> is the locale \<open>agent_registry\<close>, whose abstraction is the
  channel that frames for an agent are routed to; \<^verbatim>\<open>InMemoryAgentRegistry\<close>
  implements it with a table of entries and a bounded log of recent disconnections.

  Instants are natural numbers of nanoseconds. The concurrent map is an association list with
  distinct keys, since its entries are iterated; every operation on one of the two tables is
  atomic, and \<open>register\<close> and \<open>unregister\<close> are given as the two table
  operations they perform.
\<close>

definition RECENT_CAPACITY :: nat where "RECENT_CAPACITY = 64"

datatype delivery_outcome = Live | NoTunnel string

datatype registry_error = AcquireFailed uuid string

record 'tx agent_entry =
  tx :: 'tx
  entry_claims :: claims
  connected_at :: nat
  last_activity :: nat

record recent_entry =
  recent_agent :: uuid
  recent_user :: "uuid option"
  disconnected_at :: nat

record agent_description =
  desc_agent :: uuid
  desc_connected :: bool
  uptime_secs :: "nat option"
  idle_secs :: "nat option"
  desc_user :: "uuid option"

record 'tx in_memory_agent_registry =
  connected :: "(uuid \<times> 'tx agent_entry) list"
  recent :: "recent_entry list"

text \<open>The RAII guard holds the agent id its clean-up closure captured.\<close>

datatype tunnel_lease = TunnelLease uuid

definition entry_new :: "'tx \<Rightarrow> claims \<Rightarrow> nat \<Rightarrow> 'tx agent_entry" where
  "entry_new t c now = \<lparr>tx = t, entry_claims = c, connected_at = now, last_activity = now\<rparr>"

definition entry_touch :: "nat \<Rightarrow> 'tx agent_entry \<Rightarrow> 'tx agent_entry" where
  "entry_touch now e = e\<lparr>last_activity := now\<rparr>"

definition duration_secs :: "nat \<Rightarrow> nat \<Rightarrow> nat" where
  "duration_secs now t = (now - t) div 10 ^ 9"

definition from_connected :: "uuid \<Rightarrow> 'tx agent_entry \<Rightarrow> nat \<Rightarrow> agent_description" where
  "from_connected a e now =
     \<lparr>desc_agent = a, desc_connected = True, uptime_secs = Some (duration_secs now (connected_at e)),
      idle_secs = Some (duration_secs now (last_activity e)), desc_user = user (entry_claims e)\<rparr>"

definition from_recent :: "recent_entry \<Rightarrow> nat \<Rightarrow> agent_description" where
  "from_recent r now =
     \<lparr>desc_agent = recent_agent r, desc_connected = False, uptime_secs = None,
      idle_secs = Some (duration_secs now (disconnected_at r)), desc_user = recent_user r\<rparr>"

definition registry_new :: "'tx in_memory_agent_registry" where
  "registry_new = \<lparr>connected = [], recent = []\<rparr>"

definition push_recent ::
    "'tx in_memory_agent_registry \<Rightarrow> recent_entry \<Rightarrow> 'tx in_memory_agent_registry" where
  "push_recent reg e =
     (let kept = filter (\<lambda>r. recent_agent r \<noteq> recent_agent e) (recent reg);
          room = (if length kept = RECENT_CAPACITY then tl kept else kept)
      in reg\<lparr>recent := room @ [e]\<rparr>)"

definition purge_recent ::
    "'tx in_memory_agent_registry \<Rightarrow> uuid \<Rightarrow> 'tx in_memory_agent_registry" where
  "purge_recent reg a = reg\<lparr>recent := filter (\<lambda>r. recent_agent r \<noteq> a) (recent reg)\<rparr>"

definition register_insert ::
    "'tx in_memory_agent_registry \<Rightarrow> uuid \<Rightarrow> 'tx agent_entry \<Rightarrow> 'tx in_memory_agent_registry" where
  "register_insert reg a e = reg\<lparr>connected := AList.update a e (connected reg)\<rparr>"

definition register ::
    "'tx in_memory_agent_registry \<Rightarrow> uuid \<Rightarrow> 'tx agent_entry
      \<Rightarrow> 'tx agent_entry option \<times> 'tx in_memory_agent_registry" where
  "register reg a e = (map_of (connected reg) a, purge_recent (register_insert reg a e) a)"

definition registry_get :: "'tx in_memory_agent_registry \<Rightarrow> uuid \<Rightarrow> 'tx agent_entry option" where
  "registry_get reg a = map_of (connected reg) a"

definition registry_is_connected :: "'tx in_memory_agent_registry \<Rightarrow> uuid \<Rightarrow> bool" where
  "registry_is_connected reg a \<longleftrightarrow> a \<in> fst ` set (connected reg)"

definition unregister_remove ::
    "'tx in_memory_agent_registry \<Rightarrow> uuid \<Rightarrow> 'tx in_memory_agent_registry" where
  "unregister_remove reg a = reg\<lparr>connected := AList.delete a (connected reg)\<rparr>"

definition unregister ::
    "'tx in_memory_agent_registry \<Rightarrow> uuid \<Rightarrow> nat \<Rightarrow> 'tx in_memory_agent_registry" where
  "unregister reg a now =
     (case map_of (connected reg) a of
        None \<Rightarrow> reg
      | Some e \<Rightarrow> push_recent (unregister_remove reg a)
          \<lparr>recent_agent = a, recent_user = user (entry_claims e), disconnected_at = now\<rparr>)"

definition registry_list :: "'tx in_memory_agent_registry \<Rightarrow> nat \<Rightarrow> agent_description list" where
  "registry_list reg now =
     map (\<lambda>(a, e). from_connected a e now) (connected reg)
     @ map (\<lambda>r. from_recent r now)
         (filter (\<lambda>r. \<not> registry_is_connected reg (recent_agent r)) (recent reg))"

definition registry_describe ::
    "'tx in_memory_agent_registry \<Rightarrow> uuid \<Rightarrow> nat \<Rightarrow> agent_description option" where
  "registry_describe reg a now =
     (case registry_get reg a of
        Some e \<Rightarrow> Some (from_connected a e now)
      | None \<Rightarrow> map_option (\<lambda>r. from_recent r now)
          (find (\<lambda>r. recent_agent r = a) (recent reg)))"

definition registry_acquire ::
    "nat \<Rightarrow> 'tx in_memory_agent_registry \<Rightarrow> uuid \<Rightarrow> 'tx \<Rightarrow> claims
      \<Rightarrow> (tunnel_lease, registry_error) result \<times> 'tx in_memory_agent_registry" where
  "registry_acquire now reg a t c =
     (Ok (TunnelLease a), snd (register reg a (entry_new t c now)))"

text \<open>
  Dropping the guard runs the captured closure, which knows the agent id and not the tunnel it
  was issued for.
\<close>

fun lease_drop ::
    "nat \<Rightarrow> 'tx in_memory_agent_registry \<Rightarrow> tunnel_lease \<Rightarrow> 'tx in_memory_agent_registry" where
  "lease_drop now reg (TunnelLease a) = unregister reg a now"

definition registry_deliver ::
    "('tx, 'w) sender \<Rightarrow> 'tx in_memory_agent_registry \<Rightarrow> uuid \<Rightarrow> string \<Rightarrow> 'w
      \<Rightarrow> delivery_outcome \<times> 'w" where
  "registry_deliver send reg a frame w =
     (case registry_get reg a of
        None \<Rightarrow> (NoTunnel frame, w)
      | Some e \<Rightarrow> (case send (tx e) frame w of
            (True, w') \<Rightarrow> (Live, w')
          | (False, w') \<Rightarrow> (NoTunnel frame, w')))"

definition registry_disconnect ::
    "nat \<Rightarrow> 'tx in_memory_agent_registry \<Rightarrow> uuid \<Rightarrow> 'tx in_memory_agent_registry" where
  "registry_disconnect now reg a = unregister reg a now"

definition registry_touch ::
    "nat \<Rightarrow> 'tx in_memory_agent_registry \<Rightarrow> uuid \<Rightarrow> 'tx in_memory_agent_registry" where
  "registry_touch now reg a =
     (case registry_get reg a of
        None \<Rightarrow> reg
      | Some e \<Rightarrow> reg\<lparr>connected := AList.update a (entry_touch now e) (connected reg)\<rparr>)"

text \<open>The channel that frames for an agent are routed to.\<close>

definition registry_tunnel :: "'tx in_memory_agent_registry \<Rightarrow> uuid \<rightharpoonup> 'tx" where
  "registry_tunnel reg a = map_option tx (registry_get reg a)"

subsection \<open>Runs of operations\<close>

datatype 'tx registry_op =
    OpAcquire uuid 'tx claims
  | OpDropLease tunnel_lease
  | OpDisconnect uuid
  | OpTouch uuid

fun registry_step ::
    "'tx in_memory_agent_registry \<Rightarrow> nat \<times> 'tx registry_op \<Rightarrow> 'tx in_memory_agent_registry" where
  "registry_step reg (now, OpAcquire a t c) = snd (registry_acquire now reg a t c)"
| "registry_step reg (now, OpDropLease l) = lease_drop now reg l"
| "registry_step reg (now, OpDisconnect a) = registry_disconnect now reg a"
| "registry_step reg (now, OpTouch a) = registry_touch now reg a"

definition registry_run ::
    "(nat \<times> 'tx registry_op) list \<Rightarrow> 'tx in_memory_agent_registry" where
  "registry_run ops = foldl registry_step registry_new ops"

definition registry_inv :: "'tx in_memory_agent_registry \<Rightarrow> bool" where
  "registry_inv reg \<longleftrightarrow>
     distinct (map fst (connected reg)) \<and> distinct (map recent_agent (recent reg))
     \<and> length (recent reg) \<le> RECENT_CAPACITY
     \<and> fst ` set (connected reg) \<inter> recent_agent ` set (recent reg) = {}"

subsection \<open>The interface\<close>

locale agent_registry =
  fixes send :: "('tx, 'w) sender"
    and acquire :: "nat \<Rightarrow> 'r \<Rightarrow> uuid \<Rightarrow> 'tx \<Rightarrow> claims \<Rightarrow> ('l, registry_error) result \<times> 'r"
    and deliver :: "'r \<Rightarrow> uuid \<Rightarrow> string \<Rightarrow> 'w \<Rightarrow> delivery_outcome \<times> 'w"
    and is_connected :: "'r \<Rightarrow> uuid \<Rightarrow> bool"
    and disconnect :: "nat \<Rightarrow> 'r \<Rightarrow> uuid \<Rightarrow> 'r"
    and touch :: "nat \<Rightarrow> 'r \<Rightarrow> uuid \<Rightarrow> 'r"
    and tunnel :: "'r \<Rightarrow> uuid \<rightharpoonup> 'tx"
  assumes acquire_routes: "is_ok (fst (acquire now r a t c)) \<Longrightarrow>
      tunnel (snd (acquire now r a t c)) = (tunnel r)(a \<mapsto> t)"
    and deliver_absent: "tunnel r a = None \<Longrightarrow> deliver r a f w = (NoTunnel f, w)"
    and deliver_present: "tunnel r a = Some t \<Longrightarrow>
      deliver r a f w = (if fst (send t f w) then Live else NoTunnel f, snd (send t f w))"
    and connected_tunnel: "is_connected r a \<longleftrightarrow> tunnel r a \<noteq> None"
    and disconnect_routes: "tunnel (disconnect now r a) = (tunnel r)(a := None)"
    and touch_routes: "tunnel (touch now r a) = tunnel r"
begin

lemma deliver_returns_frame: "fst (deliver r a f w) = NoTunnel g \<Longrightarrow> g = f"
  by (cases "tunnel r a") (auto simp: deliver_absent deliver_present split: if_splits)

lemma deliver_live:
  assumes "mpsc_laws send alive sent" and "tunnel r a = Some t" and "alive w t"
  shows "fst (deliver r a f w) = Live
    \<and> sent (snd (deliver r a f w)) = (sent w)(t := sent w t @ [f])"
  using assms by (auto simp: deliver_present mpsc_laws_def)

lemma deliver_not_live:
  assumes "mpsc_laws send alive sent" and "\<forall>t. tunnel r a = Some t \<longrightarrow> \<not> alive w t"
  shows "fst (deliver r a f w) = NoTunnel f \<and> sent (snd (deliver r a f w)) = sent w"
  using assms by (cases "tunnel r a") (auto simp: deliver_absent deliver_present mpsc_laws_def)

lemma acquire_connects:
  "is_ok (fst (acquire now r a t c)) \<Longrightarrow> is_connected (snd (acquire now r a t c)) b
     \<longleftrightarrow> b = a \<or> is_connected r b"
  by (simp add: connected_tunnel acquire_routes)

lemma disconnect_disconnects:
  "is_connected (disconnect now r a) b \<longleftrightarrow> b \<noteq> a \<and> is_connected r b"
  by (simp add: connected_tunnel disconnect_routes)

end

subsection \<open>The in-memory implementation\<close>

lemmas registry_defs [acp_defs] =
  register_def register_insert_def purge_recent_def push_recent_def registry_get_def
  registry_is_connected_def unregister_def unregister_remove_def registry_acquire_def
  registry_disconnect_def registry_touch_def registry_tunnel_def

lemma registry_is_connected_iff: "registry_is_connected reg a \<longleftrightarrow> registry_get reg a \<noteq> None"
  by (simp add: acp_defs map_of_eq_None_iff)

interpretation ar: agent_registry send registry_acquire "registry_deliver send"
    registry_is_connected registry_disconnect registry_touch registry_tunnel
  for send :: "('tx, 'w) sender"
proof (unfold_locales, goal_cases)
  case (1 now r a t c)
  show ?case by (simp add: acp_defs update_conv' entry_new_def fun_eq_iff)
next
  case (2 r a f w)
  then show ?case by (simp add: registry_deliver_def registry_tunnel_def)
next
  case (3 r a t f w)
  then show ?case
    by (auto simp: registry_deliver_def registry_tunnel_def split: prod.splits bool.splits)
next
  case (4 r a)
  show ?case by (simp add: registry_is_connected_iff registry_tunnel_def)
next
  case (5 now r a)
  show ?case by (auto simp: acp_defs delete_conv' Let_def fun_eq_iff split: option.splits)
next
  case (6 now r a)
  show ?case by (auto simp: acp_defs update_conv' entry_touch_def fun_eq_iff split: option.splits)
qed

lemma registry_new_inv: "registry_inv registry_new"
  by (simp add: registry_inv_def registry_new_def)

lemma purge_recent_inv:
  "registry_inv reg \<Longrightarrow> registry_inv (purge_recent reg a)"
  by (auto simp: registry_inv_def purge_recent_def distinct_map_filter
      intro: le_trans [OF length_filter_le])

lemma register_inv: "registry_inv reg \<Longrightarrow> registry_inv (snd (register reg a e))"
  by (auto simp: registry_inv_def acp_defs distinct_update dom_update distinct_map_filter
      intro: le_trans [OF length_filter_le])

lemma push_recent_inv:
  assumes "registry_inv reg" and "\<not> registry_is_connected reg (recent_agent e)"
  shows "registry_inv (push_recent reg e)"
proof -
  let ?kept = "filter (\<lambda>r. recent_agent r \<noteq> recent_agent e) (recent reg)"
  have "distinct (map recent_agent ?kept)" and "length ?kept \<le> RECENT_CAPACITY"
    using assms(1) by (auto simp: registry_inv_def distinct_map_filter
        intro: le_trans [OF length_filter_le])
  moreover from this have "distinct (map recent_agent (tl ?kept))"
    by (simp add: map_tl distinct_tl)
  moreover have "set (tl ?kept) \<subseteq> set ?kept" by (cases ?kept) auto
  ultimately show ?thesis
    using assms by (auto simp: registry_inv_def push_recent_def Let_def RECENT_CAPACITY_def
        registry_is_connected_def dest: in_mono)
qed

lemma delete_subset: "set (AList.delete a xs) \<subseteq> set xs"
  by (auto simp: AList.delete_eq)

lemma unregister_inv:
  assumes "registry_inv reg"
  shows "registry_inv (unregister reg a now)"
proof (cases "map_of (connected reg) a")
  case (Some e)
  have "registry_inv (unregister_remove reg a)"
    using assms delete_subset [of a "connected reg"]
    by (auto simp: registry_inv_def unregister_remove_def distinct_delete)
  moreover have "\<not> registry_is_connected (unregister_remove reg a) a"
    by (simp add: registry_is_connected_def unregister_remove_def delete_keys AList.delete_eq
        image_iff)
  ultimately show ?thesis using Some by (simp add: unregister_def push_recent_inv)
qed (simp add: unregister_def assms)

lemma lease_drop_inv: "registry_inv reg \<Longrightarrow> registry_inv (lease_drop now reg l)"
  by (cases l) (simp add: unregister_inv)

lemma touch_inv: "registry_inv reg \<Longrightarrow> registry_inv (registry_touch now reg a)"
  by (auto simp: registry_inv_def registry_touch_def registry_get_def distinct_update
      dom_update dest: map_of_SomeD split: option.splits)

lemma registry_step_inv: "registry_inv reg \<Longrightarrow> registry_inv (registry_step reg x)"
  by (cases "(reg, x)" rule: registry_step.cases)
    (auto simp: registry_acquire_def register_inv lease_drop_inv unregister_inv touch_inv
      registry_disconnect_def)

lemma registry_run_inv: "registry_inv (registry_run ops)"
proof -
  have "registry_inv (foldl registry_step reg ops)" if "registry_inv reg"
    for reg :: "'a in_memory_agent_registry"
    using that by (induction ops arbitrary: reg) (auto intro: registry_step_inv)
  then show ?thesis by (simp add: registry_run_def registry_new_inv)
qed

lemma description_sel [simp]:
  "desc_agent (from_connected a e now) = a" "desc_connected (from_connected a e now)"
  "desc_agent (from_recent r now) = recent_agent r" "\<not> desc_connected (from_recent r now)"
  by (simp_all add: from_connected_def from_recent_def)

lemma registry_list_agents:
  assumes "registry_inv reg"
  shows "map desc_agent (registry_list reg now) =
    map fst (connected reg) @ map recent_agent (recent reg)"
proof -
  have "filter (\<lambda>r. \<not> registry_is_connected reg (recent_agent r)) (recent reg) = recent reg"
    using assms by (auto simp: registry_inv_def registry_is_connected_def filter_id_conv)
  then show ?thesis by (simp add: registry_list_def case_prod_beta)
qed

lemma find_recent:
  "distinct (map recent_agent rs) \<Longrightarrow>
     find (\<lambda>r. recent_agent r = a) rs = Some r \<longleftrightarrow> r \<in> set rs \<and> recent_agent r = a"
  by (induction rs) auto

lemma describe_in_list:
  assumes "registry_inv reg"
  shows "registry_describe reg a now = Some d \<longleftrightarrow> d \<in> set (registry_list reg now) \<and> desc_agent d = a"
proof (cases "registry_get reg a")
  case None
  then have no: "a \<notin> fst ` set (connected reg)"
    by (simp add: registry_get_def map_of_eq_None_iff)
  from assms have "distinct (map recent_agent (recent reg))" by (simp add: registry_inv_def)
  note found = find_recent [OF this]
  from no have gone: "(a, b) \<notin> set (connected reg)" for b by force
  have "d \<in> set (registry_list reg now) \<and> desc_agent d = a
      \<longleftrightarrow> (\<exists>r \<in> set (recent reg). d = from_recent r now \<and> recent_agent r = a)"
    using None gone by (auto simp: registry_list_def registry_is_connected_def)
  also have "\<dots> \<longleftrightarrow> registry_describe reg a now = Some d"
    using None by (auto simp: registry_describe_def found)
  finally show ?thesis by simp
next
  case (Some e)
  from assms have "distinct (map fst (connected reg))" by (simp add: registry_inv_def)
  with Some have "\<And>b. (a, b) \<in> set (connected reg) \<longleftrightarrow> b = e"
    by (metis eq_key_imp_eq_value map_of_SomeD registry_get_def)
  moreover from Some have "registry_is_connected reg a" by (simp add: registry_is_connected_iff)
  ultimately show ?thesis using Some
    by (force simp: registry_describe_def registry_list_def)
qed

definition agent_visible :: "'tx in_memory_agent_registry \<Rightarrow> uuid \<Rightarrow> bool" where
  "agent_visible reg a \<longleftrightarrow> a \<in> desc_agent ` set (registry_list reg 0)"

lemma agent_visible_iff:
  "agent_visible reg a \<longleftrightarrow> a \<in> fst ` set (connected reg) \<union> recent_agent ` set (recent reg)"
  by (auto simp: agent_visible_def registry_list_def registry_is_connected_def image_Un image_image
      case_prod_beta)

subsection \<open>Properties\<close>

text \<open>
  C25: after any sequence of acquisitions, lease drops, forced disconnections and activity
  updates, at any times, \<^verbatim>\<open>GET /agents\<close> lists every agent exactly once, the
  connected ones first, and at most 64 recently disconnected ones, and
  \<^verbatim>\<open>GET /agents/{id}\<close> returns exactly the listed description of that agent.
\<close>

theorem list_and_describe_agree:
  "distinct (map desc_agent (registry_list (registry_run ops) now))
    \<and> registry_list (registry_run ops) now
        = filter desc_connected (registry_list (registry_run ops) now)
          @ filter (\<lambda>d. \<not> desc_connected d) (registry_list (registry_run ops) now)
    \<and> length (filter (\<lambda>d. \<not> desc_connected d) (registry_list (registry_run ops) now)) \<le> RECENT_CAPACITY
    \<and> (registry_describe (registry_run ops) a now = Some d \<longleftrightarrow>
         d \<in> set (registry_list (registry_run ops) now) \<and> desc_agent d = a)"
proof -
  let ?reg = "registry_run ops"
  have inv: "registry_inv ?reg" by (rule registry_run_inv)
  have "distinct (map desc_agent (registry_list ?reg now))"
    using inv by (auto simp: registry_list_agents registry_inv_def)
  moreover have "registry_list ?reg now = filter desc_connected (registry_list ?reg now)
      @ filter (\<lambda>d. \<not> desc_connected d) (registry_list ?reg now)"
    by (simp add: registry_list_def filter_map o_def case_prod_beta)
  moreover have "length (filter (\<lambda>d. \<not> desc_connected d) (registry_list ?reg now)) \<le> RECENT_CAPACITY"
    using inv by (auto simp: registry_list_def filter_map o_def case_prod_beta registry_inv_def
        intro: le_trans [OF length_filter_le])
  moreover note describe_in_list [OF inv, of a now d]
  ultimately show ?thesis by blast
qed

text \<open>
  A reader racing \<open>register\<close> never loses sight of an agent that is connected or in
  the recent log: the agent is listed before the call, between its insertion and its purge,
  and after it, and so is every other agent that was listed.
\<close>

theorem register_keeps_visible:
  assumes "agent_visible reg b \<or> b = a"
  shows "agent_visible (register_insert reg a e) b \<and> agent_visible (snd (register reg a e)) b"
  using assms by (auto simp: agent_visible_iff acp_defs dom_update)

theorem register_keeps_visible_witness:
  "agent_visible (snd (register registry_new 7 (entry_new (0::nat) (claims_agent 0 7 None 60 ''i'') 5))) 7"
  by (rule conjunct2 [OF register_keeps_visible]) simp

text \<open>
  A lease is not tied to its own tunnel. When an agent reconnects before its old tunnel has
  gone, dropping the lease of the old tunnel removes the routing entry of the new one: the next
  frame for that agent finds no tunnel and goes to the caller, although the channel of the new
  tunnel is open and was the one routed to.
\<close>

theorem stale_lease_drop_unroutes:
  "(case registry_acquire n1 reg a t1 c1 of
      (Ok old_lease, reg1) \<Rightarrow>
        (case registry_acquire n2 reg1 a t2 c2 of
           (Ok new_lease, reg2) \<Rightarrow>
             registry_tunnel reg2 a = Some t2
             \<and> registry_tunnel (lease_drop n3 reg2 old_lease) a = None
             \<and> registry_deliver send (lease_drop n3 reg2 old_lease) a frame w = (NoTunnel frame, w)
         | _ \<Rightarrow> False)
    | _ \<Rightarrow> False)"
proof -
  let ?reg2 = "snd (register (snd (register reg a (entry_new t1 c1 n1))) a (entry_new t2 c2 n2))"
  have "registry_tunnel ?reg2 a = Some t2" by (simp add: entry_new_def acp_defs update_conv)
  moreover have "registry_get (unregister ?reg2 a n3) a = None"
    by (simp add: acp_defs update_conv delete_conv Let_def)
  ultimately show ?thesis
    by (simp add: registry_acquire_def registry_tunnel_def registry_deliver_def)
qed

end
