(* ===== verification/Stream_Broker.thy ===== *)
theory Stream_Broker
  imports Acp_Prelude
begin

text \<open>
  The per-agent fan-out of notifications to SSE subscribers
  (\<^verbatim>\<open>server/src/tunnel/broker.rs\<close>). The broadcast channels are those of the async
  runtime: \<open>broadcast_lib\<close> holds the three operations the broker calls, over the state of
  all channels.
\<close>

definition STREAM_BUFFER :: nat where "STREAM_BUFFER = 128"

record ('ch, 'rx, 'w) broadcast_lib =
  bc_channel :: "nat \<Rightarrow> 'w \<Rightarrow> 'ch \<times> 'w"
  bc_send :: "'ch \<Rightarrow> string \<Rightarrow> 'w \<Rightarrow> 'w"
  bc_subscribe :: "'ch \<Rightarrow> 'w \<Rightarrow> 'rx \<times> 'w"

record 'ch in_memory_stream_broker =
  bus :: "uuid \<rightharpoonup> 'ch"

definition broker_new :: "'ch in_memory_stream_broker" where
  "broker_new = \<lparr>bus = Map.empty\<rparr>"

definition sender_for ::
    "('ch, 'rx, 'w) broadcast_lib \<Rightarrow> 'ch in_memory_stream_broker \<Rightarrow> uuid \<Rightarrow> 'w
      \<Rightarrow> 'ch \<times> 'ch in_memory_stream_broker \<times> 'w" where
  "sender_for B b agent_id w =
     (case bus b agent_id of
        Some ch \<Rightarrow> (ch, b, w)
      | None \<Rightarrow> (case bc_channel B STREAM_BUFFER w of
          (ch, w') \<Rightarrow> (ch, b\<lparr>bus := (bus b)(agent_id \<mapsto> ch)\<rparr>, w')))"

definition broker_publish ::
    "('ch, 'rx, 'w) broadcast_lib \<Rightarrow> 'ch in_memory_stream_broker \<Rightarrow> uuid \<Rightarrow> string \<Rightarrow> 'w
      \<Rightarrow> 'ch in_memory_stream_broker \<times> 'w" where
  "broker_publish B b agent_id frame w =
     (case sender_for B b agent_id w of (ch, b', w') \<Rightarrow> (b', bc_send B ch frame w'))"

definition broker_subscribe ::
    "('ch, 'rx, 'w) broadcast_lib \<Rightarrow> 'ch in_memory_stream_broker \<Rightarrow> uuid \<Rightarrow> 'w
      \<Rightarrow> 'rx \<times> 'ch in_memory_stream_broker \<times> 'w" where
  "broker_subscribe B b agent_id w =
     (case sender_for B b agent_id w of (ch, b', w') \<Rightarrow>
        (case bc_subscribe B ch w' of (rx, w'') \<Rightarrow> (rx, b', w'')))"

text \<open>
  What the runtime documents, through two observations: the channels that exist and the frames
  sent on each. A new channel did not exist before and starts empty; a send appends to its own
  channel only; subscribing sends nothing.
\<close>

definition broadcast_laws ::
    "('ch, 'rx, 'w) broadcast_lib \<Rightarrow> ('w \<Rightarrow> 'ch set) \<Rightarrow> ('w \<Rightarrow> 'ch \<Rightarrow> string list) \<Rightarrow> bool" where
  "broadcast_laws B chans log \<longleftrightarrow>
     (\<forall>n w. fst (bc_channel B n w) \<notin> chans w
        \<and> chans (snd (bc_channel B n w)) = insert (fst (bc_channel B n w)) (chans w)
        \<and> log (snd (bc_channel B n w)) = (log w)(fst (bc_channel B n w) := []))
     \<and> (\<forall>ch f w. chans (bc_send B ch f w) = chans w
        \<and> log (bc_send B ch f w) = (log w)(ch := log w ch @ [f]))
     \<and> (\<forall>ch w. chans (snd (bc_subscribe B ch w)) = chans w
        \<and> log (snd (bc_subscribe B ch w)) = log w)"

definition broker_inv ::
    "('w \<Rightarrow> 'ch set) \<Rightarrow> 'ch in_memory_stream_broker \<Rightarrow> 'w \<Rightarrow> bool" where
  "broker_inv chans b w \<longleftrightarrow> ran (bus b) \<subseteq> chans w \<and> inj_on (bus b) (dom (bus b))"

text \<open>The frames published for an agent so far.\<close>

definition broker_log ::
    "('w \<Rightarrow> 'ch \<Rightarrow> string list) \<Rightarrow> 'ch in_memory_stream_broker \<Rightarrow> 'w \<Rightarrow> uuid \<Rightarrow> string list" where
  "broker_log log b w a = (case bus b a of None \<Rightarrow> [] | Some ch \<Rightarrow> log w ch)"

datatype broker_op = BPublish uuid string | BSubscribe uuid

fun broker_step ::
    "('ch, 'rx, 'w) broadcast_lib \<Rightarrow> 'ch in_memory_stream_broker \<times> 'w \<Rightarrow> broker_op
      \<Rightarrow> 'ch in_memory_stream_broker \<times> 'w" where
  "broker_step B (b, w) (BPublish a f) = broker_publish B b a f w"
| "broker_step B (b, w) (BSubscribe a) = snd (broker_subscribe B b a w)"

fun published_for :: "uuid \<Rightarrow> broker_op list \<Rightarrow> string list" where
  "published_for a [] = []"
| "published_for a (BPublish b f # xs) = (if a = b then [f] else []) @ published_for a xs"
| "published_for a (BSubscribe b # xs) = published_for a xs"

subsection \<open>Lemmas\<close>

lemma sender_for_same:
  assumes "sender_for B b a w = (ch, b', w')"
  shows "bus b' a = Some ch" "sender_for B b' a v = (ch, b', v)"
  using assms by (auto simp: sender_for_def split: option.splits prod.splits)

lemma sender_for_inv:
  assumes laws: "broadcast_laws B chans log" and inv: "broker_inv chans b w"
    and s: "sender_for B b a w = (ch, b', w')"
  shows "broker_inv chans b' w' \<and> ch \<in> chans w' \<and> broker_log log b' w' = broker_log log b w"
proof (cases "bus b a")
  case (Some c)
  with s inv show ?thesis
    by (auto simp: sender_for_def broker_inv_def intro: ranI)
next
  case None
  then obtain e where e: "bc_channel B STREAM_BUFFER w = (ch, w')"
    and b': "b' = b\<lparr>bus := (bus b)(a \<mapsto> ch)\<rparr>"
    using s by (auto simp: sender_for_def split: prod.splits)
  from laws e have fresh: "ch \<notin> chans w" and w': "chans w' = insert ch (chans w)"
    "log w' = (log w)(ch := [])"
    by (auto simp: broadcast_laws_def dest!: spec [of _ STREAM_BUFFER] spec [of _ w])
  from fresh inv have "ch \<notin> ran (bus b)" by (auto simp: broker_inv_def)
  with inv w' None b' show ?thesis
    by (auto simp: broker_inv_def broker_log_def fun_eq_iff inj_on_def ran_def
        split: option.splits)
qed

lemma broker_step_log:
  assumes laws: "broadcast_laws B chans log" and inv: "broker_inv chans b w"
    and st: "broker_step B (b, w) x = (b', w')"
  shows "broker_inv chans b' w' \<and> broker_log log b' w' a = broker_log log b w a @ published_for a [x]"
proof (cases x)
  case (BPublish c f)
  obtain ch b1 w1 where s: "sender_for B b c w = (ch, b1, w1)" by (metis prod_cases3)
  from sender_for_inv [OF laws inv s] sender_for_same(1) [OF s]
  have i: "broker_inv chans b1 w1" "broker_log log b1 w1 = broker_log log b w" "bus b1 c = Some ch"
    by auto
  from st BPublish s have e: "b' = b1" "w' = bc_send B ch f w1"
    by (auto simp: broker_publish_def)
  from laws have l: "chans (bc_send B ch f w1) = chans w1"
    "log (bc_send B ch f w1) = (log w1)(ch := log w1 ch @ [f])"
    by (simp_all add: broadcast_laws_def)
  have "bus b1 a = Some ch \<longleftrightarrow> a = c"
    using i(1,3) by (auto simp: broker_inv_def inj_on_def dom_def)
  then have "broker_log log b1 (bc_send B ch f w1) a =
      broker_log log b1 w1 a @ (if a = c then [f] else [])"
    by (cases "bus b1 a") (auto simp: broker_log_def l)
  moreover have "broker_inv chans b1 (bc_send B ch f w1)"
    using i(1) by (simp add: broker_inv_def l)
  ultimately show ?thesis using i(2) e BPublish by simp
next
  case (BSubscribe c)
  obtain ch b1 w1 where s: "sender_for B b c w = (ch, b1, w1)" by (metis prod_cases3)
  from sender_for_inv [OF laws inv s]
  have i: "broker_inv chans b1 w1" "broker_log log b1 w1 = broker_log log b w" by auto
  from laws have l: "chans (snd (bc_subscribe B ch w1)) = chans w1"
    "log (snd (bc_subscribe B ch w1)) = log w1"
    by (simp_all add: broadcast_laws_def)
  from st BSubscribe s have "b' = b1" "w' = snd (bc_subscribe B ch w1)"
    by (auto simp: broker_subscribe_def split: prod.splits)
  moreover have "broker_log log b1 (snd (bc_subscribe B ch w1)) = broker_log log b1 w1"
    by (auto simp: fun_eq_iff broker_log_def l split: option.splits)
  moreover have "broker_inv chans b1 (snd (bc_subscribe B ch w1))"
    using i(1) by (simp add: broker_inv_def l)
  ultimately show ?thesis using i(2) BSubscribe by simp
qed

lemma published_for_Cons: "published_for a (x # xs) = published_for a [x] @ published_for a xs"
  by (cases x) auto

subsection \<open>Properties\<close>

text \<open>
  Subscribers and publishers of an agent meet on one channel, and agents are isolated:
  after any sequence of publications and subscriptions, what was sent on an agent's channel is
  exactly the frames published for that agent, in order.
\<close>

theorem broker_fan_out_per_agent:
  assumes "broadcast_laws B chans log"
    and "foldl (broker_step B) (broker_new, w) ops = (b', w')"
  shows "broker_log log b' w' a = published_for a ops"
proof -
  have "broker_inv chans b v \<Longrightarrow> foldl (broker_step B) (b, v) ops = (b', w') \<Longrightarrow>
      broker_log log b' w' a = broker_log log b v a @ published_for a ops" for b v
  proof (induction ops arbitrary: b v)
    case (Cons x xs)
    obtain b1 v1 where x: "broker_step B (b, v) x = (b1, v1)" by fastforce
    from broker_step_log [OF assms(1) Cons.prems(1) x] Cons.IH [of b1 v1] Cons.prems x
    show ?case by (simp add: published_for_Cons [of a x xs])
  qed simp
  moreover have "broker_inv chans broker_new w"
    by (simp add: broker_inv_def broker_new_def)
  ultimately show ?thesis
    using assms(2) by (simp add: broker_log_def broker_new_def)
qed

definition demo_broadcast :: "(nat, nat, nat \<times> (nat \<Rightarrow> string list)) broadcast_lib" where
  "demo_broadcast =
     \<lparr>bc_channel = (\<lambda>n (k, l). (k, (Suc k, l(k := [])))),
      bc_send = (\<lambda>ch f (k, l). (k, l(ch := l ch @ [f]))),
      bc_subscribe = (\<lambda>ch w. (ch, w))\<rparr>"

theorem broker_fan_out_per_agent_witness:
  "broker_log snd (fst (foldl (broker_step demo_broadcast) (broker_new, (0, \<lambda>_. []))
       [BPublish 1 ''a'', BSubscribe 2, BPublish 2 ''b'', BPublish 1 ''c'']))
     (snd (foldl (broker_step demo_broadcast) (broker_new, (0, \<lambda>_. []))
       [BPublish 1 ''a'', BSubscribe 2, BPublish 2 ''b'', BPublish 1 ''c''])) 1 = [''a'', ''c'']"
proof -
  have "broadcast_laws demo_broadcast (\<lambda>(k, l). {..<k}) snd"
    by (auto simp: broadcast_laws_def demo_broadcast_def)
  from broker_fan_out_per_agent [OF this, of "(0, \<lambda>_. [])"
      "[BPublish 1 ''a'', BSubscribe 2, BPublish 2 ''b'', BPublish 1 ''c'']",
      OF prod.collapse [symmetric], of 1]
  show ?thesis by (simp only: prod.collapse) simp
qed

end
