(* ===== verification/Rest_Api.thy ===== *)
theory Rest_Api
  imports Message_Queue Agent_Registry Stream_Broker Dispatch
begin

text \<open>
  The shared server state (\<^verbatim>\<open>server/src/state.rs\<close>), the handler error type
  (\<^verbatim>\<open>server/src/api/error.rs\<close>), and the REST handlers for agents
  (\<^verbatim>\<open>server/src/api/agents.rs\<close>) and tokens (\<^verbatim>\<open>server/src/api/tokens.rs\<close>).

  \<open>app_state\<close> holds the three in-memory providers, the state of the channels and buses they
  send to, and the state of the operator's hooks. The textual form of a UUID and the JSON
  printer are parameters.
\<close>

record ('tx, 'ch, 'w, 'bw, 'h) app_state =
  registry :: "'tx in_memory_agent_registry"
  message_queue :: in_memory_message_queue
  stream_broker :: "'ch in_memory_stream_broker"
  channels :: 'w
  buses :: 'bw
  operator_state :: 'h

definition app_state_new :: "'w \<Rightarrow> 'bw \<Rightarrow> 'h \<Rightarrow> ('tx, 'ch, 'w, 'bw, 'h) app_state" where
  "app_state_new w bw h =
     \<lparr>registry = registry_new, message_queue = queue_default, stream_broker = broker_new,
      channels = w, buses = bw, operator_state = h\<rparr>"

subsection \<open>Errors\<close>

datatype api_error =
    NotFound string
  | BadRequest string
  | Unauthorized string
  | ServiceUnavailable string
  | Internal string

definition error_body :: "string \<Rightarrow> string \<Rightarrow> json" where
  "error_body kind msg = JObject [(''error'', JString kind), (''message'', JString msg)]"

fun api_error_response :: "api_error \<Rightarrow> nat \<times> json" where
  "api_error_response (NotFound msg) = (404, error_body ''not_found'' msg)"
| "api_error_response (BadRequest msg) = (400, error_body ''bad_request'' msg)"
| "api_error_response (Unauthorized msg) = (401, error_body ''unauthorized'' msg)"
| "api_error_response (ServiceUnavailable msg) = (503, error_body ''service_unavailable'' msg)"
| "api_error_response (Internal msg) = (500, error_body ''internal'' msg)"

subsection \<open>Agent handlers\<close>

record send_message_request =
  msg_role :: string
  msg_content :: json

definition default_role :: string where "default_role = ''user''"

datatype delivery = DeliveryLive | DeliveryQueued

fun delivery_encode :: "delivery \<Rightarrow> string" where
  "delivery_encode DeliveryLive = ''live''"
| "delivery_encode DeliveryQueued = ''queued''"

definition send_message_response_encode :: "delivery \<Rightarrow> json" where
  "send_message_response_encode d = JObject [(''delivery'', JString (delivery_encode d))]"

definition agent_list_response_encode :: "('d \<Rightarrow> json) \<Rightarrow> 'd list \<Rightarrow> json" where
  "agent_list_response_encode encode ds = JObject [(''agents'', JArray (map encode ds))]"

text \<open>What the body of a message gives without a role.\<close>

definition message_request_of :: "json \<Rightarrow> send_message_request option" where
  "message_request_of v =
     (case json_get ''content'' v of
        None \<Rightarrow> None
      | Some c \<Rightarrow>
          (case json_get ''role'' v of
             None \<Rightarrow> Some \<lparr>msg_role = default_role, msg_content = c\<rparr>
           | Some (JString r) \<Rightarrow> Some \<lparr>msg_role = r, msg_content = c\<rparr>
           | Some _ \<Rightarrow> None))"

definition session_message_frame :: "serde \<Rightarrow> send_message_request \<Rightarrow> string" where
  "session_message_frame S req =
     print_json S (JObject [(''jsonrpc'', JString ''2.0''), (''method'', JString ''session/message''),
       (''params'', JObject [(''role'', JString (msg_role req)), (''content'', msg_content req)])])"

definition session_cancel_frame :: "serde \<Rightarrow> string" where
  "session_cancel_frame S =
     print_json S (JObject [(''jsonrpc'', JString ''2.0''), (''method'', JString ''session/cancel''),
       (''params'', JObject [])])"

definition queue_full :: "(uuid \<Rightarrow> string) \<Rightarrow> uuid \<Rightarrow> nat \<Rightarrow> api_error" where
  "queue_full U agent_id capacity = ServiceUnavailable
     (''agent '' @ U agent_id @ '' message queue is full ('' @ show_nat capacity @ ''); retry later'')"

definition list_agents ::
    "nat \<Rightarrow> ('tx, 'ch, 'w, 'bw, 'h) app_state \<Rightarrow> (agent_description list, api_error) result" where
  "list_agents now st = Ok (registry_list (registry st) now)"

definition describe_agent ::
    "(uuid \<Rightarrow> string) \<Rightarrow> nat \<Rightarrow> ('tx, 'ch, 'w, 'bw, 'h) app_state \<Rightarrow> uuid
      \<Rightarrow> (agent_description, api_error) result" where
  "describe_agent U now st i =
     ok_or (NotFound (''agent '' @ U i)) (registry_describe (registry st) i now)"

definition disconnect_agent ::
    "(uuid \<Rightarrow> string) \<Rightarrow> nat \<Rightarrow> ('tx, 'ch, 'w, 'bw, 'h) app_state \<Rightarrow> uuid
      \<Rightarrow> (nat, api_error) result \<times> ('tx, 'ch, 'w, 'bw, 'h) app_state" where
  "disconnect_agent U now st i =
     (if \<not> registry_is_connected (registry st) i then (Err (NotFound (''agent '' @ U i)), st)
      else (Ok 202, st\<lparr>registry := registry_disconnect now (registry st) i\<rparr>))"

definition send_message ::
    "serde \<Rightarrow> (uuid \<Rightarrow> string) \<Rightarrow> ('tx, 'w) sender \<Rightarrow> ('tx, 'ch, 'w, 'bw, 'h) app_state \<Rightarrow> uuid
      \<Rightarrow> send_message_request
      \<Rightarrow> (nat \<times> delivery, api_error) result \<times> ('tx, 'ch, 'w, 'bw, 'h) app_state" where
  "send_message S U send st i req =
     (if msg_role req = [] then (Err (BadRequest (CHR 0x27 # ''role'' @ CHR 0x27 # '' must not be empty'')), st)
      else
        (case registry_deliver send (registry st) i (session_message_frame S req) (channels st) of
           (Live, w) \<Rightarrow> (Ok (202, DeliveryLive), st\<lparr>channels := w\<rparr>)
         | (NoTunnel frame, w) \<Rightarrow>
             (case queue_push (message_queue st) i frame of
                (Ok _, q) \<Rightarrow> (Ok (202, DeliveryQueued), st\<lparr>channels := w, message_queue := q\<rparr>)
              | (Err (Full _ capacity), q) \<Rightarrow>
                  (Err (queue_full U i capacity), st\<lparr>channels := w, message_queue := q\<rparr>))))"

definition stream_events ::
    "('ch, 'rx, 'bw) broadcast_lib \<Rightarrow> ('tx, 'ch, 'w, 'bw, 'h) app_state \<Rightarrow> uuid
      \<Rightarrow> 'rx \<times> ('tx, 'ch, 'w, 'bw, 'h) app_state" where
  "stream_events B st i =
     (case broker_subscribe B (stream_broker st) i (buses st) of
        (rx, b, bw) \<Rightarrow> (rx, st\<lparr>stream_broker := b, buses := bw\<rparr>))"

definition cancel_turn ::
    "serde \<Rightarrow> ('tx, 'w) sender \<Rightarrow> ('tx, 'ch, 'w, 'bw, 'h) app_state \<Rightarrow> uuid
      \<Rightarrow> (nat, api_error) result \<times> ('tx, 'ch, 'w, 'bw, 'h) app_state" where
  "cancel_turn S send st i =
     (Ok 202, st\<lparr>channels := snd (registry_deliver send (registry st) i (session_cancel_frame S)
        (channels st))\<rparr>)"

subsection \<open>Tokens\<close>

definition DEFAULT_AGENT_TTL_SECS :: i64 where
  "DEFAULT_AGENT_TTL_SECS = 30 * 24 * 60 * 60"

record mint_request =
  mint_agent_id :: uuid
  mint_user :: "uuid option"
  mint_ttl_secs :: "i64 option"

fun auth_error_string :: "auth_error \<Rightarrow> string" where
  "auth_error_string (Invalid s) = ''invalid token: '' @ s"

definition mint_token ::
    "'je jwt_lib \<Rightarrow> static_jwt_authenticator \<Rightarrow> i64 \<Rightarrow> mint_request
      \<Rightarrow> (nat \<times> string \<times> claims, api_error) result" where
  "mint_token J au now req =
     (let ttl = unwrap_or DEFAULT_AGENT_TTL_SECS (mint_ttl_secs req) in
      if sint ttl \<le> 0 then Err (BadRequest ''ttl_secs must be positive'')
      else
        let c = claims_agent now (mint_agent_id req) (mint_user req) ttl (auth_issuer au)
        in res_bind (res_map_err (\<lambda>e. Internal (''mint failed: '' @ auth_error_string e)) (static_mint J au c))
             (\<lambda>t. Ok (201, t, c)))"

subsection \<open>Lemmas\<close>

lemma queue_push_frames:
  "queue_push q a f = (if per_agent_capacity q \<le> length (queue_frames q a)
     then (Err (Full a (per_agent_capacity q)), snd (queue_push q a f))
     else (Ok (), snd (queue_push q a f)))"
  "queue_frames (snd (queue_push q a f)) = (if per_agent_capacity q \<le> length (queue_frames q a)
     then queue_frames q else (queue_frames q)(a := queue_frames q a @ [f]))"
  "per_agent_capacity (snd (queue_push q a f)) = per_agent_capacity q"
  by (auto simp: queue_push_def queue_frames_def Let_def fun_eq_iff split: option.splits)

text \<open>Whether a frame for an agent would go to an open channel, and to which.\<close>

definition live_tunnel ::
    "('w \<Rightarrow> 'tx \<Rightarrow> bool) \<Rightarrow> ('tx, 'ch, 'w, 'bw, 'h) app_state \<Rightarrow> uuid \<Rightarrow> 'tx option" where
  "live_tunnel alive st a =
     Option.bind (registry_tunnel (registry st) a) (\<lambda>t. if alive (channels st) t then Some t else None)"

lemma registry_deliver_cases:
  assumes "mpsc_laws send alive sent"
  shows "live_tunnel alive st a = Some t \<Longrightarrow>
      fst (registry_deliver send (registry st) a f (channels st)) = Live
      \<and> sent (snd (registry_deliver send (registry st) a f (channels st)))
          = (sent (channels st))(t := sent (channels st) t @ [f])"
    and "live_tunnel alive st a = None \<Longrightarrow>
      fst (registry_deliver send (registry st) a f (channels st)) = NoTunnel f
      \<and> sent (snd (registry_deliver send (registry st) a f (channels st))) = sent (channels st)"
    and "alive (snd (registry_deliver send (registry st) a f (channels st))) = alive (channels st)"
proof -
  show "live_tunnel alive st a = Some t \<Longrightarrow>
      fst (registry_deliver send (registry st) a f (channels st)) = Live
      \<and> sent (snd (registry_deliver send (registry st) a f (channels st)))
          = (sent (channels st))(t := sent (channels st) t @ [f])"
    using ar.deliver_live [OF assms, of "registry st" a t "channels st" f]
    by (auto simp: live_tunnel_def bind_eq_Some_conv split: if_splits)
  show "live_tunnel alive st a = None \<Longrightarrow>
      fst (registry_deliver send (registry st) a f (channels st)) = NoTunnel f
      \<and> sent (snd (registry_deliver send (registry st) a f (channels st))) = sent (channels st)"
    by (intro ar.deliver_not_live [OF assms])
      (auto simp: live_tunnel_def bind_eq_None_conv split: if_splits)
  show "alive (snd (registry_deliver send (registry st) a f (channels st))) = alive (channels st)"
    using assms by (auto simp: registry_deliver_def mpsc_laws_def split: option.splits prod.splits bool.splits)
      (metis snd_conv)+
qed

lemma send_message_live:
  assumes laws: "mpsc_laws send alive sent" and "msg_role req \<noteq> []"
    and l: "live_tunnel alive st a = Some t"
  obtains w where "send_message S U send st a req = (Ok (202, DeliveryLive), st\<lparr>channels := w\<rparr>)"
    "sent w = (sent (channels st))(t := sent (channels st) t @ [session_message_frame S req])"
    "alive w = alive (channels st)"
proof -
  let ?d = "registry_deliver send (registry st) a (session_message_frame S req) (channels st)"
  obtain x w where d: "?d = (x, w)" by (cases ?d)
  with registry_deliver_cases(1) [OF laws l, of "session_message_frame S req"]
    registry_deliver_cases(3) [OF laws, of st a "session_message_frame S req"] assms(2) that [of w]
  show thesis by (simp add: send_message_def)
qed

lemma send_message_queued:
  assumes laws: "mpsc_laws send alive sent" and "msg_role req \<noteq> []"
    and l: "live_tunnel alive st a = None"
  obtains w where "send_message S U send st a req =
      (if per_agent_capacity (message_queue st) \<le> length (queue_frames (message_queue st) a)
       then Err (queue_full U a (per_agent_capacity (message_queue st))) else Ok (202, DeliveryQueued),
       st\<lparr>channels := w, message_queue := snd (queue_push (message_queue st) a (session_message_frame S req))\<rparr>)"
    "sent w = sent (channels st)" "alive w = alive (channels st)"
proof -
  let ?f = "session_message_frame S req"
  let ?d = "registry_deliver send (registry st) a ?f (channels st)"
  obtain x w where d: "?d = (x, w)" by (cases ?d)
  have "send_message S U send st a req =
      (if per_agent_capacity (message_queue st) \<le> length (queue_frames (message_queue st) a)
       then Err (queue_full U a (per_agent_capacity (message_queue st))) else Ok (202, DeliveryQueued),
       st\<lparr>channels := w, message_queue := snd (queue_push (message_queue st) a ?f)\<rparr>)"
    using d registry_deliver_cases(2) [OF laws l, of ?f] assms(2)
    by (subst send_message_def, subst queue_push_frames(1)) simp
  with registry_deliver_cases(2) [OF laws l, of ?f] registry_deliver_cases(3) [OF laws, of st a ?f] d
  show thesis by (intro that [of w]) simp_all
qed

subsection \<open>Properties\<close>

text \<open>
  A message that \<^verbatim>\<open>POST /agents/{id}/messages\<close> accepts is stored exactly once:
  at the end of the agent's open channel when it has one, at the end of its queue otherwise.
  A refused message changes no channel and no queue; it is refused with status 400 exactly
  when the role is empty, and otherwise with 503 exactly when the agent has no open channel
  and its queue is at capacity.
\<close>

theorem send_message_outcome:
  assumes "mpsc_laws send alive sent"
  shows "(case send_message S U send st a req of
      (Ok (code, DeliveryLive), st') \<Rightarrow> code = 202 \<and> msg_role req \<noteq> []
        \<and> (\<exists>t. live_tunnel alive st a = Some t
           \<and> sent (channels st') = (sent (channels st))(t := sent (channels st) t @ [session_message_frame S req]))
        \<and> queue_frames (message_queue st') = queue_frames (message_queue st)
    | (Ok (code, DeliveryQueued), st') \<Rightarrow> code = 202 \<and> msg_role req \<noteq> []
        \<and> live_tunnel alive st a = None \<and> sent (channels st') = sent (channels st)
        \<and> length (queue_frames (message_queue st) a) < per_agent_capacity (message_queue st)
        \<and> queue_frames (message_queue st') = (queue_frames (message_queue st))
            (a := queue_frames (message_queue st) a @ [session_message_frame S req])
    | (Err e, st') \<Rightarrow>
        sent (channels st') = sent (channels st)
        \<and> queue_frames (message_queue st') = queue_frames (message_queue st)
        \<and> (if msg_role req = [] then fst (api_error_response e) = 400
           else fst (api_error_response e) = 503 \<and> live_tunnel alive st a = None
             \<and> per_agent_capacity (message_queue st) \<le> length (queue_frames (message_queue st) a)))"
proof (cases "msg_role req = []")
  case True
  then show ?thesis by (simp add: send_message_def)
next
  case False
  show ?thesis
  proof (cases "live_tunnel alive st a")
    case None
    show ?thesis
      by (rule send_message_queued [OF assms False None, of S U])
        (use None False in \<open>simp add: queue_push_frames(2) queue_full_def\<close>)
  next
    case (Some t)
    show ?thesis
      by (rule send_message_live [OF assms False Some, of S U]) (use Some False in simp)
  qed
qed

text \<open>A message for an agent that never connected goes to its queue.\<close>

definition demo_state :: "(nat, nat, world, nat \<times> (nat \<Rightarrow> string list), unit) app_state" where
  "demo_state = app_state_new world_init (0, \<lambda>_. []) ()"

definition demo_request :: send_message_request where
  "demo_request = \<lparr>msg_role = ''user'', msg_content = JString ''hi''\<rparr>"

lemma demo_state_unrouted: "live_tunnel alive demo_state a = None"
  by (simp add: live_tunnel_def demo_state_def app_state_new_def registry_tunnel_def
      registry_get_def registry_new_def)

theorem send_message_outcome_witness:
  "case send_message demo_serde (\<lambda>_. ''id'') world_send demo_state 7 demo_request of
     (Ok (code, DeliveryQueued), st') \<Rightarrow> code = 202
       \<and> queue_frames (message_queue st') 7 = [session_message_frame demo_serde demo_request]
   | _ \<Rightarrow> False"
proof -
  have q: "queue_frames (message_queue demo_state) a = []" "per_agent_capacity (message_queue demo_state) = 64" for a
    by (simp_all add: demo_state_def app_state_new_def queue_default_def queue_new_def queue_frames_def
        DEFAULT_PER_AGENT_CAPACITY_def)
  from send_message_outcome [OF world_laws, where req = demo_request
      and S = demo_serde and U = "\<lambda>_. ''id''" and st = demo_state and a = 7]
  show ?thesis
    by (auto simp: demo_state_unrouted q demo_request_def split: prod.splits result.splits delivery.splits)
qed

text \<open>
  A token that \<^verbatim>\<open>POST /tokens\<close> issues is an agent token for the requested agent
  and user, with the lifetime that was asked for or thirty days, and the authenticator that
  issued it accepts it, with the claims of the response, until it expires; this is so whenever
  the clock plus the lifetime fits in 64 bits.
\<close>

theorem minted_token_validates:
  assumes laws: "jwt_roundtrip J later" and m: "mint_token J au now req = Ok (code, t, c)"
    and pos: "0 \<le> sint now"
    and fits: "sint now + sint (unwrap_or DEFAULT_AGENT_TTL_SECS (mint_ttl_secs req)) < 2 ^ 63"
    and unexpired: "sint later \<le> sint now + sint (unwrap_or DEFAULT_AGENT_TTL_SECS (mint_ttl_secs req))"
  shows "code = 201 \<and> static_validate J au t = Ok c \<and> is_agent c \<and> sub c = mint_agent_id req
    \<and> user c = mint_user req
    \<and> sint (exp c) = sint now + sint (unwrap_or DEFAULT_AGENT_TTL_SECS (mint_ttl_secs req))
    \<and> sint now < sint (exp c)"
proof -
  let ?ttl = "unwrap_or DEFAULT_AGENT_TTL_SECS (mint_ttl_secs req)"
  let ?c = "claims_agent now (mint_agent_id req) (mint_user req) ?ttl (auth_issuer au)"
  from m have ttl: "0 < sint ?ttl" and c: "code = 201" "c = ?c" and t: "static_mint J au c = Ok t"
    by (auto simp: mint_token_def Let_def res_bind_Ok split: if_splits)
  from sint_add_no_overflow [of now ?ttl] fits pos ttl
  have e: "sint (now + ?ttl) = sint now + sint ?ttl" by simp
  from unexpired e have "sint later \<le> sint (exp c) + 60" by (simp add: c)
  with laws t have "jwt_decode J (signing_key au) (iss c) t = Ok c"
    unfolding jwt_roundtrip_def static_mint_Ok by blast
  then have "static_validate J au t = Ok c" by (simp add: static_validate_Ok c)
  with c e ttl show ?thesis by simp
qed

theorem minted_token_validates_witness:
  "\<exists>t c. mint_token demo_jwt \<lparr>signing_key = ''k'', auth_issuer = ''overacp''\<rparr> 1000
       \<lparr>mint_agent_id = 7, mint_user = None, mint_ttl_secs = Some 60\<rparr> = Ok (201, t, c)
     \<and> static_validate demo_jwt \<lparr>signing_key = ''k'', auth_issuer = ''overacp''\<rparr> t = Ok c
     \<and> sint (exp c) = 1060"
proof -
  let ?a = "\<lparr>signing_key = ''k'', auth_issuer = ''overacp''\<rparr>"
  let ?r = "\<lparr>mint_agent_id = 7, mint_user = None, mint_ttl_secs = Some 60\<rparr>"
  have m: "mint_token demo_jwt ?a 1000 ?r = Ok (201, ''tok'', claims_agent 1000 7 None 60 ''overacp'')"
    by (simp add: mint_token_def unwrap_or_def static_mint_def demo_jwt_def)
  from minted_token_validates [OF demo_jwt_laws(1) m] show ?thesis
    using m by (simp add: unwrap_or_def)
qed

text \<open>
  The guard on the lifetime looks at the lifetime alone. When the clock plus the requested
  lifetime does not fit in 64 bits the sum wraps, the handler still answers 201, and the token
  it returns is already expired: no authenticator accepts it.
\<close>

theorem oversized_ttl_mints_expired_token:
  assumes "jwt_rejects J now" and "mint_ttl_secs req = Some ttl"
    and "0 \<le> sint now" and "sint now < 2 ^ 62" and "2 ^ 63 \<le> sint now + sint ttl"
    and "mint_token J au now req = Ok (code, t, c)"
  shows "code = 201 \<and> sint (exp c) < 0 \<and> \<not> is_ok (static_validate J b t)"
proof -
  let ?c = "claims_agent now (mint_agent_id req) (mint_user req) ttl (auth_issuer au)"
  from assms(2,6) have c: "code = 201" "c = ?c" and t: "jwt_encode J (signing_key au) c = Ok t"
    by (auto simp: mint_token_def Let_def res_bind_Ok unwrap_or_def static_mint_Ok split: if_splits)
  have e: "sint (now + ttl) = sint now + sint ttl - 2 ^ 64"
    using sint_add_overflow assms(3-5) by blast
  with assms(3,4) sint_less [of ttl] have neg: "sint (exp c) + 60 < sint now" "sint (exp c) < 0"
    by (simp_all add: c)
  with assms(1) t have "\<not> is_ok (jwt_decode J (signing_key b) (auth_issuer b) t)"
    unfolding jwt_rejects_def by blast
  then have "\<not> is_ok (static_validate J b t)"
    by (auto simp: static_validate_def split: result.splits)
  with c neg show ?thesis by simp
qed

theorem oversized_ttl_mints_expired_token_witness:
  "\<exists>c. mint_token demo_jwt \<lparr>signing_key = ''k'', auth_issuer = ''overacp''\<rparr> 1000
       \<lparr>mint_agent_id = 7, mint_user = None, mint_ttl_secs = Some (2 ^ 63 - 1)\<rparr> = Ok (201, ''old'', c)
     \<and> \<not> is_ok (static_validate demo_jwt \<lparr>signing_key = ''k'', auth_issuer = ''overacp''\<rparr> ''old'')"
proof -
  let ?a = "\<lparr>signing_key = ''k'', auth_issuer = ''overacp''\<rparr>"
  let ?r = "\<lparr>mint_agent_id = 7, mint_user = None, mint_ttl_secs = Some (2 ^ 63 - 1)\<rparr>"
  have m: "mint_token demo_jwt ?a 1000 ?r
      = Ok (201, ''old'', claims_agent 1000 7 None (2 ^ 63 - 1) ''overacp'')"
    by (simp add: mint_token_def unwrap_or_def static_mint_def demo_jwt_def claims_agent_def)
  from oversized_ttl_mints_expired_token [OF demo_jwt_laws(2) _ _ _ _ m, of "2 ^ 63 - 1" ?a] m
  show ?thesis by simp
qed

end
