(* ===== verification/Routes.thy ===== *)
theory Routes
  imports Rest_Api
begin

text \<open>
  The router and its authorization (\<^verbatim>\<open>server/src/routes.rs\<close>): the bearer-token
  middlewares, the tunnel's own gate, and \<open>serve\<close>, one whole request through middleware and
  handler.

  Matching a path against the declared routes, decoding the path parameter and decoding the
  body are the web framework's: a request carries their results, and \<open>extracted\<close> states
  what the framework documents about them. The UUID parser is a parameter.
\<close>

subsection \<open>Requests and replies\<close>

datatype route =
    Healthz
  | Tunnel_Upgrade
  | List_Agents
  | Describe_Agent
  | Disconnect_Agent
  | Mint_Token
  | Send_Message
  | Stream_Events
  | Cancel_Turn

text \<open>
  \<open>authorization\<close> is the header as \<^verbatim>\<open>HeaderValue::to_str\<close> gives it, \<open>path_id\<close> the
  decoded path parameter.
\<close>

record request =
  req_route :: route
  req_path :: string
  authorization :: "string option"
  query_token :: "string option"
  path_id :: "uuid option"
  message_body :: "send_message_request option"
  mint_body :: "mint_request option"

datatype 'rx reply =
    RText nat string
  | RRejected
  | RError nat json
  | RStatus nat
  | RAgents "agent_description list"
  | RAgent agent_description
  | RDelivery nat delivery
  | RStream 'rx
  | RToken nat string claims
  | RUpgrade claims

datatype tunnel_auth_rejection = MissingToken | InvalidToken | WrongRole | AgentMismatch

subsection \<open>Token checks\<close>

type_synonym validator = "string \<Rightarrow> (claims, auth_error) result"

definition bearer :: "string option \<Rightarrow> string option" where
  "bearer auth = Option.bind auth (strip_prefix ''Bearer '')"

definition validate_bearer :: "validator \<Rightarrow> string option \<Rightarrow> (claims, 'rx reply) result" where
  "validate_bearer V auth =
     (case bearer auth of
        None \<Rightarrow> Err (RText 401 ''missing bearer token'')
      | Some token \<Rightarrow> res_map_err (\<lambda>_. RText 401 ''invalid token'') (V token))"

text \<open>\<open>next\<close> is the rest of the stack: the reply and the state it leaves.\<close>

definition require_admin :: "validator \<Rightarrow> request \<Rightarrow> 's \<Rightarrow> 'rx reply \<times> 's \<Rightarrow> 'rx reply \<times> 's" where
  "require_admin V req st nxt =
     (case validate_bearer V (authorization req) of
        Err resp \<Rightarrow> (resp, st)
      | Ok c \<Rightarrow> if \<not> is_admin c then (RText 403 ''admin role required'', st) else nxt)"

definition path_agent_id :: "(string \<Rightarrow> uuid option) \<Rightarrow> string \<Rightarrow> uuid option" where
  "path_agent_id parse_uuid path =
     Option.bind (strip_prefix ''/agents/'' path) (\<lambda>rest. parse_uuid (hd (split_on (CHR ''/'') rest)))"

definition require_agent_or_admin ::
    "(string \<Rightarrow> uuid option) \<Rightarrow> validator \<Rightarrow> request \<Rightarrow> 's \<Rightarrow> 'rx reply \<times> 's \<Rightarrow> 'rx reply \<times> 's" where
  "require_agent_or_admin parse_uuid V req st nxt =
     (case validate_bearer V (authorization req) of
        Err resp \<Rightarrow> (resp, st)
      | Ok c \<Rightarrow>
          if is_admin c then nxt
          else if \<not> is_agent c then (RText 403 ''admin or agent role required'', st)
          else (case path_agent_id parse_uuid (req_path req) of
              Some i \<Rightarrow> if i = sub c then nxt else (RText 403 ''token agent mismatch'', st)
            | None \<Rightarrow> (RText 403 ''admin role required for this route'', st)))"

definition extract_bearer_token :: "string option \<Rightarrow> string option \<Rightarrow> string option" where
  "extract_bearer_token auth query = (case bearer auth of Some t \<Rightarrow> Some t | None \<Rightarrow> query)"

fun rejection_response :: "tunnel_auth_rejection \<Rightarrow> 'rx reply" where
  "rejection_response MissingToken = RText 401 ''missing token''"
| "rejection_response InvalidToken = RText 401 ''invalid token''"
| "rejection_response WrongRole = RText 403 ''agent role required''"
| "rejection_response AgentMismatch = RText 403 ''token agent mismatch''"

definition authorize_tunnel ::
    "validator \<Rightarrow> uuid \<Rightarrow> string option \<Rightarrow> (claims, tunnel_auth_rejection) result" where
  "authorize_tunnel V agent_id tok =
     (case tok of
        None \<Rightarrow> Err MissingToken
      | Some token \<Rightarrow>
          res_bind (res_map_err (\<lambda>_. InvalidToken) (V token))
            (\<lambda>c. if \<not> is_agent c then Err WrongRole
                 else if sub c \<noteq> agent_id then Err AgentMismatch
                 else Ok c))"

definition tunnel_upgrade :: "validator \<Rightarrow> uuid \<Rightarrow> request \<Rightarrow> 'rx reply" where
  "tunnel_upgrade V agent_id req =
     (case authorize_tunnel V agent_id (extract_bearer_token (authorization req) (query_token req)) of
        Ok c \<Rightarrow> RUpgrade c
      | Err rej \<Rightarrow> rejection_response rej)"

subsection \<open>One request\<close>

definition error_reply :: "api_error \<Rightarrow> 'rx reply" where
  "error_reply e = (case api_error_response e of (code, body) \<Rightarrow> RError code body)"

record ('tx, 'ch, 'rx, 'w, 'bw) environment =
  env_serde :: serde
  env_parse_uuid :: "string \<Rightarrow> uuid option"
  env_show_uuid :: "uuid \<Rightarrow> string"
  env_send :: "('tx, 'w) sender"
  env_broadcast :: "('ch, 'rx, 'bw) broadcast_lib"
  env_instant :: nat
  env_clock :: i64

definition with_id :: "request \<Rightarrow> 's \<Rightarrow> (uuid \<Rightarrow> 'rx reply \<times> 's) \<Rightarrow> 'rx reply \<times> 's" where
  "with_id req st f = (case path_id req of None \<Rightarrow> (RRejected, st) | Some i \<Rightarrow> f i)"

text \<open>The handlers behind the middleware, with their extractors.\<close>

definition handler ::
    "'je jwt_lib \<Rightarrow> static_jwt_authenticator \<Rightarrow> ('tx, 'ch, 'rx, 'w, 'bw) environment \<Rightarrow> request
      \<Rightarrow> ('tx, 'ch, 'w, 'bw, 'h) app_state \<Rightarrow> 'rx reply \<times> ('tx, 'ch, 'w, 'bw, 'h) app_state" where
  "handler J au E req st =
     (case req_route req of
        Healthz \<Rightarrow> (RText 200 ''ok'', st)
      | Tunnel_Upgrade \<Rightarrow> with_id req st (\<lambda>i. (tunnel_upgrade (static_validate J au) i req, st))
      | List_Agents \<Rightarrow> (case list_agents (env_instant E) st of
            Ok ds \<Rightarrow> (RAgents ds, st) | Err e \<Rightarrow> (error_reply e, st))
      | Describe_Agent \<Rightarrow> with_id req st (\<lambda>i.
          case describe_agent (env_show_uuid E) (env_instant E) st i of
            Ok d \<Rightarrow> (RAgent d, st) | Err e \<Rightarrow> (error_reply e, st))
      | Disconnect_Agent \<Rightarrow> with_id req st (\<lambda>i.
          case disconnect_agent (env_show_uuid E) (env_instant E) st i of
            (Ok code, st') \<Rightarrow> (RStatus code, st') | (Err e, st') \<Rightarrow> (error_reply e, st'))
      | Mint_Token \<Rightarrow> (case mint_body req of
            None \<Rightarrow> (RRejected, st)
          | Some b \<Rightarrow> (case mint_token J au (env_clock E) b of
                Ok (code, t, c) \<Rightarrow> (RToken code t c, st) | Err e \<Rightarrow> (error_reply e, st)))
      | Send_Message \<Rightarrow> with_id req st (\<lambda>i. case message_body req of
            None \<Rightarrow> (RRejected, st)
          | Some b \<Rightarrow>
              (case send_message (env_serde E) (env_show_uuid E) (env_send E) st i b of
                 (Ok (code, d), st') \<Rightarrow> (RDelivery code d, st') | (Err e, st') \<Rightarrow> (error_reply e, st')))
      | Stream_Events \<Rightarrow> with_id req st (\<lambda>i.
          case stream_events (env_broadcast E) st i of (rx, st') \<Rightarrow> (RStream rx, st'))
      | Cancel_Turn \<Rightarrow> with_id req st (\<lambda>i.
          case cancel_turn (env_serde E) (env_send E) st i of
            (Ok code, st') \<Rightarrow> (RStatus code, st') | (Err e, st') \<Rightarrow> (error_reply e, st')))"

fun admin_only :: "route \<Rightarrow> bool" where
  "admin_only r = (r \<in> {List_Agents, Describe_Agent, Disconnect_Agent, Mint_Token})"

fun agent_scoped :: "route \<Rightarrow> bool" where
  "agent_scoped r = (r \<in> {Send_Message, Stream_Events, Cancel_Turn})"

definition serve ::
    "'je jwt_lib \<Rightarrow> static_jwt_authenticator \<Rightarrow> ('tx, 'ch, 'rx, 'w, 'bw) environment \<Rightarrow> request
      \<Rightarrow> ('tx, 'ch, 'w, 'bw, 'h) app_state \<Rightarrow> 'rx reply \<times> ('tx, 'ch, 'w, 'bw, 'h) app_state" where
  "serve J au E req st =
     (if admin_only (req_route req)
      then require_admin (static_validate J au) req st (handler J au E req st)
      else if agent_scoped (req_route req)
      then require_agent_or_admin (env_parse_uuid E) (static_validate J au) req st (handler J au E req st)
      else handler J au E req st)"

text \<open>
  What the framework documents: a scoped request's path is the declared one with one segment in
  place of the parameter, and the decoded parameter is the UUID that segment names once
  percent-decoded. A string that parses as a UUID has no slash and nothing to decode.
\<close>

fun route_suffix :: "route \<Rightarrow> string" where
  "route_suffix Send_Message = ''/messages''"
| "route_suffix Stream_Events = ''/stream''"
| "route_suffix Cancel_Turn = ''/cancel''"
| "route_suffix _ = ''''"

definition extracted ::
    "(string \<Rightarrow> uuid option) \<Rightarrow> (string \<Rightarrow> string option) \<Rightarrow> request \<Rightarrow> bool" where
  "extracted parse_uuid percent_decode req \<longleftrightarrow>
     (\<exists>seg. req_path req = ''/agents/'' @ seg @ route_suffix (req_route req) \<and> CHR ''/'' \<notin> set seg
        \<and> path_id req = Option.bind (percent_decode seg) parse_uuid)
     \<and> (\<forall>s u. parse_uuid s = Some u \<longrightarrow> percent_decode s = Some s)"

subsection \<open>Lemmas\<close>

lemma split_on_hd: "CHR ''/'' \<notin> set seg \<Longrightarrow> hd (split_on (CHR ''/'') (seg @ CHR ''/'' # rest)) = seg"
  by (induction seg) (auto split: list.splits)

text \<open>The id the middleware compares is the id the handler acts on.\<close>

lemma path_agent_id_extracted:
  assumes "extracted parse_uuid percent_decode req" and "agent_scoped (req_route req)"
    and "path_agent_id parse_uuid (req_path req) = Some i"
  shows "path_id req = Some i"
proof -
  from assms(1) obtain seg where
    seg: "req_path req = ''/agents/'' @ seg @ route_suffix (req_route req)" "CHR ''/'' \<notin> set seg"
      "path_id req = Option.bind (percent_decode seg) parse_uuid"
    and pct: "\<And>s u. parse_uuid s = Some u \<Longrightarrow> percent_decode s = Some s"
    by (auto simp: extracted_def)
  from assms(2) obtain rest where "route_suffix (req_route req) = CHR ''/'' # rest"
    by (cases "req_route req") auto
  with seg(1,2) assms(3) have p: "parse_uuid seg = Some i"
    by (simp only: path_agent_id_def strip_prefix_append Option.bind.simps split_on_hd simp_thms)
  with pct [OF p] seg(3) show ?thesis by simp
qed

text \<open>Which requests the middleware lets through.\<close>

definition authorized ::
    "'je jwt_lib \<Rightarrow> static_jwt_authenticator \<Rightarrow> (string \<Rightarrow> uuid option) \<Rightarrow> request \<Rightarrow> bool" where
  "authorized J au parse_uuid req \<longleftrightarrow>
     (case bearer (authorization req) of
        None \<Rightarrow> False
      | Some t \<Rightarrow> (case static_validate J au t of
            Err _ \<Rightarrow> False
          | Ok c \<Rightarrow> is_admin c \<or> agent_scoped (req_route req) \<and> is_agent c
              \<and> path_agent_id parse_uuid (req_path req) = Some (sub c)))"

lemma broker_subscribe_other:
  assumes "broker_subscribe B b a w = (rx, b', w')" and "c \<noteq> a"
  shows "bus b' c = bus b c"
  using assms by (auto simp: broker_subscribe_def sender_for_def split: option.splits prod.splits)

text \<open>
  The difference between two states concerns one agent: the routing table is the same, no other
  agent's queue or bus changed, and no channel but the one routed for that agent.
\<close>

definition confined ::
    "('w \<Rightarrow> 'tx \<Rightarrow> string list) \<Rightarrow> uuid \<Rightarrow> ('tx, 'ch, 'w, 'bw, 'h) app_state
      \<Rightarrow> ('tx, 'ch, 'w, 'bw, 'h) app_state \<Rightarrow> bool" where
  "confined sent a st st' \<longleftrightarrow>
     registry st' = registry st
     \<and> (\<forall>b. b \<noteq> a \<longrightarrow> queue_frames (message_queue st') b = queue_frames (message_queue st) b
          \<and> bus (stream_broker st') b = bus (stream_broker st) b)
     \<and> (\<forall>u. registry_tunnel (registry st) a \<noteq> Some u \<longrightarrow> sent (channels st') u = sent (channels st) u)"

lemma confined_refl [simp]: "confined sent a st st"
  by (simp add: confined_def)

lemma live_tunnel_routed: "live_tunnel alive st a = Some t \<Longrightarrow> registry_tunnel (registry st) a = Some t"
  by (auto simp: live_tunnel_def bind_eq_Some_conv split: if_splits)

lemma send_message_confined:
  assumes laws: "mpsc_laws send alive sent"
  shows "confined sent a st (snd (send_message S U send st a req))"
proof (cases "msg_role req = []")
  case True
  then show ?thesis by (simp add: send_message_def)
next
  case False
  show ?thesis
  proof (cases "live_tunnel alive st a")
    case None
    show ?thesis
      by (rule send_message_queued [OF laws False None, of S U])
        (simp add: confined_def queue_push_frames(2))
  next
    case (Some t)
    show ?thesis
      by (rule send_message_live [OF laws False Some, of S U])
        (use live_tunnel_routed [OF Some] in \<open>auto simp: confined_def\<close>)
  qed
qed

lemma cancel_turn_confined:
  assumes laws: "mpsc_laws send alive sent"
  shows "confined sent a st (snd (cancel_turn S send st a))"
  using registry_deliver_cases(1) [OF laws, of st a _ "session_cancel_frame S"]
    registry_deliver_cases(2) [OF laws, of st a "session_cancel_frame S"]
  by (cases "live_tunnel alive st a") (auto simp: cancel_turn_def confined_def dest: live_tunnel_routed)

lemma stream_events_confined: "confined sent a st (snd (stream_events B st a))"
  by (auto simp: stream_events_def confined_def broker_subscribe_other split: prod.splits)

lemma handler_state:
  "req_route req = Send_Message \<Longrightarrow> path_id req = Some i \<Longrightarrow> snd (handler J au E req st) =
     (case message_body req of None \<Rightarrow> st
      | Some b \<Rightarrow> snd (send_message (env_serde E) (env_show_uuid E) (env_send E) st i b))"
  "req_route req = Stream_Events \<Longrightarrow> path_id req = Some i \<Longrightarrow>
     snd (handler J au E req st) = snd (stream_events (env_broadcast E) st i)"
  "req_route req = Cancel_Turn \<Longrightarrow> path_id req = Some i \<Longrightarrow>
     snd (handler J au E req st) = snd (cancel_turn (env_serde E) (env_send E) st i)"
  by (auto simp: handler_def with_id_def split: option.splits prod.splits result.splits)

lemma handler_open_state:
  "req_route req = Healthz \<or> req_route req = Tunnel_Upgrade \<Longrightarrow> snd (handler J au E req st) = st"
  by (auto simp: handler_def with_id_def split: option.splits)

subsection \<open>Properties\<close>

text \<open>
  C10: behind the middleware every REST route is served exactly to the tokens it is meant for.
  With a valid admin token, or with a valid agent token on an agent-scoped path that names the
  token's own agent, the request reaches its handler; any other request is refused with a 401,
  when it has no valid token, or a 403, and changes no server state.
\<close>

theorem request_authorization:
  assumes "req_route req \<noteq> Healthz" and "req_route req \<noteq> Tunnel_Upgrade"
  shows "if authorized J au (env_parse_uuid E) req then serve J au E req st = handler J au E req st
    else \<exists>msg. serve J au E req st =
      (RText (if Option.bind (bearer (authorization req)) (\<lambda>t. if is_ok (static_validate J au t) then Some () else None)
          = None then 401 else 403) msg, st)"
proof -
  have g: "admin_only (req_route req) \<noteq> agent_scoped (req_route req)"
    using assms by (cases "req_route req") auto
  show ?thesis
  proof (cases "bearer (authorization req)")
    case None
    with g show ?thesis
      by (auto simp: authorized_def serve_def require_admin_def require_agent_or_admin_def validate_bearer_def)
  next
    case (Some t)
    show ?thesis
    proof (cases "static_validate J au t")
      case (Err e)
      with g Some show ?thesis
        by (auto simp: authorized_def serve_def require_admin_def require_agent_or_admin_def validate_bearer_def)
    next
      case (Ok c)
      with sj.validated_admin_or_agent [OF Ok] g Some show ?thesis
        by (cases "path_agent_id (env_parse_uuid E) (req_path req)")
          (auto simp: authorized_def serve_def require_admin_def require_agent_or_admin_def validate_bearer_def)
    qed
  qed
qed

text \<open>A message for agent 7, posted with the token of agent 7.\<close>

definition demo_environment ::
    "(nat, nat, nat, world, nat \<times> (nat \<Rightarrow> string list)) environment" where
  "demo_environment =
     \<lparr>env_serde = demo_serde, env_parse_uuid = (\<lambda>s. if s = ''7'' then Some 7 else None),
      env_show_uuid = (\<lambda>_. ''7''), env_send = world_send, env_broadcast = demo_broadcast,
      env_instant = 5, env_clock = 1000\<rparr>"

definition demo_http_request :: request where
  "demo_http_request =
     \<lparr>req_route = Send_Message, req_path = ''/agents/7/messages'',
      authorization = Some ''Bearer tok'', query_token = None, path_id = Some 7,
      message_body = Some demo_request, mint_body = None\<rparr>"

definition demo_authenticator :: static_jwt_authenticator where
  "demo_authenticator = \<lparr>signing_key = ''k'', auth_issuer = ''overacp''\<rparr>"

lemma demo_request_bearer: "bearer (authorization demo_http_request) = Some ''tok''"
  by (simp add: demo_http_request_def bearer_def strip_prefix_def starts_with_def)

lemma demo_token_valid:
  "static_validate demo_jwt demo_authenticator ''tok'' = Ok (claims_agent 1000 7 None 60 ''overacp'')"
  by (simp add: static_validate_Ok demo_jwt_def demo_authenticator_def)

lemma demo_extracted: "extracted (env_parse_uuid demo_environment) Some demo_http_request"
  unfolding extracted_def
  by (intro conjI exI [of _ "''7''"]) (simp_all add: demo_environment_def demo_http_request_def)

theorem request_authorization_witness:
  "serve demo_jwt demo_authenticator demo_environment demo_http_request demo_state
     = handler demo_jwt demo_authenticator demo_environment demo_http_request demo_state"
proof -
  have "authorized demo_jwt demo_authenticator (env_parse_uuid demo_environment) demo_http_request"
    by (simp add: authorized_def demo_request_bearer demo_token_valid)
      (simp add: path_agent_id_def demo_environment_def demo_http_request_def strip_prefix_def starts_with_def)
  with request_authorization [of demo_http_request demo_jwt demo_authenticator demo_environment demo_state]
  show ?thesis by (simp add: demo_http_request_def)
qed



text \<open>
  A tunnel opens only for its own agent. The upgrade is granted if and only if the bearer
  token, or the query token when there is no bearer token, is valid, has the agent role and
  names the agent of the path; an admin token never opens a tunnel.
\<close>

theorem tunnel_opens_for_own_agent:
  "tunnel_upgrade (static_validate J au) a req = RUpgrade c \<longleftrightarrow>
     (\<exists>t. (bearer (authorization req) = Some t
            \<or> bearer (authorization req) = None \<and> query_token req = Some t)
        \<and> static_validate J au t = Ok c \<and> is_agent c \<and> \<not> is_admin c \<and> sub c = a)"
proof -
  have "authorize_tunnel (static_validate J au) a tok = Ok c \<longleftrightarrow>
      (\<exists>t. tok = Some t \<and> static_validate J au t = Ok c \<and> is_agent c \<and> sub c = a)" for tok
    by (cases tok) (auto simp: authorize_tunnel_def res_bind_Ok split: if_splits)
  moreover have "tunnel_upgrade (static_validate J au) a req = RUpgrade c \<longleftrightarrow>
      authorize_tunnel (static_validate J au) a (extract_bearer_token (authorization req) (query_token req)) = Ok c"
    unfolding tunnel_upgrade_def
    by (cases "authorize_tunnel (static_validate J au) a (extract_bearer_token (authorization req) (query_token req))")
      (auto elim: rejection_response.elims)
  moreover have "is_agent c \<Longrightarrow> \<not> is_admin c" using admin_not_agent by blast
  ultimately show ?thesis
    by (auto simp: extract_bearer_token_def split: option.splits)
qed

end
