(* ===== verification/Tunnel.thy ===== *)
theory Tunnel
  imports Routes
begin

text \<open>
  One agent connection (\<^verbatim>\<open>server/src/tunnel/run.rs\<close>) and the server as a whole in
  motion: connections that open, carry frames and end, REST calls that push messages, cancel,
  disconnect and subscribe, and channels that the runtime closes, in any order.

  \<open>run_tunnel\<close> is one connection from its acquisition to the drop of its lease.
  \<open>server_step\<close> interleaves the steps of many; it carries two histories, the channels
  opened for each agent and the messages accepted for it, which no step reads.
\<close>

definition PING_INTERVAL_SECS :: nat where "PING_INTERVAL_SECS = 20"

subsection \<open>One connection\<close>

datatype ws_event = WsText string | WsClose | WsOther | WsFailed

definition quoted :: "string \<Rightarrow> string" where
  "quoted s = CHR 0x22 # s"

definition fans_out :: "string \<Rightarrow> bool" where
  "fans_out frame \<longleftrightarrow>
     str_contains frame (quoted ''stream/'')
     \<or> str_contains frame (quoted ''turn/end'' @ [CHR 0x22])
     \<or> str_contains frame (quoted ''context/compacted'' @ [CHR 0x22])
     \<or> str_contains frame (quoted ''heartbeat'' @ [CHR 0x22])"

definition tunnel_publish ::
    "('tx, 'ch, 'rx, 'w, 'bw) environment \<Rightarrow> uuid \<Rightarrow> string
      \<Rightarrow> ('tx, 'ch, 'w, 'bw, 'h) app_state \<Rightarrow> ('tx, 'ch, 'w, 'bw, 'h) app_state" where
  "tunnel_publish E a frame st =
     (if fans_out frame then
        (case broker_publish (env_broadcast E) (stream_broker st) a frame (buses st) of
           (b, bw) \<Rightarrow> st\<lparr>stream_broker := b, buses := bw\<rparr>)
      else st)"

text \<open>One text frame from the agent: touch, fan out, dispatch, answer on the connection's own channel.\<close>

definition tunnel_text ::
    "('tx, 'ch, 'rx, 'w, 'bw) environment \<Rightarrow> 'h hooks \<Rightarrow> nat \<Rightarrow> claims \<Rightarrow> 'tx \<Rightarrow> string
      \<Rightarrow> ('tx, 'ch, 'w, 'bw, 'h) app_state \<Rightarrow> ('tx, 'ch, 'w, 'bw, 'h) app_state" where
  "tunnel_text E H now c local_tx frame st =
     (let st1 = st\<lparr>registry := registry_touch now (registry st) (sub c)\<rparr>;
          st2 = tunnel_publish E (sub c) frame st1
      in case handle_message (env_serde E) H c frame (operator_state st2) of
           (None, h) \<Rightarrow> st2\<lparr>operator_state := h\<rparr>
         | (Some response, h) \<Rightarrow>
             st2\<lparr>operator_state := h, channels := snd (env_send E local_tx response (channels st2))\<rparr>)"

fun tunnel_read ::
    "('tx, 'ch, 'rx, 'w, 'bw) environment \<Rightarrow> 'h hooks \<Rightarrow> claims \<Rightarrow> 'tx \<Rightarrow> (nat \<times> ws_event) list
      \<Rightarrow> ('tx, 'ch, 'w, 'bw, 'h) app_state \<Rightarrow> ('tx, 'ch, 'w, 'bw, 'h) app_state" where
  "tunnel_read E H c local_tx [] st = st"
| "tunnel_read E H c local_tx ((now, ev) # evs) st =
     (case ev of
        WsText frame \<Rightarrow> tunnel_read E H c local_tx evs (tunnel_text E H now c local_tx frame st)
      | WsOther \<Rightarrow> tunnel_read E H c local_tx evs st
      | WsClose \<Rightarrow> st
      | WsFailed \<Rightarrow> st)"

text \<open>Acquire the lease, then move what was buffered to the new channel.\<close>

definition tunnel_open ::
    "('tx, 'ch, 'rx, 'w, 'bw) environment \<Rightarrow> nat \<Rightarrow> claims \<Rightarrow> 'tx
      \<Rightarrow> ('tx, 'ch, 'w, 'bw, 'h) app_state
      \<Rightarrow> tunnel_lease option \<times> ('tx, 'ch, 'w, 'bw, 'h) app_state" where
  "tunnel_open E now c t st =
     (case registry_acquire now (registry st) (sub c) t c of
        (Err _, reg) \<Rightarrow> (None, st\<lparr>registry := reg\<rparr>)
      | (Ok lease, reg) \<Rightarrow>
          (case queue_drain (message_queue st) (sub c) of
             (buffered, q) \<Rightarrow> (Some lease, st\<lparr>registry := reg, message_queue := q,
                channels := send_all (env_send E) t buffered (channels st)\<rparr>)))"

definition tunnel_close ::
    "nat \<Rightarrow> tunnel_lease \<Rightarrow> ('tx, 'ch, 'w, 'bw, 'h) app_state \<Rightarrow> ('tx, 'ch, 'w, 'bw, 'h) app_state" where
  "tunnel_close now lease st = st\<lparr>registry := lease_drop now (registry st) lease\<rparr>"

definition run_tunnel ::
    "('tx, 'ch, 'rx, 'w, 'bw) environment \<Rightarrow> 'h hooks \<Rightarrow> nat \<Rightarrow> nat \<Rightarrow> claims \<Rightarrow> 'tx
      \<Rightarrow> (nat \<times> ws_event) list \<Rightarrow> ('tx, 'ch, 'w, 'bw, 'h) app_state
      \<Rightarrow> ('tx, 'ch, 'w, 'bw, 'h) app_state" where
  "run_tunnel E H start finish c t evs st =
     (case tunnel_open E start c t st of
        (None, st') \<Rightarrow> st'
      | (Some lease, st') \<Rightarrow> tunnel_close finish lease (tunnel_read E H c t evs st'))"

subsection \<open>The server in motion\<close>

record ('tx, 'ch, 'w, 'bw, 'h) server =
  app :: "('tx, 'ch, 'w, 'bw, 'h) app_state"
  opened :: "uuid \<Rightarrow> 'tx list"
  accepted :: "uuid \<Rightarrow> string list"

inductive server_step ::
    "('tx, 'ch, 'rx, 'w, 'bw) environment \<Rightarrow> 'h hooks \<Rightarrow> ('w \<Rightarrow> 'tx \<Rightarrow> bool) \<Rightarrow> ('w \<Rightarrow> 'tx \<Rightarrow> string list)
      \<Rightarrow> ('tx, 'ch, 'w, 'bw, 'h) server \<Rightarrow> ('tx, 'ch, 'w, 'bw, 'h) server \<Rightarrow> bool"
  for E H alive sent where
  Open: "(\<forall>a. t \<notin> set (opened s a)) \<Longrightarrow> alive (channels (app s)) t \<Longrightarrow> sent (channels (app s)) t = []
    \<Longrightarrow> server_step E H alive sent s
      (s\<lparr>app := snd (tunnel_open E now c t (app s)),
         opened := (opened s)(sub c := opened s (sub c) @ [t])\<rparr>)"
| Read: "t \<in> set (opened s (sub c))
    \<Longrightarrow> server_step E H alive sent s (s\<lparr>app := tunnel_text E H now c t frame (app s)\<rparr>)"
| Close: "server_step E H alive sent s (s\<lparr>app := tunnel_close now lease (app s)\<rparr>)"
| Post: "send_message (env_serde E) (env_show_uuid E) (env_send E) (app s) a req = (r, st')
    \<Longrightarrow> server_step E H alive sent s
      (s\<lparr>app := st', accepted := (if is_ok r
          then (accepted s)(a := accepted s a @ [session_message_frame (env_serde E) req])
          else accepted s)\<rparr>)"
| Cancel: "server_step E H alive sent s
      (s\<lparr>app := snd (cancel_turn (env_serde E) (env_send E) (app s) a)\<rparr>)"
| Disconnect: "server_step E H alive sent s
      (s\<lparr>app := snd (disconnect_agent (env_show_uuid E) now (app s) a)\<rparr>)"
| Subscribe: "server_step E H alive sent s
      (s\<lparr>app := snd (stream_events (env_broadcast E) (app s) a)\<rparr>)"
| Hangup: "sent w = sent (channels (app s)) \<Longrightarrow> (\<forall>t. alive w t \<longrightarrow> alive (channels (app s)) t)
    \<Longrightarrow> server_step E H alive sent s (s\<lparr>app := (app s)\<lparr>channels := w\<rparr>\<rparr>)"

inductive_cases server_stepE: "server_step E H alive sent s s'"

definition server_init ::
    "'w \<Rightarrow> 'bw \<Rightarrow> 'h \<Rightarrow> ('tx, 'ch, 'w, 'bw, 'h) server" where
  "server_init w bw h =
     \<lparr>app = app_state_new w bw h, opened = (\<lambda>_. []), accepted = (\<lambda>_. [])\<rparr>"

definition server_reachable ::
    "('tx, 'ch, 'rx, 'w, 'bw) environment \<Rightarrow> 'h hooks \<Rightarrow> ('w \<Rightarrow> 'tx \<Rightarrow> bool) \<Rightarrow> ('w \<Rightarrow> 'tx \<Rightarrow> string list)
      \<Rightarrow> ('tx, 'ch, 'w, 'bw, 'h) server \<Rightarrow> bool" where
  "server_reachable E H alive sent s \<longleftrightarrow>
     (\<exists>w bw h. (server_step E H alive sent)\<^sup>*\<^sup>* (server_init w bw h) s)"

subsection \<open>Messages among frames\<close>

text \<open>
  What the JSON library documents and the history of accepted messages needs: a printed object
  parses, and its string-valued method is the one that was printed.
\<close>

definition print_laws :: "serde \<Rightarrow> bool" where
  "print_laws S \<longleftrightarrow>
     (\<forall>kvs. distinct (map fst kvs) \<longrightarrow>
        (\<exists>v. parse_json S (print_json S (JObject kvs)) = Some v
           \<and> (\<forall>m. json_get ''method'' v = Some (JString m)
                \<longleftrightarrow> map_of kvs ''method'' = Some (JString m))))"

definition is_message :: "serde \<Rightarrow> string \<Rightarrow> bool" where
  "is_message S frame \<longleftrightarrow>
     (case parse_json S frame of
        None \<Rightarrow> False
      | Some v \<Rightarrow> json_get ''method'' v = Some (JString ''session/message''))"

definition delivered_messages ::
    "serde \<Rightarrow> ('w \<Rightarrow> 'tx \<Rightarrow> string list) \<Rightarrow> ('tx, 'ch, 'w, 'bw, 'h) server \<Rightarrow> uuid \<Rightarrow> string list" where
  "delivered_messages S sent s a =
     concat (map (\<lambda>t. filter (is_message S) (sent (channels (app s)) t)) (opened s a))"

definition server_inv ::
    "serde \<Rightarrow> ('w \<Rightarrow> 'tx \<Rightarrow> bool) \<Rightarrow> ('w \<Rightarrow> 'tx \<Rightarrow> string list)
      \<Rightarrow> ('tx, 'ch, 'w, 'bw, 'h) server \<Rightarrow> bool" where
  "server_inv S alive sent s \<longleftrightarrow>
     (\<forall>a. distinct (opened s a))
     \<and> (\<forall>a b t. t \<in> set (opened s a) \<longrightarrow> t \<in> set (opened s b) \<longrightarrow> a = b)
     \<and> (\<forall>a t. registry_tunnel (registry (app s)) a = Some t \<longrightarrow> (\<exists>ts. opened s a = ts @ [t]))
     \<and> (\<forall>a. live_tunnel alive (app s) a \<noteq> None \<longrightarrow> queue_frames (message_queue (app s)) a = [])
     \<and> (\<forall>a. \<forall>f \<in> set (queue_frames (message_queue (app s)) a). is_message S f)
     \<and> (\<forall>a. delivered_messages S sent s a @ queue_frames (message_queue (app s)) a = accepted s a)"

lemma print_laws_object:
  assumes "print_laws S" and "distinct (map fst kvs)"
  shows "is_message S (print_json S (JObject kvs)) \<longleftrightarrow> map_of kvs ''method'' = Some (JString ''session/message'')"
  using assms by (fastforce simp: print_laws_def is_message_def)

lemma frame_kinds:
  assumes "print_laws S"
  shows "is_message S (session_message_frame S req)"
    and "\<not> is_message S (session_cancel_frame S)"
    and "\<not> is_message S (jsonrpc_response S i r)"
proof -
  show "is_message S (session_message_frame S req)" "\<not> is_message S (session_cancel_frame S)"
    unfolding session_message_frame_def session_cancel_frame_def
    by (simp_all add: print_laws_object [OF assms])
  show "\<not> is_message S (jsonrpc_response S i r)"
    unfolding jsonrpc_response_def response_value_def
    by (auto simp: print_laws_object [OF assms] split: result.splits)
qed

lemma handle_message_response:
  assumes "handle_message S H c frame h = (Some resp, h')"
  obtains i r where "resp = jsonrpc_response S i r"
proof -
  from handle_message_shape [of S frame H c h] assms obtain v m i where
    v: "parse_json S frame = Some v" "json_get ''method'' v = Some (JString m)"
    and i: "json_get ''id'' v = Some i"
    by auto
  from assms i that show thesis
    by (auto simp: handle_message_cases [OF v] split: option.splits if_splits)
qed

subsection \<open>What each step leaves unchanged\<close>

text \<open>
  A step that opens no tunnel, accepts no message and adds no message to a channel: it may drop
  routing entries, close channels and send other frames.
\<close>

definition quiet ::
    "serde \<Rightarrow> ('w \<Rightarrow> 'tx \<Rightarrow> bool) \<Rightarrow> ('w \<Rightarrow> 'tx \<Rightarrow> string list)
      \<Rightarrow> ('tx, 'ch, 'w, 'bw, 'h) app_state \<Rightarrow> ('tx, 'ch, 'w, 'bw, 'h) app_state \<Rightarrow> bool" where
  "quiet S alive sent st st' \<longleftrightarrow>
     (\<forall>a t. registry_tunnel (registry st') a = Some t \<longrightarrow> registry_tunnel (registry st) a = Some t)
     \<and> queue_frames (message_queue st') = queue_frames (message_queue st)
     \<and> (\<forall>t. filter (is_message S) (sent (channels st') t) = filter (is_message S) (sent (channels st) t))
     \<and> (\<forall>t. alive (channels st') t \<longrightarrow> alive (channels st) t)"

lemma live_tunnel_Some:
  "live_tunnel alive st a = Some t \<longleftrightarrow>
     registry_tunnel (registry st) a = Some t \<and> alive (channels st) t"
  by (auto simp: live_tunnel_def bind_eq_Some_conv)

lemma quiet_inv:
  assumes q: "quiet S alive sent (app s) st'" and inv: "server_inv S alive sent s"
  shows "server_inv S alive sent (s\<lparr>app := st'\<rparr>)"
proof -
  have "live_tunnel alive st' a \<noteq> None \<Longrightarrow> live_tunnel alive (app s) a \<noteq> None" for a
    using q unfolding quiet_def not_None_eq live_tunnel_Some by blast
  moreover have "delivered_messages S sent (s\<lparr>app := st'\<rparr>) a = delivered_messages S sent s a" for a
    using q by (simp add: delivered_messages_def quiet_def)
  ultimately show ?thesis using q inv unfolding server_inv_def quiet_def by simp
qed

lemma send_quiet:
  assumes "mpsc_laws send alive sent" and "\<not> is_message S f"
  shows "filter (is_message S) (sent (snd (send t f w)) u) = filter (is_message S) (sent w u)"
    and "alive (snd (send t f w)) = alive w"
  using assms by (auto simp: mpsc_laws_def)

lemma tunnel_publish_sel [simp]:
  "registry (tunnel_publish E a f st) = registry st"
  "message_queue (tunnel_publish E a f st) = message_queue st"
  "channels (tunnel_publish E a f st) = channels st"
  "operator_state (tunnel_publish E a f st) = operator_state st"
  by (simp_all add: tunnel_publish_def split: prod.splits)

lemma tunnel_text_quiet:
  assumes laws: "mpsc_laws (env_send E) alive sent" "print_laws (env_serde E)"
  shows "quiet (env_serde E) alive sent st (tunnel_text E H now c t f st)"
proof (cases "handle_message (env_serde E) H c f (operator_state st)")
  case (Pair resp h)
  show ?thesis
  proof (cases resp)
    case None
    with Pair show ?thesis by (simp add: tunnel_text_def quiet_def ar.touch_routes)
  next
    case (Some r)
    with Pair handle_message_response obtain i x where "r = jsonrpc_response (env_serde E) i x"
      by metis
    with frame_kinds(3) [OF laws(2)] have "\<not> is_message (env_serde E) r" by simp
    with Pair Some send_quiet [OF laws(1) this] show ?thesis
      by (simp add: tunnel_text_def quiet_def ar.touch_routes)
  qed
qed

lemma lease_drop_routes:
  "registry_tunnel (lease_drop now reg (TunnelLease a)) = (registry_tunnel reg)(a := None)"
  using ar.disconnect_routes [of now reg a] by (simp add: registry_disconnect_def)

lemma tunnel_close_quiet: "quiet S alive sent st (tunnel_close now lease st)"
  by (cases lease) (simp add: quiet_def tunnel_close_def lease_drop_routes del: lease_drop.simps)

lemma disconnect_quiet: "quiet S alive sent st (snd (disconnect_agent U now st a))"
  by (simp add: quiet_def disconnect_agent_def ar.disconnect_routes)

lemma subscribe_quiet: "quiet S alive sent st (snd (stream_events B st a))"
  by (simp add: quiet_def stream_events_def split: prod.splits)

lemma cancel_quiet:
  assumes "mpsc_laws send alive sent" and "print_laws S"
  shows "quiet S alive sent st (snd (cancel_turn S send st a))"
proof -
  have "\<not> is_message S (session_cancel_frame S)" by (rule frame_kinds(2) [OF assms(2)])
  then show ?thesis
    using registry_deliver_cases(1) [OF assms(1), of st a _ "session_cancel_frame S"]
      registry_deliver_cases(2,3) [OF assms(1), of st a "session_cancel_frame S"]
    by (cases "live_tunnel alive st a") (auto simp: quiet_def cancel_turn_def)
qed

subsection \<open>Steps that move messages\<close>

lemma server_inv_live:
  assumes "server_inv S alive sent s" and "live_tunnel alive (app s) a = Some t"
  obtains ts where "opened s a = ts @ [t]" "t \<notin> set ts"
    "queue_frames (message_queue (app s)) a = []" "\<And>b. t \<in> set (opened s b) \<Longrightarrow> b = a"
proof -
  from assms(2) have "registry_tunnel (registry (app s)) a = Some t" by (simp add: live_tunnel_Some)
  with assms(1) obtain ts where ts: "opened s a = ts @ [t]" unfolding server_inv_def by blast
  from assms(1) have d: "distinct (opened s a)" and q: "live_tunnel alive (app s) a \<noteq> None \<Longrightarrow>
      queue_frames (message_queue (app s)) a = []"
    and u: "\<And>b. t \<in> set (opened s b) \<Longrightarrow> t \<in> set (opened s a) \<Longrightarrow> b = a"
    unfolding server_inv_def by blast+
  from d ts have "t \<notin> set ts" by simp
  moreover from u ts have "\<And>b. t \<in> set (opened s b) \<Longrightarrow> b = a" by simp
  ultimately show thesis using that ts q assms(2) by simp
qed

lemma inv_accepted:
  "server_inv S alive sent s \<Longrightarrow>
     delivered_messages S sent s a @ queue_frames (message_queue (app s)) a = accepted s a"
  by (simp add: server_inv_def)

lemma concat_map_update:
  assumes "t \<notin> set ts"
  shows "concat (map (\<lambda>u. f (if u = t then x else g u)) ts) = concat (map (\<lambda>u. f (g u)) ts)"
  using assms by (induction ts) auto

lemma post_live_inv:
  assumes inv: "server_inv S alive sent s" and l: "live_tunnel alive (app s) a = Some t"
    and f: "is_message S f" and w: "sent w = (sent (channels (app s)))(t := sent (channels (app s)) t @ [f])"
    "alive w = alive (channels (app s))"
  shows "server_inv S alive sent (s\<lparr>app := (app s)\<lparr>channels := w\<rparr>,
    accepted := (accepted s)(a := accepted s a @ [f])\<rparr>)"
proof -
  let ?s = "s\<lparr>app := (app s)\<lparr>channels := w\<rparr>, accepted := (accepted s)(a := accepted s a @ [f])\<rparr>"
  from server_inv_live [OF inv l] obtain ts where ts: "opened s a = ts @ [t]" "t \<notin> set ts"
    "queue_frames (message_queue (app s)) a = []" "\<And>b. t \<in> set (opened s b) \<Longrightarrow> b = a"
    by metis
  have lt: "live_tunnel alive (app ?s) b = live_tunnel alive (app s) b" for b
    by (simp add: live_tunnel_def w)
  have "delivered_messages S sent ?s a = delivered_messages S sent s a @ [f]"
    using ts f by (simp add: delivered_messages_def w concat_map_update)
  moreover have "delivered_messages S sent ?s b = delivered_messages S sent s b" if "b \<noteq> a" for b
  proof -
    have "t \<notin> set (opened s b)" using ts(4) that by blast
    then show ?thesis by (simp add: delivered_messages_def w concat_map_update)
  qed
  ultimately have "delivered_messages S sent ?s b @ queue_frames (message_queue (app s)) b = accepted ?s b" for b
    using inv_accepted [OF inv, of b] ts(3) by (cases "b = a") auto
  then show ?thesis using inv lt unfolding server_inv_def by simp
qed

lemma post_queued_inv:
  assumes inv: "server_inv S alive sent s" and l: "live_tunnel alive (app s) a = None"
    and f: "is_message S f" and w: "sent w = sent (channels (app s))" "alive w = alive (channels (app s))"
    and q: "queue_frames q = (queue_frames (message_queue (app s)))
      (a := queue_frames (message_queue (app s)) a @ [f])"
  shows "server_inv S alive sent (s\<lparr>app := (app s)\<lparr>channels := w, message_queue := q\<rparr>,
    accepted := (accepted s)(a := accepted s a @ [f])\<rparr>)"
proof -
  let ?s = "s\<lparr>app := (app s)\<lparr>channels := w, message_queue := q\<rparr>,
    accepted := (accepted s)(a := accepted s a @ [f])\<rparr>"
  have lt: "live_tunnel alive (app ?s) b = live_tunnel alive (app s) b" for b
    by (simp add: live_tunnel_def w)
  have d: "delivered_messages S sent ?s b = delivered_messages S sent s b" for b
    by (simp add: delivered_messages_def w)
  have "delivered_messages S sent ?s b @ queue_frames q b = accepted ?s b" for b
    using inv by (cases "b = a") (auto simp: server_inv_def d q)
  moreover have "live_tunnel alive (app ?s) b \<noteq> None \<longrightarrow> queue_frames q b = []" for b
    using inv l unfolding lt by (cases "b = a") (auto simp: server_inv_def q)
  moreover have "\<forall>g \<in> set (queue_frames q b). is_message S g" for b
    using inv f by (cases "b = a") (auto simp: server_inv_def q)
  ultimately show ?thesis using inv unfolding server_inv_def by simp
qed

lemma post_inv:
  assumes laws: "mpsc_laws send alive sent" "print_laws S" and inv: "server_inv S alive sent s"
    and r: "send_message S U send (app s) a req = (r, st')"
  shows "server_inv S alive sent (s\<lparr>app := st', accepted := (if is_ok r
      then (accepted s)(a := accepted s a @ [session_message_frame S req]) else accepted s)\<rparr>)"
proof (cases "msg_role req = []")
  case True
  with r inv show ?thesis by (auto simp: send_message_def)
next
  case False
  let ?q = "snd (queue_push (message_queue (app s)) a (session_message_frame S req))"
  note f = frame_kinds(1) [OF laws(2)]
  show ?thesis
  proof (cases "live_tunnel alive (app s) a")
    case (Some t)
    show ?thesis
      by (rule send_message_live [OF laws(1) False Some, of S U])
        (use r post_live_inv [OF inv Some f] in simp)
  next
    case None
    show ?thesis
    proof (rule send_message_queued [OF laws(1) False None, of S U], goal_cases)
      case (1 w)
      show ?case
      proof (cases "per_agent_capacity (message_queue (app s)) \<le> length (queue_frames (message_queue (app s)) a)")
        case True
        with 1 have "quiet S alive sent (app s) ((app s)\<lparr>channels := w, message_queue := ?q\<rparr>)"
          by (simp add: quiet_def queue_push_frames(2))
        from quiet_inv [OF this inv] True 1 r show ?thesis by auto
      next
        case False
        with 1 r post_queued_inv [OF inv None f, of w ?q] show ?thesis
          by (auto simp: queue_push_frames(2))
      qed
    qed
  qed
qed

lemma queue_drain_frames:
  "fst (queue_drain q a) = queue_frames q a"
  "queue_frames (snd (queue_drain q a)) = (queue_frames q)(a := [])"
  by (auto simp: queue_drain_def queue_frames_def fun_eq_iff split: option.splits)

lemma tunnel_open_sel:
  "fst (tunnel_open E now c t st) = Some (TunnelLease (sub c))"
  "registry_tunnel (registry (snd (tunnel_open E now c t st))) = (registry_tunnel (registry st))(sub c \<mapsto> t)"
  "queue_frames (message_queue (snd (tunnel_open E now c t st))) = (queue_frames (message_queue st))(sub c := [])"
  "channels (snd (tunnel_open E now c t st))
     = send_all (env_send E) t (queue_frames (message_queue st) (sub c)) (channels st)"
proof -
  have "registry_tunnel (snd (registry_acquire now (registry st) (sub c) t c))
      = (registry_tunnel (registry st))(sub c \<mapsto> t)"
    by (rule ar.acquire_routes) (simp add: registry_acquire_def)
  then show "registry_tunnel (registry (snd (tunnel_open E now c t st))) = (registry_tunnel (registry st))(sub c \<mapsto> t)"
    by (simp add: tunnel_open_def registry_acquire_def case_prod_beta)
  show "fst (tunnel_open E now c t st) = Some (TunnelLease (sub c))"
    by (simp add: tunnel_open_def registry_acquire_def case_prod_beta)
  show "queue_frames (message_queue (snd (tunnel_open E now c t st))) = (queue_frames (message_queue st))(sub c := [])"
    using queue_drain_frames(2) [of "message_queue st" "sub c"]
    by (simp add: tunnel_open_def registry_acquire_def case_prod_beta)
  show "channels (snd (tunnel_open E now c t st))
     = send_all (env_send E) t (queue_frames (message_queue st) (sub c)) (channels st)"
    using queue_drain_frames(1) [of "message_queue st" "sub c"]
    by (simp add: tunnel_open_def registry_acquire_def case_prod_beta)
qed

lemma open_inv:
  assumes laws: "mpsc_laws (env_send E) alive sent" and inv: "server_inv S alive sent s"
    and t: "\<forall>a. t \<notin> set (opened s a)" "alive (channels (app s)) t" "sent (channels (app s)) t = []"
  shows "server_inv S alive sent (s\<lparr>app := snd (tunnel_open E now c t (app s)),
    opened := (opened s)(sub c := opened s (sub c) @ [t])\<rparr>)" (is "server_inv S alive sent ?s")
proof -
  let ?a = "sub c" and ?q = "queue_frames (message_queue (app s))"
  let ?st = "snd (tunnel_open E now c t (app s))"
  have sent': "sent (channels ?st) = (sent (channels (app s)))(t := ?q ?a)"
    and alive': "alive (channels ?st) = alive (channels (app s))"
    using send_all_sent [OF laws t(2)] send_all_alive [OF laws] t(3) by (simp_all add: tunnel_open_sel)
  have q': "queue_frames (message_queue ?st) = ?q(?a := [])"
    and r': "registry_tunnel (registry ?st) = (registry_tunnel (registry (app s)))(?a \<mapsto> t)"
    by (simp_all add: tunnel_open_sel)
  have msgs: "filter (is_message S) (?q ?a) = ?q ?a"
    using inv by (simp add: server_inv_def)
  have "delivered_messages S sent ?s ?a = delivered_messages S sent s ?a @ ?q ?a"
    using t(1) msgs by (simp add: delivered_messages_def sent' concat_map_update)
  moreover have "delivered_messages S sent ?s b = delivered_messages S sent s b" if "b \<noteq> ?a" for b
    using t(1) that by (simp add: delivered_messages_def sent' concat_map_update)
  ultimately have d: "delivered_messages S sent ?s b @ queue_frames (message_queue ?st) b = accepted s b" for b
    using inv by (cases "b = ?a") (auto simp: server_inv_def q')
  have lt: "live_tunnel alive ?st b \<noteq> None \<longrightarrow> queue_frames (message_queue ?st) b = []" for b
    using inv unfolding server_inv_def not_None_eq live_tunnel_Some by (auto simp: q' r' alive')
  show ?thesis
    using inv t(1) d lt unfolding server_inv_def by (simp add: q' r') blast
qed

lemma server_step_inv:
  assumes laws: "mpsc_laws (env_send E) alive sent" "print_laws (env_serde E)"
    and "server_step E H alive sent s s'" and inv: "server_inv (env_serde E) alive sent s"
  shows "server_inv (env_serde E) alive sent s'"
  using assms(3)
proof cases
  case (Open t now c)
  then show ?thesis using open_inv [OF laws(1) inv] by simp
next
  case (Read t c now frame)
  then show ?thesis using quiet_inv [OF tunnel_text_quiet [OF laws] inv] by simp
next
  case (Close now lease)
  then show ?thesis using quiet_inv [OF tunnel_close_quiet inv] by simp
next
  case (Post a req r st')
  then show ?thesis using post_inv [OF laws inv] by simp
next
  case (Cancel a)
  then show ?thesis using quiet_inv [OF cancel_quiet [OF laws] inv] by simp
next
  case (Disconnect now a)
  then show ?thesis using quiet_inv [OF disconnect_quiet inv] by simp
next
  case (Subscribe a)
  then show ?thesis using quiet_inv [OF subscribe_quiet inv] by simp
next
  case (Hangup w)
  then have "quiet (env_serde E) alive sent (app s) ((app s)\<lparr>channels := w\<rparr>)" by (simp add: quiet_def)
  from quiet_inv [OF this inv] Hangup show ?thesis by simp
qed

lemma server_init_inv: "server_inv S alive sent (server_init w bw h)"
  by (simp add: server_inv_def server_init_def app_state_new_def registry_new_def registry_tunnel_def
      registry_get_def queue_default_def delivered_messages_def live_tunnel_def)

lemma server_reachable_inv:
  assumes "mpsc_laws (env_send E) alive sent" "print_laws (env_serde E)"
    and "server_reachable E H alive sent s"
  shows "server_inv (env_serde E) alive sent s"
proof -
  from assms(3) obtain w bw h where "(server_step E H alive sent)\<^sup>*\<^sup>* (server_init w bw h) s"
    by (auto simp: server_reachable_def)
  then show ?thesis
    by (induction rule: rtranclp_induct) (auto intro: server_init_inv server_step_inv [OF assms(1,2)])
qed

text \<open>A connection is a sequence of the server's steps.\<close>

lemma tunnel_read_steps:
  assumes "t \<in> set (opened s (sub c))"
  shows "(server_step E H alive sent)\<^sup>*\<^sup>* s (s\<lparr>app := tunnel_read E H c t evs (app s)\<rparr>)"
  using assms
proof (induction evs arbitrary: s)
  case (Cons e evs)
  obtain now ev where e: "e = (now, ev)" by (cases e)
  show ?case
  proof (cases ev)
    case (WsText frame)
    have "server_step E H alive sent s (s\<lparr>app := tunnel_text E H now c t frame (app s)\<rparr>)"
      by (rule server_step.Read) (rule Cons.prems)
    moreover have "(server_step E H alive sent)\<^sup>*\<^sup>* (s\<lparr>app := tunnel_text E H now c t frame (app s)\<rparr>)
        (s\<lparr>app := tunnel_read E H c t evs (tunnel_text E H now c t frame (app s))\<rparr>)"
      using Cons.IH [of "s\<lparr>app := tunnel_text E H now c t frame (app s)\<rparr>"] Cons.prems by simp
    ultimately show ?thesis using e WsText by (simp add: converse_rtranclp_into_rtranclp)
  qed (use Cons e in simp_all)
qed simp

subsection \<open>Properties\<close>


text \<open>A printer that keeps only the method of an object, enough for the laws above.\<close>

definition method_serde :: serde where
  "method_serde =
     \<lparr>parse_json = (\<lambda>s. if s = ''N'' then Some (JObject [])
        else if take 1 s = ''M'' then Some (JObject [(''method'', JString (drop 1 s))]) else None),
      print_json = (\<lambda>v. case json_get ''method'' v of Some (JString m) \<Rightarrow> ''M'' @ m | _ \<Rightarrow> ''N'')\<rparr>"

lemma method_serde_laws: "print_laws method_serde"
  unfolding print_laws_def method_serde_def
  by (auto split: option.splits json.splits)

definition method_environment ::
    "(nat, nat, nat, world, nat \<times> (nat \<Rightarrow> string list)) environment" where
  "method_environment = demo_environment\<lparr>env_serde := method_serde\<rparr>"

definition demo_server :: "(nat, nat, world, nat \<times> (nat \<Rightarrow> string list), unit) server" where
  "demo_server =
     (let s = server_init world_init (0, \<lambda>_. []) ();
          st = snd (send_message method_serde (\<lambda>_. ''7'') world_send (app s) 7 demo_request);
          s1 = s\<lparr>app := st, accepted := (accepted s)(7 := [session_message_frame method_serde demo_request])\<rparr>
      in s1\<lparr>app := snd (tunnel_open method_environment 5 (claims_agent 1000 7 None 60 ''i'') 3 (app s1)),
            opened := (opened s1)(7 := [3])\<rparr>)"

lemma demo_server_reachable:
  "server_reachable method_environment default_hooks fst snd demo_server"
proof -
  let ?E = method_environment and ?f = "session_message_frame method_serde demo_request"
  let ?s = "server_init world_init (0, \<lambda>_. []) () :: (nat, nat, world, nat \<times> (nat \<Rightarrow> string list), unit) server"
  let ?st = "snd (send_message method_serde (\<lambda>_. ''7'') world_send (app ?s) 7 demo_request)"
  let ?s1 = "?s\<lparr>app := ?st, accepted := (accepted ?s)(7 := [?f])\<rparr>"
  have E: "env_serde ?E = method_serde" "env_show_uuid ?E = (\<lambda>_. ''7'')" "env_send ?E = world_send"
    by (simp_all add: method_environment_def demo_environment_def)
  let ?c = "claims_agent 1000 7 None 60 ''i''"
  have acc: "accepted ?s = (\<lambda>_. [])" and op: "opened ?s = (\<lambda>_. [])"
    by (simp_all add: server_init_def)
  have p: "send_message method_serde (\<lambda>_. ''7'') world_send (app ?s) 7 demo_request
      = (Ok (202, DeliveryQueued), ?st)"
    by (simp add: send_message_def demo_request_def server_init_def app_state_new_def registry_deliver_def
        registry_get_def registry_new_def queue_push_def queue_default_def queue_new_def
        DEFAULT_PER_AGENT_CAPACITY_def)
  have step1: "server_step ?E default_hooks fst snd ?s ?s1"
    using server_step.Post [where E = ?E and s = ?s and H = default_hooks and alive = fst and sent = snd,
        unfolded E, OF p]
    by (simp add: acc)
  have ch: "channels ?st = world_init"
    using p by (simp add: send_message_def demo_request_def server_init_def app_state_new_def
        registry_deliver_def registry_get_def registry_new_def queue_push_def queue_default_def
        queue_new_def DEFAULT_PER_AGENT_CAPACITY_def)
  have e: "demo_server = ?s1\<lparr>app := snd (tunnel_open ?E 5 ?c 3 (app ?s1)),
      opened := (opened ?s1)(sub ?c := opened ?s1 (sub ?c) @ [3])\<rparr>"
    by (simp add: demo_server_def Let_def op)
  have "server_step ?E default_hooks fst snd ?s1 demo_server"
    unfolding e by (rule server_step.Open) (simp_all add: op ch, simp_all add: world_init_def)
  with step1 have "(server_step ?E default_hooks fst snd)\<^sup>*\<^sup>* ?s demo_server"
    by (rule rtranclp.rtrancl_into_rtrancl [OF r_into_rtranclp])
  then show ?thesis unfolding server_reachable_def by (intro exI)
qed




text \<open>
  A force-disconnect unroutes the agent and does not end its connection. The handler answers
  202 and removes the routing entry, but the connection holds its own sender for the channel, so
  the channel stays open and the next request the agent makes on that connection is answered.
\<close>

theorem force_disconnect_keeps_connection:
  assumes laws: "mpsc_laws (env_send E) alive sent"
    and r: "registry_tunnel (registry st) (sub c) = Some t" and t: "alive (channels st) t"
    and d: "disconnect_agent U now st (sub c) = (res, st')"
    and h: "handle_message (env_serde E) H c frame (operator_state st) = (Some resp, h)"
  shows "res = Ok 202 \<and> registry_tunnel (registry st') (sub c) = None \<and> alive (channels st') t
    \<and> sent (channels (tunnel_text E H later c t frame st')) t = sent (channels st) t @ [resp]"
proof -
  from r have "registry_is_connected (registry st) (sub c)"
    by (simp add: ar.connected_tunnel)
  with d have st': "res = Ok 202" "st' = st\<lparr>registry := registry_disconnect now (registry st) (sub c)\<rparr>"
    by (auto simp: disconnect_agent_def)
  then have "sent (channels (tunnel_text E H later c t frame st')) t = sent (channels st) t @ [resp]"
    using laws t h by (simp add: tunnel_text_def mpsc_laws_def)
  with st' t show ?thesis by (simp add: ar.disconnect_routes)
qed


text \<open>An agent that connects on channel 3 and asks to initialize.\<close>

definition rpc_environment ::
    "(nat, nat, nat, world, nat \<times> (nat \<Rightarrow> string list)) environment" where
  "rpc_environment = demo_environment\<lparr>env_serde :=
     \<lparr>parse_json = (\<lambda>s. if s = ''Q'' then Some (JObject [(''id'', json_int 1), (''method'', JString ''initialize'')])
        else None), print_json = (\<lambda>_. ''R'')\<rparr>\<rparr>"

definition demo_connected :: "(nat, nat, world, nat \<times> (nat \<Rightarrow> string list), unit) app_state" where
  "demo_connected = snd (tunnel_open rpc_environment 5 (claims_agent 1000 7 None 60 ''i'') 3 demo_state)"

lemma demo_connected_sel:
  "registry_tunnel (registry demo_connected) 7 = Some 3" "channels demo_connected = world_init"
  using tunnel_open_sel [of rpc_environment 5 "claims_agent 1000 7 None 60 ''i''" 3 demo_state]
  by (simp_all add: demo_connected_def)
    (simp add: demo_state_def app_state_new_def queue_default_def queue_new_def queue_frames_def)

lemma rpc_environment_laws: "mpsc_laws (env_send rpc_environment) fst snd"
  by (simp add: rpc_environment_def demo_environment_def world_laws)

theorem force_disconnect_keeps_connection_witness:
  "snd (channels (tunnel_text rpc_environment default_hooks 8 (claims_agent 1000 7 None 60 ''i'') 3 ''Q''
     (snd (disconnect_agent (\<lambda>_. ''7'') 6 demo_connected 7)))) 3 = [''R'']"
proof -
  let ?c = "claims_agent 1000 7 None 60 ''i''"
  have h: "handle_message (env_serde rpc_environment) default_hooks ?c ''Q'' (operator_state demo_connected)
      = (Some ''R'', operator_state demo_connected)"
    by (simp add: handle_message_def rpc_environment_def handle_initialize_def default_hooks_def
        default_boot_def answer_def jsonrpc_response_def)
  obtain res st' where d: "disconnect_agent (\<lambda>_. ''7'') 6 demo_connected (sub ?c) = (res, st')"
    by (cases "disconnect_agent (\<lambda>_. ''7'') 6 demo_connected (sub ?c)")
  from force_disconnect_keeps_connection [OF rpc_environment_laws _ _ d h, of 3 8]
  show ?thesis using d by (simp add: demo_connected_sel world_init_def)
qed

text \<open>
  C35: delivering and buffering a message are two operations, and a connection that opens between
  them strands the message. A message finds no tunnel; the agent connects and its queue, still
  empty, is drained; then the message is buffered. The agent is now connected with the message
  in its queue, and the next message is delivered ahead of it.
\<close>

theorem racing_push_is_stranded:
  assumes laws: "mpsc_laws (env_send E) alive sent"
    and none: "registry_tunnel (registry st) (sub c) = None"
    and q: "queue_frames (message_queue st) (sub c) = []" "0 < per_agent_capacity (message_queue st)"
    and t: "alive (channels st) t" "sent (channels st) t = []"
    and first: "registry_deliver (env_send E) (registry st) (sub c) f (channels st) = (NoTunnel f', w)"
    and opens: "st1 = snd (tunnel_open E now c t (st\<lparr>channels := w\<rparr>))"
    and push: "queue_push (message_queue st1) (sub c) f' = (r, q')"
    and "next": "msg_role req \<noteq> []"
      "send_message (env_serde E) U (env_send E) (st1\<lparr>message_queue := q'\<rparr>) (sub c) req = (r2, st2)"
  shows "r = Ok () \<and> r2 = Ok (202, DeliveryLive) \<and> live_tunnel alive st2 (sub c) = Some t
    \<and> sent (channels st2) t = [session_message_frame (env_serde E) req]
    \<and> queue_frames (message_queue st2) (sub c) = [f]"
proof -
  let ?a = "sub c" and ?st = "st1\<lparr>message_queue := q'\<rparr>"
  from first none have w: "f' = f" "w = channels st"
    using ar.deliver_absent [OF none, of "env_send E" f "channels st"] by simp_all
  then have st1: "registry_tunnel (registry st1) ?a = Some t" "channels st1 = channels st"
    "queue_frames (message_queue st1) ?a = []" "per_agent_capacity (message_queue st1) = per_agent_capacity (message_queue st)"
    using tunnel_open_sel(2-4) [of E now c t st] q(1)
    by (simp_all add: opens) (simp add: tunnel_open_def registry_acquire_def queue_drain_def split: option.splits)
  from push queue_push_frames [of "message_queue st1" ?a f'] q(2) st1
  have r: "r = Ok ()" "queue_frames q' ?a = [f]" by (auto simp: w)
  have l: "live_tunnel alive ?st ?a = Some t" using st1 t(1) by (simp add: live_tunnel_Some)
  show ?thesis
    by (rule send_message_live [OF laws "next"(1) l, of "env_serde E" U])
      (use "next"(2) r t st1 l in \<open>auto simp: live_tunnel_Some\<close>)
qed

theorem racing_push_is_stranded_witness:
  "let st1 = demo_connected;
       st2 = snd (send_message (env_serde rpc_environment) (\<lambda>_. ''7'') (env_send rpc_environment)
         (st1\<lparr>message_queue := snd (queue_push (message_queue st1) 7 ''F'')\<rparr>) 7 demo_request)
   in snd (channels st2) 3 = [session_message_frame (env_serde rpc_environment) demo_request]
     \<and> queue_frames (message_queue st2) 7 = [''F'']"
proof -
  let ?E = rpc_environment and ?c = "claims_agent 1000 7 None 60 ''i''"
  let ?q = "snd (queue_push (message_queue demo_connected) 7 ''F'')"
  have st: "registry_tunnel (registry demo_state) (sub ?c) = None" "queue_frames (message_queue demo_state) (sub ?c) = []"
    "0 < per_agent_capacity (message_queue demo_state)" "fst (channels demo_state) 3" "snd (channels demo_state) 3 = []"
    by (simp_all add: demo_state_def app_state_new_def registry_new_def registry_tunnel_def registry_get_def
        queue_default_def queue_new_def queue_frames_def DEFAULT_PER_AGENT_CAPACITY_def world_init_def)
  have d: "registry_deliver (env_send ?E) (registry demo_state) (sub ?c) ''F'' (channels demo_state)
      = (NoTunnel ''F'', channels demo_state)"
    using ar.deliver_absent [OF st(1)] by simp
  have o: "demo_connected = snd (tunnel_open ?E 5 ?c 3 (demo_state\<lparr>channels := channels demo_state\<rparr>))"
    by (simp add: demo_connected_def)
  have p: "queue_push (message_queue demo_connected) (sub ?c) ''F''
      = (fst (queue_push (message_queue demo_connected) 7 ''F''), ?q)" by simp
  obtain r2 st2 where n: "send_message (env_serde ?E) (\<lambda>_. ''7'') (env_send ?E)
      (demo_connected\<lparr>message_queue := ?q\<rparr>) (sub ?c) demo_request = (r2, st2)"
    by (cases "send_message (env_serde ?E) (\<lambda>_. ''7'') (env_send ?E)
      (demo_connected\<lparr>message_queue := ?q\<rparr>) (sub ?c) demo_request")
  have "msg_role demo_request \<noteq> []" by (simp add: demo_request_def)
  from racing_push_is_stranded [OF rpc_environment_laws st d o p this n] n show ?thesis by simp
qed

end
