(* ===== verification/Redis_Store.thy ===== *)
theory Redis_Store
  imports Message_Queue Agent_Registry
begin

text \<open>
  The backend for several server instances (\<^verbatim>\<open>server/src/redis_backend\<close>): keys, the
  offline buffer, ownership leases, the registry and the fan-out of notifications. The Redis
  server is a parameter: \<open>redis\<close> holds the commands that the sources send, over the state of the
  server, each of which may fail. The Lua scripts of the sources are definitions over the
  commands they call; the server runs a script without interleaving others.
\<close>

type_synonym fields = "(string \<times> string) list"

record 'r redis =
  cmd_get :: "string \<Rightarrow> 'r \<Rightarrow> (string option, string) result \<times> 'r"
  cmd_set_ex :: "string \<Rightarrow> string \<Rightarrow> nat \<Rightarrow> 'r \<Rightarrow> (unit, string) result \<times> 'r"
  cmd_exists :: "string \<Rightarrow> 'r \<Rightarrow> (bool, string) result \<times> 'r"
  cmd_expire :: "string \<Rightarrow> nat \<Rightarrow> 'r \<Rightarrow> (nat, string) result \<times> 'r"
  cmd_del :: "string \<Rightarrow> 'r \<Rightarrow> (nat, string) result \<times> 'r"
  cmd_hset :: "string \<Rightarrow> fields \<Rightarrow> 'r \<Rightarrow> (unit, string) result \<times> 'r"
  cmd_sadd :: "string \<Rightarrow> string \<Rightarrow> 'r \<Rightarrow> (unit, string) result \<times> 'r"
  cmd_srem :: "string \<Rightarrow> string \<Rightarrow> 'r \<Rightarrow> (unit, string) result \<times> 'r"
  cmd_smembers :: "string \<Rightarrow> 'r \<Rightarrow> (string list, string) result \<times> 'r"
  cmd_sismember :: "string \<Rightarrow> string \<Rightarrow> 'r \<Rightarrow> (bool, string) result \<times> 'r"
  cmd_zadd :: "string \<Rightarrow> int \<Rightarrow> string \<Rightarrow> 'r \<Rightarrow> (unit, string) result \<times> 'r"
  cmd_zrem :: "string \<Rightarrow> string \<Rightarrow> 'r \<Rightarrow> (unit, string) result \<times> 'r"
  cmd_zremrangebyrank :: "string \<Rightarrow> int \<Rightarrow> int \<Rightarrow> 'r \<Rightarrow> (unit, string) result \<times> 'r"
  cmd_zrange_scores :: "string \<Rightarrow> 'r \<Rightarrow> ((string \<times> f64) list, string) result \<times> 'r"
  cmd_zscore :: "string \<Rightarrow> string \<Rightarrow> 'r \<Rightarrow> (f64, string) result \<times> 'r"
  cmd_publish :: "string \<Rightarrow> string \<Rightarrow> 'r \<Rightarrow> (unit, string) result \<times> 'r"
  cmd_xlen :: "string \<Rightarrow> 'r \<Rightarrow> (nat, string) result \<times> 'r"
  cmd_xadd :: "string \<Rightarrow> fields \<Rightarrow> 'r \<Rightarrow> (string, string) result \<times> 'r"
  cmd_xrange :: "string \<Rightarrow> nat \<Rightarrow> 'r \<Rightarrow> ((string \<times> fields) list, string) result \<times> 'r"

definition and_then ::
    "('r \<Rightarrow> ('a, string) result \<times> 'r) \<Rightarrow> ('a \<Rightarrow> 'r \<Rightarrow> ('b, string) result \<times> 'r) \<Rightarrow> 'r \<Rightarrow> ('b, string) result \<times> 'r" where
  "and_then f g w = (case f w of (Err e, w') \<Rightarrow> (Err e, w') | (Ok x, w') \<Rightarrow> g x w')"

definition ret :: "'a \<Rightarrow> 'r \<Rightarrow> ('a, string) result \<times> 'r" where
  "ret x w = (Ok x, w)"

definition ignored :: "('r \<Rightarrow> ('a, string) result \<times> 'r) \<Rightarrow> 'r \<Rightarrow> (unit, string) result \<times> 'r" where
  "ignored f w = apfst (res_map (\<lambda>_. ())) (f w)"

text \<open>A pipeline sends every command; it fails if one of them does.\<close>

fun pipeline :: "('r \<Rightarrow> (unit, string) result \<times> 'r) list \<Rightarrow> 'r \<Rightarrow> (unit, string) result \<times> 'r" where
  "pipeline [] w = (Ok (), w)"
| "pipeline (f # fs) w =
     (case f w of (r, w1) \<Rightarrow> (case pipeline fs w1 of (rs, w2) \<Rightarrow> (case r of Ok _ \<Rightarrow> rs | Err e \<Rightarrow> Err e, w2)))"

subsection \<open>Keys (\<^verbatim>\<open>keys.rs\<close>)\<close>

definition owner_key :: "(uuid \<Rightarrow> string) \<Rightarrow> uuid \<Rightarrow> string" where "owner_key U a = ''overacp:owner:'' @ U a"
definition tunnel_key :: "(uuid \<Rightarrow> string) \<Rightarrow> uuid \<Rightarrow> string" where "tunnel_key U a = ''overacp:tunnel:'' @ U a"
definition connected_set_key :: string where "connected_set_key = ''overacp:agents:connected''"
definition recent_zset_key :: string where "recent_zset_key = ''overacp:agents:recent''"
definition claims_key :: "(uuid \<Rightarrow> string) \<Rightarrow> uuid \<Rightarrow> string" where "claims_key U a = ''overacp:agents:claims:'' @ U a"
definition control_channel :: "(uuid \<Rightarrow> string) \<Rightarrow> uuid \<Rightarrow> string" where "control_channel U a = ''overacp:control:'' @ U a"
definition inbox_key :: "(uuid \<Rightarrow> string) \<Rightarrow> uuid \<Rightarrow> string" where "inbox_key U a = ''overacp:inbox:'' @ U a"
definition dlq_key :: string where "dlq_key = ''overacp:inbox:dlq''"
definition buffer_key :: "(uuid \<Rightarrow> string) \<Rightarrow> uuid \<Rightarrow> string" where "buffer_key U a = ''overacp:buffer:'' @ U a"
definition stream_channel :: "(uuid \<Rightarrow> string) \<Rightarrow> uuid \<Rightarrow> string" where "stream_channel U a = ''overacp:stream:'' @ U a"

lemmas key_defs = owner_key_def tunnel_key_def connected_set_key_def recent_zset_key_def claims_key_def
  control_channel_def inbox_key_def dlq_key_def buffer_key_def stream_channel_def

definition instance_id :: "(string \<Rightarrow> string option) \<Rightarrow> string \<Rightarrow> string" where
  "instance_id var fresh =
     (case var ''OVERACP_INSTANCE_ID'' of Some s \<Rightarrow> s
      | None \<Rightarrow> (case var ''HOSTNAME'' of Some s \<Rightarrow> s
      | None \<Rightarrow> (case var ''K_REVISION'' of Some s \<Rightarrow> s
      | None \<Rightarrow> take 8 fresh)))"

subsection \<open>The offline buffer (\<^verbatim>\<open>queue.rs\<close>)\<close>

definition DEFAULT_QUEUE_CAPACITY :: nat where "DEFAULT_QUEUE_CAPACITY = 64"

definition push_script :: "'r redis \<Rightarrow> string \<Rightarrow> nat \<Rightarrow> string \<Rightarrow> 'r \<Rightarrow> (nat, string) result \<times> 'r" where
  "push_script R key cap frame =
     and_then (cmd_xlen R key) (\<lambda>n.
       if cap \<le> n then ret 0 else and_then (cmd_xadd R key [(''frame'', frame)]) (\<lambda>_. ret 1))"

definition drain_script :: "'r redis \<Rightarrow> string \<Rightarrow> nat \<Rightarrow> 'r \<Rightarrow> ((string \<times> fields) list, string) result \<times> 'r" where
  "drain_script R key cap =
     and_then (cmd_xrange R key cap) (\<lambda>entries.
       if 0 < length entries then and_then (cmd_del R key) (\<lambda>_. ret entries) else ret entries)"

definition redis_push ::
    "'r redis \<Rightarrow> (uuid \<Rightarrow> string) \<Rightarrow> nat \<Rightarrow> 'r \<Rightarrow> uuid \<Rightarrow> string \<Rightarrow> (unit, queue_error) result \<times> 'r" where
  "redis_push R U cap w a frame =
     (case push_script R (buffer_key U a) cap frame w of
        (Err _, w') \<Rightarrow> (Err (Full a cap), w')
      | (Ok added, w') \<Rightarrow> (if added = 0 then Err (Full a cap) else Ok (), w'))"

definition entry_frame :: "string \<times> fields \<Rightarrow> string option" where
  "entry_frame e = map_of (snd e) ''frame''"

definition redis_drain :: "'r redis \<Rightarrow> (uuid \<Rightarrow> string) \<Rightarrow> nat \<Rightarrow> 'r \<Rightarrow> uuid \<Rightarrow> string list \<times> 'r" where
  "redis_drain R U cap w a =
     (case drain_script R (buffer_key U a) cap w of
        (Ok entries, w') \<Rightarrow> (List.map_filter entry_frame entries, w')
      | (Err _, w') \<Rightarrow> ([], w'))"

definition redis_len :: "'r redis \<Rightarrow> (uuid \<Rightarrow> string) \<Rightarrow> 'r \<Rightarrow> uuid \<Rightarrow> nat \<times> 'r" where
  "redis_len R U w a = apfst (\<lambda>r. case r of Ok n \<Rightarrow> n | Err _ \<Rightarrow> 0) (cmd_xlen R (buffer_key U a) w)"

definition redis_is_empty :: "'r redis \<Rightarrow> (uuid \<Rightarrow> string) \<Rightarrow> 'r \<Rightarrow> uuid \<Rightarrow> bool \<times> 'r" where
  "redis_is_empty R U w a = apfst (\<lambda>n. n = 0) (redis_len R U w a)"

subsection \<open>Leases (\<^verbatim>\<open>lease.rs\<close>)\<close>

definition LEASE_TTL_SECS :: nat where "LEASE_TTL_SECS = 30"
definition HEARTBEAT_INTERVAL_SECS :: nat where "HEARTBEAT_INTERVAL_SECS = 10"
definition REDIS_RECENT_CAPACITY :: int where "REDIS_RECENT_CAPACITY = 64"

record ownership_lease =
  lease_agent_id :: uuid
  lease_instance :: string

definition heartbeat_script :: "'r redis \<Rightarrow> string \<Rightarrow> string \<Rightarrow> nat \<Rightarrow> 'r \<Rightarrow> (nat, string) result \<times> 'r" where
  "heartbeat_script R key me ttl =
     and_then (cmd_get R key) (\<lambda>v. if v = Some me then cmd_expire R key ttl else ret 0)"

definition release_script :: "'r redis \<Rightarrow> string \<Rightarrow> string \<Rightarrow> 'r \<Rightarrow> (nat, string) result \<times> 'r" where
  "release_script R key me =
     and_then (cmd_get R key) (\<lambda>v. if v = Some me then cmd_del R key else ret 0)"

text \<open>The signal to an owner that is replaced.\<close>

definition announce :: "'r redis \<Rightarrow> (uuid \<Rightarrow> string) \<Rightarrow> uuid \<Rightarrow> string \<Rightarrow> string option \<Rightarrow> 'r \<Rightarrow> 'r" where
  "announce R U a me existing w =
     (case existing of
        Some prev \<Rightarrow> if prev \<noteq> me then snd (cmd_publish R (control_channel U a) ''takeover'' w) else w
      | None \<Rightarrow> w)"

text \<open>The directory entry of a tunnel, the set of connected agents and the claims; and their renewal.\<close>

definition record_owner :: "'r redis \<Rightarrow> (uuid \<Rightarrow> string) \<Rightarrow> string \<Rightarrow> uuid \<Rightarrow> string \<Rightarrow> string \<Rightarrow> 'r \<Rightarrow> (unit, string) result \<times> 'r" where
  "record_owner R U now a me claims_json =
     pipeline
       [cmd_hset R (tunnel_key U a) [(''instance_id'', me), (''connected_at'', now)],
        ignored (cmd_expire R (tunnel_key U a) (LEASE_TTL_SECS * 2)),
        cmd_sadd R connected_set_key (U a),
        cmd_zrem R recent_zset_key (U a),
        cmd_set_ex R (claims_key U a) claims_json (LEASE_TTL_SECS * 2)]"

definition record_renewal :: "'r redis \<Rightarrow> (uuid \<Rightarrow> string) \<Rightarrow> uuid \<Rightarrow> 'r \<Rightarrow> (unit, string) result \<times> 'r" where
  "record_renewal R U a =
     pipeline
       [ignored (cmd_expire R (tunnel_key U a) (LEASE_TTL_SECS * 2)),
        ignored (cmd_expire R (claims_key U a) (LEASE_TTL_SECS * 2))]"

definition record_release :: "'r redis \<Rightarrow> (uuid \<Rightarrow> string) \<Rightarrow> int \<Rightarrow> uuid \<Rightarrow> 'r \<Rightarrow> (unit, string) result \<times> 'r" where
  "record_release R U now_ms a =
     pipeline
       [cmd_srem R connected_set_key (U a),
        cmd_zadd R recent_zset_key now_ms (U a),
        cmd_zremrangebyrank R recent_zset_key 0 (- (REDIS_RECENT_CAPACITY + 1)),
        ignored (cmd_del R (tunnel_key U a))]"

text \<open>\<open>now\<close> is the time of the call as the source prints it.\<close>

definition acquire_lease ::
    "'r redis \<Rightarrow> (uuid \<Rightarrow> string) \<Rightarrow> string \<Rightarrow> uuid \<Rightarrow> string \<Rightarrow> string \<Rightarrow> 'r \<Rightarrow> (ownership_lease, string) result \<times> 'r" where
  "acquire_lease R U now a me claims_json =
     and_then (cmd_get R (owner_key U a)) (\<lambda>existing.
     and_then (\<lambda>w. (Ok (), announce R U a me existing w)) (\<lambda>_.
     and_then (cmd_set_ex R (owner_key U a) me LEASE_TTL_SECS) (\<lambda>_.
     and_then (record_owner R U now a me claims_json) (\<lambda>_.
     ret \<lparr>lease_agent_id = a, lease_instance = me\<rparr>))))"

text \<open>One tick of the heartbeat: whether the task goes on.\<close>

definition heartbeat_tick :: "'r redis \<Rightarrow> (uuid \<Rightarrow> string) \<Rightarrow> ownership_lease \<Rightarrow> 'r \<Rightarrow> bool \<times> 'r" where
  "heartbeat_tick R U l w =
     (let a = lease_agent_id l in
      case heartbeat_script R (owner_key U a) (lease_instance l) LEASE_TTL_SECS w of (r, w1) \<Rightarrow>
        (if (case r of Ok n \<Rightarrow> n | Err _ \<Rightarrow> 0) = 0 then (False, w1)
         else (True, snd (record_renewal R U a w1))))"

definition release_lease :: "'r redis \<Rightarrow> (uuid \<Rightarrow> string) \<Rightarrow> int \<Rightarrow> ownership_lease \<Rightarrow> 'r \<Rightarrow> 'r" where
  "release_lease R U now_ms l w =
     (let a = lease_agent_id l in
      case release_script R (owner_key U a) (lease_instance l) w of (r, w1) \<Rightarrow>
        (if (case r of Ok n \<Rightarrow> n | Err _ \<Rightarrow> 0) = 1
         then snd (record_release R U now_ms a w1) else w1))"

subsection \<open>The registry (\<^verbatim>\<open>registry.rs\<close>)\<close>

definition deliver_script :: "'r redis \<Rightarrow> string \<Rightarrow> string \<Rightarrow> string \<Rightarrow> 'r \<Rightarrow> (nat, string) result \<times> 'r" where
  "deliver_script R owner inbox frame =
     and_then (cmd_exists R owner) (\<lambda>b.
       if b then and_then (cmd_xadd R inbox [(''frame'', frame)]) (\<lambda>_. ret 1) else ret 0)"

definition redis_deliver :: "'r redis \<Rightarrow> (uuid \<Rightarrow> string) \<Rightarrow> uuid \<Rightarrow> string \<Rightarrow> 'r \<Rightarrow> delivery_outcome \<times> 'r" where
  "redis_deliver R U a frame w =
     (case deliver_script R (owner_key U a) (inbox_key U a) frame w of (r, w') \<Rightarrow>
        (if (case r of Ok n \<Rightarrow> n | Err _ \<Rightarrow> 0) = 1 then Live else NoTunnel frame, w'))"

definition redis_is_connected :: "'r redis \<Rightarrow> (uuid \<Rightarrow> string) \<Rightarrow> uuid \<Rightarrow> 'r \<Rightarrow> bool \<times> 'r" where
  "redis_is_connected R U a w = apfst (\<lambda>r. case r of Ok b \<Rightarrow> b | Err _ \<Rightarrow> False) (cmd_exists R (owner_key U a) w)"

definition redis_disconnect :: "'r redis \<Rightarrow> (uuid \<Rightarrow> string) \<Rightarrow> uuid \<Rightarrow> 'r \<Rightarrow> 'r" where
  "redis_disconnect R U a w = snd (cmd_publish R (control_channel U a) ''disconnect'' w)"

definition redis_touch :: "uuid \<Rightarrow> 'r \<Rightarrow> 'r" where "redis_touch a w = w"

record claims_snapshot =
  snap_agent :: uuid
  snap_user :: "uuid option"
  snap_connected_at :: string

text \<open>
  The time, the parsing of identifiers and of times, the JSON of a snapshot and the floating-point
  difference of two times in seconds.
\<close>

record redis_env =
  clock_secs :: int
  parse_id :: "string \<Rightarrow> uuid option"
  parse_rfc3339 :: "string \<Rightarrow> int option"
  decode_snapshot :: "string \<Rightarrow> claims_snapshot option"
  idle_since :: "f64 \<Rightarrow> nat"

definition hydrate_description ::
    "'r redis \<Rightarrow> (uuid \<Rightarrow> string) \<Rightarrow> redis_env \<Rightarrow> uuid \<Rightarrow> bool \<Rightarrow> 'r \<Rightarrow> agent_description option \<times> 'r" where
  "hydrate_description R U E a conn w =
     (case cmd_get R (claims_key U a) w of
        (Err _, w') \<Rightarrow> (None, w')
      | (Ok j, w') \<Rightarrow>
          (Some (case Option.bind j (decode_snapshot E) of
             Some snap \<Rightarrow>
               \<lparr>desc_agent = a, desc_connected = conn,
                uptime_secs = Some (nat (clock_secs E - unwrap_or 0 (parse_rfc3339 E (snap_connected_at snap)))),
                idle_secs = Some 0, desc_user = snap_user snap\<rparr>
           | None \<Rightarrow>
               \<lparr>desc_agent = a, desc_connected = conn, uptime_secs = None, idle_secs = None, desc_user = None\<rparr>), w'))"

definition recent_description :: "redis_env \<Rightarrow> uuid \<Rightarrow> f64 \<Rightarrow> agent_description" where
  "recent_description E a ts =
     \<lparr>desc_agent = a, desc_connected = False, uptime_secs = None, idle_secs = Some (idle_since E ts), desc_user = None\<rparr>"

fun hydrate_all ::
    "'r redis \<Rightarrow> (uuid \<Rightarrow> string) \<Rightarrow> redis_env \<Rightarrow> string list \<Rightarrow> 'r \<Rightarrow> agent_description list \<times> 'r" where
  "hydrate_all R U E [] w = ([], w)"
| "hydrate_all R U E (s # ss) w =
     (case parse_id E s of
        None \<Rightarrow> hydrate_all R U E ss w
      | Some a \<Rightarrow>
          (case hydrate_description R U E a True w of (d, w1) \<Rightarrow>
             apfst (\<lambda>ds. (case d of Some x \<Rightarrow> [x] | None \<Rightarrow> []) @ ds) (hydrate_all R U E ss w1)))"

definition recent_all :: "redis_env \<Rightarrow> string list \<Rightarrow> (string \<times> f64) list \<Rightarrow> agent_description list" where
  "recent_all E conn rs =
     List.map_filter (\<lambda>(s, ts).
       case parse_id E s of
         None \<Rightarrow> None
       | Some a \<Rightarrow> if s \<in> set conn then None else Some (recent_description E a ts)) rs"

definition redis_list_agents ::
    "'r redis \<Rightarrow> (uuid \<Rightarrow> string) \<Rightarrow> redis_env \<Rightarrow> 'r \<Rightarrow> agent_description list \<times> 'r" where
  "redis_list_agents R U E w =
     (case cmd_smembers R connected_set_key w of (m, w1) \<Rightarrow>
      (let conn = (case m of Ok l \<Rightarrow> l | Err _ \<Rightarrow> []) in
       case hydrate_all R U E conn w1 of (ds, w2) \<Rightarrow>
         (case cmd_zrange_scores R recent_zset_key w2 of (z, w3) \<Rightarrow>
            (ds @ recent_all E conn (case z of Ok l \<Rightarrow> l | Err _ \<Rightarrow> []), w3))))"

definition redis_describe_agent ::
    "'r redis \<Rightarrow> (uuid \<Rightarrow> string) \<Rightarrow> redis_env \<Rightarrow> uuid \<Rightarrow> 'r \<Rightarrow> agent_description option \<times> 'r" where
  "redis_describe_agent R U E a w =
     (case cmd_sismember R connected_set_key (U a) w of (m, w1) \<Rightarrow>
        (if (case m of Ok b \<Rightarrow> b | Err _ \<Rightarrow> False) then hydrate_description R U E a True w1
         else (case cmd_zscore R recent_zset_key (U a) w1 of
             (Ok ts, w2) \<Rightarrow> (Some (recent_description E a ts), w2)
           | (Err _, w2) \<Rightarrow> (None, w2))))"

text \<open>
  An instance's own part of the registry: the senders and the consumers of the agents it owns.
  \<open>spawn\<close> starts the consumer, whose work is the theory of the inbox.
\<close>

record ('tx, 'h) redis_agent_registry =
  reg_instance :: string
  local_senders :: "uuid \<rightharpoonup> 'tx"
  consumer_handles :: "uuid \<rightharpoonup> 'h"

definition redis_registry_new :: "string \<Rightarrow> ('tx, 'h) redis_agent_registry" where
  "redis_registry_new me = \<lparr>reg_instance = me, local_senders = Map.empty, consumer_handles = Map.empty\<rparr>"

definition consumer_name :: "(uuid \<Rightarrow> string) \<Rightarrow> string \<Rightarrow> uuid \<Rightarrow> string" where
  "consumer_name U me a = me @ ''-'' @ U a"

definition redis_acquire ::
    "'r redis \<Rightarrow> (uuid \<Rightarrow> string) \<Rightarrow> (uuid \<Rightarrow> 'r \<Rightarrow> 'r) \<Rightarrow> (uuid \<Rightarrow> string \<Rightarrow> 'tx \<Rightarrow> 'r \<Rightarrow> 'h \<times> 'r)
      \<Rightarrow> string \<Rightarrow> string \<Rightarrow> uuid \<Rightarrow> 'tx \<Rightarrow> ('tx, 'h) redis_agent_registry \<times> 'r
      \<Rightarrow> (ownership_lease, registry_error) result \<times> ('tx, 'h) redis_agent_registry \<times> 'r" where
  "redis_acquire R U ensure_group spawn now claims_json a t s =
     (case s of (reg, w) \<Rightarrow>
      (case acquire_lease R U now a (reg_instance reg) claims_json w of
         (Err e, w1) \<Rightarrow> (Err (AcquireFailed a e), reg, w1)
       | (Ok l, w1) \<Rightarrow>
           (case spawn a (consumer_name U (reg_instance reg) a) t (ensure_group a w1) of (h, w2) \<Rightarrow>
              (Ok l,
               reg\<lparr>local_senders := (local_senders reg)(a \<mapsto> t), consumer_handles := (consumer_handles reg)(a \<mapsto> h)\<rparr>,
               w2))))"

text \<open>Dropping the lease of a tunnel: the consumer of the agent is aborted, whichever connection started it.\<close>

definition redis_lease_drop ::
    "'r redis \<Rightarrow> (uuid \<Rightarrow> string) \<Rightarrow> ('h \<Rightarrow> 'r \<Rightarrow> 'r) \<Rightarrow> int \<Rightarrow> ownership_lease \<Rightarrow> ('tx, 'h) redis_agent_registry \<times> 'r
      \<Rightarrow> ('tx, 'h) redis_agent_registry \<times> 'r" where
  "redis_lease_drop R U abort now_ms l s =
     (case s of (reg, w) \<Rightarrow>
      (let a = lease_agent_id l;
           w1 = (case consumer_handles reg a of Some h \<Rightarrow> abort h w | None \<Rightarrow> w)
       in (reg\<lparr>consumer_handles := (consumer_handles reg)(a := None), local_senders := (local_senders reg)(a := None)\<rparr>,
           release_lease R U now_ms l w1)))"

subsection \<open>Fan-out (\<^verbatim>\<open>broker.rs\<close>)\<close>

definition redis_publish :: "'r redis \<Rightarrow> (uuid \<Rightarrow> string) \<Rightarrow> uuid \<Rightarrow> string \<Rightarrow> 'r \<Rightarrow> 'r" where
  "redis_publish R U a frame w = snd (cmd_publish R (stream_channel U a) frame w)"

subsection \<open>What the server promises\<close>

text \<open>
  Streams, seen through \<open>strm\<close>, the entries of the stream of a key; a missing key is an empty
  stream. The laws are about the keys that never hold anything but a stream.
\<close>

definition stream_key :: "string \<Rightarrow> bool" where
  "stream_key k \<longleftrightarrow> starts_with k ''overacp:buffer:'' \<or> starts_with k ''overacp:inbox:''"

lemma stream_keys [simp]: "stream_key (buffer_key U a)" "stream_key (inbox_key U a)"
  by (simp_all add: stream_key_def key_defs)

definition stream_laws :: "'r redis \<Rightarrow> ('r \<Rightarrow> string \<Rightarrow> (string \<times> fields) list) \<Rightarrow> bool" where
  "stream_laws R strm \<longleftrightarrow>
     (\<forall>k w. stream_key k \<longrightarrow> fst (cmd_xlen R k w) = Ok (length (strm w k)) \<and> strm (snd (cmd_xlen R k w)) = strm w)
   \<and> (\<forall>k fs w. stream_key k \<longrightarrow> (\<exists>i. fst (cmd_xadd R k fs w) = Ok i
        \<and> strm (snd (cmd_xadd R k fs w)) = (strm w)(k := strm w k @ [(i, fs)])))
   \<and> (\<forall>k n w. stream_key k \<longrightarrow> fst (cmd_xrange R k n w) = Ok (take n (strm w k)) \<and> strm (snd (cmd_xrange R k n w)) = strm w)
   \<and> (\<forall>k w. is_ok (fst (cmd_del R k w)) \<and> strm (snd (cmd_del R k w)) = (strm w)(k := []))
   \<and> (\<forall>k w. strm (snd (cmd_exists R k w)) = strm w)"

text \<open>
  Strings, seen through \<open>kv\<close>. The answers are promised for keys that never hold anything but a
  string, as those of the owners; the commands on sets, hashes, streams and channels leave strings
  alone.
\<close>

definition string_laws :: "'r redis \<Rightarrow> ('r \<Rightarrow> string \<rightharpoonup> string) \<Rightarrow> string set \<Rightarrow> bool" where
  "string_laws R kv K \<longleftrightarrow>
     (\<forall>k w. (k \<in> K \<longrightarrow> fst (cmd_get R k w) = Ok (kv w k)) \<and> kv (snd (cmd_get R k w)) = kv w)
   \<and> (\<forall>k v n w. fst (cmd_set_ex R k v n w) = Ok () \<and> kv (snd (cmd_set_ex R k v n w)) = (kv w)(k \<mapsto> v))
   \<and> (\<forall>k w. (k \<in> K \<longrightarrow> fst (cmd_exists R k w) = Ok (kv w k \<noteq> None)) \<and> kv (snd (cmd_exists R k w)) = kv w)
   \<and> (\<forall>k n w. is_ok (fst (cmd_expire R k n w)) \<and> (k \<in> K \<longrightarrow> kv w k \<noteq> None \<longrightarrow> fst (cmd_expire R k n w) = Ok 1)
        \<and> kv (snd (cmd_expire R k n w)) = kv w)
   \<and> (\<forall>k w. (k \<in> K \<longrightarrow> kv w k \<noteq> None \<longrightarrow> fst (cmd_del R k w) = Ok 1) \<and> kv (snd (cmd_del R k w)) = (kv w)(k := None))"

definition side_laws :: "'r redis \<Rightarrow> (uuid \<Rightarrow> string) \<Rightarrow> ('r \<Rightarrow> string \<rightharpoonup> string) \<Rightarrow> bool" where
  "side_laws R U kv \<longleftrightarrow>
     (\<forall>a fs w. fst (cmd_hset R (tunnel_key U a) fs w) = Ok ())
   \<and> (\<forall>m w. fst (cmd_sadd R connected_set_key m w) = Ok ())
   \<and> (\<forall>m w. fst (cmd_zrem R recent_zset_key m w) = Ok ())
   \<and> (\<forall>k fs w. kv (snd (cmd_hset R k fs w)) = kv w)
   \<and> (\<forall>k m w. kv (snd (cmd_sadd R k m w)) = kv w)
   \<and> (\<forall>k m w. kv (snd (cmd_srem R k m w)) = kv w)
   \<and> (\<forall>k s m w. kv (snd (cmd_zadd R k s m w)) = kv w)
   \<and> (\<forall>k m w. kv (snd (cmd_zrem R k m w)) = kv w)
   \<and> (\<forall>k i j w. kv (snd (cmd_zremrangebyrank R k i j w)) = kv w)
   \<and> (\<forall>c m w. kv (snd (cmd_publish R c m w)) = kv w)
   \<and> (\<forall>k fs w. kv (snd (cmd_xadd R k fs w)) = kv w)
   \<and> (\<forall>k w. kv (snd (cmd_xlen R k w)) = kv w)"

subsection \<open>The buffer is a bounded queue\<close>

definition redis_frames :: "(uuid \<Rightarrow> string) \<Rightarrow> ('r \<Rightarrow> string \<Rightarrow> (string \<times> fields) list) \<Rightarrow> 'r \<Rightarrow> buffers" where
  "redis_frames U strm w a = List.map_filter entry_frame (strm w (buffer_key U a))"

definition buffer_inv :: "(uuid \<Rightarrow> string) \<Rightarrow> nat \<Rightarrow> ('r \<Rightarrow> string \<Rightarrow> (string \<times> fields) list) \<Rightarrow> 'r \<Rightarrow> bool" where
  "buffer_inv U cap strm w \<longleftrightarrow>
     (\<forall>a. length (strm w (buffer_key U a)) \<le> cap \<and> (\<forall>e \<in> set (strm w (buffer_key U a)). entry_frame e \<noteq> None))"

lemma map_filter_length: "\<forall>x \<in> set xs. f x \<noteq> None \<Longrightarrow> length (List.map_filter f xs) = length xs"
  by (induction xs) (auto simp: List.map_filter_simps)

lemma map_filter_append: "List.map_filter f (xs @ ys) = List.map_filter f xs @ List.map_filter f ys"
  by (simp add: List.map_filter_def)

lemma buffer_key_inj: "inj U \<Longrightarrow> buffer_key U a = buffer_key U b \<longleftrightarrow> a = b"
  by (auto simp: buffer_key_def dest: injD)

lemma stream_lawsD:
  assumes "stream_laws R strm"
  shows "stream_key k \<Longrightarrow> fst (cmd_xlen R k w) = Ok (length (strm w k))"
    and "stream_key k \<Longrightarrow> strm (snd (cmd_xlen R k w)) = strm w"
    and "stream_key k \<Longrightarrow> \<exists>i. fst (cmd_xadd R k fs w) = Ok i \<and> strm (snd (cmd_xadd R k fs w)) = (strm w)(k := strm w k @ [(i, fs)])"
    and "stream_key k \<Longrightarrow> fst (cmd_xrange R k n w) = Ok (take n (strm w k))"
    and "stream_key k \<Longrightarrow> strm (snd (cmd_xrange R k n w)) = strm w"
    and "\<exists>m. fst (cmd_del R k w) = Ok m"
    and "strm (snd (cmd_del R k w)) = (strm w)(k := [])"
    and "strm (snd (cmd_exists R k w)) = strm w"
  using assms unfolding stream_laws_def is_ok_iff by blast+

lemma push_script_effect:
  assumes "stream_laws R strm" and "stream_key k"
  shows "if cap \<le> length (strm w k) then fst (push_script R k cap f w) = Ok 0 \<and> strm (snd (push_script R k cap f w)) = strm w
    else fst (push_script R k cap f w) = Ok 1
      \<and> (\<exists>i. strm (snd (push_script R k cap f w)) = (strm w)(k := strm w k @ [(i, [(''frame'', f)])]))"
proof -
  let ?w1 = "snd (cmd_xlen R k w)"
  obtain i where "fst (cmd_xadd R k [(''frame'', f)] ?w1) = Ok i"
    "strm (snd (cmd_xadd R k [(''frame'', f)] ?w1)) = (strm w)(k := strm w k @ [(i, [(''frame'', f)])])"
    using stream_lawsD(3) [OF assms, of "[(''frame'', f)]" ?w1] stream_lawsD(2) [OF assms, of w] by auto
  with stream_lawsD(1,2) [OF assms, of w] show ?thesis
    by (auto simp: push_script_def and_then_def ret_def case_prod_beta)
qed

lemma drain_script_effect:
  assumes "stream_laws R strm" and "stream_key k" and "length (strm w k) \<le> cap"
  shows "fst (drain_script R k cap w) = Ok (strm w k) \<and> strm (snd (drain_script R k cap w)) = (strm w)(k := [])"
proof -
  let ?w1 = "snd (cmd_xrange R k cap w)"
  obtain n where "fst (cmd_del R k ?w1) = Ok n" using stream_lawsD(6) [OF assms(1)] by blast
  with stream_lawsD(4,5) [OF assms(1,2), of cap w] stream_lawsD(7) [OF assms(1), of k ?w1] assms(3) show ?thesis
    by (auto simp: drain_script_def and_then_def ret_def case_prod_beta fun_eq_iff)
qed

lemma redis_step_refines:
  assumes "stream_laws R strm" and "inj U" and "buffer_inv U cap strm w"
  shows "fifo_step cap (redis_frames U strm w) x
      = (fst (op_step (redis_push R U cap) (redis_drain R U cap) w x),
         redis_frames U strm (snd (op_step (redis_push R U cap) (redis_drain R U cap) w x)))
    \<and> buffer_inv U cap strm (snd (op_step (redis_push R U cap) (redis_drain R U cap) w x))"
proof (cases x)
  case (Push a f)
  let ?k = "buffer_key U a"
  have l: "length (redis_frames U strm w a) = length (strm w ?k)"
    using assms(3) by (auto simp: redis_frames_def buffer_inv_def intro: map_filter_length)
  obtain r w1 where p: "push_script R ?k cap f w = (r, w1)" by (metis surj_pair)
  show ?thesis
  proof (cases "cap \<le> length (strm w ?k)")
    case True
    with push_script_effect [OF assms(1) stream_keys(1), of cap w U a f] p have "r = Ok 0" "strm w1 = strm w" by auto
    with Push p True l assms(3) show ?thesis by (simp add: redis_push_def redis_frames_def buffer_inv_def fun_eq_iff)
  next
    case False
    with push_script_effect [OF assms(1) stream_keys(1), of cap w U a f] p obtain i where
      r: "r = Ok 1" "strm w1 = (strm w)(?k := strm w ?k @ [(i, [(''frame'', f)])])" by auto
    then have "redis_frames U strm w1 = (redis_frames U strm w)(a := redis_frames U strm w a @ [f])"
      using buffer_key_inj [OF assms(2)]
      by (auto simp: redis_frames_def fun_eq_iff map_filter_append List.map_filter_simps entry_frame_def)
    moreover have "buffer_inv U cap strm w1"
      using r assms(3) False buffer_key_inj [OF assms(2)] by (auto simp: buffer_inv_def entry_frame_def)
    ultimately show ?thesis using Push p r False l by (simp add: redis_push_def)
  qed
next
  case (Drain a)
  let ?k = "buffer_key U a"
  obtain r w1 where p: "drain_script R ?k cap w = (r, w1)" by (metis surj_pair)
  from drain_script_effect [OF assms(1) stream_keys(1), of w U a cap] assms(3) p
  have r: "r = Ok (strm w ?k)" "strm w1 = (strm w)(?k := [])" by (auto simp: buffer_inv_def)
  then have "redis_frames U strm w1 = (redis_frames U strm w)(a := [])" "buffer_inv U cap strm w1"
    using buffer_key_inj [OF assms(2)] assms(3)
    by (auto simp: redis_frames_def buffer_inv_def fun_eq_iff List.map_filter_simps)
  with Drain p r show ?thesis by (simp add: redis_drain_def redis_frames_def)
qed

lemma redis_run_refines:
  assumes "stream_laws R strm" and "inj U" and "buffer_inv U cap strm w"
  shows "fifo_run cap (redis_frames U strm w) xs
      = (fst (op_run (redis_push R U cap) (redis_drain R U cap) w xs),
         redis_frames U strm (snd (op_run (redis_push R U cap) (redis_drain R U cap) w xs)))"
  using assms(3)
proof (induction xs arbitrary: w)
  case (Cons x xs)
  obtain r w1 where s: "op_step (redis_push R U cap) (redis_drain R U cap) w x = (r, w1)" by (metis surj_pair)
  with redis_step_refines [OF assms(1,2) Cons.prems, of x] Cons.IH [of w1] show ?case
    by (simp add: case_prod_beta)
qed simp

subsection \<open>Leases are a map from agents to owners\<close>

definition owner_of :: "(uuid \<Rightarrow> string) \<Rightarrow> ('r \<Rightarrow> string \<rightharpoonup> string) \<Rightarrow> 'r \<Rightarrow> uuid \<rightharpoonup> string" where
  "owner_of U kv w a = kv w (owner_key U a)"

definition lease_laws :: "'r redis \<Rightarrow> (uuid \<Rightarrow> string) \<Rightarrow> ('r \<Rightarrow> string \<rightharpoonup> string) \<Rightarrow> bool" where
  "lease_laws R U kv \<longleftrightarrow> inj U \<and> string_laws R kv (range (owner_key U)) \<and> side_laws R U kv"

lemma owner_key_distinct:
  "owner_key U a \<noteq> tunnel_key U b" "owner_key U a \<noteq> claims_key U b"
  by (simp_all add: key_defs)

lemma owner_key_inj: "inj U \<Longrightarrow> owner_key U a = owner_key U b \<longleftrightarrow> a = b"
  by (auto simp: owner_key_def dest: injD)

lemma pipeline_simps: "fst (pipeline (f # fs) w) = (case fst (f w) of Ok _ \<Rightarrow> fst (pipeline fs (snd (f w))) | Err e \<Rightarrow> Err e)"
  "snd (pipeline (f # fs) w) = snd (pipeline fs (snd (f w)))"
  by (simp_all add: case_prod_beta)

lemma pipeline_Nil [simp]: "pipeline [] w = (Ok (), w)"
  by simp

declare pipeline.simps [simp del]

lemma ignored_simps: "is_ok (fst (ignored f w)) = is_ok (fst (f w))" "snd (ignored f w) = snd (f w)"
  by (cases "fst (f w)"; simp add: ignored_def)+

lemma ignored_Ok: "is_ok (fst (f w)) \<Longrightarrow> fst (ignored f w) = Ok ()"
  by (auto simp: ignored_def is_ok_iff)

lemma lease_lawsD:
  assumes "lease_laws R U kv"
  shows "fst (cmd_get R (owner_key U a) w) = Ok (owner_of U kv w a)"
    and "kv (snd (cmd_get R k w)) = kv w"
    and "fst (cmd_set_ex R k v n w) = Ok ()"
    and "kv (snd (cmd_set_ex R k v n w)) = (kv w)(k \<mapsto> v)"
    and "owner_of U kv w a \<noteq> None \<Longrightarrow> fst (cmd_expire R (owner_key U a) n w) = Ok 1"
    and "kv (snd (cmd_expire R k n w)) = kv w"
    and "owner_of U kv w a \<noteq> None \<Longrightarrow> fst (cmd_del R (owner_key U a) w) = Ok 1"
    and "kv (snd (cmd_del R k w)) = (kv w)(k := None)"
  using assms by (simp_all add: lease_laws_def string_laws_def owner_of_def)

lemma record_effects:
  assumes "lease_laws R U kv"
  shows "fst (record_owner R U now a me cj w) = Ok ()"
    and "kv (snd (record_owner R U now a me cj w)) = (kv w)(claims_key U a \<mapsto> cj)"
    and "kv (snd (record_release R U ms a w)) = (kv w)(tunnel_key U a := None)"
    and "kv (snd (record_renewal R U a w)) = kv w"
    and "kv (announce R U a me x w) = kv w"
  using assms unfolding lease_laws_def string_laws_def side_laws_def
  by (simp_all add: record_owner_def record_release_def record_renewal_def announce_def pipeline_simps ignored_Ok ignored_simps
      split: option.split)

lemma acquire_lease_run:
  assumes "lease_laws R U kv"
  shows "acquire_lease R U now a me cj w =
    (Ok \<lparr>lease_agent_id = a, lease_instance = me\<rparr>,
     snd (record_owner R U now a me cj (snd (cmd_set_ex R (owner_key U a) me LEASE_TTL_SECS
       (announce R U a me (owner_of U kv w a) (snd (cmd_get R (owner_key U a) w)))))))"
  using lease_lawsD(1,3) [OF assms] record_effects(1) [OF assms]
  by (simp add: acquire_lease_def and_then_def ret_def case_prod_beta
      split: result.split)

lemma release_lease_run:
  assumes "lease_laws R U kv"
  shows "release_lease R U ms l w =
    (let a = lease_agent_id l; w1 = snd (cmd_get R (owner_key U a) w)
     in if owner_of U kv w a = Some (lease_instance l)
        then snd (record_release R U ms a (snd (cmd_del R (owner_key U a) w1))) else w1)"
  using lease_lawsD(1,7) [OF assms] lease_lawsD(2) [OF assms]
  by (simp add: release_lease_def release_script_def and_then_def ret_def Let_def case_prod_beta
      owner_of_def)

lemma heartbeat_tick_run:
  assumes "lease_laws R U kv"
  shows "heartbeat_tick R U l w =
    (let a = lease_agent_id l; w1 = snd (cmd_get R (owner_key U a) w)
     in if owner_of U kv w a = Some (lease_instance l)
        then (True, snd (record_renewal R U a (snd (cmd_expire R (owner_key U a) LEASE_TTL_SECS w1)))) else (False, w1))"
  using lease_lawsD(1,5) [OF assms] lease_lawsD(2) [OF assms]
  by (simp add: heartbeat_tick_def heartbeat_script_def and_then_def ret_def Let_def case_prod_beta
      owner_of_def)

lemma lease_laws_inj: "lease_laws R U kv \<Longrightarrow> inj U"
  by (simp add: lease_laws_def)

lemma acquire_lease_effect:
  assumes "lease_laws R U kv"
  shows "fst (acquire_lease R U now a me cj w) = Ok \<lparr>lease_agent_id = a, lease_instance = me\<rparr>"
    and "owner_of U kv (snd (acquire_lease R U now a me cj w)) = (owner_of U kv w)(a \<mapsto> me)"
  using lease_lawsD(2,4) [OF assms] record_effects(2,5) [OF assms] owner_key_inj [OF lease_laws_inj [OF assms]]
  by (simp_all add: acquire_lease_run [OF assms] owner_of_def fun_eq_iff owner_key_distinct)

lemma release_lease_effect:
  assumes "lease_laws R U kv"
  shows "owner_of U kv (release_lease R U ms l w) =
    (if owner_of U kv w (lease_agent_id l) = Some (lease_instance l) then (owner_of U kv w)(lease_agent_id l := None) else owner_of U kv w)"
  using lease_lawsD(2,8) [OF assms] record_effects(3) [OF assms] owner_key_inj [OF lease_laws_inj [OF assms]]
  by (simp add: release_lease_run [OF assms] Let_def owner_of_def fun_eq_iff owner_key_distinct)

lemma heartbeat_tick_effect:
  assumes "lease_laws R U kv"
  shows "fst (heartbeat_tick R U l w) \<longleftrightarrow> owner_of U kv w (lease_agent_id l) = Some (lease_instance l)"
    and "owner_of U kv (snd (heartbeat_tick R U l w)) = owner_of U kv w"
  using lease_lawsD(2,6) [OF assms] record_effects(4) [OF assms]
  by (simp_all add: heartbeat_tick_run [OF assms] Let_def owner_of_def fun_eq_iff)

lemma redis_deliver_effect:
  assumes "lease_laws R U kv" and "stream_laws R strm"
  shows "if owner_of U kv w a = None then fst (redis_deliver R U a f w) = NoTunnel f \<and> strm (snd (redis_deliver R U a f w)) = strm w
    else fst (redis_deliver R U a f w) = Live
      \<and> (\<exists>i. strm (snd (redis_deliver R U a f w)) = (strm w)(inbox_key U a := strm w (inbox_key U a) @ [(i, [(''frame'', f)])]))"
proof -
  let ?w1 = "snd (cmd_exists R (owner_key U a) w)"
  have e: "fst (cmd_exists R (owner_key U a) w) = Ok (owner_of U kv w a \<noteq> None)"
    using assms(1) by (simp add: lease_laws_def string_laws_def owner_of_def)
  obtain i where "fst (cmd_xadd R (inbox_key U a) [(''frame'', f)] ?w1) = Ok i"
    "strm (snd (cmd_xadd R (inbox_key U a) [(''frame'', f)] ?w1)) = (strm w)(inbox_key U a := strm w (inbox_key U a) @ [(i, [(''frame'', f)])])"
    using stream_lawsD(3) [OF assms(2), of "inbox_key U a" "[(''frame'', f)]" ?w1] stream_lawsD(8) [OF assms(2), of "owner_key U a" w]
    by auto
  with e stream_lawsD(8) [OF assms(2)] show ?thesis
    by (auto simp: redis_deliver_def deliver_script_def and_then_def ret_def case_prod_beta)
qed

text \<open>Any instance may act on any lease, in any order.\<close>

datatype lease_op = AcquireOp uuid string | ReleaseOp ownership_lease | HeartbeatOp ownership_lease

fun lease_step :: "'r redis \<Rightarrow> (uuid \<Rightarrow> string) \<Rightarrow> string \<Rightarrow> string \<Rightarrow> int \<Rightarrow> lease_op \<Rightarrow> 'r \<Rightarrow> 'r" where
  "lease_step R U now cj ms (AcquireOp a me) w = snd (acquire_lease R U now a me cj w)"
| "lease_step R U now cj ms (ReleaseOp l) w = release_lease R U ms l w"
| "lease_step R U now cj ms (HeartbeatOp l) w = snd (heartbeat_tick R U l w)"

fun owner_step :: "lease_op \<Rightarrow> (uuid \<rightharpoonup> string) \<Rightarrow> uuid \<rightharpoonup> string" where
  "owner_step (AcquireOp a me) m = m(a \<mapsto> me)"
| "owner_step (ReleaseOp l) m = (if m (lease_agent_id l) = Some (lease_instance l) then m(lease_agent_id l := None) else m)"
| "owner_step (HeartbeatOp l) m = m"

lemma lease_step_owner:
  "lease_laws R U kv \<Longrightarrow> owner_of U kv (lease_step R U now cj ms x w) = owner_step x (owner_of U kv w)"
  by (cases x) (simp_all add: acquire_lease_effect release_lease_effect heartbeat_tick_effect)

lemma lease_steps_owner:
  "lease_laws R U kv \<Longrightarrow> owner_of U kv (fold (lease_step R U now cj ms) xs w) = fold owner_step xs (owner_of U kv w)"
  by (induction xs arbitrary: w) (simp_all add: lease_step_owner)

text \<open>The operations of instances other than \<open>b\<close>, none of which takes the agent.\<close>

fun elsewhere :: "string \<Rightarrow> uuid \<Rightarrow> lease_op \<Rightarrow> bool" where
  "elsewhere b a (AcquireOp a' me) \<longleftrightarrow> a' \<noteq> a"
| "elsewhere b a (ReleaseOp l) \<longleftrightarrow> lease_agent_id l \<noteq> a \<or> lease_instance l \<noteq> b"
| "elsewhere b a (HeartbeatOp l) \<longleftrightarrow> True"

lemma elsewhere_keeps: "list_all (elsewhere b a) xs \<Longrightarrow> m a = Some b \<Longrightarrow> fold owner_step xs m a = Some b"
proof (induction xs arbitrary: m)
  case (Cons x xs)
  then have "owner_step x m a = Some b" by (cases x) auto
  with Cons show ?case by simp
qed simp

subsection \<open>Properties\<close>

text \<open>
  C18: the buffer kept in Redis is the same bounded queue as the one in memory. Over any sequence
  of pushes and drains, its answers and the frames it leaves are those of one bounded FIFO per
  agent, when the server answers and no buffer is above the capacity at the start.
\<close>

theorem redis_queue_refines_fifo:
  assumes "stream_laws R strm" and "inj U" and "buffer_inv U cap strm w"
  shows "op_run (redis_push R U cap) (redis_drain R U cap) w xs = (rs, w')
    \<Longrightarrow> fifo_run cap (redis_frames U strm w) xs = (rs, redis_frames U strm w')"
  using redis_run_refines [OF assms, of xs] by simp

text \<open>A server that holds strings and streams, and answers every command.\<close>

type_synonym demo_redis_state = "(string \<rightharpoonup> string) \<times> (string \<Rightarrow> (string \<times> fields) list)"

definition demo_redis :: "demo_redis_state redis" where
  "demo_redis =
     \<lparr>cmd_get = (\<lambda>k w. (Ok (fst w k), w)), cmd_set_ex = (\<lambda>k v n w. (Ok (), ((fst w)(k \<mapsto> v), snd w))),
      cmd_exists = (\<lambda>k w. (Ok (fst w k \<noteq> None), w)), cmd_expire = (\<lambda>k n w. (Ok (if fst w k = None then 0 else 1), w)),
      cmd_del = (\<lambda>k w. (Ok (if fst w k = None \<and> snd w k = [] then 0 else 1), ((fst w)(k := None), (snd w)(k := [])))),
      cmd_hset = (\<lambda>k fs w. (Ok (), w)), cmd_sadd = (\<lambda>k m w. (Ok (), w)), cmd_srem = (\<lambda>k m w. (Ok (), w)),
      cmd_smembers = (\<lambda>k w. (Ok [], w)), cmd_sismember = (\<lambda>k m w. (Ok False, w)),
      cmd_zadd = (\<lambda>k s m w. (Ok (), w)), cmd_zrem = (\<lambda>k m w. (Ok (), w)), cmd_zremrangebyrank = (\<lambda>k i j w. (Ok (), w)),
      cmd_zrange_scores = (\<lambda>k w. (Ok [], w)), cmd_zscore = (\<lambda>k m w. (Err ''nil'', w)), cmd_publish = (\<lambda>c m w. (Ok (), w)),
      cmd_xlen = (\<lambda>k w. (Ok (length (snd w k)), w)),
      cmd_xadd = (\<lambda>k fs w. (Ok (show_nat (length (snd w k))), (fst w, (snd w)(k := snd w k @ [(show_nat (length (snd w k)), fs)])))),
      cmd_xrange = (\<lambda>k n w. (Ok (take n (snd w k)), w))\<rparr>"

lemma demo_stream_laws: "stream_laws demo_redis snd"
  by (simp add: stream_laws_def demo_redis_def)

definition demo_show :: "uuid \<Rightarrow> string" where "demo_show a = replicate (unat a) (CHR ''x'')"

lemma demo_show_inj: "inj demo_show"
  by (rule injI) (metis demo_show_def length_replicate word_unat_eq_iff)

lemma demo_lease_laws: "lease_laws demo_redis demo_show fst"
  using demo_show_inj by (simp add: lease_laws_def string_laws_def side_laws_def demo_redis_def)

definition demo_redis_init :: demo_redis_state where "demo_redis_init = (Map.empty, (\<lambda>_. []))"

theorem redis_queue_refines_fifo_witness:
  "\<exists>w'. op_run (redis_push demo_redis demo_show 1) (redis_drain demo_redis demo_show 1) demo_redis_init
     [Push 7 ''a'', Push 7 ''b'', Drain 7] = ([Pushed, Refused, Drained [''a'']], w')"
proof -
  have i: "buffer_inv demo_show 1 snd demo_redis_init" by (simp add: buffer_inv_def demo_redis_init_def)
  obtain rs w' where r: "op_run (redis_push demo_redis demo_show 1) (redis_drain demo_redis demo_show 1) demo_redis_init
     [Push 7 ''a'', Push 7 ''b'', Drain 7] = (rs, w')" by (metis surj_pair)
  have "redis_frames demo_show snd demo_redis_init = (\<lambda>_. [])"
    by (simp add: redis_frames_def demo_redis_init_def List.map_filter_simps fun_eq_iff)
  with redis_queue_refines_fifo [OF demo_stream_laws demo_show_inj i r] have "rs = [Pushed, Refused, Drained [''a'']]" by simp
  with r show ?thesis by blast
qed

text \<open>
  C16: an instance that took an agent over stays its owner. Whatever the other instances do
  afterwards with their leases, releases and heartbeats of the connection that was replaced
  included, the new owner remains and messages for the agent go to its inbox.
\<close>

theorem takeover_survives_stale_release:
  assumes "lease_laws R U kv" and "stream_laws R strm" and "list_all (elsewhere b a) xs"
    and "acquire_lease R U now a b cj w = (r, w1)" and "w2 = fold (lease_step R U now cj ms) xs w1"
  shows "owner_of U kv w2 a = Some b \<and> fst (redis_deliver R U a f w2) = Live
    \<and> (\<exists>i. strm (snd (redis_deliver R U a f w2)) (inbox_key U a) = strm w2 (inbox_key U a) @ [(i, [(''frame'', f)])])"
proof -
  from acquire_lease_effect(2) [OF assms(1), of now a b cj w] assms(4) have "owner_of U kv w1 a = Some b" by simp
  with lease_steps_owner [OF assms(1), of now cj ms xs w1] elsewhere_keeps [OF assms(3)] assms(5)
  have o: "owner_of U kv w2 a = Some b" by simp
  with redis_deliver_effect [OF assms(1,2), of w2 a f] show ?thesis by auto
qed

theorem takeover_survives_stale_release_witness:
  "let w1 = snd (acquire_lease demo_redis demo_show ''now'' 7 ''B'' ''{}''
             (snd (acquire_lease demo_redis demo_show ''now'' 7 ''A'' ''{}'' demo_redis_init)));
       w2 = fold (lease_step demo_redis demo_show ''now'' ''{}'' 0) [ReleaseOp \<lparr>lease_agent_id = 7, lease_instance = ''A''\<rparr>] w1
   in fst (redis_deliver demo_redis demo_show 7 ''hi'' w2) = Live"
proof -
  let ?w0 = "snd (acquire_lease demo_redis demo_show ''now'' 7 ''A'' ''{}'' demo_redis_init)"
  obtain r w1 where a: "acquire_lease demo_redis demo_show ''now'' 7 ''B'' ''{}'' ?w0 = (r, w1)" by (metis surj_pair)
  have "list_all (elsewhere ''B'' 7) [ReleaseOp \<lparr>lease_agent_id = 7, lease_instance = ''A''\<rparr>]" by simp
  from takeover_survives_stale_release [OF demo_lease_laws demo_stream_laws this a refl, of 0 "''hi''"] a
  show ?thesis unfolding Let_def by simp
qed

text \<open>
  When an agent reconnects to the same instance, the end of its old connection unroutes the
  new one. The lease is compared by the name of the instance, which both connections share: after
  the older lease is dropped the agent has no owner, messages find no tunnel, the consumer of the
  new connection is gone, and the heartbeat of the new lease stops at its next tick.
\<close>

theorem same_instance_reconnect_unroutes:
  assumes "lease_laws R U kv" and "stream_laws R strm" and "\<And>h v. kv (abort h v) = kv v"
    and "\<And>x v. kv (ensure_group x v) = kv v" and "\<And>x n y v. kv (snd (spawn x n y v)) = kv v"
    and "redis_acquire R U ensure_group spawn now cj a t1 (reg, w) = (Ok l1, reg1, w1)"
    and "redis_acquire R U ensure_group spawn now cj a t2 (reg1, w1) = (Ok l2, reg2, w2)"
    and "redis_lease_drop R U abort ms l1 (reg2, w2) = (reg3, w3)"
  shows "l1 = l2 \<and> fst (redis_deliver R U a f w2) = Live
    \<and> owner_of U kv w3 a = None \<and> fst (redis_deliver R U a f w3) = NoTunnel f
    \<and> consumer_handles reg3 a = None \<and> \<not> fst (heartbeat_tick R U l2 w3)"
proof -
  have acq: "l = \<lparr>lease_agent_id = a, lease_instance = reg_instance rg\<rparr> \<and> owner_of U kv v' a = Some (reg_instance rg)
      \<and> reg_instance rg' = reg_instance rg"
    if "redis_acquire R U ensure_group spawn now cj a t (rg, v) = (Ok l, rg', v')" for t rg v l rg' v'
  proof -
    obtain l0 v1 where l0: "acquire_lease R U now a (reg_instance rg) cj v = (Ok l0, v1)"
      using acquire_lease_effect(1) [OF assms(1)] by (metis prod.collapse)
    with acquire_lease_effect [OF assms(1), of now a "reg_instance rg" cj v]
    have "l0 = \<lparr>lease_agent_id = a, lease_instance = reg_instance rg\<rparr>" "kv v1 (owner_key U a) = Some (reg_instance rg)"
      by (simp_all add: owner_of_def fun_eq_iff)
    with that l0 assms(4,5) show ?thesis
      by (auto simp: redis_acquire_def owner_of_def split: prod.splits) (metis snd_conv)+
  qed
  note 1 = acq [OF assms(6)] and 2 = acq [OF assms(7)]
  define v where "v = (case consumer_handles reg2 a of Some h \<Rightarrow> abort h w2 | None \<Rightarrow> w2)"
  have v: "owner_of U kv v = owner_of U kv w2" using assms(3) by (simp add: v_def owner_of_def fun_eq_iff split: option.split)
  from assms(8) 1 have 3: "w3 = release_lease R U ms l1 v" "consumer_handles reg3 a = None"
    by (auto simp: redis_lease_drop_def Let_def v_def)
  with release_lease_effect [OF assms(1), of ms l1 v] 1 2 v have o3: "owner_of U kv w3 a = None" by simp
  with redis_deliver_effect [OF assms(1,2), of w3 a f] redis_deliver_effect [OF assms(1,2), of w2 a f]
    heartbeat_tick_effect(1) [OF assms(1), of l2 w3] 1 2 3 show ?thesis by auto
qed

definition demo_ensure_group :: "uuid \<Rightarrow> demo_redis_state \<Rightarrow> demo_redis_state" where "demo_ensure_group a w = w"

definition demo_spawn :: "uuid \<Rightarrow> string \<Rightarrow> nat \<Rightarrow> demo_redis_state \<Rightarrow> nat \<times> demo_redis_state" where
  "demo_spawn a n t w = (t, w)"

definition demo_abort :: "nat \<Rightarrow> demo_redis_state \<Rightarrow> demo_redis_state" where "demo_abort h w = w"

theorem same_instance_reconnect_unroutes_witness:
  "\<exists>l1 reg1 w1 l2 reg2 w2 reg3 w3.
     redis_acquire demo_redis demo_show demo_ensure_group demo_spawn ''now'' ''{}'' 7 (1::nat)
        (redis_registry_new ''A'', demo_redis_init) = (Ok l1, reg1, w1)
     \<and> redis_acquire demo_redis demo_show demo_ensure_group demo_spawn ''now'' ''{}'' 7 2 (reg1, w1) = (Ok l2, reg2, w2)
     \<and> redis_lease_drop demo_redis demo_show demo_abort 0 l1 (reg2, w2) = (reg3, w3)
     \<and> fst (redis_deliver demo_redis demo_show 7 ''hi'' w3) = NoTunnel ''hi''"
proof -
  have ok: "\<exists>l rg' v'. redis_acquire demo_redis demo_show demo_ensure_group demo_spawn ''now'' ''{}'' 7 t (rg, v) = (Ok l, rg', v')"
    for t rg v
  proof -
    obtain l0 v1 where "acquire_lease demo_redis demo_show ''now'' 7 (reg_instance rg) ''{}'' v = (Ok l0, v1)"
      using acquire_lease_effect(1) [OF demo_lease_laws] by (metis prod.collapse)
    then show ?thesis by (simp add: redis_acquire_def demo_spawn_def)
  qed
  obtain l1 reg1 w1 where 1: "redis_acquire demo_redis demo_show demo_ensure_group demo_spawn ''now'' ''{}'' 7 (1::nat)
      (redis_registry_new ''A'', demo_redis_init) = (Ok l1, reg1, w1)" using ok by blast
  obtain l2 reg2 w2 where 2: "redis_acquire demo_redis demo_show demo_ensure_group demo_spawn ''now'' ''{}'' 7 2 (reg1, w1) = (Ok l2, reg2, w2)"
    using ok by blast
  obtain reg3 w3 where 3: "redis_lease_drop demo_redis demo_show demo_abort 0 l1 (reg2, w2) = (reg3, w3)" by (metis surj_pair)
  have "fst (redis_deliver demo_redis demo_show 7 ''hi'' w3) = NoTunnel ''hi''"
    using same_instance_reconnect_unroutes [OF demo_lease_laws demo_stream_laws _ _ _ 1 2 3, of "''hi''"]
    by (simp add: demo_abort_def demo_ensure_group_def demo_spawn_def)
  with 1 2 3 show ?thesis by blast
qed

end
