(* ===== verification/Redis_Pubsub.thy ===== *)
theory Redis_Pubsub
  imports Redis_Store Channels
begin

text \<open>
  Subscriptions to Redis channels (\<^verbatim>\<open>server/src/redis_backend/broker.rs\<close> and the control
  receiver of \<^verbatim>\<open>registry.rs\<close>). A subscription is a background task with a connection of its
  own: it connects, subscribes, and forwards the payloads it receives to the receiver's channel
  until that is closed or the connection ends. The connections are parameters.
\<close>

record ('s, 'r) pubsub =
  open_client :: "string \<Rightarrow> (unit, string) result"
  open_pubsub :: "string \<Rightarrow> 'r \<Rightarrow> ('s, string) result \<times> 'r"
  ps_subscribe :: "'s \<Rightarrow> string \<Rightarrow> 'r \<Rightarrow> (unit, string) result \<times> 'r"

text \<open>The set-up of the task: None when a step of it failed, which is only logged.\<close>

definition open_subscription :: "('s, 'r) pubsub \<Rightarrow> string \<Rightarrow> string \<Rightarrow> 'r \<Rightarrow> 's option \<times> 'r" where
  "open_subscription P url channel w =
     (case open_client P url of
        Err _ \<Rightarrow> (None, w)
      | Ok _ \<Rightarrow>
          (case open_pubsub P url w of
             (Err _, w1) \<Rightarrow> (None, w1)
           | (Ok s, w1) \<Rightarrow>
               (case ps_subscribe P s channel w1 of
                  (Err _, w2) \<Rightarrow> (None, w2)
                | (Ok _, w2) \<Rightarrow> (Some s, w2))))"

text \<open>
  What the task waits for: a message, whose payload may not be a string, the end of the
  connection, or the receiver being closed.
\<close>

datatype sub_event = SubMessage "(string, string) result" | SubEnded | ReceiverClosed

text \<open>The loop of the task, and whether it is still running after the events.\<close>

fun subscription_loop :: "('tx, 'c) sender \<Rightarrow> 'tx \<Rightarrow> sub_event list \<Rightarrow> 'c \<Rightarrow> bool \<times> 'c" where
  "subscription_loop send t [] c = (True, c)"
| "subscription_loop send t (SubMessage (Ok p) # es) c =
     (case send t p c of
        (True, c') \<Rightarrow> subscription_loop send t es c'
      | (False, c') \<Rightarrow> (False, c'))"
| "subscription_loop send t (SubMessage (Err e) # es) c = subscription_loop send t es c"
| "subscription_loop send t (SubEnded # es) c = (False, c)"
| "subscription_loop send t (ReceiverClosed # es) c = (False, c)"

definition subscription_task ::
    "('s, 'r) pubsub \<Rightarrow> ('tx, 'c) sender \<Rightarrow> string \<Rightarrow> string \<Rightarrow> 'tx \<Rightarrow> sub_event list \<Rightarrow> 'c \<times> 'r \<Rightarrow> bool \<times> 'c \<times> 'r" where
  "subscription_task P send url channel t es s =
     (case s of (c, w) \<Rightarrow>
      (case open_subscription P url channel w of
         (None, w') \<Rightarrow> (False, c, w')
       | (Some _, w') \<Rightarrow> (case subscription_loop send t es c of (b, c') \<Rightarrow> (b, c', w'))))"

text \<open>
  The two uses: the notifications of an agent for an SSE subscriber, and the control signals of
  an agent for its tunnel.
\<close>

definition redis_subscribe ::
    "('s, 'r) pubsub \<Rightarrow> ('tx, 'c) sender \<Rightarrow> (uuid \<Rightarrow> string) \<Rightarrow> string \<Rightarrow> uuid \<Rightarrow> 'tx \<Rightarrow> sub_event list \<Rightarrow> 'c \<times> 'r \<Rightarrow> bool \<times> 'c \<times> 'r" where
  "redis_subscribe P send U url a t es s = subscription_task P send url (stream_channel U a) t es s"

definition control_receiver ::
    "('s, 'r) pubsub \<Rightarrow> ('tx, 'c) sender \<Rightarrow> (uuid \<Rightarrow> string) \<Rightarrow> string \<Rightarrow> uuid \<Rightarrow> 'tx \<Rightarrow> sub_event list \<Rightarrow> 'c \<times> 'r \<Rightarrow> bool \<times> 'c \<times> 'r" where
  "control_receiver P send U url a t es s = subscription_task P send url (control_channel U a) t es s"

subsection \<open>What the server promises about channels\<close>

text \<open>
  Channels, seen through \<open>subs\<close>: the channel of a subscription and what was published on it since.
  A new connection is subscribed to nothing; publishing reaches the subscriptions of the channel
  at that moment, and no other command touches subscriptions.
\<close>

definition channel_laws ::
    "'r redis \<Rightarrow> ('s, 'r) pubsub \<Rightarrow> ('r \<Rightarrow> 's \<rightharpoonup> string \<times> string list) \<Rightarrow> bool" where
  "channel_laws R P subs \<longleftrightarrow>
     (\<forall>url w w' s. open_pubsub P url w = (Ok s, w') \<longrightarrow> subs w s = None)
   \<and> (\<forall>url w. subs (snd (open_pubsub P url w)) = subs w)
   \<and> (\<forall>s c w w'. subs w s = None \<longrightarrow> ps_subscribe P s c w = (Ok (), w') \<longrightarrow> subs w' = (subs w)(s \<mapsto> (c, [])))
   \<and> (\<forall>s c w w' e. ps_subscribe P s c w = (Err e, w') \<longrightarrow> subs w' = subs w)
   \<and> (\<forall>c m w. subs (snd (cmd_publish R c m w)) = (\<lambda>s. map_option (\<lambda>(d, ms). (d, if d = c then ms @ [m] else ms)) (subs w s)))
   \<and> (\<forall>k w. subs (snd (cmd_get R k w)) = subs w)
   \<and> (\<forall>k v n w. subs (snd (cmd_set_ex R k v n w)) = subs w)
   \<and> (\<forall>k n w. subs (snd (cmd_expire R k n w)) = subs w)
   \<and> (\<forall>k w. subs (snd (cmd_del R k w)) = subs w)
   \<and> (\<forall>k fs w. subs (snd (cmd_hset R k fs w)) = subs w)
   \<and> (\<forall>k m w. subs (snd (cmd_sadd R k m w)) = subs w)
   \<and> (\<forall>k m w. subs (snd (cmd_srem R k m w)) = subs w)
   \<and> (\<forall>k x m w. subs (snd (cmd_zadd R k x m w)) = subs w)
   \<and> (\<forall>k m w. subs (snd (cmd_zrem R k m w)) = subs w)
   \<and> (\<forall>k i j w. subs (snd (cmd_zremrangebyrank R k i j w)) = subs w)"

lemma channel_lawsD:
  assumes "channel_laws R P subs"
  shows "open_pubsub P url w = (Ok s, w') \<Longrightarrow> subs w s = None \<and> subs w' = subs w"
    and "subs w s = None \<Longrightarrow> ps_subscribe P s c w = (Ok (), w') \<Longrightarrow> subs w' = (subs w)(s \<mapsto> (c, []))"
    and "subs (snd (cmd_publish R c m w)) s = map_option (\<lambda>(d, ms). (d, if d = c then ms @ [m] else ms)) (subs w s)"
    and "subs (snd (cmd_get R k w)) = subs w"
    and "subs (snd (cmd_set_ex R k v n w)) = subs w"
    and "subs (snd (cmd_expire R k n w)) = subs w"
    and "subs (snd (cmd_del R k w)) = subs w"
proof -
  note laws = assms [unfolded channel_laws_def]
  note l2 = conjunct2 [OF laws] note l3 = conjunct2 [OF l2] note l4 = conjunct2 [OF l3] note l5 = conjunct2 [OF l4]
  have "subs (snd (open_pubsub P url w)) = subs w" using conjunct1 [OF l2] by simp
  then show "open_pubsub P url w = (Ok s, w') \<Longrightarrow> subs w s = None \<and> subs w' = subs w"
    using conjunct1 [OF laws] by (metis snd_conv)
  show "subs w s = None \<Longrightarrow> ps_subscribe P s c w = (Ok (), w') \<Longrightarrow> subs w' = (subs w)(s \<mapsto> (c, []))"
    using conjunct1 [OF l3] by metis
  show "subs (snd (cmd_publish R c m w)) s = map_option (\<lambda>(d, ms). (d, if d = c then ms @ [m] else ms)) (subs w s)"
    "subs (snd (cmd_get R k w)) = subs w" "subs (snd (cmd_set_ex R k v n w)) = subs w"
    "subs (snd (cmd_expire R k n w)) = subs w" "subs (snd (cmd_del R k w)) = subs w"
    using l5 by simp_all
qed

lemma open_subscription_effect:
  assumes "channel_laws R P subs" and "open_subscription P url channel w = (Some s, w')"
  shows "subs w' = (subs w)(s \<mapsto> (channel, []))"
proof -
  from assms(2) obtain w1 where w1: "open_pubsub P url w = (Ok s, w1)" "ps_subscribe P s channel w1 = (Ok (), w')"
    by (auto simp: open_subscription_def split: result.splits prod.splits)
  from channel_lawsD(1) [OF assms(1) w1(1)] channel_lawsD(2) [OF assms(1) _ w1(2)] show ?thesis by simp
qed

text \<open>The messages a subscription delivers to the loop, all of them strings, and the loop on them.\<close>

lemma subscription_loop_messages:
  assumes "mpsc_laws send alive sent" and "alive c t"
  shows "\<exists>c'. subscription_loop send t (map (SubMessage \<circ> Ok) ps) c = (True, c') \<and> alive c' = alive c
    \<and> sent c' = (sent c)(t := sent c t @ ps)"
  using assms(2)
proof (induction ps arbitrary: c)
  case (Cons p ps)
  from mpsc_accept [OF assms(1) Cons.prems, of p] obtain c1 where
    "send t p c = (True, c1)" "sent c1 = (sent c)(t := sent c t @ [p])" "alive c1 = alive c" .
  with Cons.IH [of c1] Cons.prems show ?case by (auto simp: fun_eq_iff)
qed simp

subsection \<open>Published by any instance, received by every subscriber\<close>

text \<open>Publications for agents, from whichever instance, one after the other.\<close>

fun publish_all :: "'r redis \<Rightarrow> (uuid \<Rightarrow> string) \<Rightarrow> (uuid \<times> string) list \<Rightarrow> 'r \<Rightarrow> 'r" where
  "publish_all R U [] w = w"
| "publish_all R U ((a, f) # ps) w = publish_all R U ps (redis_publish R U a f w)"

lemma stream_channel_inj: "inj U \<Longrightarrow> stream_channel U a = stream_channel U b \<longleftrightarrow> a = b"
  by (auto simp: stream_channel_def dest: injD)

lemma publish_all_subs:
  assumes "channel_laws R P subs" and "inj U"
  shows "subs w s = Some (stream_channel U a, ms) \<Longrightarrow>
    subs (publish_all R U ps w) s = Some (stream_channel U a, ms @ map snd (filter (\<lambda>p. fst p = a) ps))"
proof (induction ps arbitrary: w ms)
  case (Cons p ps)
  obtain b f where p: "p = (b, f)" by (cases p)
  have "subs (redis_publish R U b f w) s = Some (stream_channel U a, if b = a then ms @ [f] else ms)"
    using channel_lawsD(3) [OF assms(1)] Cons.prems stream_channel_inj [OF assms(2)] by (auto simp: redis_publish_def)
  from Cons.IH [OF this] p show ?case by simp
qed simp

subsection \<open>Properties\<close>

text \<open>
  Notifications reach the subscribers of an agent on every instance. Once a subscription is
  open, what its receiver is sent is exactly what any instance publishes for its agent from then
  on, in the order of publication, and nothing that is published for another agent.
\<close>

theorem redis_fan_out_per_agent:
  assumes "channel_laws R P subs" and "inj U" and "mpsc_laws send alive sent" and "alive c t"
    and "open_subscription P url (stream_channel U a) w = (Some s, w1)"
    and "subs (publish_all R U ps w1) s = Some (ch, ms)"
    and "redis_subscribe P send U url a t (map (SubMessage \<circ> Ok) ms) (c, w) = (running, c', w')"
  shows "running \<and> w' = w1 \<and> sent c' t = sent c t @ map snd (filter (\<lambda>p. fst p = a) ps)
    \<and> (\<forall>u. u \<noteq> t \<longrightarrow> sent c' u = sent c u)"
proof -
  from open_subscription_effect [OF assms(1,5)] have "subs w1 s = Some (stream_channel U a, [])" by simp
  from publish_all_subs [OF assms(1,2) this, of ps] assms(6) have ms: "ms = map snd (filter (\<lambda>p. fst p = a) ps)" by simp
  from subscription_loop_messages [OF assms(3,4), of ms] obtain c1 where
    "subscription_loop send t (map (SubMessage \<circ> Ok) ms) c = (True, c1)" "sent c1 = (sent c)(t := sent c t @ ms)" by blast
  with assms(5,7) ms show ?thesis by (auto simp: redis_subscribe_def subscription_task_def)
qed

text \<open>A server with subscriptions that answers every command.\<close>

type_synonym channel_state = "(nat \<rightharpoonup> string \<times> string list) \<times> nat"

definition demo_channels :: "channel_state redis" where
  "demo_channels =
     \<lparr>cmd_get = (\<lambda>k w. (Ok None, w)), cmd_set_ex = (\<lambda>k v n w. (Ok (), w)), cmd_exists = (\<lambda>k w. (Ok False, w)),
      cmd_expire = (\<lambda>k n w. (Ok 0, w)), cmd_del = (\<lambda>k w. (Ok 0, w)), cmd_hset = (\<lambda>k fs w. (Ok (), w)),
      cmd_sadd = (\<lambda>k m w. (Ok (), w)), cmd_srem = (\<lambda>k m w. (Ok (), w)), cmd_smembers = (\<lambda>k w. (Ok [], w)),
      cmd_sismember = (\<lambda>k m w. (Ok False, w)), cmd_zadd = (\<lambda>k s m w. (Ok (), w)), cmd_zrem = (\<lambda>k m w. (Ok (), w)),
      cmd_zremrangebyrank = (\<lambda>k i j w. (Ok (), w)), cmd_zrange_scores = (\<lambda>k w. (Ok [], w)), cmd_zscore = (\<lambda>k m w. (Err ''nil'', w)),
      cmd_publish = (\<lambda>c m w. (Ok (), (\<lambda>s. map_option (\<lambda>(d, ms). (d, if d = c then ms @ [m] else ms)) (fst w s), snd w))),
      cmd_xlen = (\<lambda>k w. (Ok 0, w)), cmd_xadd = (\<lambda>k fs w. (Ok ''0-1'', w)), cmd_xrange = (\<lambda>k n w. (Ok [], w))\<rparr>"

definition demo_pubsub :: "(nat, channel_state) pubsub" where
  "demo_pubsub =
     \<lparr>open_client = (\<lambda>url. Ok ()),
      open_pubsub = (\<lambda>url w. (if fst w (snd w) = None then Ok (snd w) else Err ''busy'', w)),
      ps_subscribe = (\<lambda>s c w. (Ok (), ((fst w)(s \<mapsto> (c, [])), Suc (snd w))))\<rparr>"

lemma demo_channel_laws: "channel_laws demo_channels demo_pubsub fst"
  by (simp add: channel_laws_def demo_channels_def demo_pubsub_def)

theorem redis_fan_out_per_agent_witness:
  "\<exists>w1 ms r. open_subscription demo_pubsub ''redis://'' (stream_channel demo_show 7) (Map.empty, 0) = (Some 0, w1)
    \<and> fst (publish_all demo_channels demo_show [(7, ''x''), (8, ''y''), (7, ''z'')] w1) 0 = Some (stream_channel demo_show 7, ms)
    \<and> redis_subscribe demo_pubsub world_send demo_show ''redis://'' 7 3 (map (SubMessage \<circ> Ok) ms) (world_init, (Map.empty, 0)) = r
    \<and> snd (fst (snd r)) 3 = [''x'', ''z'']"
proof -
  let ?w1 = "([0 \<mapsto> (stream_channel demo_show 7, [])], Suc 0)"
  have o: "open_subscription demo_pubsub ''redis://'' (stream_channel demo_show 7) (Map.empty, 0) = (Some 0, ?w1)"
    by (simp add: open_subscription_def demo_pubsub_def)
  let ?ps = "[(7 :: uuid, ''x''), (8, ''y''), (7, ''z'')]"
  have s: "fst ?w1 0 = Some (stream_channel demo_show 7, [])" by simp
  note p = publish_all_subs [OF demo_channel_laws demo_show_inj s, of ?ps]
  obtain b c' w' where r: "redis_subscribe demo_pubsub world_send demo_show ''redis://'' 7 3
      (map (SubMessage \<circ> Ok) ([] @ map snd (filter (\<lambda>p. fst p = 7) ?ps))) (world_init, (Map.empty, 0)) = (b, c', w')"
    by (metis surj_pair)
  have "fst world_init 3" by (simp add: world_init_def)
  from redis_fan_out_per_agent [OF demo_channel_laws demo_show_inj world_laws this o p r]
  have "snd c' 3 = [''x'', ''z'']" by (simp add: world_init_def)
  with o p r show ?thesis by (metis fst_conv snd_conv)
qed

end
