(* ===== verification/Llm_Types.thy ===== *)
theory Llm_Types
  imports Acp_Prelude
begin

text \<open>
  The data model of the language-model client (\<^verbatim>\<open>loop/src/llm/types.rs\<close>): messages,
  multimodal content, tool calls, streamed deltas and usage.

  Token counts are 64-bit words; a cost is the bit pattern of a double. The decoder of a tagged
  content block is derived code, so \<open>typed_block_decode\<close> takes it as an argument; its
  encoder is written out.
\<close>

datatype role_kind = RSystem | RUser | RAssistant | RTool

datatype content_block =
    BText string
  | BImageUrl json
  | BImage json
  | BInputAudio json

datatype typed_block = Known content_block | Unknown json

datatype content = CText string | CBlocks "typed_block list"

record function_call =
  fc_name :: string
  fc_arguments :: string

record tool_call =
  tc_id :: string
  tc_type :: string
  tc_function :: function_call

record message =
  m_role :: role_kind
  m_content :: "content option"
  m_tool_calls :: "tool_call list option"
  m_tool_call_id :: "string option"

datatype tool_content = TText string | TImageBase64 string string

record function_def =
  fd_name :: string
  fd_description :: string
  fd_parameters :: json

record tool_definition =
  td_type :: string
  td_function :: function_def

datatype stop_reason = Stop | ToolCalls | Length | ContentFilter

record usage =
  prompt_tokens :: u64
  completion_tokens :: u64
  total_tokens :: u64
  cost :: f64
  cache_read_tokens :: u64
  cache_creation_tokens :: u64

definition usage_default :: usage where
  "usage_default = \<lparr>prompt_tokens = 0, completion_tokens = 0, total_tokens = 0, cost = 0,
     cache_read_tokens = 0, cache_creation_tokens = 0\<rparr>"

record function_call_delta =
  fcd_name :: "string option"
  fcd_arguments :: "string option"

record tool_call_delta =
  tcd_index :: nat
  tcd_id :: "string option"
  tcd_function :: "function_call_delta option"

record delta =
  d_role :: "role_kind option"
  d_content :: "string option"
  d_tool_calls :: "tool_call_delta list option"

record choice =
  ch_message :: "message option"
  ch_delta :: "delta option"
  ch_finish_reason :: "stop_reason option"

record completion_response =
  cr_choices :: "choice list"
  cr_usage :: "usage option"

record stream_event =
  se_choices :: "choice list"
  se_usage :: "usage option"

subsection \<open>Content\<close>

fun content_as_text :: "content \<Rightarrow> string option" where
  "content_as_text (CText s) = Some s"
| "content_as_text (CBlocks bs) = None"

fun block_as_text :: "typed_block \<Rightarrow> string option" where
  "block_as_text (Known (BText t)) = Some t"
| "block_as_text _ = None"

fun is_media :: "typed_block \<Rightarrow> bool" where
  "is_media (Known (BImageUrl _)) = True"
| "is_media (Known (BImage _)) = True"
| "is_media (Known (BInputAudio _)) = True"
| "is_media _ = False"

fun block_estimate_tokens :: "typed_block \<Rightarrow> nat" where
  "block_estimate_tokens (Known (BText t)) = length t div 4"
| "block_estimate_tokens (Known (BImageUrl _)) = 765"
| "block_estimate_tokens (Known (BImage _)) = 765"
| "block_estimate_tokens (Known (BInputAudio _)) = 0"
| "block_estimate_tokens (Unknown _) = 0"

definition newline :: string where "newline = [CHR 0x0A]"

fun extract_text :: "content \<Rightarrow> string option" where
  "extract_text (CText s) = Some s"
| "extract_text (CBlocks bs) =
     (let texts = List.map_filter block_as_text bs
      in if texts = [] then None else Some (str_join newline texts))"

fun content_estimate_tokens :: "content \<Rightarrow> nat" where
  "content_estimate_tokens (CText s) = length s div 4"
| "content_estimate_tokens (CBlocks bs) = sum_list (map block_estimate_tokens bs)"

subsection \<open>JSON forms\<close>

fun block_encode :: "content_block \<Rightarrow> json" where
  "block_encode (BText t) = JObject [(''type'', JString ''text''), (''text'', JString t)]"
| "block_encode (BImageUrl v) = JObject [(''type'', JString ''image_url''), (''image_url'', v)]"
| "block_encode (BImage v) = JObject [(''type'', JString ''image''), (''source'', v)]"
| "block_encode (BInputAudio v) = JObject [(''type'', JString ''input_audio''), (''input_audio'', v)]"

fun typed_block_encode :: "typed_block \<Rightarrow> json" where
  "typed_block_encode (Known b) = block_encode b"
| "typed_block_encode (Unknown v) = v"

definition typed_block_decode :: "(json \<Rightarrow> content_block option) \<Rightarrow> json \<Rightarrow> typed_block" where
  "typed_block_decode decode v = (case decode v of Some b \<Rightarrow> Known b | None \<Rightarrow> Unknown v)"

fun content_encode :: "content \<Rightarrow> json" where
  "content_encode (CText s) = JString s"
| "content_encode (CBlocks bs) = JArray (map typed_block_encode bs)"

text \<open>\<open>Content\<close> is untagged: a string is text, an array is blocks, and nothing else decodes.\<close>

fun content_decode :: "(json \<Rightarrow> content_block option) \<Rightarrow> json \<Rightarrow> content option" where
  "content_decode decode (JString s) = Some (CText s)"
| "content_decode decode (JArray vs) = Some (CBlocks (map (typed_block_decode decode) vs))"
| "content_decode decode _ = None"

fun role_encode :: "role_kind \<Rightarrow> string" where
  "role_encode RSystem = ''system''"
| "role_encode RUser = ''user''"
| "role_encode RAssistant = ''assistant''"
| "role_encode RTool = ''tool''"

definition role_decode :: "string \<Rightarrow> role_kind option" where
  "role_decode s = map_of [(''system'', RSystem), (''user'', RUser), (''assistant'', RAssistant),
     (''tool'', RTool)] s"

definition stop_reason_decode :: "string \<Rightarrow> stop_reason option" where
  "stop_reason_decode s = map_of [(''stop'', Stop), (''tool_calls'', ToolCalls), (''length'', Length),
     (''content_filter'', ContentFilter)] s"

definition tool_call_encode :: "tool_call \<Rightarrow> json" where
  "tool_call_encode c =
     JObject [(''id'', JString (tc_id c)), (''type'', JString (tc_type c)),
       (''function'', JObject [(''name'', JString (fc_name (tc_function c))),
          (''arguments'', JString (fc_arguments (tc_function c)))])]"

text \<open>Absent optional fields are skipped.\<close>

definition message_encode :: "message \<Rightarrow> json" where
  "message_encode m =
     JObject ([(''role'', JString (role_encode (m_role m)))]
       @ (case m_content m of None \<Rightarrow> [] | Some c \<Rightarrow> [(''content'', content_encode c)])
       @ (case m_tool_calls m of None \<Rightarrow> [] | Some cs \<Rightarrow> [(''tool_calls'', JArray (map tool_call_encode cs))])
       @ (case m_tool_call_id m of None \<Rightarrow> [] | Some i \<Rightarrow> [(''tool_call_id'', JString i)]))"

subsection \<open>Usage\<close>

record raw_usage =
  raw_prompt_tokens :: u64
  raw_completion_tokens :: u64
  raw_total_tokens :: u64
  raw_cost :: f64
  cache_read_input_tokens :: u64
  cache_creation_input_tokens :: u64
  prompt_tokens_details :: "u64 option"

definition usage_of_raw :: "raw_usage \<Rightarrow> usage" where
  "usage_of_raw raw =
     (let nested_cached = unwrap_or 0 (prompt_tokens_details raw)
      in \<lparr>prompt_tokens = raw_prompt_tokens raw, completion_tokens = raw_completion_tokens raw,
          total_tokens = raw_total_tokens raw, cost = raw_cost raw,
          cache_read_tokens = max (cache_read_input_tokens raw) nested_cached,
          cache_creation_tokens = cache_creation_input_tokens raw\<rparr>)"

subsection \<open>Lemmas\<close>

lemma role_decode_encode [simp]: "role_decode (role_encode r) = Some r"
  by (cases r) (simp_all add: role_decode_def)

text \<open>What the derived decoder of a tagged block does on the encoder's output.\<close>

definition block_decode_laws :: "(json \<Rightarrow> content_block option) \<Rightarrow> bool" where
  "block_decode_laws decode \<longleftrightarrow> (\<forall>b. decode (block_encode b) = Some b)"

text \<open>
  A value is decoded without loss when it is not a block at all or is exactly what the encoder
  writes for the block it decodes to.
\<close>

lemma typed_block_encode_decode:
  "decode v = None \<or> (\<exists>b. decode v = Some b \<and> block_encode b = v) \<Longrightarrow>
     typed_block_encode (typed_block_decode decode v) = v"
  by (auto simp: typed_block_decode_def)

lemma typed_block_decode_encode:
  "block_decode_laws decode \<Longrightarrow>
     typed_block_decode decode (typed_block_encode (typed_block_decode decode v)) = typed_block_decode decode v"
  by (auto simp: typed_block_decode_def block_decode_laws_def split: option.splits)

subsection \<open>Properties\<close>

text \<open>
  Multimodal content survives being stored and read again. Content that was decoded from
  any JSON value, unknown blocks included, is encoded to a value that decodes to the same
  content; and a block of an unrecognised type is encoded to exactly the JSON it came from.
\<close>

theorem content_roundtrip:
  assumes "block_decode_laws decode" and "content_decode decode v = Some c"
  shows "content_decode decode (content_encode c) = Some c
    \<and> (decode u = None \<longrightarrow> typed_block_encode (typed_block_decode decode u) = u)"
proof -
  have "content_decode decode (content_encode c) = Some c"
    using assms(2) by (cases v) (auto simp: typed_block_decode_encode [OF assms(1)])
  then show ?thesis by (simp add: typed_block_encode_decode)
qed

definition demo_block_decode :: "json \<Rightarrow> content_block option" where
  "demo_block_decode v =
     (case (Option.bind (json_get ''type'' v) as_str) of
        None \<Rightarrow> None
      | Some k \<Rightarrow>
          if k = ''text'' then map_option BText (Option.bind (json_get ''text'' v) as_str)
          else if k = ''image_url'' then map_option BImageUrl (json_get ''image_url'' v)
          else if k = ''image'' then map_option BImage (json_get ''source'' v)
          else if k = ''input_audio'' then map_option BInputAudio (json_get ''input_audio'' v)
          else None)"

lemma demo_block_decode_laws: "block_decode_laws demo_block_decode"
  unfolding block_decode_laws_def
proof
  fix b show "demo_block_decode (block_encode b) = Some b"
    by (cases b) (simp_all add: demo_block_decode_def)
qed

theorem content_roundtrip_witness:
  "content_decode demo_block_decode (content_encode (CBlocks [Known (BText ''hi''), Unknown (JObject [(''type'', JString ''video'')])]))
     = Some (CBlocks [Known (BText ''hi''), Unknown (JObject [(''type'', JString ''video'')])])"
proof -
  let ?v = "JArray [JObject [(''type'', JString ''text''), (''text'', JString ''hi'')], JObject [(''type'', JString ''video'')]]"
  have "content_decode demo_block_decode ?v = Some (CBlocks [Known (BText ''hi''), Unknown (JObject [(''type'', JString ''video'')])])"
    by (simp add: typed_block_decode_def demo_block_decode_def)
  from content_roundtrip [OF demo_block_decode_laws this] show ?thesis by blast
qed

end
