(* ===== verification/Compaction.thy ===== *)
theory Compaction
  imports Llm_Types
begin

text \<open>
  Compaction of a conversation that has grown too large (\<^verbatim>\<open>loop/src/compaction.rs\<close>).
  The call to the model is an argument: \<open>complete messages s\<close> gives the response or an error
  and the new state of the service.
\<close>

type_synonym 's completer = "message list \<Rightarrow> 's \<Rightarrow> (completion_response, string) result \<times> 's"

definition COMPACTION_PROMPT :: string where
  "COMPACTION_PROMPT =
     ''You are summarizing a conversation between a user and an AI assistant. ''
     @ ''Preserve all important context: decisions made, files modified, ''
     @ ''key findings, current task state, and any commitments or next steps. ''
     @ ''Be concise but complete '' @ [CHR 0xE2, CHR 0x80, CHR 0x94]
     @ '' this summary replaces the original messages.''"

record compaction_result =
  working_messages :: "message list"
  canonical_messages :: "message list"
  summary :: string

definition plain_message :: "role_kind \<Rightarrow> string \<Rightarrow> message" where
  "plain_message r t = \<lparr>m_role = r, m_content = Some (CText t), m_tool_calls = None, m_tool_call_id = None\<rparr>"

subsection \<open>The split point\<close>

text \<open>One iteration of the loop over the slice: the calls still unanswered.\<close>

definition unanswered_step :: "string set \<Rightarrow> message \<Rightarrow> string set" where
  "unanswered_step unanswered msg =
     (case m_role msg of
        RAssistant \<Rightarrow> (case m_tool_calls msg of
            None \<Rightarrow> unanswered | Some calls \<Rightarrow> unanswered \<union> tc_id ` set calls)
      | RTool \<Rightarrow> (case m_tool_call_id msg of None \<Rightarrow> unanswered | Some i \<Rightarrow> unanswered - {i})
      | _ \<Rightarrow> unanswered)"

definition slice :: "'a list \<Rightarrow> nat \<Rightarrow> nat \<Rightarrow> 'a list" where
  "slice xs i j = take (j - i) (drop i xs)"

definition has_straddling_pair :: "message list \<Rightarrow> nat \<Rightarrow> nat \<Rightarrow> bool" where
  "has_straddling_pair messages start split =
     (foldl unanswered_step {} (slice messages start split) \<noteq> {})"

fun walk_back :: "message list \<Rightarrow> nat \<Rightarrow> nat \<Rightarrow> nat" where
  "walk_back messages start 0 = 0"
| "walk_back messages start (Suc n) =
     (if start < Suc n \<and> has_straddling_pair messages start (Suc n)
      then walk_back messages start n else Suc n)"

definition find_safe_split :: "message list \<Rightarrow> nat \<Rightarrow> nat \<Rightarrow> nat" where
  "find_safe_split messages start proposed = walk_back messages start (min proposed (length messages))"

subsection \<open>Summary and compaction\<close>

fun role_label :: "role_kind \<Rightarrow> string" where
  "role_label RUser = ''User''"
| "role_label RAssistant = ''Assistant''"
| "role_label RTool = ''Tool''"
| "role_label RSystem = ''System''"

definition conversation_text :: "message list \<Rightarrow> string" where
  "conversation_text messages =
     str_join (newline @ newline)
       (List.map_filter (\<lambda>m. map_option (\<lambda>t. role_label (m_role m) @ '': '' @ t)
          (Option.bind (m_content m) extract_text)) messages)"

definition summarize :: "'s completer \<Rightarrow> message list \<Rightarrow> 's \<Rightarrow> (string, string) result \<times> 's" where
  "summarize complete messages s =
     (case complete
         [plain_message RSystem COMPACTION_PROMPT,
          plain_message RUser (''Summarize this conversation:'' @ newline @ newline
            @ conversation_text messages)] s of
        (Err e, s') \<Rightarrow> (Err e, s')
      | (Ok response, s') \<Rightarrow>
          (ok_or ''compaction returned empty response''
             (case cr_choices response of
                [] \<Rightarrow> None
              | c # _ \<Rightarrow> Option.bind (Option.bind (ch_message c) m_content) content_as_text), s'))"

definition compacted_context :: "string \<Rightarrow> message" where
  "compacted_context s =
     plain_message RSystem (''<compacted_context>'' @ newline @ s @ newline @ ''</compacted_context>'')"

definition unchanged :: "message list \<Rightarrow> compaction_result" where
  "unchanged messages = \<lparr>working_messages = messages, canonical_messages = messages, summary = []\<rparr>"

definition compact_messages ::
    "'s completer \<Rightarrow> message list \<Rightarrow> nat \<Rightarrow> 's \<Rightarrow> (compaction_result, string) result \<times> 's" where
  "compact_messages complete messages keep_recent s =
     (if length messages \<le> keep_recent + 2 then (Ok (unchanged messages), s)
      else
        let system_msg = (case messages of
              m # _ \<Rightarrow> if m_role m = RSystem then Some m else None | [] \<Rightarrow> None);
            start = (if system_msg \<noteq> None then 1 else 0);
            proposed = length messages - keep_recent;
            split_point = find_safe_split messages start proposed
        in if split_point \<le> start then (Ok (unchanged messages), s)
           else
             let to_compact = slice messages start split_point;
                 recent = drop split_point messages
             in case summarize complete to_compact s of
                  (Err e, s') \<Rightarrow> (Err e, s')
                | (Ok sm, s') \<Rightarrow>
                    (Ok \<lparr>working_messages = (case system_msg of None \<Rightarrow> [] | Some m \<Rightarrow> [m])
                           @ compacted_context sm # recent,
                         canonical_messages = recent, summary = sm\<rparr>, s'))"

definition estimate_tokens :: "message list \<Rightarrow> nat" where
  "estimate_tokens messages = sum_list (map content_estimate_tokens (List.map_filter m_content messages))"

subsection \<open>Pairing\<close>

text \<open>
  What a provider requires of a history: every tool response answers a call that an earlier
  assistant message issued and that is not answered yet. \<open>pairing\<close> reads a history from the
  calls pending before it and gives the calls pending after it, or None at an orphan response.
\<close>

fun pairing :: "string set \<Rightarrow> message list \<Rightarrow> string set option" where
  "pairing p [] = Some p"
| "pairing p (m # ms) =
     (if m_role m = RTool \<and> m_tool_call_id m \<notin> Some ` p then None
      else pairing (unanswered_step p m) ms)"

definition well_paired :: "message list \<Rightarrow> bool" where
  "well_paired ms \<longleftrightarrow> pairing {} ms \<noteq> None"

subsection \<open>Lemmas\<close>

lemma pairing_append: "pairing p (xs @ ys) = Option.bind (pairing p xs) (\<lambda>q. pairing q ys)"
  by (induction xs arbitrary: p) auto

lemma pairing_foldl: "pairing p xs = Some q \<Longrightarrow> q = foldl unanswered_step p xs"
  by (induction xs arbitrary: p) (auto split: if_splits)

lemma pairing_plain:
  "m_role m = RSystem \<or> m_role m = RUser \<Longrightarrow> pairing p (m # ms) = pairing p ms"
  by (auto simp: unanswered_step_def)

lemma pairing_mono_None: "pairing p xs = None \<Longrightarrow> pairing p (xs @ ys) = None"
  by (simp add: pairing_append)

lemma walk_back_spec:
  "walk_back ms start n \<le> n"
  "start < walk_back ms start n \<Longrightarrow> \<not> has_straddling_pair ms start (walk_back ms start n)"
  "walk_back ms start n < k \<Longrightarrow> k \<le> n \<Longrightarrow> start < k \<and> has_straddling_pair ms start k"
proof -
  show "walk_back ms start n \<le> n" by (induction n) (auto intro: le_SucI)
  show "start < walk_back ms start n \<Longrightarrow> \<not> has_straddling_pair ms start (walk_back ms start n)"
    by (induction n) auto
  show "walk_back ms start n < k \<Longrightarrow> k \<le> n \<Longrightarrow> start < k \<and> has_straddling_pair ms start k"
    by (induction n) (auto split: if_splits elim: le_SucE)
qed

lemma slice_split: "i \<le> j \<Longrightarrow> j \<le> length xs \<Longrightarrow> xs = take i xs @ slice xs i j @ drop j xs"
  by (metis append_take_drop_id drop_drop le_add_diff_inverse2 slice_def)

text \<open>Cutting a history where no call straddles the cut leaves the pairing of the rest as it was.\<close>

lemma pairing_drop_answered:
  assumes "\<not> has_straddling_pair ms i j" and "pairing {} (slice ms i j @ rest) = Some q"
  shows "pairing {} rest = Some q"
proof -
  from assms(2) obtain p where "pairing {} (slice ms i j) = Some p" "pairing p rest = Some q"
    by (auto simp: pairing_append bind_eq_Some_conv)
  with pairing_foldl assms(1) show ?thesis by (fastforce simp: has_straddling_pair_def)
qed

definition leading_system :: "message list \<Rightarrow> message list" where
  "leading_system ms = (case ms of m # _ \<Rightarrow> if m_role m = RSystem then [m] else [] | [] \<Rightarrow> [])"

lemma leading_system_take: "take (length (leading_system ms)) ms = leading_system ms"
  by (cases ms) (auto simp: leading_system_def)

lemma leading_system_pairing: "pairing p (leading_system ms @ rest) = pairing p rest"
  by (cases ms) (auto simp: leading_system_def unanswered_step_def)

text \<open>The result of a compaction, without the nesting of the code.\<close>

lemma compact_messages_cases:
  assumes "compact_messages complete ms keep s = (Ok r, s')"
  obtains (kept) "r = unchanged ms" "s' = s"
  | (cut) k sm where
      "k = find_safe_split ms (length (leading_system ms)) (length ms - keep)"
      "length (leading_system ms) < k" "keep + 2 < length ms"
      "summarize complete (slice ms (length (leading_system ms)) k) s = (Ok sm, s')"
      "r = \<lparr>working_messages = leading_system ms @ compacted_context sm # drop k ms,
            canonical_messages = drop k ms, summary = sm\<rparr>"
proof (cases "length ms \<le> keep + 2")
  case True
  with assms kept show thesis by (simp add: compact_messages_def)
next
  case False
  let ?k = "find_safe_split ms (length (leading_system ms)) (length ms - keep)"
  have sys: "(case (case ms of m # _ \<Rightarrow> if m_role m = RSystem then Some m else None | [] \<Rightarrow> None)
      of None \<Rightarrow> [] | Some m \<Rightarrow> [m]) = leading_system ms"
    "(if (case ms of m # _ \<Rightarrow> if m_role m = RSystem then Some m else None | [] \<Rightarrow> None) \<noteq> None
      then 1 else 0) = length (leading_system ms)"
    by (auto simp: leading_system_def split: list.splits)
  from False have "compact_messages complete ms keep s =
      (if ?k \<le> length (leading_system ms) then (Ok (unchanged ms), s)
       else case summarize complete (slice ms (length (leading_system ms)) ?k) s of
          (Err e, s') \<Rightarrow> (Err e, s')
        | (Ok sm, s') \<Rightarrow> (Ok \<lparr>working_messages = leading_system ms @ compacted_context sm # drop ?k ms,
            canonical_messages = drop ?k ms, summary = sm\<rparr>, s'))"
    unfolding compact_messages_def Let_def sys by simp
  with assms False kept cut show thesis
    by (auto split: if_splits prod.splits result.splits)
qed

lemma find_safe_split_bound: "find_safe_split ms start proposed \<le> min proposed (length ms)"
  unfolding find_safe_split_def by (rule walk_back_spec(1))

lemma pairing_after_cut:
  assumes "pairing {} ms = Some q" and "k = find_safe_split ms (length (leading_system ms)) n"
    and "length (leading_system ms) < k"
  shows "pairing {} (drop k ms) = Some q"
proof -
  let ?i = "length (leading_system ms)"
  have k: "k \<le> length ms" using find_safe_split_bound [of ms ?i n] assms(2) by simp
  have ns: "\<not> has_straddling_pair ms ?i k"
    using assms(2,3) walk_back_spec(2) by (simp add: find_safe_split_def)
  have "ms = leading_system ms @ slice ms ?i k @ drop k ms"
    using slice_split [of ?i k ms] assms(3) k by (simp add: leading_system_take)
  then have "pairing {} (slice ms ?i k @ drop k ms) = Some q"
    using assms(1) leading_system_pairing by metis
  then show ?thesis by (rule pairing_drop_answered [OF ns])
qed

lemma compact_canonical_pairing:
  assumes "compact_messages complete ms keep s = (Ok r, s')" and "pairing {} ms = Some q"
  shows "pairing {} (canonical_messages r) = Some q"
  using assms(1) by (cases rule: compact_messages_cases)
    (simp_all add: unchanged_def assms(2) pairing_after_cut [OF assms(2)])

lemma compact_working_pairing:
  assumes "compact_messages complete ms keep s = (Ok r, s')" and "pairing {} ms = Some q"
  shows "pairing {} (working_messages r) = Some q"
  using assms(1) by (cases rule: compact_messages_cases)
    (simp_all add: unchanged_def assms(2) pairing_after_cut [OF assms(2)] leading_system_pairing
      compacted_context_def plain_message_def unanswered_step_def)

subsection \<open>Properties\<close>

text \<open>
  C5: compaction never separates a tool call from its answer. If every tool response of a
  history answers a pending call, so does every tool response of the compacted working context
  and of the canonical messages handed to the operator, and the calls still pending at the end
  are the same.
\<close>

theorem compaction_preserves_pairing:
  assumes r: "compact_messages complete ms keep s = (Ok r, s')" and p: "pairing {} ms = Some q"
  shows "pairing {} (working_messages r) = Some q \<and> pairing {} (canonical_messages r) = Some q"
  using compact_working_pairing [OF r p] compact_canonical_pairing [OF r p] ..

text \<open>
  Compaction cuts as late as it may. When it summarises anything, it replaces the messages
  after the leading system prompt up to a cut, which keeps at least the requested number of
  recent messages, where no call of the summarised part is unanswered, and every later cut that
  would keep as many has one; the system prompt and the recent messages stay as they were, with
  the summary between them. Otherwise the history is returned unchanged and the model is not
  called.
\<close>

theorem compaction_structure:
  assumes "compact_messages complete ms keep s = (Ok r, s')"
  shows "working_messages r = ms \<and> canonical_messages r = ms \<and> summary r = [] \<and> s' = s
    \<or> (\<exists>k. length (leading_system ms) < k \<and> k + keep \<le> length ms
         \<and> working_messages r = leading_system ms @ compacted_context (summary r) # drop k ms
         \<and> canonical_messages r = drop k ms
         \<and> \<not> has_straddling_pair ms (length (leading_system ms)) k
         \<and> (\<forall>j \<in> {k<..length ms - keep}. has_straddling_pair ms (length (leading_system ms)) j))"
  using assms
proof (cases rule: compact_messages_cases)
  case kept
  then show ?thesis by (simp add: unchanged_def)
next
  case (cut k sm)
  let ?i = "length (leading_system ms)"
  from cut(1) have kw: "k = walk_back ms ?i (length ms - keep)"
    by (simp add: find_safe_split_def min_def)
  have "k + keep \<le> length ms" using walk_back_spec(1) [of ms ?i "length ms - keep"] kw cut(3) by simp
  moreover have "\<not> has_straddling_pair ms ?i k" using walk_back_spec(2) kw cut(2) by metis
  moreover have "\<forall>j \<in> {k<..length ms - keep}. has_straddling_pair ms ?i j"
    using walk_back_spec(3) [of ms ?i "length ms - keep"] kw by auto
  ultimately show ?thesis using cut(2,5) by auto
qed

text \<open>A history of eight messages, compacted with two recent messages kept.\<close>

definition demo_call :: tool_call where
  "demo_call = \<lparr>tc_id = ''c1'', tc_type = ''function'', tc_function = \<lparr>fc_name = ''read'', fc_arguments = ''{}''\<rparr>\<rparr>"

definition demo_history :: "message list" where
  "demo_history =
     [plain_message RSystem ''sys'', plain_message RUser ''u1'', plain_message RAssistant ''a1'',
      plain_message RUser ''u2'',
      \<lparr>m_role = RAssistant, m_content = None, m_tool_calls = Some [demo_call], m_tool_call_id = None\<rparr>,
      \<lparr>m_role = RTool, m_content = Some (CText ''ok''), m_tool_calls = None, m_tool_call_id = Some ''c1''\<rparr>,
      plain_message RAssistant ''a2'']"

definition demo_complete :: "nat completer" where
  "demo_complete ms n =
     (Ok \<lparr>cr_choices = [\<lparr>ch_message = Some (plain_message RAssistant ''short''), ch_delta = None,
        ch_finish_reason = None\<rparr>], cr_usage = None\<rparr>, n + 1)"

lemma demo_compaction:
  "compact_messages demo_complete demo_history 2 0 =
     (Ok \<lparr>working_messages = plain_message RSystem ''sys'' # compacted_context ''short'' # drop 4 demo_history,
         canonical_messages = drop 4 demo_history, summary = ''short''\<rparr>, 1)"
  by (simp add: compact_messages_def demo_history_def demo_complete_def summarize_def Let_def
      plain_message_def find_safe_split_def has_straddling_pair_def slice_def unanswered_step_def
      demo_call_def numeral_eq_Suc)

theorem compaction_preserves_pairing_witness:
  "pairing {} (plain_message RSystem ''sys'' # compacted_context ''short'' # drop 4 demo_history) = Some {}"
proof -
  have "pairing {} demo_history = Some {}"
    by (simp add: demo_history_def plain_message_def unanswered_step_def demo_call_def)
  from compaction_preserves_pairing [OF demo_compaction this] show ?thesis by simp
qed

theorem compaction_structure_witness:
  "\<exists>k. length (leading_system demo_history) < k \<and> k + 2 \<le> length demo_history
     \<and> canonical_messages \<lparr>working_messages = plain_message RSystem ''sys'' # compacted_context ''short'' # drop 4 demo_history,
         canonical_messages = drop 4 demo_history, summary = ''short''\<rparr> = drop k demo_history
     \<and> \<not> has_straddling_pair demo_history (length (leading_system demo_history)) k"
  using compaction_structure [OF demo_compaction] by auto

end
