(* ===== verification/Retry.thy ===== *)
theory Retry
  imports Acp_Prelude
begin

text \<open>
  Error classification and the retry policy of the language-model client
  (\<^verbatim>\<open>loop/src/llm/retry.rs\<close>), with the retry loop that both request kinds of
  \<^verbatim>\<open>loop/src/llm/client.rs\<close> drive.

  Durations are natural numbers of milliseconds. The counters are natural numbers: the loop
  stops at five attempts, far below the width the code gives them. A transport error carries
  what the code asks of it.
\<close>

record reqwest_error =
  is_timeout :: bool
  is_connect :: bool
  is_body :: bool
  is_decode :: bool
  err_status :: "(nat \<times> string) option"
  err_display :: string

datatype stream_error =
    Retryable (err_message: string) (err_body: "string option") (err_source: error_source)
  | Fatal (err_message: string) (err_body: "string option") (err_source: error_source)
and error_source =
    FromReqwest reqwest_error
  | FromIo string
  | FromParse string
  | FromStream stream_error

definition stream_error_display :: "stream_error \<Rightarrow> string" where "stream_error_display e = err_message e"

definition stream_error_source :: "stream_error \<Rightarrow> error_source" where "stream_error_source e = err_source e"

subsection \<open>Classification\<close>

fun is_retryable :: "stream_error \<Rightarrow> bool" where
  "is_retryable (Retryable _ _ _) = True"
| "is_retryable (Fatal _ _ _) = False"

definition keyword_haystack :: "stream_error \<Rightarrow> string" where
  "keyword_haystack e = (case err_body e of Some b \<Rightarrow> b | None \<Rightarrow> err_message e)"

definition into_fatal_with_prefix :: "string \<Rightarrow> stream_error \<Rightarrow> stream_error" where
  "into_fatal_with_prefix pre e =
     (if \<not> is_retryable e then e else Fatal (pre @ '': '' @ err_message e) None (FromStream e))"

text \<open>\<open>elapsed\<close> is the elapsed time, formatted to one decimal.\<close>

definition classify_reqwest_error :: "string \<Rightarrow> reqwest_error \<Rightarrow> stream_error" where
  "classify_reqwest_error elapsed e =
     (if is_timeout e then
        Retryable (''Stream read timed out after '' @ elapsed @ ''s: '' @ err_display e) None (FromReqwest e)
      else if is_connect e then
        Retryable (''Connection error during stream after '' @ elapsed @ ''s: '' @ err_display e) None (FromReqwest e)
      else if is_body e \<or> is_decode e then
        Retryable (''Stream body error (possible connection reset) after '' @ elapsed @ ''s: '' @ err_display e)
          None (FromReqwest e)
      else
        (case err_status e of
           Some (code, status) \<Rightarrow>
             if 500 \<le> code \<and> code < 600 then
               Retryable (''Server error '' @ status @ '' during stream after '' @ elapsed @ ''s: '' @ err_display e)
                 None (FromReqwest e)
             else
               Fatal (''Client error '' @ status @ '' during stream after '' @ elapsed @ ''s: '' @ err_display e)
                 None (FromReqwest e)
         | None \<Rightarrow> Retryable (''Stream error after '' @ elapsed @ ''s: '' @ err_display e) None (FromReqwest e)))"

definition classify_http_response :: "nat \<times> string \<Rightarrow> string \<Rightarrow> stream_error" where
  "classify_http_response st body =
     (case st of (code, status) \<Rightarrow>
        let message = ''LLM HTTP '' @ status @ '': '' @ body
        in if code = 429 \<or> 500 \<le> code \<and> code < 600 then Retryable message (Some body) (FromIo message)
           else Fatal message (Some body) (FromIo message))"

definition TRANSIENT_KEYWORDS :: "string list" where
  "TRANSIENT_KEYWORDS =
     [''overload'', ''unavailable'', ''limit'', ''quota'', ''capacity'', ''throttle'', ''congestion'']"

definition contains_transient_keyword :: "string \<Rightarrow> bool" where
  "contains_transient_keyword s \<longleftrightarrow>
     (let lower = to_ascii_lowercase s in list_ex (\<lambda>k. str_contains lower k) TRANSIENT_KEYWORDS)"

subsection \<open>Budget and state\<close>

record retry_budget =
  max_attempts :: nat
  base_delay :: nat
  escalated :: bool

definition default_budget :: retry_budget where
  "default_budget = \<lparr>max_attempts = 3, base_delay = 500, escalated = False\<rparr>"

definition escalated_budget :: retry_budget where
  "escalated_budget = \<lparr>max_attempts = 5, base_delay = 2000, escalated = True\<rparr>"

definition delay_for :: "retry_budget \<Rightarrow> nat \<Rightarrow> nat" where
  "delay_for b retry_index = base_delay b * 2 ^ retry_index"

definition escalate_if_transient :: "retry_budget \<Rightarrow> stream_error \<Rightarrow> retry_budget" where
  "escalate_if_transient b e =
     (if \<not> escalated b \<and> contains_transient_keyword (keyword_haystack e) then escalated_budget else b)"

record retry_state =
  budget :: retry_budget
  attempt_num :: nat
  exponent_idx :: nat

definition retry_new :: retry_state where
  "retry_new = \<lparr>budget = default_budget, attempt_num = 1, exponent_idx = 0\<rparr>"

definition next_delay :: "retry_state \<Rightarrow> stream_error \<Rightarrow> nat option \<times> retry_state" where
  "next_delay st e =
     (let upgraded = escalate_if_transient (budget st) e;
          escalated_now = escalated upgraded \<and> \<not> escalated (budget st);
          st1 = st\<lparr>budget := upgraded\<rparr>
      in if \<not> is_retryable e \<or> max_attempts (budget st1) \<le> attempt_num st1 then (None, st1)
         else
           let st2 = (if escalated_now then st1\<lparr>exponent_idx := 0\<rparr> else st1)
           in (Some (delay_for (budget st2) (exponent_idx st2)), st2))"

definition advance :: "retry_state \<Rightarrow> retry_state" where
  "advance st = st\<lparr>attempt_num := attempt_num st + 1, exponent_idx := exponent_idx st + 1\<rparr>"

subsection \<open>The loop\<close>

text \<open>
  \<open>attempt\<close> performs one request on the state of the outside world; \<open>sleep\<close> waits. The
  result lists the delays that were slept, so its length is the number of retries.
\<close>

definition handle_failure ::
    "(nat \<Rightarrow> 's \<Rightarrow> 's) \<Rightarrow> retry_state \<Rightarrow> stream_error \<Rightarrow> 's
      \<Rightarrow> (nat \<times> retry_state, stream_error) result \<times> 's" where
  "handle_failure sleep st e s =
     (case next_delay st e of
        (None, st') \<Rightarrow> (Err e, s)
      | (Some d, st') \<Rightarrow> (Ok (d, advance st'), sleep d s))"

lemma handle_failure_decreases:
  assumes "handle_failure sleep st e s = (Ok (d, st'), s')"
  shows "max 5 (max_attempts (budget st')) - attempt_num st' < max 5 (max_attempts (budget st)) - attempt_num st"
  using assms
  by (auto simp: handle_failure_def next_delay_def Let_def advance_def escalate_if_transient_def
      escalated_budget_def split: prod.splits option.splits if_splits)

function retry_loop ::
    "('s \<Rightarrow> ('a, stream_error) result \<times> 's) \<Rightarrow> (nat \<Rightarrow> 's \<Rightarrow> 's) \<Rightarrow> retry_state \<Rightarrow> 's
      \<Rightarrow> (('a, stream_error) result \<times> nat list) \<times> 's" where
  "retry_loop attempt sleep st s =
     (case attempt s of
        (Ok v, s1) \<Rightarrow> ((Ok v, []), s1)
      | (Err e, s1) \<Rightarrow>
          (case handle_failure sleep st e s1 of
             (Err e', s2) \<Rightarrow> ((Err e', []), s2)
           | (Ok (d, st'), s2) \<Rightarrow>
               (case retry_loop attempt sleep st' s2 of ((r, ds), s3) \<Rightarrow> ((r, d # ds), s3))))"
  by pat_completeness auto
termination
  by (relation "measure (\<lambda>(_, _, st, _). max 5 (max_attempts (budget st)) - attempt_num st)")
    (auto dest: handle_failure_decreases [OF sym])

declare retry_loop.simps [simp del]

subsection \<open>Lemmas\<close>

text \<open>The states the loop goes through: \<open>k\<close> retries on the default budget, then \<open>j\<close> on the other.\<close>

definition on_default :: "nat \<Rightarrow> retry_state" where
  "on_default k = \<lparr>budget = default_budget, attempt_num = k + 1, exponent_idx = k\<rparr>"

definition on_escalated :: "nat \<Rightarrow> nat \<Rightarrow> retry_state" where
  "on_escalated k j = \<lparr>budget = escalated_budget, attempt_num = k + j + 1, exponent_idx = j\<rparr>"

lemma handle_failure_escalated:
  "handle_failure sleep (on_escalated k j) e s =
     (if is_retryable e \<and> k + j < 4 then (Ok (2000 * 2 ^ j, on_escalated k (Suc j)), sleep (2000 * 2 ^ j) s)
      else (Err e, s))"
  by (auto simp: handle_failure_def next_delay_def on_escalated_def escalate_if_transient_def
      escalated_budget_def delay_for_def advance_def Let_def)

lemma handle_failure_default:
  "handle_failure sleep (on_default k) e s =
     (if contains_transient_keyword (keyword_haystack e) then
        (if is_retryable e \<and> k < 4 then (Ok (2000, on_escalated k 1), sleep 2000 s) else (Err e, s))
      else if is_retryable e \<and> k < 2 then (Ok (500 * 2 ^ k, on_default (Suc k)), sleep (500 * 2 ^ k) s)
      else (Err e, s))"
  by (auto simp: handle_failure_def next_delay_def on_default_def on_escalated_def escalate_if_transient_def
      escalated_budget_def default_budget_def delay_for_def advance_def Let_def)

lemma retry_loop_cases:
  assumes "retry_loop attempt sleep st s = ((r, ds), s')"
  obtains (finished) v where "attempt s = (Ok v, s')" "r = Ok v" "ds = []"
  | (stop) e s1 where "attempt s = (Err e, s1)" "handle_failure sleep st e s1 = (Err e, s')" "r = Err e" "ds = []"
  | (again) e s1 d st' s2 ds' where "attempt s = (Err e, s1)" "handle_failure sleep st e s1 = (Ok (d, st'), s2)"
      "retry_loop attempt sleep st' s2 = ((r, ds'), s')" "ds = d # ds'"
proof -
  have same: "handle_failure sleep st e s1 = (Err e', s2) \<Longrightarrow> e' = e" for e e' s1 s2
    by (auto simp: handle_failure_def split: prod.splits option.splits)
  show thesis
    using assms same finished stop again
    by (subst (asm) retry_loop.simps) (auto split: prod.splits result.splits)
qed

definition exponential :: "nat \<Rightarrow> nat \<Rightarrow> nat \<Rightarrow> nat list" where
  "exponential base j n = map (\<lambda>i. base * 2 ^ i) [j..<j + n]"

lemma exponential_Cons: "exponential base j (Suc n) = base * 2 ^ j # exponential base (Suc j) n"
  unfolding exponential_def by (subst upt_rec) simp

lemma escalated_schedule:
  assumes "retry_loop attempt sleep (on_escalated k j) s = ((r, ds), s')" and "k + j \<le> 4"
  shows "\<exists>n. ds = exponential 2000 j n \<and> k + j + n \<le> 4 \<and> (\<forall>e. r = Err e \<longrightarrow> is_retryable e \<longrightarrow> k + j + n = 4)"
  using assms
proof (induction "4 - (k + j)" arbitrary: j s ds)
  case 0
  from 0(2) show ?case
  proof (cases rule: retry_loop_cases)
    case (again e s1 d st' s2 ds')
    with 0 show ?thesis by (simp add: handle_failure_escalated split: if_splits)
  qed (use 0 in \<open>auto simp: exponential_def intro: exI [of _ 0]\<close>)
next
  case (Suc m)
  from Suc.prems(1) show ?case
  proof (cases rule: retry_loop_cases)
    case (finished v)
    then show ?thesis using Suc.prems(2) by (intro exI [of _ 0]) (simp add: exponential_def)
  next
    case (stop e s1)
    with Suc show ?thesis
      by (intro exI [of _ 0]) (auto simp: exponential_def handle_failure_escalated split: if_splits)
  next
    case (again e s1 d st' s2 ds')
    then have st': "st' = on_escalated k (Suc j)" "d = 2000 * 2 ^ j" "k + j < 4"
      by (auto simp: handle_failure_escalated split: if_splits)
    have "m = 4 - (k + Suc j)" "k + Suc j \<le> 4" using Suc.hyps(2) st'(3) by simp_all
    from Suc.hyps(1) [OF this(1) _ this(2)] again(3) st'(1) obtain n where
      "ds' = exponential 2000 (Suc j) n" "k + Suc j + n \<le> 4"
      "\<forall>e. r = Err e \<longrightarrow> is_retryable e \<longrightarrow> k + Suc j + n = 4"
      by blast
    with again(4) st' show ?thesis by (intro exI [of _ "Suc n"]) (simp add: exponential_Cons)
  qed
qed

text \<open>
  A schedule: \<open>a\<close> delays of the default budget and \<open>b\<close> of the escalated one. It ends with
  a retryable error only when the budget in force is used up.
\<close>

definition schedule :: "nat \<Rightarrow> nat \<Rightarrow> nat list" where
  "schedule a b = exponential 500 0 a @ exponential 2000 0 b"

lemma schedule_sum:
  "list_all (\<lambda>a. list_all (\<lambda>b. a + b \<le> 4 \<longrightarrow> sum_list (schedule a b) \<le> 30000) [0..<5]) [0..<3]"
  by (simp add: schedule_def exponential_def upt_rec)

lemma default_schedule:
  assumes "retry_loop attempt sleep (on_default k) s = ((r, ds), s')" and "k \<le> 2"
  shows "\<exists>n b. ds = exponential 500 k n @ exponential 2000 0 b \<and> k + n \<le> 2 \<and> k + n + b \<le> 4
    \<and> (\<forall>e. r = Err e \<longrightarrow> is_retryable e \<longrightarrow> k + n = 2 \<and> b = 0 \<or> k + n + b = 4)"
  using assms
proof (induction "2 - k" arbitrary: k s ds rule: less_induct)
  case less
  from less.prems(1) show ?case
  proof (cases rule: retry_loop_cases)
    case (finished v)
    then show ?thesis using less.prems(2) by (intro exI [of _ 0]) (simp add: exponential_def)
  next
    case (stop e s1)
    with less.prems(2) show ?thesis
      by (intro exI [of _ 0]) (auto simp: exponential_def handle_failure_default split: if_splits)
  next
    case (again e s1 d st' s2 ds')
    show ?thesis
    proof (cases "contains_transient_keyword (keyword_haystack e)")
      case True
      with again have st': "st' = on_escalated k 1" "d = 2000"
        by (auto simp: handle_failure_default split: if_splits)
      with escalated_schedule [of attempt sleep k 1 s2 r ds' s'] again(3) less.prems(2) obtain n where
        "ds' = exponential 2000 1 n" "k + 1 + n \<le> 4" "\<forall>e. r = Err e \<longrightarrow> is_retryable e \<longrightarrow> k + 1 + n = 4"
        by auto
      with again(4) st' less.prems(2) show ?thesis
        by (intro exI [of _ 0] exI [of _ "Suc n"])
          (simp add: exponential_Cons, simp add: exponential_def)
    next
      case False
      with again have st': "st' = on_default (Suc k)" "d = 500 * 2 ^ k" "k < 2"
        by (auto simp: handle_failure_default split: if_splits)
      then have "2 - Suc k < 2 - k" "Suc k \<le> 2" by simp_all
      from less.hyps [OF this(1) _ this(2)] again(3) st'(1) obtain n b where
        "ds' = exponential 500 (Suc k) n @ exponential 2000 0 b" "Suc k + n \<le> 2" "Suc k + n + b \<le> 4"
        "\<forall>e. r = Err e \<longrightarrow> is_retryable e \<longrightarrow> Suc k + n = 2 \<and> b = 0 \<or> Suc k + n + b = 4"
        by blast
      with again(4) st' show ?thesis
        by (intro exI [of _ "Suc n"] exI [of _ b]) (simp add: exponential_Cons)
    qed
  qed
qed

subsection \<open>Properties\<close>

text \<open>
  C28: the retry loop always ends, within five attempts and thirty seconds of waiting. The
  delays are 500 ms doubled at each retry while no capacity keyword was seen, at most two of
  them, and from the first keyword on 2 s doubled at each retry, at most four retries in all;
  a failure that may be retried is returned only when the budget in force is used up: two
  retries without a keyword, four with one.
\<close>

theorem retry_schedule:
  "case retry_loop attempt sleep retry_new s of ((r, ds), s') \<Rightarrow>
     \<exists>a b. ds = schedule a b \<and> a \<le> 2 \<and> a + b \<le> 4 \<and> length ds \<le> 4 \<and> sum_list ds \<le> 30000
       \<and> (case r of Ok _ \<Rightarrow> True | Err e \<Rightarrow> if is_retryable e then a = 2 \<and> b = 0 \<or> a + b = 4 else True)"
proof -
  obtain r ds s' where run: "retry_loop attempt sleep retry_new s = ((r, ds), s')"
    by (metis prod.collapse)
  have "retry_new = on_default 0" by (simp add: retry_new_def on_default_def)
  with default_schedule [of attempt sleep 0 s r ds s'] run obtain a b where
    ab: "ds = schedule a b" "a \<le> 2" "a + b \<le> 4"
      "\<forall>e. r = Err e \<longrightarrow> is_retryable e \<longrightarrow> a = 2 \<and> b = 0 \<or> a + b = 4"
    by (auto simp: schedule_def)
  then have "length ds \<le> 4" by (simp add: schedule_def exponential_def)
  moreover have "sum_list ds \<le> 30000" using schedule_sum ab(1-3) by (simp add: list_all_iff)
  ultimately show ?thesis using ab run
    by simp (intro exI [of _ a] exI [of _ b], auto split: result.splits)
qed

end
