(* ===== verification/Llm_Client.thy ===== *)
theory Llm_Client
  imports Llm_Types Retry
begin

text \<open>
  The streaming client (\<^verbatim>\<open>loop/src/llm/client.rs\<close>): one request with retries, and the
  assembly of a message from a stream of server-sent events.

  The HTTP client is an argument (\<open>post\<close>), as is the JSON decoder of one event. A response
  body is the list of its chunks, each a byte string or a transport error. The text callback is
  the list of texts it was given.
\<close>

subsection \<open>Lossy UTF-8 decoding\<close>

text \<open>
  \<^verbatim>\<open>String::from_utf8_lossy\<close>: a well-formed sequence is kept, and each maximal
  ill-formed part is replaced by the three bytes of U+FFFD. \<open>utf8_step\<close> takes one sequence or
  part from the front and says how many bytes it used.
\<close>

definition byte :: "char \<Rightarrow> nat" where "byte c = of_char c"

definition replacement :: string where "replacement = [CHR 0xEF, CHR 0xBF, CHR 0xBD]"

definition seq_width :: "char \<Rightarrow> nat" where
  "seq_width b =
     (if byte b < 0x80 then 1
      else if 0xC2 \<le> byte b \<and> byte b \<le> 0xDF then 2
      else if 0xE0 \<le> byte b \<and> byte b \<le> 0xEF then 3
      else if 0xF0 \<le> byte b \<and> byte b \<le> 0xF4 then 4 else 0)"

definition second_ok :: "char \<Rightarrow> char \<Rightarrow> bool" where
  "second_ok b c \<longleftrightarrow>
     (if byte b = 0xE0 then 0xA0 \<le> byte c \<and> byte c \<le> 0xBF
      else if byte b = 0xED then 0x80 \<le> byte c \<and> byte c \<le> 0x9F
      else if byte b = 0xF0 then 0x90 \<le> byte c \<and> byte c \<le> 0xBF
      else if byte b = 0xF4 then 0x80 \<le> byte c \<and> byte c \<le> 0x8F
      else 0x80 \<le> byte c \<and> byte c \<le> 0xBF)"

definition cont_ok :: "char \<Rightarrow> bool" where
  "cont_ok c \<longleftrightarrow> 0x80 \<le> byte c \<and> byte c \<le> 0xBF"

text \<open>The length of the longest prefix that could begin a well-formed sequence of the first byte.\<close>

fun good_prefix :: "string \<Rightarrow> nat" where
  "good_prefix [] = 0"
| "good_prefix [b] = 1"
| "good_prefix [b, c] = (if second_ok b c then 2 else 1)"
| "good_prefix [b, c, d] = (if \<not> second_ok b c then 1 else if cont_ok d then 3 else 2)"
| "good_prefix (b # c # d # e # _) =
     (if \<not> second_ok b c then 1 else if \<not> cont_ok d then 2 else if cont_ok e then 4 else 3)"

definition utf8_step :: "string \<Rightarrow> string \<times> nat" where
  "utf8_step bs =
     (let w = seq_width (hd bs); n = good_prefix bs
      in if w = 0 then (replacement, 1)
         else if w \<le> n then (take w bs, w)
         else (replacement, n))"

lemma utf8_step_consumes: "bs \<noteq> [] \<Longrightarrow> 0 < snd (utf8_step bs)"
  by (induction bs rule: good_prefix.induct) (auto simp: utf8_step_def Let_def)

function utf8_lossy :: "string \<Rightarrow> string" where
  "utf8_lossy bs =
     (if bs = [] then [] else fst (utf8_step bs) @ utf8_lossy (drop (snd (utf8_step bs)) bs))"
  by pat_completeness auto
termination
  by (relation "measure length") (use utf8_step_consumes in \<open>auto simp: diff_less\<close>)

declare utf8_lossy.simps [simp del]

subsection \<open>Assembly of the message\<close>

record partial_tool_call =
  ptc_id :: string
  ptc_name :: string
  ptc_arguments :: string

definition empty_partial :: partial_tool_call where
  "empty_partial = \<lparr>ptc_id = [], ptc_name = [], ptc_arguments = []\<rparr>"

definition apply_tool_delta :: "tool_call_delta \<Rightarrow> partial_tool_call \<Rightarrow> partial_tool_call" where
  "apply_tool_delta d e =
     (let e1 = (case tcd_id d of None \<Rightarrow> e | Some i \<Rightarrow> e\<lparr>ptc_id := i\<rparr>)
      in case tcd_function d of
           None \<Rightarrow> e1
         | Some f \<Rightarrow>
             let e2 = (case fcd_name f of None \<Rightarrow> e1 | Some n \<Rightarrow> e1\<lparr>ptc_name := n\<rparr>)
             in (case fcd_arguments f of
                   None \<Rightarrow> e2 | Some a \<Rightarrow> e2\<lparr>ptc_arguments := ptc_arguments e2 @ a\<rparr>))"

definition accumulate_tool_call ::
    "partial_tool_call list \<Rightarrow> tool_call_delta \<Rightarrow> partial_tool_call list" where
  "accumulate_tool_call calls d =
     (let padded = calls @ replicate (tcd_index d + 1 - length calls) empty_partial
      in padded[tcd_index d := apply_tool_delta d (padded ! tcd_index d)])"

record sse_state =
  sse_content :: string
  sse_tool_calls :: "partial_tool_call list"
  sse_finish :: "stop_reason option"
  sse_usage :: "usage option"
  sse_texts :: "string list"
  sse_emitted :: bool

definition sse_init :: sse_state where
  "sse_init = \<lparr>sse_content = [], sse_tool_calls = [], sse_finish = None, sse_usage = None,
     sse_texts = [], sse_emitted = False\<rparr>"

definition apply_choice :: "sse_state \<Rightarrow> choice \<Rightarrow> sse_state" where
  "apply_choice st c =
     (let st1 = (case ch_finish_reason c of None \<Rightarrow> st | Some r \<Rightarrow> st\<lparr>sse_finish := Some r\<rparr>)
      in case ch_delta c of
           None \<Rightarrow> st1
         | Some d \<Rightarrow>
             let st2 = (case d_content d of
                   None \<Rightarrow> st1
                 | Some t \<Rightarrow> st1\<lparr>sse_content := sse_content st1 @ t, sse_texts := sse_texts st1 @ [t],
                     sse_emitted := True\<rparr>)
             in (case d_tool_calls d of
                   None \<Rightarrow> st2
                 | Some ds \<Rightarrow> st2\<lparr>sse_tool_calls := foldl accumulate_tool_call (sse_tool_calls st2) ds,
                     sse_emitted := True\<rparr>))"

definition apply_event :: "sse_state \<Rightarrow> stream_event \<Rightarrow> sse_state" where
  "apply_event st e =
     foldl apply_choice (case se_usage e of None \<Rightarrow> st | Some u \<Rightarrow> st\<lparr>sse_usage := Some u\<rparr>) (se_choices e)"

datatype line_outcome = Skip | Done | Event stream_event

text \<open>What one line, without its newline, asks for.\<close>

definition read_line :: "(string \<Rightarrow> stream_event option) \<Rightarrow> string \<Rightarrow> line_outcome" where
  "read_line decode raw =
     (let line = trim raw
      in if line = [] \<or> hd line = CHR '':'' then Skip
         else (case strip_prefix ''data: '' line of
             None \<Rightarrow> Skip
           | Some d \<Rightarrow>
               let body = trim d
               in if body = ''[DONE]'' then Done
                  else (case decode body of None \<Rightarrow> Skip | Some e \<Rightarrow> Event e)))"

text \<open>The inner loop: complete lines from the buffer, until none is left or the end marker is read.\<close>

function drain_lines ::
    "(string \<Rightarrow> stream_event option) \<Rightarrow> string \<Rightarrow> sse_state \<Rightarrow> string \<times> sse_state" where
  "drain_lines decode buffer st =
     (case find_char (CHR 0x0A) buffer of
        None \<Rightarrow> (buffer, st)
      | Some i \<Rightarrow>
          (case read_line decode (take i buffer) of
             Done \<Rightarrow> (drop (i + 1) buffer, st)
           | Skip \<Rightarrow> drain_lines decode (drop (i + 1) buffer) st
           | Event e \<Rightarrow> drain_lines decode (drop (i + 1) buffer) (apply_event st e)))"
  by pat_completeness auto
termination
  by (relation "measure (\<lambda>(_, b, _). length b)") (auto simp: find_char_Some)

declare drain_lines.simps [simp del]

text \<open>The outer loop over the chunks of the body.\<close>

fun read_chunks ::
    "(string \<Rightarrow> stream_event option) \<Rightarrow> string \<Rightarrow> (string, reqwest_error) result list \<Rightarrow> string \<Rightarrow> sse_state
      \<Rightarrow> (sse_state, stream_error) result \<times> sse_state" where
  "read_chunks decode elapsed [] buffer st = (Ok st, st)"
| "read_chunks decode elapsed (Err e # chunks) buffer st = (Err (classify_reqwest_error elapsed e), st)"
| "read_chunks decode elapsed (Ok chunk # chunks) buffer st =
     (case drain_lines decode (buffer @ utf8_lossy chunk) st of
        (buffer', st') \<Rightarrow> read_chunks decode elapsed chunks buffer' st')"

record streamed_response =
  sr_message :: message
  sr_finish_reason :: "stop_reason option"
  sr_usage :: "usage option"

definition finish_tool_call :: "partial_tool_call \<Rightarrow> tool_call" where
  "finish_tool_call p = \<lparr>tc_id = ptc_id p, tc_type = ''function'',
     tc_function = \<lparr>fc_name = ptc_name p, fc_arguments = ptc_arguments p\<rparr>\<rparr>"

definition finish_stream :: "sse_state \<Rightarrow> streamed_response" where
  "finish_stream st =
     \<lparr>sr_message = \<lparr>m_role = RAssistant,
        m_content = (if sse_content st = [] then None else Some (CText (sse_content st))),
        m_tool_calls = (if sse_tool_calls st = [] then None
          else Some (map finish_tool_call (sse_tool_calls st))),
        m_tool_call_id = None\<rparr>,
      sr_finish_reason = sse_finish st, sr_usage = sse_usage st\<rparr>"

text \<open>The result, the texts given to the callback, and whether any output was emitted.\<close>

definition process_stream ::
    "(string \<Rightarrow> stream_event option) \<Rightarrow> string \<Rightarrow> (string, reqwest_error) result list
      \<Rightarrow> (streamed_response, stream_error) result \<times> string list \<times> bool" where
  "process_stream decode elapsed chunks =
     (case read_chunks decode elapsed chunks [] sse_init of
        (r, st) \<Rightarrow> (res_map finish_stream r, sse_texts st, sse_emitted st))"

subsection \<open>Requests\<close>

record llm_client =
  api_url :: string
  api_key :: string
  model :: string

text \<open>
  The report of a failed attempt: a log line, and with the feature \<^verbatim>\<open>sentry\<close> the tags and the extra
  of the scope around it.
\<close>

record llm_error_report =
  er_tags :: "(string \<times> string) list"
  er_extra :: "(string \<times> json) list"
  er_line :: string

definition report_llm_error :: "bool \<Rightarrow> llm_client \<Rightarrow> nat \<Rightarrow> string \<Rightarrow> llm_error_report" where
  "report_llm_error sentry c attempt error_body =
     \<lparr>er_tags = (if sentry then [(''llm.provider'', ''openai-compatible''), (''llm.model'', model c), (''llm.retry'', show_nat attempt)] else []),
      er_extra = (if sentry then [(''llm.error_body'', JString error_body)] else []),
      er_line = ''LLM error: '' @ error_body\<rparr>"

fun trim_end_char :: "char \<Rightarrow> string \<Rightarrow> string" where
  "trim_end_char c s = rev (dropWhile (\<lambda>x. x = c) (rev s))"

definition client_new :: "string \<Rightarrow> string \<Rightarrow> string \<Rightarrow> llm_client" where
  "client_new url key m = \<lparr>api_url = trim_end_char (CHR ''/'') url, api_key = key, model = m\<rparr>"

definition tool_definition_encode :: "tool_definition \<Rightarrow> json" where
  "tool_definition_encode d =
     JObject [(''type'', JString (td_type d)),
       (''function'', JObject [(''name'', JString (fd_name (td_function d))),
          (''description'', JString (fd_description (td_function d))),
          (''parameters'', fd_parameters (td_function d))])]"

definition stream_body :: "llm_client \<Rightarrow> message list \<Rightarrow> tool_definition list \<Rightarrow> json" where
  "stream_body cl messages tools =
     JObject ([(''model'', JString (model cl)), (''messages'', JArray (map message_encode messages)),
        (''stream'', JBool True), (''stream_options'', JObject [(''include_usage'', JBool True)])]
       @ (if tools = [] then [] else [(''tools'', JArray (map tool_definition_encode tools))]))"

definition complete_body :: "llm_client \<Rightarrow> message list \<Rightarrow> json" where
  "complete_body cl messages =
     JObject [(''model'', JString (model cl)), (''messages'', JArray (map message_encode messages))]"

record http_response =
  http_status :: "nat \<times> string"
  http_chunks :: "(string, reqwest_error) result list"
  http_text :: "(string, reqwest_error) result"

text \<open>
  \<open>post url key body\<close> sends one request. A non-success response is consumed for its text, which
  is empty when that fails.
\<close>

type_synonym 's poster =
  "string \<Rightarrow> string \<Rightarrow> json \<Rightarrow> 's \<Rightarrow> (http_response, reqwest_error) result \<times> 's"

definition post_or_classify ::
    "'s poster \<Rightarrow> string \<Rightarrow> llm_client \<Rightarrow> json \<Rightarrow> 's \<Rightarrow> (http_response, stream_error) result \<times> 's" where
  "post_or_classify post elapsed cl body s =
     (case post (api_url cl @ ''/chat/completions'') (''Bearer '' @ api_key cl) body s of
        (Ok resp, s') \<Rightarrow>
          if 200 \<le> fst (http_status resp) \<and> fst (http_status resp) < 300 then (Ok resp, s')
          else (Err (classify_http_response (http_status resp)
                 (case http_text resp of Ok t \<Rightarrow> t | Err _ \<Rightarrow> [])), s')
      | (Err e, s') \<Rightarrow> (Err (classify_reqwest_error elapsed e), s'))"

definition mid_stream :: string where
  "mid_stream = ''mid-stream error after partial output emitted; cannot retry safely''"

text \<open>One attempt; the second part of the state is what the callback has been given.\<close>

definition stream_attempt ::
    "'s poster \<Rightarrow> (string \<Rightarrow> stream_event option) \<Rightarrow> string \<Rightarrow> llm_client \<Rightarrow> json \<Rightarrow> 's \<times> string list
      \<Rightarrow> (streamed_response, stream_error) result \<times> ('s \<times> string list)" where
  "stream_attempt post decode elapsed cl body sl =
     (case post_or_classify post elapsed cl body (fst sl) of
        (Err e, s') \<Rightarrow> (Err e, (s', snd sl))
      | (Ok resp, s') \<Rightarrow>
          (case process_stream decode elapsed (http_chunks resp) of
             (Ok v, texts, emitted) \<Rightarrow> (Ok v, (s', snd sl @ texts))
           | (Err e, texts, emitted) \<Rightarrow>
               (Err (if emitted \<and> is_retryable e then into_fatal_with_prefix mid_stream e else e),
                (s', snd sl @ texts))))"

definition stream_completion ::
    "'s poster \<Rightarrow> (string \<Rightarrow> stream_event option) \<Rightarrow> string \<Rightarrow> (nat \<Rightarrow> 's \<Rightarrow> 's) \<Rightarrow> llm_client
      \<Rightarrow> message list \<Rightarrow> tool_definition list \<Rightarrow> 's
      \<Rightarrow> ((streamed_response, stream_error) result \<times> nat list) \<times> ('s \<times> string list)" where
  "stream_completion post decode elapsed sleep cl messages tools s =
     retry_loop (stream_attempt post decode elapsed cl (stream_body cl messages tools))
       (\<lambda>d (s, l). (sleep d s, l)) retry_new (s, [])"

text \<open>\<open>parse\<close> decodes a completion, or gives the parser's message.\<close>

definition complete_attempt ::
    "'s poster \<Rightarrow> (string \<Rightarrow> (completion_response, string) result) \<Rightarrow> string \<Rightarrow> llm_client \<Rightarrow> json \<Rightarrow> 's
      \<Rightarrow> (completion_response, stream_error) result \<times> 's" where
  "complete_attempt post parse elapsed cl body s =
     (case post_or_classify post elapsed cl body s of
        (Err e, s') \<Rightarrow> (Err e, s')
      | (Ok resp, s') \<Rightarrow>
          (res_bind (res_map_err (classify_reqwest_error elapsed) (http_text resp))
             (\<lambda>t. res_map_err (\<lambda>m. Fatal (''parse completion response: '' @ m) None (FromParse m)) (parse t)), s'))"

definition client_complete ::
    "'s poster \<Rightarrow> (string \<Rightarrow> (completion_response, string) result) \<Rightarrow> string \<Rightarrow> (nat \<Rightarrow> 's \<Rightarrow> 's) \<Rightarrow> llm_client
      \<Rightarrow> message list \<Rightarrow> 's \<Rightarrow> ((completion_response, stream_error) result \<times> nat list) \<times> 's" where
  "client_complete post parse elapsed sleep cl messages s =
     retry_loop (complete_attempt post parse elapsed cl (complete_body cl messages)) sleep retry_new s"

subsection \<open>Lemmas on retries\<close>

lemma retry_loop_single:
  assumes "\<And>x e y. attempt x = (Err e, y) \<Longrightarrow> is_retryable e \<Longrightarrow> snd y = snd x"
    and "\<And>d x. snd (sleep d x) = snd x"
    and "retry_loop attempt sleep st x = ((r, ds), y)"
  shows "\<exists>z. snd z = snd x \<and> attempt z = (r, y)"
  using assms(3)
proof (induction ds arbitrary: st x)
  case Nil
  then have "attempt x = (r, y)"
    by (cases rule: retry_loop_cases)
      (auto simp: handle_failure_def split: prod.splits option.splits)
  then show ?case by blast
next
  case (Cons d ds)
  from Cons.prems show ?case
  proof (cases rule: retry_loop_cases)
    case (again e s1 d' st' s2 ds')
    from again(2) have "is_retryable e" "s2 = sleep d' s1"
      by (auto simp: handle_failure_def next_delay_def Let_def split: prod.splits option.splits if_splits)
    with assms(1) [OF again(1)] assms(2) have "snd s2 = snd x" by simp
    with Cons.IH [of st' s2] again(3,4) show ?thesis by auto
  qed auto
qed

definition sse_consistent :: "sse_state \<Rightarrow> bool" where
  "sse_consistent st \<longleftrightarrow> concat (sse_texts st) = sse_content st
     \<and> (\<not> sse_emitted st \<longrightarrow> sse_texts st = [] \<and> sse_tool_calls st = [])"

lemma apply_choice_consistent: "sse_consistent st \<Longrightarrow> sse_consistent (apply_choice st c)"
  by (auto simp: apply_choice_def sse_consistent_def Let_def split: option.splits)

lemma apply_event_consistent: "sse_consistent st \<Longrightarrow> sse_consistent (apply_event st e)"
proof -
  have "sse_consistent st \<Longrightarrow> sse_consistent (foldl apply_choice st cs)" for cs st
    by (induction cs arbitrary: st) (auto intro: apply_choice_consistent)
  moreover assume "sse_consistent st"
  ultimately show ?thesis by (auto simp: apply_event_def sse_consistent_def split: option.splits)
qed

lemma drain_lines_consistent:
  "sse_consistent st \<Longrightarrow> sse_consistent (snd (drain_lines decode buffer st))"
proof (induction decode buffer st rule: drain_lines.induct)
  case (1 decode buffer st)
  show ?case
    by (subst drain_lines.simps)
      (use 1 in \<open>auto split: option.splits line_outcome.splits intro: apply_event_consistent\<close>)
qed

lemma read_chunks_consistent:
  "sse_consistent st \<Longrightarrow> sse_consistent (snd (read_chunks decode elapsed chunks buffer st))"
proof (induction decode elapsed chunks buffer st rule: read_chunks.induct)
  case (3 decode elapsed chunk chunks buffer st)
  then show ?case
    using drain_lines_consistent [of st decode "buffer @ utf8_lossy chunk"]
    by (auto split: prod.splits)
qed auto

lemma read_chunks_Ok: "read_chunks decode elapsed chunks buffer st = (Ok st', st'') \<Longrightarrow> st'' = st'"
  by (induction decode elapsed chunks buffer st rule: read_chunks.induct) (auto split: prod.splits)

lemma process_stream_texts:
  assumes "process_stream decode elapsed chunks = (r, texts, emitted)"
  shows "\<not> emitted \<Longrightarrow> texts = []"
    and "r = Ok v \<Longrightarrow> m_content (sr_message v) = (if concat texts = [] then None else Some (CText (concat texts)))"
proof -
  obtain x st where x: "read_chunks decode elapsed chunks [] sse_init = (x, st)" by fastforce
  have c: "sse_consistent st"
    using read_chunks_consistent [of sse_init decode elapsed chunks "[]"] x
    by (simp add: sse_consistent_def sse_init_def)
  from assms x have e: "r = res_map finish_stream x" "texts = sse_texts st" "emitted = sse_emitted st"
    by (simp_all add: process_stream_def)
  show "\<not> emitted \<Longrightarrow> texts = []" using c e by (simp add: sse_consistent_def)
  show "m_content (sr_message v) = (if concat texts = [] then None else Some (CText (concat texts)))"
    if "r = Ok v"
  proof (cases x)
    case (Ok st')
    with read_chunks_Ok x have "st' = st" by metis
    with Ok e that c show ?thesis unfolding sse_consistent_def finish_stream_def by auto
  qed (use e that in simp)
qed

lemma stream_attempt_cases:
  assumes "stream_attempt post decode elapsed cl body x = (r, y)"
  obtains (unsent) e where "r = Err e" "snd y = snd x"
  | (sent) chunks q texts emitted where "process_stream decode elapsed chunks = (q, texts, emitted)"
      "snd y = snd x @ texts"
      "r = res_map_err (\<lambda>e. if emitted \<and> is_retryable e then into_fatal_with_prefix mid_stream e else e) q"
proof -
  obtain p s1 where p: "post_or_classify post elapsed cl body (fst x) = (p, s1)" by fastforce
  show thesis
  proof (cases p)
    case (Err e)
    with assms p unsent show thesis by (auto simp: stream_attempt_def)
  next
    case (Ok resp)
    obtain q texts emitted where q: "process_stream decode elapsed (http_chunks resp) = (q, texts, emitted)"
      by (metis prod.collapse)
    with assms p Ok sent [OF q] show thesis by (cases q) (auto simp: stream_attempt_def)
  qed
qed

lemma stream_attempt_quiet:
  assumes "stream_attempt post decode elapsed cl body x = (Err e, y)" and "is_retryable e"
  shows "snd y = snd x"
  using assms(1)
proof (cases rule: stream_attempt_cases)
  case (sent chunks q texts emitted)
  with assms(2) have "\<not> emitted"
    by (cases q) (auto simp: into_fatal_with_prefix_def split: if_splits)
  with process_stream_texts(1) [OF sent(1)] sent(2) show ?thesis by simp
qed simp

lemma stream_attempt_content:
  assumes "stream_attempt post decode elapsed cl body (s0, []) = (Ok v, y)"
  shows "m_content (sr_message v) = (if concat (snd y) = [] then None else Some (CText (concat (snd y))))"
  using assms
proof (cases rule: stream_attempt_cases)
  case (sent chunks q texts emitted)
  then have "q = Ok v" by (cases q) auto
  with process_stream_texts(2) [OF sent(1) this] sent(2) show ?thesis by simp
qed simp

subsection \<open>Lemmas on chunks\<close>

function valid_utf8 :: "string \<Rightarrow> bool" where
  "valid_utf8 bs =
     (if bs = [] then True
      else if seq_width (hd bs) = 0 \<or> good_prefix bs < seq_width (hd bs) then False
      else valid_utf8 (drop (seq_width (hd bs)) bs))"
  by pat_completeness auto
termination
  by (relation "measure length") (auto simp: diff_less)

declare valid_utf8.simps [simp del]

lemma good_prefix_le: "good_prefix bs \<le> length bs"
  by (induction bs rule: good_prefix.induct) auto

lemma good_prefix_append: "good_prefix xs \<le> good_prefix (xs @ ys)"
  by (cases xs rule: good_prefix.cases; cases ys rule: good_prefix.cases) auto

lemma valid_utf8_lossy:
  "valid_utf8 xs \<Longrightarrow> utf8_lossy (xs @ ys) = xs @ utf8_lossy ys"
proof (induction xs rule: valid_utf8.induct)
  case (1 xs)
  show ?case
  proof (cases "xs = []")
    case False
    let ?w = "seq_width (hd xs)"
    from 1 False have w: "0 < ?w" "?w \<le> good_prefix xs" "valid_utf8 (drop ?w xs)"
      by (auto simp: valid_utf8.simps [of xs] split: if_splits)
    then have "?w \<le> length xs" using good_prefix_le [of xs] by simp
    moreover have "utf8_step (xs @ ys) = (take ?w (xs @ ys), ?w)"
      using w False good_prefix_append [of xs ys] by (simp add: utf8_step_def Let_def)
    ultimately have "utf8_lossy (xs @ ys) = take ?w xs @ utf8_lossy (drop ?w xs @ ys)"
      using False by (subst utf8_lossy.simps) simp
    with 1 False w show ?thesis by simp
  qed simp
qed

lemma split_on_append:
  "split_on c (xs @ ys) = butlast (split_on c xs) @ split_on c (last (split_on c xs) @ ys)"
proof (induction xs)
  case (Cons x xs)
  obtain w ws where w: "split_on c xs = w # ws" by (cases "split_on c xs") auto
  then show ?case using Cons
    by (cases ws) (auto split: list.splits)
qed simp

lemma split_on_last: "c \<notin> set (last (split_on c xs))"
proof (induction xs)
  case (Cons x xs)
  obtain w ws where w: "split_on c xs = w # ws" by (cases "split_on c xs") auto
  with Cons show ?case by auto
qed simp

definition line_apply :: "(string \<Rightarrow> stream_event option) \<Rightarrow> sse_state \<Rightarrow> string \<Rightarrow> sse_state" where
  "line_apply decode st l = (case read_line decode l of Event e \<Rightarrow> apply_event st e | _ \<Rightarrow> st)"

lemma line_apply_simps:
  "read_line decode l = Skip \<Longrightarrow> line_apply decode st l = st"
  "read_line decode l = Event e \<Longrightarrow> line_apply decode st l = apply_event st e"
  by (simp_all add: line_apply_def)

definition sse_lines :: "string \<Rightarrow> string list" where
  "sse_lines b = butlast (split_on (CHR 0x0A) b)"

lemma split_on_find:
  "find_char c b = None \<Longrightarrow> split_on c b = [b]"
  "find_char c b = Some i \<Longrightarrow> split_on c b = take i b # split_on c (drop (i + 1) b)"
proof -
  show "find_char c b = None \<Longrightarrow> split_on c b = [b]"
    by (simp add: find_char_None split_on_single)
  show "find_char c b = Some i \<Longrightarrow> split_on c b = take i b # split_on c (drop (i + 1) b)"
    by (induction b arbitrary: i) (auto split: if_splits list.splits)
qed

lemma drain_lines_all:
  assumes "\<forall>l \<in> set (sse_lines b). read_line decode l \<noteq> Done"
  shows "drain_lines decode b st = (last (split_on (CHR 0x0A) b), foldl (line_apply decode) st (sse_lines b))"
  using assms
proof (induction decode b st rule: drain_lines.induct)
  case (1 decode b st)
  show ?case
  proof (cases "find_char (CHR 0x0A) b")
    case None
    then show ?thesis by (subst drain_lines.simps) (simp add: split_on_find(1) sse_lines_def)
  next
    case (Some i)
    have sp: "sse_lines b = take i b # sse_lines (drop (i + 1) b)"
      "last (split_on (CHR 0x0A) b) = last (split_on (CHR 0x0A) (drop (i + 1) b))"
      using split_on_find(2) [OF Some] by (simp_all add: sse_lines_def)
    show ?thesis
    proof (cases "read_line decode (take i b)")
      case Skip
      with 1 Some sp show ?thesis by (subst drain_lines.simps) (simp add: line_apply_simps)
    next
      case (Event e)
      with 1 Some sp show ?thesis by (subst drain_lines.simps) (simp add: line_apply_simps)
    qed (use 1 sp in simp)
  qed
qed

lemma sse_lines_append:
  "sse_lines (xs @ ys) = sse_lines xs @ sse_lines (last (split_on (CHR 0x0A) xs) @ ys)"
  unfolding sse_lines_def by (subst split_on_append) (simp add: butlast_append)

lemma read_chunks_valid:
  assumes "\<forall>c \<in> set cs. valid_utf8 c"
    and "\<forall>l \<in> set (sse_lines (buffer @ concat cs)). read_line decode l \<noteq> Done"
    and "CHR 0x0A \<notin> set buffer"
  shows "read_chunks decode elapsed (map Ok cs) buffer st
    = (Ok (foldl (line_apply decode) st (sse_lines (buffer @ concat cs))),
       foldl (line_apply decode) st (sse_lines (buffer @ concat cs)))"
  using assms
proof (induction cs arbitrary: buffer st)
  case Nil
  then show ?case by (simp add: sse_lines_def split_on_single)
next
  case (Cons c cs)
  let ?b = "buffer @ c"
  have lines: "sse_lines (buffer @ concat (c # cs)) = sse_lines ?b @ sse_lines (last (split_on (CHR 0x0A) ?b) @ concat cs)"
    using sse_lines_append [of ?b "concat cs"] by simp
  have "utf8_lossy c = c" using Cons.prems(1) valid_utf8_lossy [of c "[]"]
    by (simp add: utf8_lossy.simps)
  moreover have "drain_lines decode ?b st = (last (split_on (CHR 0x0A) ?b), foldl (line_apply decode) st (sse_lines ?b))"
    using Cons.prems(2) lines by (intro drain_lines_all) auto
  moreover have "CHR 0x0A \<notin> set (last (split_on (CHR 0x0A) ?b))" by (rule split_on_last)
  ultimately show ?case using Cons.IH [of "last (split_on (CHR 0x0A) ?b)" "foldl (line_apply decode) st (sse_lines ?b)"]
      Cons.prems lines by simp
qed

lemma valid_utf8_append: "valid_utf8 xs \<Longrightarrow> valid_utf8 ys \<Longrightarrow> valid_utf8 (xs @ ys)"
proof (induction xs rule: valid_utf8.induct)
  case (1 xs)
  show ?case
  proof (cases "xs = []")
    case False
    let ?w = "seq_width (hd xs)"
    from 1 False have w: "0 < ?w" "?w \<le> good_prefix xs" "valid_utf8 (drop ?w xs)"
      by (auto simp: valid_utf8.simps [of xs] split: if_splits)
    then have "?w \<le> length xs" using good_prefix_le [of xs] by simp
    then show ?thesis using 1 False w good_prefix_append [of xs ys]
      by (subst valid_utf8.simps) simp
  qed (use 1 in simp)
qed

lemma valid_utf8_concat: "\<forall>c \<in> set cs. valid_utf8 c \<Longrightarrow> valid_utf8 (concat cs)"
  by (induction cs) (auto simp: valid_utf8.simps [of "[]"] intro: valid_utf8_append)

subsection \<open>Lemmas on tool calls\<close>

definition argument_piece :: "nat \<Rightarrow> tool_call_delta \<Rightarrow> string" where
  "argument_piece i d =
     (if tcd_index d = i
      then (case Option.bind (tcd_function d) fcd_arguments of None \<Rightarrow> [] | Some a \<Rightarrow> a) else [])"

lemma apply_tool_delta_arguments:
  "ptc_arguments (apply_tool_delta d e) = ptc_arguments e @ argument_piece (tcd_index d) d"
  by (auto simp: apply_tool_delta_def argument_piece_def Let_def split: option.splits)

lemma accumulate_length: "length (accumulate_tool_call calls d) = max (length calls) (tcd_index d + 1)"
  by (simp add: accumulate_tool_call_def Let_def max_def)

lemma accumulate_nth:
  assumes "i < length (accumulate_tool_call calls d)"
  shows "ptc_arguments (accumulate_tool_call calls d ! i)
    = (if i < length calls then ptc_arguments (calls ! i) else []) @ argument_piece i d"
  using assms
  by (auto simp: accumulate_tool_call_def Let_def nth_list_update nth_append apply_tool_delta_arguments
      empty_partial_def argument_piece_def)

lemma foldl_accumulate:
  assumes "i < length (foldl accumulate_tool_call calls ds)"
  shows "ptc_arguments (foldl accumulate_tool_call calls ds ! i)
    = (if i < length calls then ptc_arguments (calls ! i) else []) @ concat (map (argument_piece i) ds)"
  using assms
proof (induction ds arbitrary: calls)
  case (Cons d ds)
  show ?case
  proof (cases "i < length (accumulate_tool_call calls d)")
    case True
    with Cons accumulate_nth [OF True] show ?thesis by simp
  next
    case False
    then have "argument_piece i d = []" "\<not> i < length calls"
      by (auto simp: accumulate_length argument_piece_def)
    with Cons False show ?thesis by simp
  qed
qed simp

lemma foldl_accumulate_length:
  "length (foldl accumulate_tool_call calls ds) = foldl max (length calls) (map (\<lambda>d. tcd_index d + 1) ds)"
  by (induction ds arbitrary: calls) (simp_all add: accumulate_length)

subsection \<open>Properties\<close>

text \<open>
  C26: retries never repeat output. Whatever the server did, the texts that reached the callback
  during a streaming request, all its attempts together, are those of one single attempt, the
  one whose outcome is returned; when it succeeded they are, in order, exactly the text of the
  returned message.
\<close>

theorem streamed_text_not_repeated:
  "case stream_completion post decode elapsed sleep cl messages tools s of ((r, ds), (s', texts)) \<Rightarrow>
     (\<exists>s0. stream_attempt post decode elapsed cl (stream_body cl messages tools) (s0, []) = (r, (s', texts)))
     \<and> (case r of Ok v \<Rightarrow>
          m_content (sr_message v) = (if concat texts = [] then None else Some (CText (concat texts)))
        | Err e \<Rightarrow> True)"
proof -
  let ?att = "stream_attempt post decode elapsed cl (stream_body cl messages tools)"
  obtain r ds s' texts where
    run: "stream_completion post decode elapsed sleep cl messages tools s = ((r, ds), (s', texts))"
    by (metis prod.collapse)
  have "\<exists>z. snd z = snd (s, []) \<and> ?att z = (r, (s', texts))"
    by (rule retry_loop_single [OF _ _ run [unfolded stream_completion_def]])
      (auto intro: stream_attempt_quiet split: prod.splits)
  then obtain s0 where one: "?att (s0, []) = (r, (s', texts))" by auto
  then show ?thesis
    using stream_attempt_content [of post decode elapsed cl "stream_body cl messages tools" s0]
    by (cases r) (auto simp: run)
qed

text \<open>
  The arguments of streamed tool calls are put back together. However the deltas of several
  calls interleave, the argument text of the call at an index is the concatenation, in order of
  arrival, of the pieces sent for that index, and there are as many calls as the largest index
  asks for.
\<close>

theorem tool_call_arguments_reassembled:
  "map ptc_arguments (foldl accumulate_tool_call [] ds)
     = map (\<lambda>i. concat (map (argument_piece i) ds)) [0..<foldl max 0 (map (\<lambda>d. tcd_index d + 1) ds)]"
  by (rule nth_equalityI) (simp_all add: foldl_accumulate_length foldl_accumulate)


definition echo_event :: "string \<Rightarrow> stream_event option" where
  "echo_event t = Some \<lparr>se_choices = [\<lparr>ch_message = None,
     ch_delta = Some \<lparr>d_role = None, d_content = Some t, d_tool_calls = None\<rparr>, ch_finish_reason = None\<rparr>],
     se_usage = None\<rparr>"


text \<open>
  Each chunk is decoded on its own, so a character that straddles two chunks is lost. The
  same event, with a two-byte character in its text, gives that character when it arrives in one
  chunk and two replacement characters when the chunk ends between the two bytes.
\<close>

theorem split_character_is_corrupted:
  "fst (snd (process_stream echo_event elapsed [Ok (''data: '' @ [CHR 0xC3, CHR 0xA9, CHR 0x0A])]))
     = [[CHR 0xC3, CHR 0xA9]]
   \<and> fst (snd (process_stream echo_event elapsed [Ok (''data: '' @ [CHR 0xC3]), Ok [CHR 0xA9, CHR 0x0A]]))
     = [replacement @ replacement]"
proof
  show "fst (snd (process_stream echo_event elapsed [Ok (''data: '' @ [CHR 0xC3, CHR 0xA9, CHR 0x0A])]))
     = [[CHR 0xC3, CHR 0xA9]]"
    by code_simp
  show "fst (snd (process_stream echo_event elapsed [Ok (''data: '' @ [CHR 0xC3]), Ok [CHR 0xA9, CHR 0x0A]]))
     = [replacement @ replacement]"
    by code_simp
qed

end
