(* ===== verification/Tools.thy ===== *)
theory Tools
  imports Llm_Client
begin

text \<open>
  The tools an agent can call: the built-in ones (\<^verbatim>\<open>loop/src/tools/builtin.rs\<close>), those of
  MCP servers (\<^verbatim>\<open>loop/src/mcp/\<close>), those the operator provides, and the registry that
  lists and runs them (\<^verbatim>\<open>loop/src/tools/registry.rs\<close>), with the parsing of streamed
  tool arguments (\<^verbatim>\<open>loop/src/llm/tool_args.rs\<close>).

  The operating system is a parameter: files, processes, directory walks and glob patterns are
  fields of \<open>os\<close>, acting on a state \<open>'s\<close>. A tool returns a result, or panics.
\<close>

datatype tool_output = OText string | OBlocks "tool_content list"

type_synonym tool_result = "(tool_output, string) result"

datatype tool_exit = Returned tool_result | Panicked

type_synonym 's tool_fn = "json \<Rightarrow> 's \<Rightarrow> tool_exit \<times> 's"

datatype exec_outcome = ExecDone string string "int option" | ExecError string | ExecTimeout

record 's os =
  os_read_to_string :: "string \<Rightarrow> 's \<Rightarrow> (string, string) result \<times> 's"
  os_read :: "string \<Rightarrow> 's \<Rightarrow> (string, string) result \<times> 's"
  os_create_dir_all :: "string \<Rightarrow> 's \<Rightarrow> (unit, string) result \<times> 's"
  os_write :: "string \<Rightarrow> string \<Rightarrow> 's \<Rightarrow> (unit, string) result \<times> 's"
  os_exec :: "string list \<Rightarrow> u64 \<Rightarrow> 's \<Rightarrow> exec_outcome \<times> 's"
  os_output :: "string list \<Rightarrow> 's \<Rightarrow> (string, string) result \<times> 's"
  os_walk :: "string \<Rightarrow> 's \<Rightarrow> (string \<times> string option) list \<times> 's"
  path_parent :: "string \<Rightarrow> string option"
  path_extension :: "string \<Rightarrow> string option"
  to_lowercase :: "string \<Rightarrow> string"
  glob_pattern :: "string \<Rightarrow> (string \<Rightarrow> bool, string) result"
  base64 :: "string \<Rightarrow> string"

subsection \<open>Built-in tools\<close>

definition MAX_MEDIA_BYTES :: nat where "MAX_MEDIA_BYTES = 20 * 1024 * 1024"

definition arg_str :: "json \<Rightarrow> string \<Rightarrow> (string, string) result" where
  "arg_str args key =
     ok_or (''missing required argument: '' @ key) (Option.bind (json_get key args) as_str)"

text \<open>
  \<^verbatim>\<open>str::lines\<close>: every newline ends a line, a carriage return before it goes with it,
  and an empty rest after the last newline is no line.
\<close>

definition strip_cr :: "string \<Rightarrow> string" where
  "strip_cr l = (if l \<noteq> [] \<and> last l = CHR 0x0D then butlast l else l)"

definition text_lines :: "string \<Rightarrow> string list" where
  "text_lines s =
     (let segs = split_on (CHR 0x0A) s
      in map strip_cr (butlast segs) @ (if last segs = [] then [] else [last segs]))"

text \<open>
  The sum of start and limit is a machine word and wraps; the slice panics when it ends before
  it starts.
\<close>

definition line_window :: "nat \<Rightarrow> u64 \<Rightarrow> u64 \<Rightarrow> (nat \<times> nat) option" where
  "line_window n offset limit =
     (let start = min (unat offset) n;
          stop = min (unat (of_nat start + limit :: u64)) n
      in if stop < start then None else Some (start, stop))"

definition numbered_lines :: "string list \<Rightarrow> nat \<Rightarrow> nat \<Rightarrow> string" where
  "numbered_lines ls start stop =
     str_join newline (map (\<lambda>i. show_nat (i + 1) @ [CHR 0x09] @ ls ! i) [start..<stop])"

definition tool_read :: "'s os \<Rightarrow> 's tool_fn" where
  "tool_read os args s =
     (case arg_str args ''path'' of
        Err e \<Rightarrow> (Returned (Err e), s)
      | Ok path \<Rightarrow>
          let offset = unwrap_or 0 (Option.bind (json_get ''offset'' args) as_u64);
              limit = unwrap_or 2000 (Option.bind (json_get ''limit'' args) as_u64)
          in case os_read_to_string os path s of
               (Err e, s') \<Rightarrow> (Returned (Err (''read '' @ path @ '': '' @ e)), s')
             | (Ok text, s') \<Rightarrow>
                 (case line_window (length (text_lines text)) offset limit of
                    None \<Rightarrow> (Panicked, s')
                  | Some (start, stop) \<Rightarrow>
                      (Returned (Ok (OText (numbered_lines (text_lines text) start stop))), s')))"

definition tool_write :: "'s os \<Rightarrow> 's tool_fn" where
  "tool_write os args s =
     (case arg_str args ''path'' of
        Err e \<Rightarrow> (Returned (Err e), s)
      | Ok path \<Rightarrow>
          (case arg_str args ''content'' of
             Err e \<Rightarrow> (Returned (Err e), s)
           | Ok text \<Rightarrow>
               (case (case path_parent os path of
                        None \<Rightarrow> (Ok (), s)
                      | Some parent \<Rightarrow>
                          apfst (res_map_err (\<lambda>e. ''mkdir '' @ parent @ '': '' @ e)) (os_create_dir_all os parent s)) of
                  (Err e, s1) \<Rightarrow> (Returned (Err e), s1)
                | (Ok _, s1) \<Rightarrow>
                    (case os_write os path text s1 of
                       (Err e, s2) \<Rightarrow> (Returned (Err (''write '' @ path @ '': '' @ e)), s2)
                     | (Ok _, s2) \<Rightarrow> (Returned (Ok (OText
                         (''Wrote '' @ show_nat (length text) @ '' bytes to '' @ path))), s2)))))"

definition show_int :: "int \<Rightarrow> string" where
  "show_int i = (if i < 0 then ''-'' @ show_nat (nat (- i)) else show_nat (nat i))"

definition exec_text :: "string \<Rightarrow> string \<Rightarrow> int \<Rightarrow> string" where
  "exec_text out err code =
     (out @ (if err = [] then [] else (if out = [] then [] else newline) @ ''[stderr]'' @ newline @ err))
     @ newline @ ''[exit code: '' @ show_int code @ '']''"

definition tool_exec :: "'s os \<Rightarrow> 's tool_fn" where
  "tool_exec os args s =
     (case arg_str args ''command'' of
        Err e \<Rightarrow> (Returned (Err e), s)
      | Ok command \<Rightarrow>
          let timeout_secs = unwrap_or 120 (Option.bind (json_get ''timeout'' args) as_u64)
          in case os_exec os [''bash'', ''-c'', command] timeout_secs s of
               (ExecDone out err code, s') \<Rightarrow>
                 (Returned (Ok (OText (exec_text (utf8_lossy out) (utf8_lossy err) (unwrap_or (-1) code)))), s')
             | (ExecError e, s') \<Rightarrow> (Returned (Err (''exec error: '' @ e)), s')
             | (ExecTimeout, s') \<Rightarrow>
                 (Returned (Err (''command timed out after '' @ show_nat (unat timeout_secs) @ ''s'')), s'))"

text \<open>
  A walk yields every entry's path and, when it is valid text, its file name. Sorting is by
  bytes.
\<close>

fun bytes_le :: "string \<Rightarrow> string \<Rightarrow> bool" where
  "bytes_le [] _ = True"
| "bytes_le (_ # _) [] = False"
| "bytes_le (x # xs) (y # ys) = (if x = y then bytes_le xs ys else byte x < byte y)"

fun insert_bytes :: "string \<Rightarrow> string list \<Rightarrow> string list" where
  "insert_bytes x [] = [x]"
| "insert_bytes x (y # ys) = (if bytes_le x y then x # y # ys else y # insert_bytes x ys)"

definition sort_bytes :: "string list \<Rightarrow> string list" where
  "sort_bytes xs = foldr insert_bytes xs []"

definition tool_glob :: "'s os \<Rightarrow> 's tool_fn" where
  "tool_glob os args s =
     (case arg_str args ''pattern'' of
        Err e \<Rightarrow> (Returned (Err e), s)
      | Ok pat \<Rightarrow>
          let path = unwrap_or ''.'' (Option.bind (json_get ''path'' args) as_str)
          in case glob_pattern os pat of
               Err e \<Rightarrow> (Returned (Err (''invalid pattern: '' @ e)), s)
             | Ok matcher \<Rightarrow>
                 (case os_walk os path s of
                    (entries, s') \<Rightarrow>
                      let found = map fst (filter (\<lambda>(p, f). matcher p \<or> (case f of None \<Rightarrow> False | Some n \<Rightarrow> matcher n))
                            entries)
                      in (Returned (Ok (OText (if found = [] then ''No matches found.''
                            else str_join newline (sort_bytes found)))), s')))"

definition tool_grep :: "'s os \<Rightarrow> 's tool_fn" where
  "tool_grep os args s =
     (case arg_str args ''pattern'' of
        Err e \<Rightarrow> (Returned (Err e), s)
      | Ok pat \<Rightarrow>
          let path = unwrap_or ''.'' (Option.bind (json_get ''path'' args) as_str)
          in case os_output os [''grep'', ''-rn'', ''--include=*'', pat, path] s of
               (Err e, s') \<Rightarrow> (Returned (Err (''grep error: '' @ e)), s')
             | (Ok out, s') \<Rightarrow>
                 let text = utf8_lossy out
                 in (Returned (Ok (OText (if text = [] then ''No matches found.''
                       else str_join newline (take 200 (text_lines text))))), s'))"

definition mime_from_extension :: "'s os \<Rightarrow> string \<Rightarrow> string option" where
  "mime_from_extension os path =
     Option.bind (path_extension os path)
       (\<lambda>e. map_of [(''png'', ''image/png''), (''jpg'', ''image/jpeg''), (''jpeg'', ''image/jpeg''),
          (''gif'', ''image/gif''), (''webp'', ''image/webp''), (''svg'', ''image/svg+xml''),
          (''bmp'', ''image/bmp'')] (to_lowercase os e))"

definition tool_read_media :: "'s os \<Rightarrow> 's tool_fn" where
  "tool_read_media os args s =
     (case arg_str args ''path'' of
        Err e \<Rightarrow> (Returned (Err e), s)
      | Ok path \<Rightarrow>
          (case (case Option.bind (json_get ''media_type'' args) as_str of
                   Some m \<Rightarrow> Some m | None \<Rightarrow> mime_from_extension os path) of
             None \<Rightarrow> (Returned (Err (''cannot determine media type for '' @ path)), s)
           | Some mime \<Rightarrow>
               (case os_read os path s of
                  (Err e, s') \<Rightarrow> (Returned (Err (''read '' @ path @ '': '' @ e)), s')
                | (Ok data, s') \<Rightarrow>
                    (if MAX_MEDIA_BYTES < length data
                     then (Returned (Err (''file too large: '' @ show_nat (length data) @ '' bytes (max ''
                            @ show_nat (MAX_MEDIA_BYTES div (1024 * 1024)) @ ''MB)'')), s')
                     else (Returned (Ok (OBlocks [TImageBase64 (base64 os data) mime])), s')))))"

subsection \<open>MCP servers\<close>

record mcp_client =
  mcp_url :: string
  session_id :: "string option"

record mcp_response =
  mcp_result :: "json option"
  mcp_error :: "string option"

datatype mcp_content = McpText string | McpImage string string | McpResource json

record mcp_tool_def =
  mcp_name :: string
  mcp_description :: "string option"
  mcp_input_schema :: json

record mcp_tool_result =
  mcp_contents :: "mcp_content list"
  mcp_is_error :: bool

record mcp_http =
  mcp_session_header :: "string option"
  mcp_status :: "nat \<times> string"
  mcp_body :: string
  mcp_json :: "mcp_response option"

record 's mcp_env =
  fetch_id :: "'s \<Rightarrow> u64 \<times> 's"
  mcp_post :: "string \<Rightarrow> string option \<Rightarrow> json \<Rightarrow> 's \<Rightarrow> (mcp_http, unit) result \<times> 's"
  decode_tool_list :: "json \<Rightarrow> mcp_tool_def list option"
  decode_tool_result :: "json \<Rightarrow> mcp_tool_result option"
  print_pretty :: "json \<Rightarrow> string"
  package_version :: string

definition mcp_new :: "string \<Rightarrow> mcp_client" where
  "mcp_new url = \<lparr>mcp_url = trim_end_char (CHR ''/'') url, session_id = None\<rparr>"

definition mcp_request :: "u64 \<Rightarrow> string \<Rightarrow> json option \<Rightarrow> json" where
  "mcp_request i m params =
     JObject ([(''jsonrpc'', JString ''2.0''), (''id'', JNumber (PosInt i)), (''method'', JString m)]
       @ (case params of None \<Rightarrow> [] | Some p \<Rightarrow> [(''params'', p)]))"

definition mcp_send ::
    "'s mcp_env \<Rightarrow> mcp_client \<Rightarrow> string \<Rightarrow> json option \<Rightarrow> 's \<Rightarrow> (json, string) result \<times> mcp_client \<times> 's" where
  "mcp_send E c m params s =
     (case fetch_id E s of (i, s1) \<Rightarrow>
        (case mcp_post E (mcp_url c) (session_id c) (mcp_request i m params) s1 of
           (Err _, s2) \<Rightarrow> (Err ''MCP request failed'', c, s2)
         | (Ok resp, s2) \<Rightarrow>
             let c' = (case mcp_session_header resp of None \<Rightarrow> c | Some sid \<Rightarrow> c\<lparr>session_id := Some sid\<rparr>)
             in if \<not> (200 \<le> fst (mcp_status resp) \<and> fst (mcp_status resp) < 300)
                then (Err (''MCP '' @ m @ '' error '' @ snd (mcp_status resp) @ '': '' @ mcp_body resp), c', s2)
                else (case mcp_json resp of
                    None \<Rightarrow> (Err ''parse MCP JSON-RPC response'', c', s2)
                  | Some r \<Rightarrow> (case mcp_error r of
                        Some e \<Rightarrow> (Err (''MCP error: '' @ e), c', s2)
                      | None \<Rightarrow> (ok_or ''MCP response missing result'' (mcp_result r), c', s2)))))"

definition mcp_initialize ::
    "'s mcp_env \<Rightarrow> mcp_client \<Rightarrow> 's \<Rightarrow> (unit, string) result \<times> mcp_client \<times> 's" where
  "mcp_initialize E c s =
     apfst (res_map (\<lambda>_. ())) (mcp_send E c ''initialize''
       (Some (JObject [(''protocolVersion'', JString ''2025-03-26''), (''capabilities'', JObject []),
          (''clientInfo'', JObject [(''name'', JString ''overloop''), (''version'', JString (package_version E))])])) s)"

definition mcp_to_tool_definition :: "mcp_tool_def \<Rightarrow> tool_definition" where
  "mcp_to_tool_definition t =
     \<lparr>td_type = ''function'', td_function = \<lparr>fd_name = mcp_name t,
        fd_description = unwrap_or ''MCP tool'' (mcp_description t), fd_parameters = mcp_input_schema t\<rparr>\<rparr>"

definition list_tools ::
    "'s mcp_env \<Rightarrow> mcp_client \<Rightarrow> 's \<Rightarrow> (tool_definition list, string) result \<times> mcp_client \<times> 's" where
  "list_tools E c s =
     (case mcp_initialize E c s of
        (Err e, c1, s1) \<Rightarrow> (Err e, c1, s1)
      | (Ok _, c1, s1) \<Rightarrow>
          apfst (\<lambda>r. res_bind r (\<lambda>v. res_map (map mcp_to_tool_definition)
              (ok_or ''parse tools/list'' (decode_tool_list E v))))
            (mcp_send E c1 ''tools/list'' None s1))"

fun mcp_content_as_text :: "mcp_content \<Rightarrow> string option" where
  "mcp_content_as_text (McpText t) = Some t"
| "mcp_content_as_text _ = None"

fun mcp_tool_content :: "'s mcp_env \<Rightarrow> mcp_content \<Rightarrow> tool_content" where
  "mcp_tool_content E (McpText t) = TText t"
| "mcp_tool_content E (McpImage data mime) = TImageBase64 data mime"
| "mcp_tool_content E (McpResource r) = TText (print_pretty E r)"

definition call_tool ::
    "'s mcp_env \<Rightarrow> mcp_client \<Rightarrow> string \<Rightarrow> json \<Rightarrow> 's
      \<Rightarrow> (tool_content list, string) result \<times> mcp_client \<times> 's" where
  "call_tool E c n args s =
     apfst (\<lambda>r. res_bind r (\<lambda>v. res_bind (ok_or ''parse tools/call'' (decode_tool_result E v))
         (\<lambda>t. if mcp_is_error t
              then Err (''MCP tool error: '' @ str_join newline (List.map_filter mcp_content_as_text (mcp_contents t)))
              else Ok (map (mcp_tool_content E) (mcp_contents t)))))
       (mcp_send E c ''tools/call'' (Some (JObject [(''name'', JString n), (''arguments'', args)])) s)"

subsection \<open>The registry\<close>

text \<open>\<open>mcp_tools\<close> is a hash map: an association list with distinct keys, in the order of iteration.\<close>

record 's tool_registry =
  builtins :: "string \<rightharpoonup> 's tool_fn"
  builtin_defs :: "tool_definition list"
  mcp_clients :: "mcp_client list"
  mcp_tools :: "(string \<times> nat \<times> tool_definition) list"
  acp_tools :: "string set"
  acp_defs :: "tool_definition list"

definition def_name :: "tool_definition \<Rightarrow> string" where
  "def_name d = fd_name (td_function d)"

definition register_tool ::
    "string \<Rightarrow> 's tool_fn \<Rightarrow> json \<Rightarrow> string \<Rightarrow> 's tool_registry \<Rightarrow> 's tool_registry" where
  "register_tool n f parameters description reg =
     reg\<lparr>builtins := (builtins reg)(n \<mapsto> f),
         builtin_defs := builtin_defs reg @ [\<lparr>td_type = ''function'',
           td_function = \<lparr>fd_name = n, fd_description = description, fd_parameters = parameters\<rparr>\<rparr>]\<rparr>"

definition schema :: "(string \<times> string \<times> string) list \<Rightarrow> string list \<Rightarrow> json" where
  "schema props required =
     JObject [(''type'', JString ''object''),
       (''properties'', JObject (map (\<lambda>(n, t, d).
          (n, JObject [(''type'', JString t), (''description'', JString d)])) props)),
       (''required'', JArray (map JString required))]"

definition register_builtins :: "'s os \<Rightarrow> 's tool_registry \<Rightarrow> 's tool_registry" where
  "register_builtins os reg =
     register_tool ''read_media'' (tool_read_media os)
       (schema [(''path'', ''string'', ''Absolute path to a media file''),
          (''media_type'', ''string'', ''MIME type override (e.g. image/png). Takes priority over extension-based detection.'')]
          [''path''])
       ''Read an image file and return it as a visual content block the model can see.''
     (register_tool ''grep'' (tool_grep os)
       (schema [(''pattern'', ''string'', ''Search pattern (regex)''), (''path'', ''string'', ''Directory to search (default .)'')]
          [''pattern''])
       ''Search file contents with grep.''
     (register_tool ''glob'' (tool_glob os)
       (schema [(''pattern'', ''string'', ''Glob pattern''), (''path'', ''string'', ''Directory to search (default .)'')]
          [''pattern''])
       ''Find files matching a glob pattern.''
     (register_tool ''exec'' (tool_exec os)
       (schema [(''command'', ''string'', ''Bash command to execute''), (''timeout'', ''integer'', ''Timeout in seconds (default 120)'')]
          [''command''])
       ''Execute a bash command with timeout.''
     (register_tool ''write'' (tool_write os)
       (schema [(''path'', ''string'', ''Absolute path to write''), (''content'', ''string'', ''File content'')]
          [''path'', ''content''])
       ''Write content to a file, creating parent directories.''
     (register_tool ''read'' (tool_read os)
       (schema [(''path'', ''string'', ''Absolute path to read''), (''offset'', ''integer'', ''Line offset (0-based)''),
          (''limit'', ''integer'', ''Max lines to read'')] [''path''])
       ''Read a file with optional line offset and limit.''
     reg)))))"

definition tools_new :: "'s os \<Rightarrow> 's tool_registry" where
  "tools_new os = register_builtins os
     \<lparr>builtins = Map.empty, builtin_defs = [], mcp_clients = [], mcp_tools = [], acp_tools = {}, acp_defs = []\<rparr>"

definition connect_mcp ::
    "'s mcp_env \<Rightarrow> string \<Rightarrow> 's tool_registry \<Rightarrow> 's \<Rightarrow> (unit, string) result \<times> 's tool_registry \<times> 's" where
  "connect_mcp E url reg s =
     (case list_tools E (mcp_new url) s of
        (Err e, c, s') \<Rightarrow> (Err e, reg, s')
      | (Ok tools, c, s') \<Rightarrow>
          (Ok (), reg\<lparr>mcp_tools := foldl (\<lambda>m d. AList.update (def_name d) (length (mcp_clients reg), d) m)
               (mcp_tools reg) tools,
             mcp_clients := mcp_clients reg @ [c]\<rparr>, s'))"

definition set_acp_tools :: "tool_definition list \<Rightarrow> 's tool_registry \<Rightarrow> 's tool_registry" where
  "set_acp_tools tools reg = reg\<lparr>acp_tools := def_name ` set tools, acp_defs := tools\<rparr>"

definition is_acp_tool :: "'s tool_registry \<Rightarrow> string \<Rightarrow> bool" where
  "is_acp_tool reg n \<longleftrightarrow> n \<in> acp_tools reg"

text \<open>The filter of the last two loops: a definition is taken when its name is new.\<close>

fun push_unseen :: "tool_definition list \<Rightarrow> tool_definition list \<Rightarrow> tool_definition list" where
  "push_unseen defs [] = defs"
| "push_unseen defs (d # ds) =
     push_unseen (if def_name d \<in> def_name ` set defs then defs else defs @ [d]) ds"

definition definitions :: "'s tool_registry \<Rightarrow> tool_definition list" where
  "definitions reg =
     push_unseen (push_unseen (acp_defs reg) (map (snd \<circ> snd) (mcp_tools reg))) (builtin_defs reg)"

fun is_text :: "tool_content \<Rightarrow> bool" where
  "is_text (TText _) = True"
| "is_text _ = False"

fun text_of :: "tool_content \<Rightarrow> string option" where
  "text_of (TText t) = Some t"
| "text_of _ = None"

definition collapse :: "tool_content list \<Rightarrow> tool_output" where
  "collapse contents =
     (if list_all is_text contents then OText (str_join newline (List.map_filter text_of contents))
      else OBlocks contents)"

definition execute ::
    "'s mcp_env \<Rightarrow> string \<Rightarrow> json \<Rightarrow> 's tool_registry \<Rightarrow> 's \<Rightarrow> tool_exit \<times> 's tool_registry \<times> 's" where
  "execute E n args reg s =
     (case builtins reg n of
        Some f \<Rightarrow> (case f args s of (x, s') \<Rightarrow> (x, reg, s'))
      | None \<Rightarrow>
          (case map_of (mcp_tools reg) n of
             Some (i, _) \<Rightarrow>
               if i < length (mcp_clients reg) then
                 (case call_tool E (mcp_clients reg ! i) n args s of
                    (r, c, s') \<Rightarrow> (Returned (res_map collapse r), reg\<lparr>mcp_clients := (mcp_clients reg)[i := c]\<rparr>, s'))
               else (Panicked, reg, s)
           | None \<Rightarrow> (Returned (Err (''unknown tool: '' @ n)), reg, s)))"

definition parse_acp_tool :: "json \<Rightarrow> tool_definition option" where
  "parse_acp_tool t =
     map_option (\<lambda>n. \<lparr>td_type = ''function'', td_function = \<lparr>fd_name = n,
         fd_description = unwrap_or ''ACP tool'' (Option.bind (json_get ''description'' t) as_str),
         fd_parameters = unwrap_or (JObject [(''type'', JString ''object'')]) (json_get ''inputSchema'' t)\<rparr>\<rparr>)
       (Option.bind (json_get ''name'' t) as_str)"

definition parse_acp_tools :: "json \<Rightarrow> tool_definition list" where
  "parse_acp_tools v =
     (case Option.bind (json_get ''tools'' v) as_array of
        None \<Rightarrow> [] | Some ts \<Rightarrow> List.map_filter parse_acp_tool ts)"

subsection \<open>Streamed arguments\<close>

datatype parsed_arguments = ParsedOk json | ParsedFailed nat string

definition truncation_tip :: "string \<Rightarrow> string" where
  "truncation_tip n =
     (if n = ''write'' then ''use edit to append in chunks of ~3000 chars instead of one large write''
      else if n = ''edit'' then ''break the replacement into multiple smaller edit calls''
      else ''reduce the size of your arguments and retry'')"

text \<open>A parse error is the parser's message and whether the input ended early.\<close>

definition parse_tool_arguments ::
    "(string \<Rightarrow> (json, string \<times> bool) result) \<Rightarrow> string \<Rightarrow> string \<Rightarrow> parsed_arguments" where
  "parse_tool_arguments parse n raw =
     (case parse raw of
        Ok v \<Rightarrow> ParsedOk v
      | Err (msg, is_eof) \<Rightarrow>
          ParsedFailed (length raw)
            (if is_eof then
               ''tool arguments were truncated ('' @ show_nat (length raw) @ '' chars of incomplete JSON).'' @ newline
               @ ''Your '' @ n @ '' content was too large for a single tool call.'' @ newline
               @ ''Action: '' @ truncation_tip n
             else
               ''tool arguments failed to parse as JSON ('' @ show_nat (length raw) @ '' chars): '' @ msg @ ''.'' @ newline
               @ ''Fix the JSON syntax and retry. If the arguments are large, also: '' @ truncation_tip n))"

subsection \<open>Lemmas\<close>

lemma push_unseen_names: "def_name ` set (push_unseen defs ds) = def_name ` set defs \<union> def_name ` set ds"
  by (induction defs ds rule: push_unseen.induct) auto

lemma push_unseen_distinct:
  "distinct (map def_name defs) \<Longrightarrow> distinct (map def_name (push_unseen defs ds))"
  by (induction defs ds rule: push_unseen.induct) auto

lemma push_unseen_keeps: "set defs \<subseteq> set (push_unseen defs ds)"
proof (induction defs ds rule: push_unseen.induct)
  case (2 defs d ds)
  then show ?case by (cases "def_name d \<in> def_name ` set defs") auto
qed simp

lemma push_unseen_subset: "set (push_unseen defs ds) \<subseteq> set defs \<union> set ds"
proof (induction defs ds rule: push_unseen.induct)
  case (2 defs d ds)
  then show ?case by (cases "def_name d \<in> def_name ` set defs") auto
qed simp

lemma push_unseen_first:
  "d \<in> set (push_unseen defs ds) \<Longrightarrow> def_name d \<in> def_name ` set defs \<Longrightarrow> d \<in> set defs"
proof (induction defs ds rule: push_unseen.induct)
  case (2 defs e ds)
  show ?case
  proof (cases "def_name e \<in> def_name ` set defs")
    case False
    with 2 have "d \<in> set (defs @ [e])" by auto
    with False 2(3) show ?thesis by auto
  qed (use 2 in simp)
qed simp

lemma unat_wrap_sum:
  fixes k :: u64
  assumes "n < 2 ^ 64"
  shows "unat (of_nat n + k) = (if n + unat k < 2 ^ 64 then n + unat k else n + unat k - 2 ^ 64)"
proof -
  have k: "unat k < 2 ^ 64" using unsigned_less [of k] by simp
  have "unat (of_nat n + k) = (n + unat k) mod 2 ^ 64"
    using assms by (simp add: unat_word_ariths unat_of_nat)
  also have "\<dots> = (if n + unat k < 2 ^ 64 then n + unat k else n + unat k - 2 ^ 64)"
    using assms k by (auto simp: mod_if)
  finally show ?thesis .
qed

subsection \<open>Properties\<close>

text \<open>
  \<open>read\<close> returns the window of lines that was asked for, numbered from one, or
  panics. On a file that can be read, with fewer than two to the 64 lines, the lines from the
  offset on, at most as many as the limit, cut at the end of the file, when the clipped offset
  plus the limit fits in 64 bits; when it does not, the sum wraps below the start and the slice
  panics.
\<close>

theorem tool_read_window:
  assumes "arg_str args ''path'' = Ok path"
    and "offset = unwrap_or 0 (Option.bind (json_get ''offset'' args) as_u64)"
    and "limit = unwrap_or 2000 (Option.bind (json_get ''limit'' args) as_u64)"
    and "os_read_to_string os path s = (Ok text, s')"
    and "n = length (text_lines text)" and "n < 2 ^ 64" and "start = min (unat offset) n"
  shows "tool_read os args s =
    (if start + unat limit < 2 ^ 64
     then Returned (Ok (OText (numbered_lines (text_lines text) start (min (start + unat limit) n))))
     else Panicked, s')"
proof -
  have "start < 2 ^ 64" using assms(6,7) by simp
  note e = unat_wrap_sum [OF this, of limit]
  have lim: "unat limit < 2 ^ 64" using unsigned_less [of limit] by simp
  have "line_window n offset limit =
      (if start + unat limit < 2 ^ 64 then Some (start, min (start + unat limit) n) else None)"
  proof (cases "start + unat limit < 2 ^ 64")
    case True
    then show ?thesis using e assms(7) by (simp add: line_window_def Let_def)
  next
    case False
    with lim have "start + unat limit - 2 ^ 64 < start" by linarith
    with False e assms(7) show ?thesis
      unfolding line_window_def Let_def assms(7) [symmetric] by (simp add: min_def)
  qed
  with assms(1-5) show ?thesis by (auto simp: tool_read_def)
qed

definition demo_text :: string where "demo_text = [CHR ''a'', CHR 0x0A, CHR ''b'', CHR 0x0A]"

definition demo_os :: "nat os" where
  "demo_os =
     \<lparr>os_read_to_string = (\<lambda>p s. (Ok demo_text, s + 1)),
      os_read = (\<lambda>p s. (Err ''no'', s)), os_create_dir_all = (\<lambda>p s. (Ok (), s)),
      os_write = (\<lambda>p t s. (Ok (), s)), os_exec = (\<lambda>c t s. (ExecTimeout, s)),
      os_output = (\<lambda>c s. (Ok [], s)), os_walk = (\<lambda>p s. ([], s)), path_parent = (\<lambda>_. None),
      path_extension = (\<lambda>_. None), to_lowercase = (\<lambda>s. s), glob_pattern = (\<lambda>_. Err ''no''), base64 = (\<lambda>s. s)\<rparr>"

theorem tool_read_window_witness:
  "fst (tool_read demo_os (JObject [(''path'', JString ''f''), (''offset'', JNumber (PosInt 1))]) 0)
     = Returned (Ok (OText (numbered_lines [''a'', ''b''] (Suc 0) (Suc (Suc 0)))))
   \<and> fst (tool_read demo_os (JObject [(''path'', JString ''f''), (''offset'', JNumber (PosInt 1)),
        (''limit'', JNumber (PosInt 0xFFFFFFFFFFFFFFFF))]) 0) = Panicked"
proof -
  let ?a = "JObject [(''path'', JString ''f''), (''offset'', JNumber (PosInt 1))]"
  let ?b = "JObject [(''path'', JString ''f''), (''offset'', JNumber (PosInt 1)), (''limit'', JNumber (PosInt 0xFFFFFFFFFFFFFFFF))]"
  have l: "text_lines demo_text = [''a'', ''b'']"
    by (simp add: text_lines_def demo_text_def strip_cr_def)
  have r: "os_read_to_string demo_os ''f'' 0 = (Ok demo_text, 1)" by (simp add: demo_os_def)
  have a: "arg_str ?a ''path'' = Ok ''f''" "arg_str ?b ''path'' = Ok ''f''" by (simp_all add: arg_str_def)
  show ?thesis
    using tool_read_window [OF a(1) refl refl r refl _ refl] tool_read_window [OF a(2) refl refl r refl _ refl]
    by (simp add: l unwrap_or_def)
qed

text \<open>
  The tools offered to the model are all the tools that exist, the operator's first. Every
  name of an operator, MCP or built-in tool is offered; when the operator's own list has no
  duplicate, each name is offered once, and an operator's tool hides any other of its name.
\<close>

theorem definitions_complete:
  assumes "distinct (map def_name (acp_defs reg))"
  shows "distinct (map def_name (definitions reg))
    \<and> def_name ` set (definitions reg)
        = def_name ` set (acp_defs reg) \<union> (def_name \<circ> snd \<circ> snd) ` set (mcp_tools reg)
          \<union> def_name ` set (builtin_defs reg)
    \<and> set (acp_defs reg) \<subseteq> set (definitions reg)
    \<and> (\<forall>d \<in> set (definitions reg). def_name d \<in> def_name ` set (acp_defs reg) \<longrightarrow> d \<in> set (acp_defs reg))"
proof -
  let ?m = "push_unseen (acp_defs reg) (map (snd \<circ> snd) (mcp_tools reg))"
  have "distinct (map def_name (definitions reg))"
    using assms by (simp add: definitions_def push_unseen_distinct)
  moreover have "def_name ` set (definitions reg)
        = def_name ` set (acp_defs reg) \<union> (def_name \<circ> snd \<circ> snd) ` set (mcp_tools reg)
          \<union> def_name ` set (builtin_defs reg)"
    by (simp add: definitions_def push_unseen_names image_comp o_assoc)
  moreover have "set (acp_defs reg) \<subseteq> set (definitions reg)"
    using push_unseen_keeps [of "acp_defs reg"] push_unseen_keeps [of ?m] by (auto simp: definitions_def)
  moreover have "d \<in> set (acp_defs reg)"
    if "d \<in> set (definitions reg)" "def_name d \<in> def_name ` set (acp_defs reg)" for d
  proof -
    from that(2) have "def_name d \<in> def_name ` set ?m" by (simp add: push_unseen_names)
    with that(1) have "d \<in> set ?m" unfolding definitions_def by (rule push_unseen_first)
    then show ?thesis using that(2) by (rule push_unseen_first)
  qed
  ultimately show ?thesis by blast
qed

text \<open>
  A tool of an MCP server that has the name of a built-in tool is offered to the model and
  never run: the definition the model sees under that name is the server's, and a call of that
  name runs the built-in.
\<close>

theorem shadowed_mcp_tool_runs_builtin:
  assumes "builtins reg n = Some f" and "map_of (mcp_tools reg) n = Some (i, d)" and "def_name d = n"
    and "n \<notin> def_name ` set (acp_defs reg)"
    and "\<forall>e \<in> set (mcp_tools reg). def_name (snd (snd e)) = fst e" and "distinct (map fst (mcp_tools reg))"
  shows "d \<in> set (definitions reg)
    \<and> (\<forall>e \<in> set (definitions reg). def_name e = n \<longrightarrow> e = d)
    \<and> execute E n args reg s = (fst (f args s), reg, snd (f args s))"
proof -
  let ?mds = "map (snd \<circ> snd) (mcp_tools reg)" and ?m = "push_unseen (acp_defs reg) (map (snd \<circ> snd) (mcp_tools reg))"
  from assms(2) have mem: "(n, i, d) \<in> set (mcp_tools reg)" by (rule map_of_SomeD)
  have uniq: "e = d" if "e \<in> set ?m" "def_name e = n" for e
  proof -
    have "e \<in> set (acp_defs reg) \<union> set ?mds" using that(1) push_unseen_subset by blast
    with assms(4) that(2) obtain x where x: "x \<in> set (mcp_tools reg)" "e = snd (snd x)" by auto
    with assms(5) that(2) have "fst x = n" by auto
    with x mem assms(6) show ?thesis by (metis eq_key_imp_eq_value prod.collapse snd_conv)
  qed
  have "n \<in> def_name ` set ?m" using mem assms(3) by (force simp: push_unseen_names)
  then have dm: "d \<in> set ?m" using uniq by auto
  moreover have "e = d" if "e \<in> set (definitions reg)" "def_name e = n" for e
    using push_unseen_first [of e ?m] that \<open>n \<in> def_name ` set ?m\<close> uniq by (simp add: definitions_def)
  moreover have "d \<in> set (definitions reg)"
    using dm push_unseen_keeps [of ?m] by (auto simp: definitions_def)
  ultimately show ?thesis using assms(1) by (auto simp: execute_def split: prod.splits)
qed

text \<open>A registry with the built-in tools and an MCP server that offers its own \<open>read\<close>.\<close>

definition mcp_read :: tool_definition where
  "mcp_read = mcp_to_tool_definition \<lparr>mcp_name = ''read'', mcp_description = None, mcp_input_schema = JNull\<rparr>"

definition demo_registry :: "nat tool_registry" where
  "demo_registry = (tools_new demo_os)\<lparr>mcp_tools := [(''read'', 0, mcp_read)], mcp_clients := [mcp_new ''u'']\<rparr>"

lemma demo_registry_sel:
  "builtins demo_registry ''read'' = Some (tool_read demo_os)" "acp_defs demo_registry = []"
  "mcp_tools demo_registry = [(''read'', 0, mcp_read)]" "def_name mcp_read = ''read''"
  by (simp_all add: demo_registry_def tools_new_def register_builtins_def register_tool_def mcp_read_def
      mcp_to_tool_definition_def def_name_def)

theorem definitions_complete_witness:
  "distinct (map def_name (definitions demo_registry)) \<and> ''read'' \<in> def_name ` set (definitions demo_registry)"
  using definitions_complete [of demo_registry] by (simp add: demo_registry_sel)

theorem shadowed_mcp_tool_runs_builtin_witness:
  "\<forall>E :: nat mcp_env. mcp_read \<in> set (definitions demo_registry)
   \<and> fst (execute E ''read'' (JObject []) demo_registry 0) = Returned (Err ''missing required argument: path'')"
proof (rule allI)
  fix E :: "nat mcp_env"
  have "fst (tool_read demo_os (JObject []) 0) = Returned (Err ''missing required argument: path'')"
    by (simp add: tool_read_def arg_str_def)
  then show "mcp_read \<in> set (definitions demo_registry)
      \<and> fst (execute E ''read'' (JObject []) demo_registry 0) = Returned (Err ''missing required argument: path'')"
    using shadowed_mcp_tool_runs_builtin [OF demo_registry_sel(1), of 0 mcp_read E "JObject []" 0]
    by (simp add: demo_registry_sel)
qed

end
