(* ===== verification/Preview.thy ===== *)
theory Preview
  imports Llm_Types
begin

text \<open>
  The redacted snapshot of a conversation that a trace may carry
  (\<^verbatim>\<open>loop/src/observability/preview.rs\<close>), and the cut of a string at a character boundary
  that it shares with the agentic loop.
\<close>

subsection \<open>Cutting strings\<close>

fun boundary_below :: "string \<Rightarrow> nat \<Rightarrow> nat" where
  "boundary_below s 0 = 0"
| "boundary_below s (Suc n) = (if is_char_boundary s (Suc n) then Suc n else boundary_below s n)"

lemma boundary_below_spec:
  "is_char_boundary s (boundary_below s n)" "boundary_below s n \<le> n"
  "is_char_boundary s j \<Longrightarrow> j \<le> n \<Longrightarrow> j \<le> boundary_below s n"
proof -
  show "is_char_boundary s (boundary_below s n)" by (induction n) auto
  show "boundary_below s n \<le> n" by (induction n) auto
  show "is_char_boundary s j \<Longrightarrow> j \<le> n \<Longrightarrow> j \<le> boundary_below s n"
    by (induction n) (auto simp: le_Suc_eq)
qed

definition DETAIL_TAIL :: nat where "DETAIL_TAIL = 3"
definition SYSTEM_TRUNCATE :: nat where "SYSTEM_TRUNCATE = 200"
definition ASSISTANT_TRUNCATE :: nat where "ASSISTANT_TRUNCATE = 300"
definition TOOL_TRUNCATE :: nat where "TOOL_TRUNCATE = 200"

definition truncate_str :: "string \<Rightarrow> nat \<Rightarrow> string" where
  "truncate_str s max_len =
     (if length s \<le> max_len then s
      else take (boundary_below s max_len) s @ [CHR 0xE2, CHR 0x80, CHR 0xA6] @ ''[truncated]'')"

subsection \<open>The snapshot\<close>

fun block_to_text :: "typed_block \<Rightarrow> string" where
  "block_to_text (Known (BText t)) = t"
| "block_to_text (Known (BImageUrl _)) = ''[image]''"
| "block_to_text (Known (BImage _)) = ''[image]''"
| "block_to_text (Known (BInputAudio _)) = ''[audio]''"
| "block_to_text (Unknown _) = ''[media]''"

definition content_to_text :: "content option \<Rightarrow> string" where
  "content_to_text c =
     (case c of None \<Rightarrow> []
      | Some (CText s) \<Rightarrow> s
      | Some (CBlocks bs) \<Rightarrow> str_join [CHR 0x0A] (map block_to_text bs))"

definition snapshot_line :: "message \<Rightarrow> string" where
  "snapshot_line m =
     (let body = content_to_text (m_content m)
      in [CHR 0x0A] @
        (case m_role m of
           RSystem \<Rightarrow> ''[SYSTEM]: '' @ truncate_str body SYSTEM_TRUNCATE
         | RUser \<Rightarrow> ''[USER]: '' @ body
         | RAssistant \<Rightarrow> ''[AGENT]: '' @ truncate_str body ASSISTANT_TRUNCATE
         | RTool \<Rightarrow> ''[TOOL '' @ unwrap_or ''?'' (m_tool_call_id m) @ '']: '' @ truncate_str body TOOL_TRUNCATE))"

definition detail_start :: "message list \<Rightarrow> nat" where
  "detail_start ms = max (length ms - DETAIL_TAIL) 1"

definition build_context_snapshot :: "message list \<Rightarrow> json" where
  "build_context_snapshot ms =
     (let skipped = detail_start ms - 1
      in JString ((if 0 < skipped then ''<'' @ show_nat skipped @ '' more messages...>'' @ [CHR 0x0A] else [])
           @ concat (map snapshot_line (drop (detail_start ms) ms))))"

subsection \<open>Properties\<close>

text \<open>A message without the payload of its media.\<close>

fun redact_block :: "typed_block \<Rightarrow> typed_block" where
  "redact_block (Known (BText t)) = Known (BText t)"
| "redact_block (Known (BImageUrl _)) = Known (BImageUrl JNull)"
| "redact_block (Known (BImage _)) = Known (BImage JNull)"
| "redact_block (Known (BInputAudio _)) = Known (BInputAudio JNull)"
| "redact_block (Unknown _) = Unknown JNull"

definition redact :: "message \<Rightarrow> message" where
  "redact m = m\<lparr>m_content := (case m_content m of Some (CBlocks bs) \<Rightarrow> Some (CBlocks (map redact_block bs)) | c \<Rightarrow> c)\<rparr>"

lemma block_to_text_redact [simp]: "block_to_text (redact_block b) = block_to_text b"
  by (cases b rule: redact_block.cases) simp_all

lemma snapshot_line_redact [simp]: "snapshot_line (redact m) = snapshot_line m"
proof -
  have "content_to_text (m_content (redact m)) = content_to_text (m_content m)"
    by (simp add: redact_def content_to_text_def comp_def split: option.split content.split)
  moreover have "m_role (redact m) = m_role m" "m_tool_call_id (redact m) = m_tool_call_id m" by (simp_all add: redact_def)
  ultimately show ?thesis by (simp only: snapshot_line_def)
qed

lemma truncate_str_length: "length (truncate_str s n) \<le> n + 14"
  using boundary_below_spec(2) [of s n] by (simp add: truncate_str_def)

text \<open>
  The snapshot given to a trace carries no media and nothing of the older messages. Two
  conversations of the same length that agree, up to the payload of images, audio and unknown
  blocks, on their last three messages, the first message never counting as one of them, have the
  same snapshot.
\<close>

theorem snapshot_hides_payloads:
  assumes "length ms = length ms'"
    and "map redact (drop (detail_start ms) ms) = map redact (drop (detail_start ms') ms')"
  shows "build_context_snapshot ms = build_context_snapshot ms'"
proof -
  have "map snapshot_line xs = map snapshot_line (map redact xs)" for xs by (simp add: comp_def)
  from this [of "drop (detail_start ms) ms"] this [of "drop (detail_start ms') ms'"] assms(2)
  have "map snapshot_line (drop (detail_start ms) ms) = map snapshot_line (drop (detail_start ms') ms')" by simp
  with assms(1) show ?thesis by (simp add: build_context_snapshot_def Let_def detail_start_def)
qed

definition text_message :: "role_kind \<Rightarrow> string \<Rightarrow> message" where
  "text_message r t = \<lparr>m_role = r, m_content = Some (CText t), m_tool_calls = None, m_tool_call_id = None\<rparr>"

theorem snapshot_hides_payloads_witness:
  "build_context_snapshot [text_message RSystem ''secret'', text_message RUser ''hi'',
      \<lparr>m_role = RUser, m_content = Some (CBlocks [Known (BImageUrl (JString ''data:AAAA''))]), m_tool_calls = None, m_tool_call_id = None\<rparr>]
   = build_context_snapshot [text_message RSystem [], text_message RUser ''hi'',
      \<lparr>m_role = RUser, m_content = Some (CBlocks [Known (BImageUrl JNull)]), m_tool_calls = None, m_tool_call_id = None\<rparr>]"
  by (rule snapshot_hides_payloads) (simp_all add: detail_start_def DETAIL_TAIL_def redact_def)

end
