(* ===== verification/Agentic_Loop.thy ===== *)
theory Agentic_Loop
  imports Compaction Tools Preview
begin

text \<open>
  One turn of the agent (\<^verbatim>\<open>loop/src/agentic_loop.rs\<close>): up to a bounded number of
  rounds, each of which checks time and quota, compacts the history when it is large, asks the
  model, runs the tools it calls, and stops on its stop reason.

  The services the loop is given (\<^verbatim>\<open>loop/src/traits.rs\<close>) are records of functions on
  a state \<open>'s\<close> that stands for everything outside; so are the clock and the trace recorder.
  Floating-point arithmetic is a parameter. The wall-clock times of trace spans are left out.

  A round is a sequence of stages. A stage says how control goes on: to the next stage, to the
  next round, out of the loop, out of the function with an error, or a panic.
\<close>

record ('s, 'e) acp_service =
  svc_text_delta :: "string \<Rightarrow> 's \<Rightarrow> (unit, 'e) result \<times> 's"
  svc_activity :: "string \<Rightarrow> 's \<Rightarrow> (unit, 'e) result \<times> 's"
  svc_tool_call :: "string \<Rightarrow> string \<Rightarrow> json \<Rightarrow> 's \<Rightarrow> (unit, 'e) result \<times> 's"
  svc_tool_result :: "string \<Rightarrow> json \<Rightarrow> bool \<Rightarrow> 's \<Rightarrow> (unit, 'e) result \<times> 's"
  svc_turn_end :: "message list \<Rightarrow> usage \<Rightarrow> 's \<Rightarrow> (unit, 'e) result \<times> 's"
  svc_context_compacted :: "string \<Rightarrow> message list \<Rightarrow> usage \<Rightarrow> 's \<Rightarrow> (unit, 'e) result \<times> 's"
  svc_quota_check :: "'s \<Rightarrow> (bool, 'e) result \<times> 's"
  svc_quota_update :: "u64 \<Rightarrow> u64 \<Rightarrow> 's \<Rightarrow> (unit, 'e) result \<times> 's"
  svc_heartbeat :: "'s \<Rightarrow> (unit, 'e) result \<times> 's"
  svc_tools_call :: "string \<Rightarrow> json \<Rightarrow> 's \<Rightarrow> (json, 'e) result \<times> 's"

text \<open>A model: the result of a streamed completion comes with the texts given to the callback.\<close>

record 's llm_service =
  llm_stream :: "message list \<Rightarrow> tool_definition list \<Rightarrow> 's
    \<Rightarrow> ((streamed_response, string) result \<times> string list) \<times> 's"
  llm_complete :: "'s completer"

record generation_params =
  gen_model :: string
  gen_message_count :: nat
  gen_input_preview :: json
  gen_output_text :: "string option"
  gen_stop_reason :: string
  gen_prompt_tokens :: u64
  gen_completion_tokens :: u64
  gen_cost :: f64
  gen_cache_read_tokens :: u64
  gen_cache_creation_tokens :: u64
  gen_level :: "string option"
  gen_status_message :: "string option"

record tool_span_params =
  span_name :: string
  span_input :: string
  span_output :: string
  span_is_error :: bool

record loop_config =
  max_iterations :: nat
  timeout :: nat
  cfg_model :: string
  context_window :: nat
  compaction_threshold :: f64
  compaction_keep_recent :: nat
  max_compactions :: nat
  langfuse_capture_input :: bool

record ('s, 'e) loop_env =
  acp :: "('s, 'e) acp_service"
  llm :: "'s llm_service"
  env_mcp :: "'s mcp_env"
  loop_serde :: serde
  parse_arguments :: "string \<Rightarrow> (json, string \<times> bool) result"
  now :: "'s \<Rightarrow> nat \<times> 's"
  record_generation :: "generation_params \<Rightarrow> 's \<Rightarrow> 's"
  record_tool_span :: "tool_span_params \<Rightarrow> 's \<Rightarrow> 's"
  trace_finalize :: "u64 \<Rightarrow> f64 \<Rightarrow> nat \<Rightarrow> string \<Rightarrow> 's \<Rightarrow> 's"
  exceeds_threshold :: "nat \<Rightarrow> nat \<Rightarrow> f64 \<Rightarrow> bool"
  f64_add :: "f64 \<Rightarrow> f64 \<Rightarrow> f64"
  error_string :: "'e \<Rightarrow> string"

datatype 'e loop_error = ServiceError 'e | LlmError string

datatype 'e flow = Proceed | NextRound | Leave | Fail "'e loop_error" | Crash

record 's loop_state =
  world :: 's
  messages :: "message list"
  registry_of :: "'s tool_registry"
  total_usage :: usage
  silent_turns :: nat
  last_heartbeat :: nat
  response_text :: string
  tool_count :: nat
  compaction_count :: nat

subsection \<open>Helpers\<close>

definition LF_TRUNCATE :: nat where "LF_TRUNCATE = 4096"

definition HEARTBEAT_INTERVAL :: nat where "HEARTBEAT_INTERVAL = 30 * 10 ^ 9"

definition WIND_DOWN_ITERS :: nat where "WIND_DOWN_ITERS = 5"

definition SILENCE_NUDGE :: string where
  "SILENCE_NUDGE = ''You haven'' @ [CHR 0x27]
     @ ''t produced any output. Please respond to the user or explain what you'' @ [CHR 0x27] @ ''re working on.''"

definition truncate_for_trace :: "string \<Rightarrow> string" where
  "truncate_for_trace s =
     (if length s \<le> LF_TRUNCATE then s
      else take (boundary_below s LF_TRUNCATE) s @ [CHR 0xE2, CHR 0x80, CHR 0xA6] @ ''[truncated]'')"

definition system_msg :: "string \<Rightarrow> message" where
  "system_msg t = plain_message RSystem t"

definition tool_block :: "tool_content \<Rightarrow> typed_block" where
  "tool_block b =
     (case b of TText t \<Rightarrow> Known (BText t)
      | TImageBase64 data mime \<Rightarrow>
          Known (BImageUrl (JObject [(''url'', JString (''data:'' @ mime @ '';base64,'' @ data))])))"

fun tool_output_to_content :: "tool_output \<Rightarrow> content" where
  "tool_output_to_content (OText s) = CText s"
| "tool_output_to_content (OBlocks bs) = CBlocks (map tool_block bs)"

definition acp_result_text :: "json \<Rightarrow> string option" where
  "acp_result_text v =
     Option.bind (Option.bind (json_get ''content'' v) as_array)
       (\<lambda>bs. let text = str_join newline (List.map_filter (\<lambda>b.
             if Option.bind (json_get ''type'' b) as_str = Some ''text''
             then Option.bind (json_get ''text'' b) as_str else None) bs)
         in if text = [] then None else Some text)"

definition extract_acp_tool_result :: "serde \<Rightarrow> json \<Rightarrow> tool_result" where
  "extract_acp_tool_result S v =
     (let is_error = unwrap_or False (Option.bind (json_get ''isError'' v) as_bool);
          text = (case acp_result_text v of Some t \<Rightarrow> t | None \<Rightarrow> print_json S v)
      in if is_error then Err text else Ok (OText text))"

definition tool_message :: "string \<Rightarrow> content \<Rightarrow> message" where
  "tool_message i c = \<lparr>m_role = RTool, m_content = Some c, m_tool_calls = None, m_tool_call_id = Some i\<rparr>"

subsection \<open>Stages\<close>

type_synonym ('s, 'e) stage = "'s loop_state \<Rightarrow> 'e flow \<times> 's loop_state"

definition then_stage :: "('s, 'e) stage \<Rightarrow> ('s, 'e) stage \<Rightarrow> ('s, 'e) stage" where
  "then_stage f g st = (case f st of (Proceed, st') \<Rightarrow> g st' | (x, st') \<Rightarrow> (x, st'))"

text \<open>Sending a final text: an error leaves the function, success leaves the loop.\<close>

definition say_and_leave :: "('s, 'e) loop_env \<Rightarrow> string \<Rightarrow> ('s, 'e) stage" where
  "say_and_leave E t st =
     (case svc_text_delta (acp E) t (world st) of
        (Err e, w) \<Rightarrow> (Fail (ServiceError e), st\<lparr>world := w\<rparr>)
      | (Ok _, w) \<Rightarrow> (Leave, st\<lparr>world := w\<rparr>))"

definition timeout_stage :: "('s, 'e) loop_env \<Rightarrow> loop_config \<Rightarrow> nat \<Rightarrow> ('s, 'e) stage" where
  "timeout_stage E cfg start st =
     (case now E (world st) of (t, w) \<Rightarrow>
        if timeout cfg \<le> t - start
        then say_and_leave E (newline @ newline @ ''[Session timed out]'') (st\<lparr>world := w\<rparr>)
        else (Proceed, st\<lparr>world := w\<rparr>))"

definition heartbeat_stage :: "('s, 'e) loop_env \<Rightarrow> ('s, 'e) stage" where
  "heartbeat_stage E st =
     (case now E (world st) of (t, w) \<Rightarrow>
        if HEARTBEAT_INTERVAL \<le> t - last_heartbeat st
        then (case now E (snd (svc_heartbeat (acp E) w)) of
                (t', w') \<Rightarrow> (Proceed, st\<lparr>world := w', last_heartbeat := t'\<rparr>))
        else (Proceed, st\<lparr>world := w\<rparr>))"

definition quota_stage :: "('s, 'e) loop_env \<Rightarrow> ('s, 'e) stage" where
  "quota_stage E st =
     (case svc_quota_check (acp E) (world st) of (r, w) \<Rightarrow>
        if (case r of Ok b \<Rightarrow> b | Err _ \<Rightarrow> True) then (Proceed, st\<lparr>world := w\<rparr>)
        else say_and_leave E (newline @ newline @ ''[Quota exhausted]'') (st\<lparr>world := w\<rparr>))"

text \<open>Both log lines divide by the context window, and the binary always logs at their level.\<close>

definition compaction_stage :: "('s, 'e) loop_env \<Rightarrow> loop_config \<Rightarrow> ('s, 'e) stage" where
  "compaction_stage E cfg st =
     (if \<not> exceeds_threshold E (estimate_tokens (messages st)) (context_window cfg) (compaction_threshold cfg)
      then (Proceed, st)
      else if context_window cfg = 0 then (Crash, st)
      else if max_compactions cfg \<le> compaction_count st then (Proceed, st)
      else
        (case compact_messages (llm_complete (llm E)) (messages st) (compaction_keep_recent cfg) (world st) of
           (Err e, w) \<Rightarrow> (Fail (LlmError e), st\<lparr>world := w\<rparr>)
         | (Ok r, w) \<Rightarrow>
             (Proceed,
              if summary r \<noteq> []
              then st\<lparr>world := snd (svc_context_compacted (acp E) (summary r) (canonical_messages r) (total_usage st) w),
                      messages := working_messages r, compaction_count := compaction_count st + 1\<rparr>
              else st\<lparr>world := w, messages := working_messages r\<rparr>)))"

definition wind_down_stage :: "loop_config \<Rightarrow> nat \<Rightarrow> ('s, 'e) stage" where
  "wind_down_stage cfg iteration st =
     (let remaining = max_iterations cfg - iteration
      in (Proceed, if remaining = WIND_DOWN_ITERS
            then st\<lparr>messages := messages st @ [system_msg (''[System: '' @ show_nat remaining
                   @ '' iterations remaining. Wrap up your work.]'')]\<rparr>
            else st))"

definition silence_stage :: "('s, 'e) stage" where
  "silence_stage st =
     (Proceed, if 3 \<le> silent_turns st
        then st\<lparr>messages := messages st @ [system_msg SILENCE_NUDGE], silent_turns := 0\<rparr> else st)"

text \<open>Empty deltas are keep-alives and are not forwarded.\<close>

definition forward_deltas :: "('s, 'e) loop_env \<Rightarrow> string list \<Rightarrow> 's \<Rightarrow> 's" where
  "forward_deltas E deltas w =
     foldl (\<lambda>w d. if d = [] then w else snd (svc_text_delta (acp E) d w)) w deltas"

definition stop_reason_string :: "stop_reason option \<Rightarrow> string" where
  "stop_reason_string r =
     (case r of Some Stop \<Rightarrow> ''stop'' | Some ToolCalls \<Rightarrow> ''tool_calls'' | Some Length \<Rightarrow> ''length''
      | Some ContentFilter \<Rightarrow> ''content_filter'' | None \<Rightarrow> ''unknown'')"

definition add_usage :: "('s, 'e) loop_env \<Rightarrow> usage \<Rightarrow> usage \<Rightarrow> usage" where
  "add_usage E t u =
     \<lparr>prompt_tokens = prompt_tokens t + prompt_tokens u,
      completion_tokens = completion_tokens t + completion_tokens u,
      total_tokens = total_tokens t + total_tokens u, cost = f64_add E (cost t) (cost u),
      cache_read_tokens = cache_read_tokens t + cache_read_tokens u,
      cache_creation_tokens = cache_creation_tokens t + cache_creation_tokens u\<rparr>"

definition input_preview :: "('s, 'e) loop_env \<Rightarrow> loop_config \<Rightarrow> message list \<Rightarrow> json" where
  "input_preview E cfg ms =
     (if langfuse_capture_input cfg then build_context_snapshot ms
      else JObject [(''message_count'', JNumber (PosInt (of_nat (length ms))))])"

definition failed_generation :: "('s, 'e) loop_env \<Rightarrow> loop_config \<Rightarrow> message list \<Rightarrow> string \<Rightarrow> generation_params" where
  "failed_generation E cfg ms e =
     \<lparr>gen_model = cfg_model cfg, gen_message_count = length ms, gen_input_preview = input_preview E cfg ms,
      gen_output_text = None, gen_stop_reason = ''error'', gen_prompt_tokens = 0, gen_completion_tokens = 0,
      gen_cost = 0, gen_cache_read_tokens = 0, gen_cache_creation_tokens = 0,
      gen_level = Some ''ERROR'', gen_status_message = Some e\<rparr>"

definition generation ::
    "('s, 'e) loop_env \<Rightarrow> loop_config \<Rightarrow> message list \<Rightarrow> string \<Rightarrow> streamed_response \<Rightarrow> generation_params" where
  "generation E cfg ms text r =
     (let u = unwrap_or usage_default (sr_usage r)
      in \<lparr>gen_model = cfg_model cfg, gen_message_count = length ms, gen_input_preview = input_preview E cfg ms,
          gen_output_text = (if text = [] then None else Some text),
          gen_stop_reason = stop_reason_string (sr_finish_reason r),
          gen_prompt_tokens = prompt_tokens u, gen_completion_tokens = completion_tokens u, gen_cost = cost u,
          gen_cache_read_tokens = cache_read_tokens u, gen_cache_creation_tokens = cache_creation_tokens u,
          gen_level = None, gen_status_message = None\<rparr>)"

text \<open>After a successful call: record it, add up the usage, count silence, append the message.\<close>

definition accept_response ::
    "('s, 'e) loop_env \<Rightarrow> loop_config \<Rightarrow> string list \<Rightarrow> streamed_response \<Rightarrow> 's loop_state \<Rightarrow> 's loop_state" where
  "accept_response E cfg deltas r st =
     (let text = concat deltas;
          w1 = record_generation E (generation E cfg (messages st) text r) (world st);
          w2 = (case sr_usage r of None \<Rightarrow> w1
                | Some u \<Rightarrow> snd (svc_quota_update (acp E) (prompt_tokens u) (completion_tokens u) w1));
          m = sr_message r
      in st\<lparr>world := w2, response_text := response_text st @ text,
            total_usage := (case sr_usage r of None \<Rightarrow> total_usage st | Some u \<Rightarrow> add_usage E (total_usage st) u),
            silent_turns := (if m_content m \<noteq> None \<or> m_tool_calls m \<noteq> None then 0 else silent_turns st + 1),
            messages := messages st @ [m]\<rparr>)"

definition run_tool ::
    "('s, 'e) loop_env \<Rightarrow> string \<Rightarrow> json \<Rightarrow> 's tool_registry \<Rightarrow> 's \<Rightarrow> tool_exit \<times> 's tool_registry \<times> 's" where
  "run_tool E n args reg w =
     (if is_acp_tool reg n
      then (case svc_tools_call (acp E) n args w of
              (Ok v, w') \<Rightarrow> (Returned (extract_acp_tool_result (loop_serde E) v), reg, w')
            | (Err e, w') \<Rightarrow> (Returned (Err (error_string E e)), reg, w'))
      else execute (env_mcp E) n args reg w)"

definition rejected_call ::
    "('s, 'e) loop_env \<Rightarrow> tool_call \<Rightarrow> string \<Rightarrow> 's loop_state \<Rightarrow> 's loop_state" where
  "rejected_call E tc msg st =
     (let n = fc_name (tc_function tc); c = CText msg;
          w1 = snd (svc_activity (acp E) (''Invalid tool arguments: '' @ n) (world st));
          w2 = snd (svc_tool_call (acp E) (tc_id tc) n JNull w1);
          w3 = snd (svc_tool_result (acp E) (tc_id tc) (content_encode c) True w2)
      in st\<lparr>world := w3, messages := messages st @ [tool_message (tc_id tc) c]\<rparr>)"

definition answered_call ::
    "('s, 'e) loop_env \<Rightarrow> tool_call \<Rightarrow> json \<Rightarrow> tool_result \<Rightarrow> 's loop_state \<Rightarrow> 's loop_state" where
  "answered_call E tc args r st =
     (let n = fc_name (tc_function tc);
          c = (case r of Ok out \<Rightarrow> tool_output_to_content out | Err e \<Rightarrow> CText (''Error: '' @ e));
          w1 = record_tool_span E \<lparr>span_name = n, span_input = truncate_for_trace (print_json (loop_serde E) args),
                 span_output = truncate_for_trace (print_json (loop_serde E) (content_encode c)),
                 span_is_error = \<not> is_ok r\<rparr> (world st);
          w2 = snd (svc_tool_result (acp E) (tc_id tc) (content_encode c) (\<not> is_ok r) w1)
      in st\<lparr>world := w2, tool_count := tool_count st + 1, messages := messages st @ [tool_message (tc_id tc) c]\<rparr>)"

definition handle_tool_call :: "('s, 'e) loop_env \<Rightarrow> tool_call \<Rightarrow> ('s, 'e) stage" where
  "handle_tool_call E tc st =
     (let n = fc_name (tc_function tc)
      in case parse_tool_arguments (parse_arguments E) n (fc_arguments (tc_function tc)) of
           ParsedFailed _ msg \<Rightarrow> (Proceed, rejected_call E tc msg st)
         | ParsedOk args \<Rightarrow>
             let w1 = snd (svc_activity (acp E) (''Running tool: '' @ n) (world st));
                 w2 = snd (svc_tool_call (acp E) (tc_id tc) n args w1)
             in case run_tool E n args (registry_of st) w2 of
                  (Panicked, reg, w3) \<Rightarrow> (Crash, st\<lparr>world := w3, registry_of := reg\<rparr>)
                | (Returned r, reg, w3) \<Rightarrow>
                    (Proceed, answered_call E tc args r (st\<lparr>world := w3, registry_of := reg\<rparr>)))"

fun tool_calls_stage :: "('s, 'e) loop_env \<Rightarrow> tool_call list \<Rightarrow> ('s, 'e) stage" where
  "tool_calls_stage E [] st = (NextRound, st)"
| "tool_calls_stage E (tc # tcs) st = then_stage (handle_tool_call E tc) (tool_calls_stage E tcs) st"

definition stop_stage :: "('s, 'e) loop_env \<Rightarrow> stop_reason option \<Rightarrow> ('s, 'e) stage" where
  "stop_stage E r st =
     (case r of
        None \<Rightarrow> (Leave, st)
      | Some Stop \<Rightarrow> (Leave, st)
      | Some Length \<Rightarrow> say_and_leave E (newline @ newline @ ''[Response truncated due to length limit]'') st
      | Some ContentFilter \<Rightarrow> say_and_leave E (newline @ newline @ ''[Content filtered]'') st
      | Some ToolCalls \<Rightarrow> (NextRound, st))"

definition llm_stage :: "('s, 'e) loop_env \<Rightarrow> loop_config \<Rightarrow> ('s, 'e) stage" where
  "llm_stage E cfg st =
     (case llm_stream (llm E) (messages st) (definitions (registry_of st)) (world st) of
        ((r, deltas), w) \<Rightarrow>
          let st1 = st\<lparr>world := forward_deltas E deltas w\<rparr>
          in case r of
               Err e \<Rightarrow>
                 say_and_leave E (newline @ newline @ ''[LLM error: '' @ e @ '']'')
                   (st1\<lparr>world := record_generation E (failed_generation E cfg (messages st) e) (world st1)\<rparr>)
             | Ok s \<Rightarrow>
                 let st2 = accept_response E cfg deltas s st1
                 in (case m_tool_calls (sr_message s) of
                       Some tcs \<Rightarrow> tool_calls_stage E tcs st2
                     | None \<Rightarrow> stop_stage E (sr_finish_reason s) st2))"

definition round :: "('s, 'e) loop_env \<Rightarrow> loop_config \<Rightarrow> nat \<Rightarrow> nat \<Rightarrow> ('s, 'e) stage" where
  "round E cfg start iteration =
     then_stage (timeout_stage E cfg start)
     (then_stage (heartbeat_stage E)
     (then_stage (quota_stage E)
     (then_stage (compaction_stage E cfg)
     (then_stage (wind_down_stage cfg iteration)
     (then_stage silence_stage (llm_stage E cfg))))))"

text \<open>The loop over the rounds that are left.\<close>

fun rounds :: "('s, 'e) loop_env \<Rightarrow> loop_config \<Rightarrow> nat \<Rightarrow> nat \<Rightarrow> nat \<Rightarrow> ('s, 'e) stage" where
  "rounds E cfg start iteration 0 st = (Leave, st)"
| "rounds E cfg start iteration (Suc n) st =
     (case round E cfg start iteration st of
        (Leave, st') \<Rightarrow> (Leave, st')
      | (Fail e, st') \<Rightarrow> (Fail e, st')
      | (Crash, st') \<Rightarrow> (Crash, st')
      | (_, st') \<Rightarrow> rounds E cfg start (Suc iteration) n st')"

definition finish_turn :: "('s, 'e) loop_env \<Rightarrow> 's loop_state \<Rightarrow> 's loop_state" where
  "finish_turn E st =
     st\<lparr>world := trace_finalize E (total_tokens (total_usage st)) (cost (total_usage st)) (tool_count st)
          (response_text st) (snd (svc_turn_end (acp E) (messages st) (total_usage st) (world st)))\<rparr>"

definition run ::
    "('s, 'e) loop_env \<Rightarrow> loop_config \<Rightarrow> 's tool_registry \<Rightarrow> message list \<Rightarrow> 's
      \<Rightarrow> 'e flow \<times> 's loop_state" where
  "run E cfg reg ms s =
     (case now E s of (start, s1) \<Rightarrow> (case now E s1 of (hb, s2) \<Rightarrow>
        (case rounds E cfg start 0 (max_iterations cfg)
             \<lparr>world = s2, messages = ms, registry_of = reg, total_usage = usage_default, silent_turns = 0,
              last_heartbeat = hb, response_text = [], tool_count = 0, compaction_count = 0\<rparr> of
           (Leave, st) \<Rightarrow> (Leave, finish_turn E st)
         | (x, st) \<Rightarrow> (x, st))))"

subsection \<open>Stages and invariants\<close>

text \<open>A stage keeps an invariant when it holds after the stage unless the stage panics.\<close>

definition stage_inv :: "('s loop_state \<Rightarrow> bool) \<Rightarrow> ('s, 'e) stage \<Rightarrow> bool" where
  "stage_inv I f \<longleftrightarrow> (\<forall>st. I st \<longrightarrow> fst (f st) \<noteq> Crash \<longrightarrow> I (snd (f st)))"

lemma stage_invI: "(\<And>st. I st \<Longrightarrow> fst (f st) \<noteq> Crash \<Longrightarrow> I (snd (f st))) \<Longrightarrow> stage_inv I f"
  by (simp add: stage_inv_def)

lemma stage_invD: "stage_inv I f \<Longrightarrow> I st \<Longrightarrow> f st = (x, st') \<Longrightarrow> x \<noteq> Crash \<Longrightarrow> I st'"
  by (metis fst_conv snd_conv stage_inv_def)

lemma then_stage_inv:
  assumes "stage_inv I f" and "stage_inv I g"
  shows "stage_inv I (then_stage f g)"
proof (rule stage_invI)
  fix st
  assume i: "I st" and c: "fst (then_stage f g st) \<noteq> Crash"
  obtain x st' where f: "f st = (x, st')" by (cases "f st")
  show "I (snd (then_stage f g st))"
  proof (cases "x = Proceed")
    case True
    with stage_invD [OF assms(1) i f] have "I st'" by simp
    with c f True assms(2) show ?thesis by (simp add: then_stage_def stage_inv_def)
  next
    case False
    with c f have t: "then_stage f g st = (x, st')" "x \<noteq> Crash"
      by (cases x; auto simp: then_stage_def)+
    with stage_invD [OF assms(1) i f] show ?thesis by simp
  qed
qed

lemma rounds_inv:
  assumes "\<And>it. stage_inv I (round E cfg start it)"
  shows "stage_inv I (rounds E cfg start it n)"
proof (induction n arbitrary: it)
  case 0
  show ?case by (simp add: stage_inv_def)
next
  case (Suc n)
  show ?case
  proof (rule stage_invI)
    fix st
    assume i: "I st" and c: "fst (rounds E cfg start it (Suc n) st) \<noteq> Crash"
    obtain x st' where r: "round E cfg start it st = (x, st')" by (cases "round E cfg start it st")
    with c have "x \<noteq> Crash" by auto
    from stage_invD [OF assms i r this] have "I st'" .
    with r c Suc show "I (snd (rounds E cfg start it (Suc n) st))"
      by (cases x) (auto simp: stage_inv_def)
  qed
qed

lemma round_inv:
  assumes "stage_inv I (timeout_stage E cfg start)" and "stage_inv I (heartbeat_stage E)"
    and "stage_inv I (quota_stage E)" and "stage_inv I (compaction_stage E cfg)" and "stage_inv I (llm_stage E cfg)"
    and system: "\<And>st t k. I st \<Longrightarrow> I (st\<lparr>messages := messages st @ [system_msg t]\<rparr>)
       \<and> I (st\<lparr>messages := messages st @ [system_msg t], silent_turns := k\<rparr>)"
  shows "stage_inv I (round E cfg start it)"
proof -
  have "stage_inv I (wind_down_stage cfg it)" "stage_inv I silence_stage"
    by (auto simp: stage_inv_def wind_down_stage_def silence_stage_def Let_def system)
  then show ?thesis
    unfolding round_def by (intro then_stage_inv assms)
qed

definition turn_inv :: "loop_config \<Rightarrow> 's loop_state \<Rightarrow> bool" where
  "turn_inv cfg st \<longleftrightarrow> pairing {} (messages st) = Some {} \<and> compaction_count st \<le> max_compactions cfg"

lemma pairing_system [simp]: "pairing p (ms @ [system_msg t]) = pairing p ms"
  by (cases "pairing p ms") (simp_all add: pairing_append system_msg_def plain_message_def unanswered_step_def)

lemma outside_stages_turn_inv:
  "stage_inv (turn_inv cfg) (timeout_stage E cfg start)" "stage_inv (turn_inv cfg) (heartbeat_stage E)"
  "stage_inv (turn_inv cfg) (quota_stage E)"
  by (auto simp: stage_inv_def turn_inv_def timeout_stage_def heartbeat_stage_def quota_stage_def
      say_and_leave_def split: prod.splits result.splits)

lemma compaction_stage_turn_inv: "stage_inv (turn_inv cfg) (compaction_stage E cfg)"
  by (auto simp: stage_inv_def turn_inv_def compaction_stage_def compact_working_pairing
      split: prod.splits result.splits)

text \<open>A response of the model: an assistant's message whose tool calls have distinct identifiers.\<close>

definition responses_well_formed :: "'s llm_service \<Rightarrow> bool" where
  "responses_well_formed L \<longleftrightarrow> (\<forall>ms tools w s ds w'. llm_stream L ms tools w = ((Ok s, ds), w') \<longrightarrow>
     m_role (sr_message s) = RAssistant
     \<and> (\<forall>tcs. m_tool_calls (sr_message s) = Some tcs \<longrightarrow> distinct (map tc_id tcs)))"

lemma handle_tool_call_flow: "fst (handle_tool_call E tc st) = Proceed \<or> fst (handle_tool_call E tc st) = Crash"
  by (auto simp: handle_tool_call_def Let_def split: parsed_arguments.splits prod.splits tool_exit.splits)

lemma handle_tool_call_messages:
  assumes "handle_tool_call E tc st = (Proceed, st')"
  shows "\<exists>c. messages st' = messages st @ [tool_message (tc_id tc) c]"
    and "compaction_count st' = compaction_count st"
  using assms by (auto simp: handle_tool_call_def Let_def rejected_call_def answered_call_def
      split: parsed_arguments.splits prod.splits tool_exit.splits)

lemma pairing_answer:
  "pairing {} ms = Some (insert i p) \<Longrightarrow> i \<notin> p \<Longrightarrow> pairing {} (ms @ [tool_message i c]) = Some p"
  by (auto simp: pairing_append tool_message_def unanswered_step_def)

lemma tool_calls_stage_pairing:
  assumes "distinct (map tc_id tcs)" and "pairing {} (messages st) = Some (tc_id ` set tcs)"
    and "tool_calls_stage E tcs st = (x, st')" and "x \<noteq> Crash"
  shows "pairing {} (messages st') = Some {} \<and> compaction_count st' = compaction_count st"
  using assms
proof (induction tcs arbitrary: st)
  case (Cons tc tcs)
  obtain y st1 where h: "handle_tool_call E tc st = (y, st1)" by (cases "handle_tool_call E tc st")
  with handle_tool_call_flow [of E tc st] Cons.prems(3,4) have y: "y = Proceed"
    by (auto simp: then_stage_def)
  note m = handle_tool_call_messages [OF h [unfolded y]]
  from m(1) obtain c where "messages st1 = messages st @ [tool_message (tc_id tc) c]" by blast
  with pairing_answer [of "messages st" "tc_id tc" "tc_id ` set tcs"] Cons.prems(1,2)
  have "pairing {} (messages st1) = Some (tc_id ` set tcs)" by auto
  with Cons.IH [of st1] Cons.prems(1,3,4) h y m(2) show ?case by (auto simp: then_stage_def)
qed simp

lemma pairing_assistant:
  "m_role m = RAssistant \<Longrightarrow> pairing {} ms = Some {} \<Longrightarrow>
   pairing {} (ms @ [m]) = Some (case m_tool_calls m of None \<Rightarrow> {} | Some tcs \<Rightarrow> tc_id ` set tcs)"
  by (simp add: pairing_append unanswered_step_def split: option.split)

lemma stop_stage_keeps: "turn_inv cfg st \<Longrightarrow> turn_inv cfg (snd (stop_stage E r st))"
  by (auto simp: stop_stage_def say_and_leave_def turn_inv_def split: option.split stop_reason.split prod.splits result.splits)

lemma llm_stage_turn_inv:
  assumes "responses_well_formed (llm E)"
  shows "stage_inv (turn_inv cfg) (llm_stage E cfg)"
proof (rule stage_invI)
  fix st
  assume i: "turn_inv cfg st" and c: "fst (llm_stage E cfg st) \<noteq> Crash"
  obtain r ds w where s: "llm_stream (llm E) (messages st) (definitions (registry_of st)) (world st) = ((r, ds), w)"
    by (metis surj_pair)
  show "turn_inv cfg (snd (llm_stage E cfg st))"
  proof (cases r)
    case (Err e)
    with i s show ?thesis
      by (auto simp: llm_stage_def Let_def say_and_leave_def turn_inv_def split: prod.splits result.splits)
  next
    case (Ok a)
    let ?st = "accept_response E cfg ds a (st\<lparr>world := forward_deltas E ds w\<rparr>)"
    have a: "m_role (sr_message a) = RAssistant"
        "m_tool_calls (sr_message a) = Some tcs \<Longrightarrow> distinct (map tc_id tcs)" for tcs
      using assms s Ok unfolding responses_well_formed_def by blast+
    have m: "messages ?st = messages st @ [sr_message a]" "compaction_count ?st = compaction_count st"
      by (simp_all add: accept_response_def Let_def)
    have p: "pairing {} (messages ?st)
        = Some (case m_tool_calls (sr_message a) of None \<Rightarrow> {} | Some tcs \<Rightarrow> tc_id ` set tcs)"
      unfolding m using i by (intro pairing_assistant a(1)) (simp add: turn_inv_def)
    show ?thesis
    proof (cases "m_tool_calls (sr_message a)")
      case None
      with p m i have "turn_inv cfg ?st" by (simp add: turn_inv_def)
      from stop_stage_keeps [OF this] None s Ok show ?thesis by (simp add: llm_stage_def Let_def)
    next
      case (Some tcs)
      obtain x st' where t: "tool_calls_stage E tcs ?st = (x, st')" by (cases "tool_calls_stage E tcs ?st")
      with Some s Ok have l: "llm_stage E cfg st = (x, st')" by (simp add: llm_stage_def Let_def)
      with c have "x \<noteq> Crash" by simp
      from tool_calls_stage_pairing [OF a(2) [OF Some] _ t this] p Some m i l show ?thesis
        by (simp add: turn_inv_def)
    qed
  qed
qed

text \<open>The state in which a turn starts.\<close>

definition turn_start :: "'s tool_registry \<Rightarrow> message list \<Rightarrow> nat \<Rightarrow> 's \<Rightarrow> 's loop_state" where
  "turn_start reg ms hb s =
     \<lparr>world = s, messages = ms, registry_of = reg, total_usage = usage_default, silent_turns = 0,
      last_heartbeat = hb, response_text = [], tool_count = 0, compaction_count = 0\<rparr>"

lemma run_cases:
  assumes "run E cfg reg ms s = (x, st)"
  obtains t0 s1 t1 s2 st' where "now E s = (t0, s1)" "now E s1 = (t1, s2)"
    "rounds E cfg t0 0 (max_iterations cfg) (turn_start reg ms t1 s2) = (x, st')"
    "st = (if x = Leave then finish_turn E st' else st')"
  using assms by (auto simp: run_def turn_start_def split: prod.splits flow.splits)

lemma run_pairing:
  assumes "responses_well_formed (llm E)" and "pairing {} ms = Some {}"
    and "run E cfg reg ms s = (x, st)" and "x \<noteq> Crash"
  shows "pairing {} (messages st) = Some {} \<and> compaction_count st \<le> max_compactions cfg"
proof -
  from assms(3) obtain t0 s1 t1 s2 st' where
    r: "rounds E cfg t0 0 (max_iterations cfg) (turn_start reg ms t1 s2) = (x, st')"
    and st: "st = (if x = Leave then finish_turn E st' else st')" by (rule run_cases)
  have "stage_inv (turn_inv cfg) (round E cfg t0 it)" for it
    by (rule round_inv [OF outside_stages_turn_inv compaction_stage_turn_inv llm_stage_turn_inv [OF assms(1)]])
      (simp add: turn_inv_def)
  from stage_invD [OF rounds_inv [OF this] _ r assms(4)] assms(2) have "turn_inv cfg st'"
    by (simp add: turn_inv_def turn_start_def)
  with st show ?thesis by (simp add: turn_inv_def finish_turn_def)
qed

subsection \<open>What a turn does outside\<close>

text \<open>
  A predicate on the state of the outside that the services of the loop keep, apart from the two
  notifications on tools, is kept by every stage but the handling of a tool call.
\<close>

definition acp_keeps :: "('s, 'e) acp_service \<Rightarrow> ('s \<Rightarrow> bool) \<Rightarrow> bool" where
  "acp_keeps A J \<longleftrightarrow> (\<forall>w. J w \<longrightarrow>
     (\<forall>t. J (snd (svc_text_delta A t w))) \<and> (\<forall>t. J (snd (svc_activity A t w)))
   \<and> (\<forall>ms u. J (snd (svc_turn_end A ms u w))) \<and> (\<forall>t ms u. J (snd (svc_context_compacted A t ms u w)))
   \<and> J (snd (svc_quota_check A w)) \<and> (\<forall>a b. J (snd (svc_quota_update A a b w)))
   \<and> J (snd (svc_heartbeat A w)) \<and> (\<forall>n v. J (snd (svc_tools_call A n v w))))"

definition outside_keeps :: "('s, 'e) loop_env \<Rightarrow> ('s \<Rightarrow> bool) \<Rightarrow> bool" where
  "outside_keeps E J \<longleftrightarrow> (\<forall>w. J w \<longrightarrow>
     (\<forall>ms ts. J (snd (llm_stream (llm E) ms ts w))) \<and> (\<forall>ms. J (snd (llm_complete (llm E) ms w)))
   \<and> J (snd (fetch_id (env_mcp E) w)) \<and> (\<forall>u h v. J (snd (mcp_post (env_mcp E) u h v w)))
   \<and> J (snd (now E w)) \<and> (\<forall>g. J (record_generation E g w)) \<and> (\<forall>g. J (record_tool_span E g w))
   \<and> (\<forall>a b c t. J (trace_finalize E a b c t w)))"

definition tools_keep :: "('s \<Rightarrow> bool) \<Rightarrow> (string \<rightharpoonup> 's tool_fn) \<Rightarrow> bool" where
  "tools_keep J tools \<longleftrightarrow> (\<forall>n f args w. tools n = Some f \<longrightarrow> J w \<longrightarrow> J (snd (f args w)))"

text \<open>The built-in tools do not change during a turn.\<close>

definition world_inv :: "('s \<Rightarrow> bool) \<Rightarrow> (string \<rightharpoonup> 's tool_fn) \<Rightarrow> 's loop_state \<Rightarrow> bool" where
  "world_inv J tools st \<longleftrightarrow> J (world st) \<and> builtins (registry_of st) = tools"

lemma acp_keeps_fun:
  "(\<And>l. acp_keeps A (\<lambda>w. f w = l)) \<Longrightarrow> acp_keeps A (\<lambda>w. P (f w))"
  unfolding acp_keeps_def by metis

lemma outside_keeps_fun:
  "(\<And>l. outside_keeps E (\<lambda>w. f w = l)) \<Longrightarrow> outside_keeps E (\<lambda>w. P (f w))"
  unfolding outside_keeps_def by metis

lemma tools_keep_fun:
  "(\<And>l. tools_keep (\<lambda>w. f w = l) tools) \<Longrightarrow> tools_keep (\<lambda>w. P (f w)) tools"
  unfolding tools_keep_def by metis

lemma acp_keepsD:
  assumes "acp_keeps A J" and "J w"
  shows "svc_text_delta A t w = (r1, w') \<Longrightarrow> J w'" and "svc_quota_check A w = (r2, w') \<Longrightarrow> J w'"
    and "svc_tools_call A n v w = (r3, w') \<Longrightarrow> J w'"
    and "J (snd (svc_text_delta A t w))" and "J (snd (svc_activity A t w))"
    and "J (snd (svc_turn_end A ms u w))" and "J (snd (svc_context_compacted A t ms u w))"
    and "J (snd (svc_quota_update A p q w))" and "J (snd (svc_heartbeat A w))"
  using assms unfolding acp_keeps_def by (metis snd_conv)+

lemma outside_keepsD:
  assumes "outside_keeps E J" and "J w"
  shows "llm_stream (llm E) ms ts w = (r1, w') \<Longrightarrow> J w'" and "llm_complete (llm E) ms w = (r2, w') \<Longrightarrow> J w'"
    and "fetch_id (env_mcp E) w = (r3, w') \<Longrightarrow> J w'" and "mcp_post (env_mcp E) u h v w = (r4, w') \<Longrightarrow> J w'"
    and "now E w = (r5, w') \<Longrightarrow> J w'" and "J (record_generation E g w)" and "J (record_tool_span E g' w)"
    and "J (trace_finalize E p' c k t w)"
  using assms unfolding outside_keeps_def by (metis snd_conv)+

lemma mcp_send_keeps:
  assumes "outside_keeps E J" and "J w"
  shows "J (snd (snd (mcp_send (env_mcp E) c m params w)))"
proof -
  obtain i w1 where f: "fetch_id (env_mcp E) w = (i, w1)" by (cases "fetch_id (env_mcp E) w")
  obtain r w2 where p: "mcp_post (env_mcp E) (mcp_url c) (session_id c) (mcp_request i m params) w1 = (r, w2)"
    by (cases "mcp_post (env_mcp E) (mcp_url c) (session_id c) (mcp_request i m params) w1")
  have "J w2" using outside_keepsD(4) [OF assms(1) outside_keepsD(3) [OF assms f] p] .
  with f p show ?thesis by (cases r) (simp_all add: mcp_send_def Let_def split: option.split)
qed

lemma call_tool_keeps:
  "outside_keeps E J \<Longrightarrow> J w \<Longrightarrow> J (snd (snd (call_tool (env_mcp E) c n args w)))"
  using mcp_send_keeps by (simp add: call_tool_def)

lemma execute_keeps:
  assumes "outside_keeps E J" and "tools_keep J (builtins reg)" and "J w"
  shows "J (snd (snd (execute (env_mcp E) n args reg w)))"
proof (cases "builtins reg n")
  case (Some f)
  with assms(2,3) have "J (snd (f args w))" by (auto simp: tools_keep_def)
  with Some show ?thesis by (simp add: execute_def case_prod_beta)
next
  case None
  with call_tool_keeps [OF assms(1,3)] assms(3) show ?thesis
    by (simp add: execute_def case_prod_beta split: option.split)
qed

lemma run_tool_builtins: "run_tool E n args reg w = (x, reg', w') \<Longrightarrow> builtins reg' = builtins reg"
  by (auto simp: run_tool_def execute_def split: if_splits option.splits prod.splits result.splits)

lemma run_tool_keeps:
  assumes "acp_keeps (acp E) J" and "outside_keeps E J" and "tools_keep J (builtins reg)" and "J w"
    and "run_tool E n args reg w = (x, reg', w')"
  shows "J w'"
  using assms(5) execute_keeps [OF assms(2-4), of n args] acp_keepsD(3) [OF assms(1,4)]
  by (auto simp: run_tool_def split: if_splits prod.splits result.splits)

lemma forward_deltas_keeps:
  assumes "acp_keeps (acp E) J" shows "J w \<Longrightarrow> J (forward_deltas E ds w)"
  unfolding forward_deltas_def by (induction ds arbitrary: w) (simp_all add: acp_keepsD(4) [OF assms])

lemma say_and_leave_keeps:
  assumes "acp_keeps (acp E) J" and "world_inv J b st"
  shows "world_inv J b (snd (say_and_leave E t st))"
  using assms(2) acp_keepsD(1) [OF assms(1)]
  by (auto simp: say_and_leave_def world_inv_def split: prod.splits result.splits)

lemma stages_keep:
  assumes A: "acp_keeps (acp E) J" and O: "outside_keeps E J"
  shows "stage_inv (world_inv J b) (timeout_stage E cfg start)" and "stage_inv (world_inv J b) (heartbeat_stage E)"
    and "stage_inv (world_inv J b) (quota_stage E)" and "stage_inv (world_inv J b) (compaction_stage E cfg)"
proof -
  have upd: "world_inv J b (st\<lparr>world := w\<rparr>)" if "world_inv J b st" "J w" for st w
    using that by (simp add: world_inv_def)
  show "stage_inv (world_inv J b) (timeout_stage E cfg start)"
  proof (rule stage_invI)
    fix st assume i: "world_inv J b st"
    obtain t w where n: "now E (world st) = (t, w)" by (cases "now E (world st)")
    with i outside_keepsD(5) [OF O] have "world_inv J b (st\<lparr>world := w\<rparr>)" by (auto simp: world_inv_def)
    with n say_and_leave_keeps [OF A] show "world_inv J b (snd (timeout_stage E cfg start st))"
      by (simp add: timeout_stage_def)
  qed
  show "stage_inv (world_inv J b) (heartbeat_stage E)"
  proof (rule stage_invI)
    fix st assume i: "world_inv J b st"
    obtain t w where n: "now E (world st) = (t, w)" by (cases "now E (world st)")
    with i outside_keepsD(5) [OF O] have w: "J w" by (auto simp: world_inv_def)
    obtain t' w' where n': "now E (snd (svc_heartbeat (acp E) w)) = (t', w')"
      by (cases "now E (snd (svc_heartbeat (acp E) w))")
    have "J w'" using outside_keepsD(5) [OF O acp_keepsD(9) [OF A w] n'] .
    with i n n' w show "world_inv J b (snd (heartbeat_stage E st))"
      by (simp add: heartbeat_stage_def world_inv_def)
  qed
  show "stage_inv (world_inv J b) (quota_stage E)"
  proof (rule stage_invI)
    fix st assume i: "world_inv J b st"
    obtain r w where n: "svc_quota_check (acp E) (world st) = (r, w)" by (cases "svc_quota_check (acp E) (world st)")
    with i acp_keepsD(2) [OF A] have "world_inv J b (st\<lparr>world := w\<rparr>)" by (auto simp: world_inv_def)
    with n say_and_leave_keeps [OF A] show "world_inv J b (snd (quota_stage E st))"
      by (simp add: quota_stage_def)
  qed
  have summ: "J w'" if "summarize (llm_complete (llm E)) ms w = (r, w')" "J w" for ms w r w'
    using that(1) outside_keepsD(2) [OF O that(2)] by (auto simp: summarize_def split: prod.splits result.splits)
  have comp: "J w'" if "compact_messages (llm_complete (llm E)) ms k w = (r, w')" "J w" for ms k w r w'
    using that summ by (auto simp: compact_messages_def Let_def split: if_splits prod.splits result.splits)
  show "stage_inv (world_inv J b) (compaction_stage E cfg)"
    using comp by (auto simp: stage_inv_def compaction_stage_def world_inv_def intro!: acp_keepsD(7) [OF A]
        split: prod.splits result.splits)
qed

lemma llm_stage_keeps:
  assumes A: "acp_keeps (acp E) J" and O: "outside_keeps E J"
    and T: "\<And>tc. stage_inv (world_inv J b) (handle_tool_call E tc)"
  shows "stage_inv (world_inv J b) (llm_stage E cfg)"
proof (rule stage_invI)
  fix st
  assume i: "world_inv J b st" and c: "fst (llm_stage E cfg st) \<noteq> Crash"
  obtain r ds w where s: "llm_stream (llm E) (messages st) (definitions (registry_of st)) (world st) = ((r, ds), w)"
    by (metis surj_pair)
  with i outside_keepsD(1) [OF O] have "J w" by (auto simp: world_inv_def)
  then have w: "J (forward_deltas E ds w)" by (rule forward_deltas_keeps [OF A])
  have tools: "stage_inv (world_inv J b) (tool_calls_stage E tcs)" for tcs
  proof (induction tcs)
    case (Cons tc tcs)
    from then_stage_inv [OF T this] show ?case by (simp add: stage_inv_def)
  qed (simp add: stage_inv_def)
  show "world_inv J b (snd (llm_stage E cfg st))"
  proof (cases r)
    case (Err e)
    have "world_inv J b (st\<lparr>world := record_generation E (failed_generation E cfg (messages st) e)
        (forward_deltas E ds w)\<rparr>)"
      using i w outside_keepsD(6) [OF O] by (simp add: world_inv_def)
    from say_and_leave_keeps [OF A this] s Err show ?thesis by (simp add: llm_stage_def Let_def)
  next
    case (Ok a)
    let ?st = "accept_response E cfg ds a (st\<lparr>world := forward_deltas E ds w\<rparr>)"
    have a: "world_inv J b ?st"
      using i w outside_keepsD(6) [OF O] acp_keepsD(8) [OF A]
      by (simp add: accept_response_def Let_def world_inv_def split: option.split)
    then have "world_inv J b (snd (stop_stage E r' ?st))" for r'
      by (auto simp: stop_stage_def say_and_leave_keeps [OF A] split: option.split stop_reason.split)
    with a c s Ok tools show ?thesis
      by (auto simp: llm_stage_def Let_def stage_inv_def split: option.splits)
  qed
qed

lemma run_keeps:
  assumes A: "acp_keeps (acp E) J" and O: "outside_keeps E J"
    and T: "\<And>tc. stage_inv (world_inv J (builtins reg)) (handle_tool_call E tc)"
    and "run E cfg reg ms s = (x, st)" and "x \<noteq> Crash" and "J s"
  shows "world_inv J (builtins reg) st"
proof -
  from assms(4) obtain t0 s1 t1 s2 st' where n: "now E s = (t0, s1)" "now E s1 = (t1, s2)"
    and r: "rounds E cfg t0 0 (max_iterations cfg) (turn_start reg ms t1 s2) = (x, st')"
    and st: "st = (if x = Leave then finish_turn E st' else st')" by (rule run_cases)
  let ?b = "builtins reg"
  have "stage_inv (world_inv J ?b) (round E cfg t0 it)" for it
    by (rule round_inv [OF stages_keep [OF A O] llm_stage_keeps [OF A O T]]) (simp add: world_inv_def)
  moreover have "J s2" using outside_keepsD(5) [OF O outside_keepsD(5) [OF O assms(6) n(1)] n(2)] .
  then have "world_inv J ?b (turn_start reg ms t1 s2)" by (simp add: world_inv_def turn_start_def)
  ultimately have "world_inv J ?b st'" using stage_invD [OF rounds_inv _ r assms(5)] by blast
  with st show ?thesis
    by (auto simp: world_inv_def finish_turn_def intro!: outside_keepsD(8) [OF O] acp_keepsD(6) [OF A])
qed

lemma handle_tool_call_builtins:
  "builtins (registry_of (snd (handle_tool_call E tc st))) = builtins (registry_of st)"
  by (auto simp: handle_tool_call_def Let_def rejected_call_def answered_call_def
      split: parsed_arguments.splits prod.splits tool_exit.splits dest: run_tool_builtins)

text \<open>When the two notifications on tools keep the predicate too, so does a tool call.\<close>

lemma handle_tool_call_keeps:
  assumes A: "acp_keeps (acp E) J" and O: "outside_keeps E J" and T: "tools_keep J tools"
    and call: "\<And>i n v w. J w \<Longrightarrow> J (snd (svc_tool_call (acp E) i n v w))"
    and res: "\<And>i v b w. J w \<Longrightarrow> J (snd (svc_tool_result (acp E) i v b w))"
  shows "stage_inv (world_inv J tools) (handle_tool_call E tc)"
proof (rule stage_invI)
  fix st
  assume i: "world_inv J tools st"
  then have w: "J (world st)" and b: "builtins (registry_of st) = tools" by (simp_all add: world_inv_def)
  have act: "J (snd (svc_tool_call (acp E) k n v (snd (svc_activity (acp E) t (world st)))))" for k n v t
    using call acp_keepsD(5) [OF A w] by blast
  have tool: "J w'" if "run_tool E n args (registry_of st) v = (x, reg, w')" "J v" for n args v x reg w'
    using run_tool_keeps [OF A O _ that(2,1)] T b by simp
  have "J (world (snd (handle_tool_call E tc st)))"
    using act by (auto simp: handle_tool_call_def Let_def rejected_call_def answered_call_def
        split: parsed_arguments.splits prod.splits tool_exit.splits
        intro!: res outside_keepsD(7) [OF O] dest: tool)
  then show "world_inv J tools (snd (handle_tool_call E tc st))"
    by (simp add: world_inv_def handle_tool_call_builtins b)
qed

subsection \<open>Reports of tool calls\<close>

datatype tool_event = ToolCallSent string | ToolResultSent string

text \<open>
  \<open>log\<close> reads off the state of the outside which of the two notifications on tools were
  emitted: \<open>stream_tool_call\<close> and \<open>stream_tool_result\<close> append to it and nothing
  else changes it.
\<close>

definition observes :: "('s, 'e) loop_env \<Rightarrow> ('s \<Rightarrow> tool_event list) \<Rightarrow> bool" where
  "observes E log \<longleftrightarrow>
     (\<forall>i n v w. log (snd (svc_tool_call (acp E) i n v w)) = log w @ [ToolCallSent i])
   \<and> (\<forall>i v b w. log (snd (svc_tool_result (acp E) i v b w)) = log w @ [ToolResultSent i])
   \<and> (\<forall>l. acp_keeps (acp E) (\<lambda>w. log w = l) \<and> outside_keeps E (\<lambda>w. log w = l))"

definition quiet_tools :: "('s \<Rightarrow> tool_event list) \<Rightarrow> (string \<rightharpoonup> 's tool_fn) \<Rightarrow> bool" where
  "quiet_tools log tools \<longleftrightarrow> (\<forall>l. tools_keep (\<lambda>w. log w = l) tools)"

definition reported :: "string list \<Rightarrow> tool_event list" where
  "reported ids = concat (map (\<lambda>i. [ToolCallSent i, ToolResultSent i]) ids)"

lemma reported_snoc: "reported ids @ [ToolCallSent i, ToolResultSent i] = reported (ids @ [i])"
  by (simp add: reported_def)

lemma handle_tool_call_reports:
  assumes O: "observes E log" and Q: "quiet_tools log (builtins (registry_of st))"
    and h: "handle_tool_call E tc st = (Proceed, st')"
  shows "log (world st') = log (world st) @ [ToolCallSent (tc_id tc), ToolResultSent (tc_id tc)]"
proof -
  note upd = O [unfolded observes_def, THEN conjunct1, rule_format]
    O [unfolded observes_def, THEN conjunct2, THEN conjunct1, rule_format]
  have K: "acp_keeps (acp E) (\<lambda>w. log w = l)" "outside_keeps E (\<lambda>w. log w = l)"
      "tools_keep (\<lambda>w. log w = l) (builtins (registry_of st))" for l
    using O Q by (simp_all add: observes_def quiet_tools_def)
  have keep: "log (snd (svc_activity (acp E) t w)) = log w" "log (record_tool_span E g w) = log w" for t w g
    using acp_keepsD(5) [OF K(1), of w] outside_keepsD(7) [OF K(2), of w] by simp_all
  have tool: "log w' = log w"
    if "run_tool E n args (registry_of st) w = (x, reg', w')" for n args w x reg' w'
    using run_tool_keeps [OF K refl that] .
  show ?thesis
    using h by (auto simp: handle_tool_call_def Let_def rejected_call_def answered_call_def upd keep
        split: parsed_arguments.splits prod.splits tool_exit.splits dest: tool)
qed

lemma handle_tool_call_reports_inv:
  assumes "observes E log" and "quiet_tools log tools"
  shows "stage_inv (world_inv (\<lambda>w. \<exists>ids. log w = l @ reported ids) tools) (handle_tool_call E tc)"
proof (rule stage_invI)
  fix st
  assume i: "world_inv (\<lambda>w. \<exists>ids. log w = l @ reported ids) tools st"
    and c: "fst (handle_tool_call E tc st) \<noteq> Crash"
  with handle_tool_call_flow [of E tc st] have h: "handle_tool_call E tc st = (Proceed, snd (handle_tool_call E tc st))"
    by (metis prod.collapse)
  from i obtain ids where ids: "log (world st) = l @ reported ids" "builtins (registry_of st) = tools"
    by (auto simp: world_inv_def)
  with handle_tool_call_reports [OF assms(1) _ h] assms(2)
  have "log (world (snd (handle_tool_call E tc st))) = l @ reported (ids @ [tc_id tc])"
    using reported_snoc by simp
  with ids(2) handle_tool_call_builtins show "world_inv (\<lambda>w. \<exists>ids. log w = l @ reported ids) tools (snd (handle_tool_call E tc st))"
    by (fastforce simp: world_inv_def)
qed

subsection \<open>Properties\<close>



text \<open>
  An empty summary discards history silently. When the model summarises the old messages by
  an empty text, the stage drops them from the working history all the same, but emits no
  \<open>context/compacted\<close>, so that the operator never learns of it, and does not count the
  compaction against the limit.
\<close>

theorem empty_summary_discards_silently:
  assumes "exceeds_threshold E (estimate_tokens (messages st)) (context_window cfg) (compaction_threshold cfg)"
    and "context_window cfg \<noteq> 0" and "compaction_count st < max_compactions cfg"
    and "compact_messages (llm_complete (llm E)) (messages st) (compaction_keep_recent cfg) (world st) = (Ok r, w)"
    and "summary r = []" and "w \<noteq> world st"
  shows "\<exists>k. length (leading_system (messages st)) < k
    \<and> compaction_stage E cfg st = (Proceed, st\<lparr>world := w,
         messages := leading_system (messages st) @ compacted_context [] # drop k (messages st)\<rparr>)"
  using assms(4)
proof (cases rule: compact_messages_cases)
  case (cut k sm)
  then have "sm = []" "r = \<lparr>working_messages = leading_system (messages st) @ compacted_context [] # drop k (messages st),
      canonical_messages = drop k (messages st), summary = []\<rparr>" using assms(5) by auto
  with assms(1-4) cut(2) show ?thesis
    by (intro exI [of _ k]) (simp add: compaction_stage_def)
qed (use assms(6) in simp)

text \<open>
  A text recorded on a trace is cut at the last character boundary within 4096 bytes. A
  longer text keeps its longest prefix of at most that size that ends between two characters,
  followed by an ellipsis and a mark; the slice never panics.
\<close>

theorem truncate_for_trace_cut:
  assumes "LF_TRUNCATE < length s"
  shows "\<exists>k. truncate_for_trace s = take k s @ [CHR 0xE2, CHR 0x80, CHR 0xA6] @ ''[truncated]''
    \<and> is_char_boundary s k \<and> k \<le> LF_TRUNCATE
    \<and> (\<forall>j. k < j \<and> j \<le> LF_TRUNCATE \<longrightarrow> \<not> is_char_boundary s j)"
proof -
  let ?k = "boundary_below s LF_TRUNCATE"
  have "\<not> is_char_boundary s j" if "?k < j \<and> j \<le> LF_TRUNCATE" for j
    using boundary_below_spec(3) [of s j LF_TRUNCATE] that by auto
  with assms boundary_below_spec(1,2) [of s LF_TRUNCATE] show ?thesis
    by (intro exI [of _ ?k]) (simp add: truncate_for_trace_def)
qed

theorem truncate_for_trace_cut_witness:
  "\<exists>k. truncate_for_trace (replicate 5000 CHR ''a'')
     = take k (replicate 5000 CHR ''a'') @ [CHR 0xE2, CHR 0x80, CHR 0xA6] @ ''[truncated]'' \<and> k \<le> LF_TRUNCATE"
  using truncate_for_trace_cut [of "replicate 5000 CHR ''a''"] by (auto simp: LF_TRUNCATE_def)

text \<open>
  Surroundings for the witnesses. The state is the number of model calls and the log. The model
  first calls a tool nobody has, then stops; it summarises by an empty text.
\<close>

type_synonym demo_world = "nat \<times> tool_event list"

definition demo_acp :: "(demo_world, unit) acp_service" where
  "demo_acp =
     \<lparr>svc_text_delta = (\<lambda>_ w. (Ok (), w)), svc_activity = (\<lambda>_ w. (Ok (), w)),
      svc_tool_call = (\<lambda>i _ _ w. (Ok (), fst w, snd w @ [ToolCallSent i])),
      svc_tool_result = (\<lambda>i _ _ w. (Ok (), fst w, snd w @ [ToolResultSent i])),
      svc_turn_end = (\<lambda>_ _ w. (Ok (), w)), svc_context_compacted = (\<lambda>_ _ _ w. (Ok (), w)),
      svc_quota_check = (\<lambda>w. (Ok True, w)), svc_quota_update = (\<lambda>_ _ w. (Ok (), w)),
      svc_heartbeat = (\<lambda>w. (Ok (), w)), svc_tools_call = (\<lambda>_ _ w. (Err (), w))\<rparr>"

definition demo_reply :: "nat \<Rightarrow> streamed_response" where
  "demo_reply n =
     (if n = 0
      then \<lparr>sr_message = \<lparr>m_role = RAssistant, m_content = None, m_tool_calls = Some [demo_call], m_tool_call_id = None\<rparr>,
            sr_finish_reason = Some ToolCalls, sr_usage = None\<rparr>
      else \<lparr>sr_message = plain_message RAssistant ''done'', sr_finish_reason = Some Stop, sr_usage = None\<rparr>)"

definition demo_llm :: "demo_world llm_service" where
  "demo_llm =
     \<lparr>llm_stream = (\<lambda>_ _ w. ((Ok (demo_reply (fst w)), []), fst w + 1, snd w)),
      llm_complete = (\<lambda>_ w. (Ok \<lparr>cr_choices = [\<lparr>ch_message = Some (plain_message RAssistant []), ch_delta = None,
          ch_finish_reason = None\<rparr>], cr_usage = None\<rparr>, fst w + 1, snd w))\<rparr>"

definition demo_mcp :: "'s mcp_env" where
  "demo_mcp = \<lparr>fetch_id = (\<lambda>w. (1, w)), mcp_post = (\<lambda>_ _ _ w. (Err (), w)), decode_tool_list = (\<lambda>_. None),
     decode_tool_result = (\<lambda>_. None), print_pretty = (\<lambda>_. []), package_version = ''0''\<rparr>"

definition demo_env :: "(demo_world, unit) loop_env" where
  "demo_env =
     \<lparr>acp = demo_acp, llm = demo_llm, env_mcp = demo_mcp,
      loop_serde = \<lparr>parse_json = (\<lambda>_. None), print_json = (\<lambda>_. ''v'')\<rparr>,
      parse_arguments = (\<lambda>_. Ok (JObject [])), now = (\<lambda>w. (0, w)), record_generation = (\<lambda>_ w. w),
      record_tool_span = (\<lambda>_ w. w), trace_finalize = (\<lambda>_ _ _ _ w. w),
      exceeds_threshold = (\<lambda>_ _ _. True), f64_add = (\<lambda>a b. a), error_string = (\<lambda>_. ''error'')\<rparr>"

definition demo_tools :: "demo_world tool_registry" where
  "demo_tools = \<lparr>builtins = Map.empty, builtin_defs = [], mcp_clients = [], mcp_tools = [], acp_tools = {}, acp_defs = []\<rparr>"

definition demo_config :: loop_config where
  "demo_config = \<lparr>max_iterations = 2, timeout = 1, cfg_model = ''m'', context_window = 1, compaction_threshold = 0,
     compaction_keep_recent = 2, max_compactions = 3, langfuse_capture_input = False\<rparr>"

lemma demo_observes: "observes demo_env snd"
  by (simp add: observes_def acp_keeps_def outside_keeps_def demo_env_def demo_acp_def demo_llm_def demo_mcp_def)

lemma demo_well_formed: "responses_well_formed (llm demo_env)"
  by (auto simp: responses_well_formed_def demo_env_def demo_llm_def demo_reply_def plain_message_def)

lemmas demo_eval = demo_env_def demo_acp_def demo_llm_def demo_reply_def demo_config_def demo_tools_def demo_mcp_def
  demo_call_def plain_message_def

lemmas stage_defs = then_stage_def timeout_stage_def heartbeat_stage_def quota_stage_def compaction_stage_def
  wind_down_stage_def silence_stage_def llm_stage_def stop_stage_def handle_tool_call_def

lemma demo_first_round:
  "round demo_env demo_config 0 0 (turn_start demo_tools [plain_message RUser ''hi''] 0 (0, []))
   = (NextRound, (turn_start demo_tools [plain_message RUser ''hi'', sr_message (demo_reply 0),
        tool_message ''c1'' (CText ''Error: unknown tool: read'')] 0 (1, reported [''c1'']))\<lparr>tool_count := 1\<rparr>)"
  by (simp add: round_def stage_defs demo_eval turn_start_def HEARTBEAT_INTERVAL_def WIND_DOWN_ITERS_def
      compact_messages_def unchanged_def forward_deltas_def accept_response_def answered_call_def run_tool_def
      is_acp_tool_def execute_def parse_tool_arguments_def tool_message_def reported_def Let_def)

lemma demo_second_round:
  "round demo_env demo_config 0 1 ((turn_start demo_tools [plain_message RUser ''hi'', sr_message (demo_reply 0),
        tool_message ''c1'' (CText ''Error: unknown tool: read'')] 0 (1, reported [''c1'']))\<lparr>tool_count := 1\<rparr>)
   = (Leave, (turn_start demo_tools [plain_message RUser ''hi'', sr_message (demo_reply 0),
        tool_message ''c1'' (CText ''Error: unknown tool: read''), plain_message RAssistant ''done''] 0
        (2, reported [''c1'']))\<lparr>tool_count := 1\<rparr>)"
  by (simp add: round_def stage_defs demo_eval turn_start_def HEARTBEAT_INTERVAL_def WIND_DOWN_ITERS_def
      compact_messages_def unchanged_def forward_deltas_def accept_response_def tool_message_def Let_def)

lemma demo_run:
  "run demo_env demo_config demo_tools [plain_message RUser ''hi''] (0, [])
   = (Leave, (turn_start demo_tools [plain_message RUser ''hi'', sr_message (demo_reply 0),
        tool_message ''c1'' (CText ''Error: unknown tool: read''), plain_message RAssistant ''done''] 0
        (2, reported [''c1'']))\<lparr>tool_count := 1\<rparr>)"
proof -
  have "rounds demo_env demo_config 0 0 2 (turn_start demo_tools [plain_message RUser ''hi''] 0 (0, []))
    = (Leave, (turn_start demo_tools [plain_message RUser ''hi'', sr_message (demo_reply 0),
        tool_message ''c1'' (CText ''Error: unknown tool: read''), plain_message RAssistant ''done''] 0
        (2, reported [''c1'']))\<lparr>tool_count := 1\<rparr>)"
    using demo_first_round demo_second_round by (simp add: numeral_2_eq_2)
  then show ?thesis
    by (simp add: run_def turn_start_def [symmetric] finish_turn_def)
      (simp add: turn_start_def finish_turn_def demo_env_def demo_acp_def demo_config_def)
qed



theorem empty_summary_discards_silently_witness:
  "\<exists>k. 1 < k \<and> compaction_stage demo_env demo_config (turn_start demo_tools demo_history 0 (0, []))
     = (Proceed, turn_start demo_tools (plain_message RSystem ''sys'' # compacted_context [] # drop k demo_history)
         0 (1, []))"
proof -
  let ?st = "turn_start demo_tools demo_history 0 (0, [])"
  have c: "compact_messages (llm_complete (llm demo_env)) (messages ?st) (compaction_keep_recent demo_config) (world ?st)
      = (Ok \<lparr>working_messages = plain_message RSystem ''sys'' # compacted_context [] # drop 4 demo_history,
         canonical_messages = drop 4 demo_history, summary = []\<rparr>, (1, []))"
    by (simp add: compact_messages_def demo_history_def demo_eval summarize_def Let_def turn_start_def
        find_safe_split_def has_straddling_pair_def slice_def unanswered_step_def numeral_eq_Suc)
  have l: "leading_system demo_history = [plain_message RSystem ''sys'']"
    by (simp add: leading_system_def demo_history_def plain_message_def)
  have "exceeds_threshold demo_env (estimate_tokens (messages ?st)) (context_window demo_config)
      (compaction_threshold demo_config)" "context_window demo_config \<noteq> 0"
    "compaction_count ?st < max_compactions demo_config"
    by (simp_all add: demo_env_def demo_config_def turn_start_def)
  from empty_summary_discards_silently [OF this c] show ?thesis
    by (simp add: turn_start_def l)
qed

end
