(* ===== verification/Protocol.thy ===== *)
theory Protocol
  imports Server_Auth
begin

text \<open>
  The wire vocabulary (\<^verbatim>\<open>protocol/src/\<close>): method names
  (\<^verbatim>\<open>methods.rs\<close>), the payloads the agent sends and reads
  (\<^verbatim>\<open>messages.rs\<close>), and the token helpers (\<^verbatim>\<open>jwt.rs\<close>), whose
  claims have the fields of the server's.
\<close>

subsection \<open>Methods\<close>

definition INITIALIZE :: string where "INITIALIZE = ''initialize''"

definition SESSION_MESSAGE :: string where "SESSION_MESSAGE = ''session/message''"

definition SESSION_CANCEL :: string where "SESSION_CANCEL = ''session/cancel''"

definition TOOLS_LIST :: string where "TOOLS_LIST = ''tools/list''"

definition TOOLS_CALL :: string where "TOOLS_CALL = ''tools/call''"

definition TURN_END :: string where "TURN_END = ''turn/end''"

definition CONTEXT_COMPACTED :: string where "CONTEXT_COMPACTED = ''context/compacted''"

definition QUOTA_CHECK :: string where "QUOTA_CHECK = ''quota/check''"

definition QUOTA_UPDATE :: string where "QUOTA_UPDATE = ''quota/update''"

definition STREAM_TEXT_DELTA :: string where "STREAM_TEXT_DELTA = ''stream/textDelta''"

definition STREAM_ACTIVITY :: string where "STREAM_ACTIVITY = ''stream/activity''"

definition STREAM_TOOL_CALL :: string where "STREAM_TOOL_CALL = ''stream/toolCall''"

definition STREAM_TOOL_RESULT :: string where "STREAM_TOOL_RESULT = ''stream/toolResult''"

definition HEARTBEAT :: string where "HEARTBEAT = ''heartbeat''"

lemmas method_names [acp_defs] =
  INITIALIZE_def SESSION_MESSAGE_def SESSION_CANCEL_def TOOLS_LIST_def TOOLS_CALL_def TURN_END_def
  CONTEXT_COMPACTED_def QUOTA_CHECK_def QUOTA_UPDATE_def STREAM_TEXT_DELTA_def STREAM_ACTIVITY_def
  STREAM_TOOL_CALL_def STREAM_TOOL_RESULT_def HEARTBEAT_def

subsection \<open>Payloads\<close>

datatype proto_role = PSystem | PUser | PAssistant | PTool

fun proto_role_encode :: "proto_role \<Rightarrow> string" where
  "proto_role_encode PSystem = ''system''"
| "proto_role_encode PUser = ''user''"
| "proto_role_encode PAssistant = ''assistant''"
| "proto_role_encode PTool = ''tool''"

definition proto_role_decode :: "string \<Rightarrow> proto_role option" where
  "proto_role_decode s = map_of [(''system'', PSystem), (''user'', PUser), (''assistant'', PAssistant),
     (''tool'', PTool)] s"

record proto_usage =
  input_tokens :: u64
  output_tokens :: u64

definition proto_usage_encode :: "proto_usage \<Rightarrow> json" where
  "proto_usage_encode u = JObject [(''input_tokens'', JNumber (PosInt (input_tokens u))),
     (''output_tokens'', JNumber (PosInt (output_tokens u)))]"

record session_message_params =
  smp_role :: proto_role
  smp_content :: json

definition session_message_params_encode :: "session_message_params \<Rightarrow> json" where
  "session_message_params_encode p =
     JObject [(''role'', JString (proto_role_encode (smp_role p))), (''content'', smp_content p)]"

text \<open>
  History messages. Fields that are absent are skipped when they are written; a field that is null
  is read as absent, and content is a text or a list of blocks, whichever fits.
\<close>

datatype proto_content = PText string | PBlocks "json list"

record proto_message =
  pm_role :: proto_role
  pm_content :: "proto_content option"
  pm_tool_calls :: "json option"
  pm_tool_call_id :: "string option"

fun proto_content_encode :: "proto_content \<Rightarrow> json" where
  "proto_content_encode (PText t) = JString t"
| "proto_content_encode (PBlocks bs) = JArray bs"

fun proto_content_decode :: "json \<Rightarrow> proto_content option" where
  "proto_content_decode (JString t) = Some (PText t)"
| "proto_content_decode (JArray bs) = Some (PBlocks bs)"
| "proto_content_decode _ = None"

definition optional_field :: "string \<Rightarrow> ('a \<Rightarrow> json) \<Rightarrow> 'a option \<Rightarrow> (string \<times> json) list" where
  "optional_field k f v = (case v of Some x \<Rightarrow> [(k, f x)] | None \<Rightarrow> [])"

definition proto_message_encode :: "proto_message \<Rightarrow> json" where
  "proto_message_encode m =
     JObject ([(''role'', JString (proto_role_encode (pm_role m)))]
       @ optional_field ''content'' proto_content_encode (pm_content m)
       @ optional_field ''tool_calls'' id (pm_tool_calls m)
       @ optional_field ''tool_call_id'' JString (pm_tool_call_id m))"

definition read_optional :: "string \<Rightarrow> (json \<Rightarrow> 'a option) \<Rightarrow> json \<Rightarrow> 'a option option" where
  "read_optional k f v =
     (case json_get k v of None \<Rightarrow> Some None | Some JNull \<Rightarrow> Some None | Some x \<Rightarrow> map_option Some (f x))"

definition proto_message_decode :: "json \<Rightarrow> proto_message option" where
  "proto_message_decode v =
     Option.bind (Option.bind (Option.bind (json_get ''role'' v) as_str) proto_role_decode) (\<lambda>r.
     Option.bind (read_optional ''content'' proto_content_decode v) (\<lambda>c.
     Option.bind (read_optional ''tool_calls'' Some v) (\<lambda>tc.
     Option.bind (read_optional ''tool_call_id'' as_str v) (\<lambda>ti.
       Some \<lparr>pm_role = r, pm_content = c, pm_tool_calls = tc, pm_tool_call_id = ti\<rparr>))))"

record initialize_response =
  ir_system_prompt :: string
  ir_messages :: "proto_message list"
  ir_tools_config :: json

definition initialize_response_encode :: "initialize_response \<Rightarrow> json" where
  "initialize_response_encode r =
     JObject [(''system_prompt'', JString (ir_system_prompt r)),
       (''messages'', JArray (map proto_message_encode (ir_messages r))), (''tools_config'', ir_tools_config r)]"

text \<open>The payloads without fields, and the answer to a quota check.\<close>

definition initialize_request_encode :: json where "initialize_request_encode = JObject []"
definition session_cancel_params_encode :: json where "session_cancel_params_encode = JObject []"
definition quota_check_request_encode :: json where "quota_check_request_encode = JObject []"
definition quota_update_response_encode :: json where "quota_update_response_encode = JObject []"
definition heartbeat_encode :: json where "heartbeat_encode = JObject []"

definition quota_check_response_encode :: "bool \<Rightarrow> json" where
  "quota_check_response_encode b = JObject [(''allowed'', JBool b)]"

text \<open>The derived decoder is generated code: what it does on the encoder's output.\<close>

definition params_decode_laws :: "(json \<Rightarrow> session_message_params option) \<Rightarrow> bool" where
  "params_decode_laws decode \<longleftrightarrow> (\<forall>p. decode (session_message_params_encode p) = Some p)"

definition text_delta_encode :: "string \<Rightarrow> json" where
  "text_delta_encode t = JObject [(''text'', JString t)]"

definition activity_encode :: "string \<Rightarrow> json \<Rightarrow> json" where
  "activity_encode kind v = JObject [(''kind'', JString kind), (''data'', v)]"

definition tool_call_notification_encode :: "string \<Rightarrow> string \<Rightarrow> json \<Rightarrow> json" where
  "tool_call_notification_encode i n args =
     JObject [(''id'', JString i), (''name'', JString n), (''arguments'', args)]"

definition tool_result_notification_encode :: "string \<Rightarrow> json \<Rightarrow> bool \<Rightarrow> json" where
  "tool_result_notification_encode i c e =
     JObject [(''id'', JString i), (''content'', c), (''is_error'', JBool e)]"

text \<open>An empty list of messages is skipped.\<close>

definition turn_end_encode :: "json list \<Rightarrow> proto_usage \<Rightarrow> json" where
  "turn_end_encode messages u =
     JObject ((if messages = [] then [] else [(''messages'', JArray messages)])
       @ [(''usage'', proto_usage_encode u)])"

definition context_compacted_encode :: "string \<Rightarrow> json list \<Rightarrow> proto_usage \<Rightarrow> json" where
  "context_compacted_encode sm messages u =
     JObject [(''summary'', JString sm), (''messages'', JArray messages), (''usage'', proto_usage_encode u)]"

definition quota_update_encode :: "u64 \<Rightarrow> u64 \<Rightarrow> json" where
  "quota_update_encode i out =
     JObject [(''input_tokens'', JNumber (PosInt i)), (''output_tokens'', JNumber (PosInt out))]"

subsection \<open>Tokens\<close>

definition DEFAULT_TOKEN_TTL_SECS :: i64 where "DEFAULT_TOKEN_TTL_SECS = 3600"

datatype 'je protocol_error = Jwt 'je | InvalidRole string

text \<open>The claims of this crate have constructors of their own; \<open>ts\<close> is the time of the call.\<close>

definition jwt_claims_admin :: "i64 \<Rightarrow> uuid \<Rightarrow> i64 \<Rightarrow> string \<Rightarrow> claims" where
  "jwt_claims_admin ts subject ttl issuer =
     \<lparr>sub = subject, role = ''admin'', user = None, exp = ts + ttl, iss = issuer\<rparr>"

definition jwt_claims_agent :: "i64 \<Rightarrow> uuid \<Rightarrow> uuid option \<Rightarrow> i64 \<Rightarrow> string \<Rightarrow> claims" where
  "jwt_claims_agent ts agent_id u ttl issuer =
     \<lparr>sub = agent_id, role = ''agent'', user = u, exp = ts + ttl, iss = issuer\<rparr>"

definition jwt_is_admin :: "claims \<Rightarrow> bool" where "jwt_is_admin c \<longleftrightarrow> role c = ''admin''"

definition jwt_is_agent :: "claims \<Rightarrow> bool" where "jwt_is_agent c \<longleftrightarrow> role c = ''agent''"

definition proto_mint_token :: "'je jwt_lib \<Rightarrow> string \<Rightarrow> claims \<Rightarrow> (string, 'je protocol_error) result" where
  "proto_mint_token J key c = res_map_err Jwt (jwt_encode J key c)"

definition validate_token ::
    "'je jwt_lib \<Rightarrow> string \<Rightarrow> string \<Rightarrow> string \<Rightarrow> (claims, 'je protocol_error) result" where
  "validate_token J key issuer token =
     res_bind (res_map_err Jwt (jwt_decode J key issuer token))
       (\<lambda>c. if \<not> jwt_is_admin c \<and> \<not> jwt_is_agent c then Err (InvalidRole (role c)) else Ok c)"

text \<open>\<open>insecure\<close> is the library's decoder that checks nothing.\<close>

definition peek_claims_unverified ::
    "(string \<Rightarrow> (claims, 'je) result) \<Rightarrow> string \<Rightarrow> (claims, 'je protocol_error) result" where
  "peek_claims_unverified insecure token = res_map_err Jwt (insecure token)"

subsection \<open>Properties\<close>

lemma proto_role_decode_encode [simp]: "proto_role_decode (proto_role_encode r) = Some r"
  by (cases r) (simp_all add: proto_role_decode_def)

lemma proto_content_roundtrip [simp]: "proto_content_decode (proto_content_encode c) = Some c"
  by (cases c) simp_all

lemma proto_content_not_null [simp]: "proto_content_encode c \<noteq> JNull"
  by (cases c) simp_all

lemma read_optional_field:
  assumes "json_get k v = map_option f x" and "\<And>y. x = Some y \<Longrightarrow> f y \<noteq> JNull \<and> g (f y) = Some y"
  shows "read_optional k g v = Some x"
  using assms by (cases x) (auto simp: read_optional_def split: json.split)

text \<open>
  A message of the history is read back as it was written, except that tool calls that are
  present and null come back absent.
\<close>

theorem proto_message_roundtrip:
  "proto_message_decode (proto_message_encode m) =
     Some (m\<lparr>pm_tool_calls := (if pm_tool_calls m = Some JNull then None else pm_tool_calls m)\<rparr>)"
proof -
  let ?v = "proto_message_encode m"
  have r: "json_get ''role'' ?v = Some (JString (proto_role_encode (pm_role m)))"
    and c: "json_get ''content'' ?v = map_option proto_content_encode (pm_content m)"
    and t: "json_get ''tool_calls'' ?v = map_option id (pm_tool_calls m)"
    and i: "json_get ''tool_call_id'' ?v = map_option JString (pm_tool_call_id m)"
    by (cases "pm_content m"; cases "pm_tool_calls m"; cases "pm_tool_call_id m"; simp add: proto_message_encode_def optional_field_def)+
  have "read_optional ''content'' proto_content_decode ?v = Some (pm_content m)"
    by (rule read_optional_field [OF c]) simp
  moreover have "read_optional ''tool_call_id'' as_str ?v = Some (pm_tool_call_id m)"
    by (rule read_optional_field [OF i]) simp
  moreover have "read_optional ''tool_calls'' Some ?v = Some (if pm_tool_calls m = Some JNull then None else pm_tool_calls m)"
    using t by (cases "pm_tool_calls m") (auto simp: read_optional_def split: json.split)
  ultimately show ?thesis using r by (cases m) (simp add: proto_message_decode_def)
qed

text \<open>The crates name the same roles and build the same claims.\<close>

lemma jwt_claims_agree:
  "jwt_claims_admin = claims_admin" "jwt_claims_agent = claims_agent" "jwt_is_admin = is_admin" "jwt_is_agent = is_agent"
  by (simp_all add: fun_eq_iff jwt_claims_admin_def jwt_claims_agent_def claims_admin_def claims_agent_def jwt_is_admin_def
      jwt_is_agent_def is_admin_def is_agent_def ROLE_ADMIN_def ROLE_AGENT_def)

text \<open>
  The protocol crate and the server agree on which tokens are valid. With the same key and
  issuer the two implementations accept the same tokens, with the same claims, and mint the
  same tokens.
\<close>

theorem protocol_and_server_agree:
  "(validate_token J (signing_key a) (auth_issuer a) t = Ok c \<longleftrightarrow> static_validate J a t = Ok c)
   \<and> (proto_mint_token J (signing_key a) c = Ok t \<longleftrightarrow> static_mint J a c = Ok t)"
  by (auto simp: validate_token_def jwt_claims_agree proto_mint_token_def static_validate_Ok static_mint_Ok res_bind_Ok
      split: if_splits)

end
