(* ===== verification/Acp_Client.thy ===== *)
theory Acp_Client
  imports Protocol Llm_Types
begin

text \<open>
  The agent's side of the tunnel (\<^verbatim>\<open>loop/src/acp.rs\<close>): a JSON-RPC client over a line
  stream, with requests that wait for their response, notifications, and the queue of
  notifications that arrived while a request was waiting.

  The reader is the list of lines still to come, each a line or a read error; after the last
  one the stream is at its end. The writer is a parameter: \<open>write line w\<close> says whether the
  line was written and flushed. Derived decoders are parameters.
\<close>

datatype acp_error =
    WriteFailed
  | ReadFailed string
  | ParseFrame
  | ParseResponse
  | AcpError string
  | MissingResult
  | StdinClosed
  | ParseNotification
  | ParseParams
  | ParseContent
  | ParseInitialize

record 'w acp_client =
  reader :: "(string, string) result list"
  writer :: 'w
  pending_notifications :: "string list"
  next_id :: u64

definition first_request_id :: u64 where "first_request_id = 1"

definition next_request_id :: "u64 \<Rightarrow> u64 \<times> u64" where "next_request_id n = (n, n + 1)"

text \<open>A client over two streams; the one over the standard streams is the same.\<close>

definition acp_new :: "(string, string) result list \<Rightarrow> 'w \<Rightarrow> 'w acp_client" where
  "acp_new rd wr = \<lparr>reader = rd, writer = wr, pending_notifications = [], next_id = first_request_id\<rparr>"

definition acp_stdio :: "(string, string) result list \<Rightarrow> 'w \<Rightarrow> 'w acp_client" where
  "acp_stdio stdin stdout = acp_new stdin stdout"

text \<open>A decoded response: its result and its error's message.\<close>

record rpc_response =
  resp_result :: "json option"
  resp_error :: "string option"

record notification =
  notif_method :: string
  notif_params :: json

record 'w acp_env =
  acp_serde :: serde
  acp_write :: "string \<Rightarrow> 'w \<Rightarrow> bool \<times> 'w"
  decode_response :: "json \<Rightarrow> rpc_response option"
  decode_notification :: "json \<Rightarrow> notification option"
  decode_params :: "json \<Rightarrow> session_message_params option"
  decode_block :: "json \<Rightarrow> content_block option"

subsection \<open>Frames\<close>

definition request_frame :: "serde \<Rightarrow> u64 \<Rightarrow> string \<Rightarrow> json option \<Rightarrow> string" where
  "request_frame S i m params =
     print_json S (JObject ([(''jsonrpc'', JString ''2.0''), (''id'', JNumber (PosInt i)), (''method'', JString m)]
       @ (case params of None \<Rightarrow> [] | Some p \<Rightarrow> [(''params'', p)]))) @ newline"

text \<open>An absent \<open>params\<close> is written as null.\<close>

definition notification_frame :: "serde \<Rightarrow> string \<Rightarrow> json option \<Rightarrow> string" where
  "notification_frame S m params =
     print_json S (JObject [(''jsonrpc'', JString ''2.0''), (''method'', JString m),
       (''params'', unwrap_or JNull params)]) @ newline"

definition is_notification :: "json \<Rightarrow> bool" where
  "is_notification v \<longleftrightarrow> json_get ''method'' v \<noteq> None \<and> json_get ''id'' v = None"

subsection \<open>Requests\<close>

definition response_result :: "'w acp_env \<Rightarrow> json \<Rightarrow> (json, acp_error) result" where
  "response_result E v =
     (case decode_response E v of
        None \<Rightarrow> Err ParseResponse
      | Some r \<Rightarrow> (case resp_error r of
            Some m \<Rightarrow> Err (AcpError m)
          | None \<Rightarrow> ok_or MissingResult (resp_result r)))"

text \<open>
  Reading lines until a response; the third component is the queue of buffered notifications.
  At the end of the stream the line is empty, which is not JSON.
\<close>

fun await_response ::
    "'w acp_env \<Rightarrow> (string, string) result list \<Rightarrow> string list
      \<Rightarrow> (json, acp_error) result \<times> (string, string) result list \<times> string list" where
  "await_response E [] pending = (Err ParseFrame, [], pending)"
| "await_response E (Err e # rest) pending = (Err (ReadFailed e), rest, pending)"
| "await_response E (Ok buf # rest) pending =
     (case parse_json (acp_serde E) buf of
        None \<Rightarrow> (Err ParseFrame, rest, pending)
      | Some peek \<Rightarrow>
          if is_notification peek then await_response E rest (pending @ [buf])
          else (response_result E peek, rest, pending))"

definition send_request ::
    "'w acp_env \<Rightarrow> string \<Rightarrow> json option \<Rightarrow> 'w acp_client \<Rightarrow> (json, acp_error) result \<times> 'w acp_client" where
  "send_request E m params c =
     (case acp_write E (request_frame (acp_serde E) (next_id c) m params) (writer c) of
        (False, w) \<Rightarrow> (Err WriteFailed, c\<lparr>writer := w, next_id := next_id c + 1\<rparr>)
      | (True, w) \<Rightarrow>
          (case await_response E (reader c) (pending_notifications c) of
             (r, rest, pending) \<Rightarrow>
               (r, c\<lparr>writer := w, next_id := next_id c + 1, reader := rest, pending_notifications := pending\<rparr>)))"

definition send_notification ::
    "'w acp_env \<Rightarrow> string \<Rightarrow> json option \<Rightarrow> 'w acp_client \<Rightarrow> (unit, acp_error) result \<times> 'w acp_client" where
  "send_notification E m params c =
     (case acp_write E (notification_frame (acp_serde E) m params) (writer c) of
        (ok, w) \<Rightarrow> (if ok then Ok () else Err WriteFailed, c\<lparr>writer := w\<rparr>))"

record initialize_result =
  system_prompt :: string
  init_messages :: "message list"
  tools_config :: json

definition acp_initialize ::
    "'w acp_env \<Rightarrow> (json \<Rightarrow> initialize_result option) \<Rightarrow> 'w acp_client
      \<Rightarrow> (initialize_result, acp_error) result \<times> 'w acp_client" where
  "acp_initialize E decode c =
     apfst (\<lambda>r. res_bind r (\<lambda>v. ok_or ParseInitialize (decode v))) (send_request E INITIALIZE None c)"

definition parse_notification :: "'w acp_env \<Rightarrow> string \<Rightarrow> (notification, acp_error) result" where
  "parse_notification E buf =
     ok_or ParseNotification (Option.bind (parse_json (acp_serde E) buf) (decode_notification E))"

definition recv_notification ::
    "'w acp_env \<Rightarrow> 'w acp_client \<Rightarrow> (notification, acp_error) result \<times> 'w acp_client" where
  "recv_notification E c =
     (case pending_notifications c of
        buf # rest \<Rightarrow> (parse_notification E buf, c\<lparr>pending_notifications := rest\<rparr>)
      | [] \<Rightarrow>
          (case reader c of
             [] \<Rightarrow> (Err StdinClosed, c)
           | Err e # rest \<Rightarrow> (Err (ReadFailed e), c\<lparr>reader := rest\<rparr>)
           | Ok buf # rest \<Rightarrow> (parse_notification E buf, c\<lparr>reader := rest\<rparr>)))"

subsection \<open>The service\<close>

definition stream_text_delta ::
    "'w acp_env \<Rightarrow> string \<Rightarrow> 'w acp_client \<Rightarrow> (unit, acp_error) result \<times> 'w acp_client" where
  "stream_text_delta E t = send_notification E STREAM_TEXT_DELTA (Some (text_delta_encode t))"

definition stream_activity ::
    "'w acp_env \<Rightarrow> string \<Rightarrow> 'w acp_client \<Rightarrow> (unit, acp_error) result \<times> 'w acp_client" where
  "stream_activity E a = send_notification E STREAM_ACTIVITY (Some (activity_encode ''log'' (JString a)))"

definition stream_tool_call ::
    "'w acp_env \<Rightarrow> string \<Rightarrow> string \<Rightarrow> json \<Rightarrow> 'w acp_client \<Rightarrow> (unit, acp_error) result \<times> 'w acp_client" where
  "stream_tool_call E i n args =
     send_notification E STREAM_TOOL_CALL (Some (tool_call_notification_encode i n args))"

definition stream_tool_result ::
    "'w acp_env \<Rightarrow> string \<Rightarrow> json \<Rightarrow> bool \<Rightarrow> 'w acp_client \<Rightarrow> (unit, acp_error) result \<times> 'w acp_client" where
  "stream_tool_result E i content is_error =
     send_notification E STREAM_TOOL_RESULT (Some (tool_result_notification_encode i content is_error))"

definition proto_usage_of :: "usage \<Rightarrow> proto_usage" where
  "proto_usage_of u = \<lparr>input_tokens = prompt_tokens u, output_tokens = completion_tokens u\<rparr>"

definition turn_end ::
    "'w acp_env \<Rightarrow> message list \<Rightarrow> usage \<Rightarrow> 'w acp_client \<Rightarrow> (unit, acp_error) result \<times> 'w acp_client" where
  "turn_end E messages u = send_notification E TURN_END (Some (turn_end_encode [] (proto_usage_of u)))"

definition context_compacted ::
    "'w acp_env \<Rightarrow> string \<Rightarrow> message list \<Rightarrow> usage \<Rightarrow> 'w acp_client
      \<Rightarrow> (unit, acp_error) result \<times> 'w acp_client" where
  "context_compacted E sm messages u =
     send_notification E CONTEXT_COMPACTED
       (Some (context_compacted_encode sm (map message_encode messages) (proto_usage_of u)))"

definition acp_quota_check :: "'w acp_env \<Rightarrow> 'w acp_client \<Rightarrow> (bool, acp_error) result \<times> 'w acp_client" where
  "acp_quota_check E c =
     apfst (res_map (\<lambda>v. unwrap_or True (Option.bind (json_get ''allowed'' v) as_bool)))
       (send_request E QUOTA_CHECK None c)"

definition acp_quota_update ::
    "'w acp_env \<Rightarrow> u64 \<Rightarrow> u64 \<Rightarrow> 'w acp_client \<Rightarrow> (unit, acp_error) result \<times> 'w acp_client" where
  "acp_quota_update E i out c =
     apfst (res_map (\<lambda>_. ())) (send_request E QUOTA_UPDATE (Some (quota_update_encode i out)) c)"

definition acp_heartbeat :: "'w acp_env \<Rightarrow> 'w acp_client \<Rightarrow> (unit, acp_error) result \<times> 'w acp_client" where
  "acp_heartbeat E = send_notification E HEARTBEAT None"

definition acp_tools_list :: "'w acp_env \<Rightarrow> 'w acp_client \<Rightarrow> (json, acp_error) result \<times> 'w acp_client" where
  "acp_tools_list E = send_request E TOOLS_LIST None"

definition acp_tools_call ::
    "'w acp_env \<Rightarrow> string \<Rightarrow> json \<Rightarrow> 'w acp_client \<Rightarrow> (json, acp_error) result \<times> 'w acp_client" where
  "acp_tools_call E n args =
     send_request E TOOLS_CALL (Some (JObject [(''name'', JString n), (''arguments'', args)]))"

fun llm_role :: "proto_role \<Rightarrow> role_kind" where
  "llm_role PSystem = RSystem"
| "llm_role PUser = RUser"
| "llm_role PAssistant = RAssistant"
| "llm_role PTool = RTool"

definition session_message_to_llm_message ::
    "'w acp_env \<Rightarrow> session_message_params \<Rightarrow> (message, acp_error) result" where
  "session_message_to_llm_message E p =
     (let mk = (\<lambda>c. \<lparr>m_role = llm_role (smp_role p), m_content = c, m_tool_calls = None, m_tool_call_id = None\<rparr>)
      in case smp_content p of
           JNull \<Rightarrow> Ok (mk None)
         | JString s \<Rightarrow> Ok (mk (Some (CText s)))
         | JArray vs \<Rightarrow> res_map (\<lambda>c. mk (Some c))
             (ok_or ParseContent (content_decode (decode_block E) (smp_content p)))
         | JObject kvs \<Rightarrow> res_map (\<lambda>c. mk (Some c))
             (ok_or ParseContent (content_decode (decode_block E) (smp_content p)))
         | v \<Rightarrow> Ok (mk (Some (CText (print_json (acp_serde E) v)))))"

datatype push = PushMessage message | PushCancel

text \<open>Every round consumes a buffered notification or a line, so the loop ends with the stream.\<close>

lemma recv_notification_consumes:
  assumes "recv_notification E c = (Ok n, c')"
  shows "length (pending_notifications c') + length (reader c')
    < length (pending_notifications c) + length (reader c)"
  using assms by (auto simp: recv_notification_def split: list.splits result.splits)

function next_push :: "'w acp_env \<Rightarrow> 'w acp_client \<Rightarrow> (push, acp_error) result \<times> 'w acp_client" where
  "next_push E c =
     (case recv_notification E c of
        (Err e, c') \<Rightarrow> (Err e, c')
      | (Ok n, c') \<Rightarrow>
          if notif_method n = SESSION_MESSAGE then
            (res_bind (ok_or ParseParams (decode_params E (notif_params n)))
               (\<lambda>p. res_map PushMessage (session_message_to_llm_message E p)), c')
          else if notif_method n = SESSION_CANCEL then (Ok PushCancel, c')
          else next_push E c')"
  by pat_completeness auto
termination
  by (relation "measure (\<lambda>(_, c). length (pending_notifications c) + length (reader c))")
    (auto dest: recv_notification_consumes [OF sym])

declare next_push.simps [simp del]

subsection \<open>Lemmas\<close>

text \<open>The notifications not yet consumed, buffered or still on the stream.\<close>

definition is_notification_line :: "'w acp_env \<Rightarrow> (string, string) result \<Rightarrow> bool" where
  "is_notification_line E l =
     (case l of Err _ \<Rightarrow> False
      | Ok buf \<Rightarrow> (case parse_json (acp_serde E) buf of None \<Rightarrow> False | Some v \<Rightarrow> is_notification v))"

definition line_text :: "(string, string) result \<Rightarrow> string" where
  "line_text l = (case l of Ok s \<Rightarrow> s | Err s \<Rightarrow> s)"

definition incoming :: "'w acp_env \<Rightarrow> 'w acp_client \<Rightarrow> string list" where
  "incoming E c = pending_notifications c @ map line_text (filter (is_notification_line E) (reader c))"

lemma await_response_incoming:
  "await_response E lines pending = (r, rest, pending') \<Longrightarrow>
     pending' @ map line_text (filter (is_notification_line E) rest)
       = pending @ map line_text (filter (is_notification_line E) lines)"
  by (induction E lines pending rule: await_response.induct)
    (auto simp: is_notification_line_def line_text_def split: option.splits if_splits)

lemma send_request_written:
  assumes "fst (acp_write E (request_frame (acp_serde E) (next_id c) m params) (writer c))"
  shows "fst (send_request E m params c) = fst (await_response E (reader c) (pending_notifications c))"
    and "reader (snd (send_request E m params c)) = fst (snd (await_response E (reader c) (pending_notifications c)))"
  using assms by (auto simp: send_request_def split: prod.splits bool.splits)

lemma send_request_incoming: "incoming E (snd (send_request E m params c)) = incoming E c"
  using await_response_incoming [of E "reader c" "pending_notifications c"]
  by (auto simp: send_request_def incoming_def split: prod.splits bool.splits)

text \<open>
  The service operations of the loop between two pushes: requests and notifications, any number
  of them.
\<close>

datatype acp_op = OpRequest string "json option" | OpNotify string "json option"

fun acp_step :: "'w acp_env \<Rightarrow> 'w acp_client \<Rightarrow> acp_op \<Rightarrow> 'w acp_client" where
  "acp_step E c (OpRequest m p) = snd (send_request E m p c)"
| "acp_step E c (OpNotify m p) = snd (send_notification E m p c)"

lemma acp_steps_incoming: "incoming E (foldl (acp_step E) c ops) = incoming E c"
proof (induction ops arbitrary: c)
  case (Cons op ops)
  have "incoming E (acp_step E c op) = incoming E c"
    by (cases op) (simp_all add: send_request_incoming, simp add: send_notification_def incoming_def split: prod.splits)
  with Cons show ?case by simp
qed simp

lemma recv_notification_incoming:
  assumes "pending_notifications c \<noteq> [] \<or> (\<exists>l ls. reader c = l # ls \<and> is_notification_line E l)"
  shows "\<exists>buf rest. incoming E c = buf # rest \<and> fst (recv_notification E c) = parse_notification E buf
    \<and> incoming E (snd (recv_notification E c)) = rest"
proof (cases "pending_notifications c")
  case Nil
  with assms obtain l ls where "reader c = l # ls" "is_notification_line E l" by auto
  with Nil show ?thesis
    by (cases l) (simp_all add: recv_notification_def incoming_def line_text_def is_notification_line_def)
next
  case (Cons buf rest)
  then show ?thesis by (simp add: recv_notification_def incoming_def)
qed

lemma incoming_all_notifications:
  assumes "\<forall>l \<in> set (reader c). is_notification_line E l" and "incoming E c \<noteq> []"
  shows "pending_notifications c \<noteq> [] \<or> (\<exists>l ls. reader c = l # ls \<and> is_notification_line E l)"
  using assms by (cases "reader c") (auto simp: incoming_def)

subsection \<open>Properties\<close>

text \<open>
  C30: waiting for a response loses no push. Whatever requests and notifications the loop sends,
  and whether they succeed or fail, the notifications that the server pushed, buffered or still
  on the stream, stay the same and in the same order; and the next notification received is
  the first of them.
\<close>

theorem requests_lose_no_notification:
  assumes "c' = foldl (acp_step E) c ops"
    and "pending_notifications c' \<noteq> [] \<or> (\<exists>l ls. reader c' = l # ls \<and> is_notification_line E l)"
  shows "incoming E c' = incoming E c
    \<and> (case incoming E c of [] \<Rightarrow> False
       | buf # rest \<Rightarrow> fst (recv_notification E c') = parse_notification E buf
           \<and> incoming E (snd (recv_notification E c')) = rest)"
  using recv_notification_incoming [OF assms(2)] acp_steps_incoming [of E c ops] assms(1) by auto

text \<open>A client with a pushed message on the stream before the response to its quota check.\<close>

definition demo_acp_env :: "string list acp_env" where
  "demo_acp_env =
     \<lparr>acp_serde = \<lparr>parse_json = (\<lambda>s.
          if s = ''push'' then Some (JObject [(''method'', JString ''session/message''), (''params'', JNull)])
          else if s = ''resp'' then Some (JObject [(''id'', JNumber (PosInt 1)), (''result'', JBool True)])
          else if s = ''late'' then Some (JObject [(''id'', JNumber (PosInt 2)), (''result'', JBool False)])
          else None), print_json = (\<lambda>_. ''out'')\<rparr>,
      acp_write = (\<lambda>l w. (True, w @ [l])),
      decode_response = (\<lambda>v. Some \<lparr>resp_result = json_get ''result'' v, resp_error = None\<rparr>),
      decode_notification = (\<lambda>v. map_option (\<lambda>m. \<lparr>notif_method = m, notif_params = JNull\<rparr>)
         (Option.bind (json_get ''method'' v) as_str)),
      decode_params = (\<lambda>_. None), decode_block = (\<lambda>_. None)\<rparr>"

definition demo_acp_client :: "string list acp_client" where
  "demo_acp_client = \<lparr>reader = [Ok ''push'', Ok ''resp''], writer = [], pending_notifications = [], next_id = 1\<rparr>"

theorem requests_lose_no_notification_witness:
  "incoming demo_acp_env (foldl (acp_step demo_acp_env) demo_acp_client [OpRequest QUOTA_CHECK None]) = [''push'']"
proof -
  have i: "incoming demo_acp_env demo_acp_client = [''push'']"
    by (simp add: incoming_def demo_acp_client_def is_notification_line_def demo_acp_env_def is_notification_def
        line_text_def)
  have p: "pending_notifications (foldl (acp_step demo_acp_env) demo_acp_client [OpRequest QUOTA_CHECK None]) = [''push'']"
    by (simp add: send_request_def demo_acp_env_def demo_acp_client_def is_notification_def)
  show ?thesis
    using requests_lose_no_notification [OF refl, where E = demo_acp_env and c = demo_acp_client
        and ops = "[OpRequest QUOTA_CHECK None]"] p i by simp
qed

text \<open>
  Responses are not matched to requests by their id. A request that fails because the next
  line is not JSON leaves its response on the stream, and the following request, whatever it
  asks, takes that response as its own.
\<close>

theorem failed_request_shifts_responses:
  assumes "\<And>l w. fst (acp_write E l w)"
    and "parse_json (acp_serde E) garbage = None"
    and "parse_json (acp_serde E) first = Some v" and "\<not> is_notification v"
    and "reader c = Ok garbage # Ok first # rest"
    and "send_request E m1 p1 c = (r1, c1)" and "send_request E m2 p2 c1 = (r2, c2)"
  shows "r1 = Err ParseFrame \<and> r2 = response_result E v \<and> reader c2 = rest"
proof -
  from assms(2,5) have "r1 = Err ParseFrame" "reader c1 = Ok first # rest"
    using send_request_written [of E c m1 p1] assms(1,6) by simp_all
  moreover from this(2) have "r2 = response_result E v" "reader c2 = rest"
    using send_request_written [of E c1 m2 p2] assms(1,3,4,7) by simp_all
  ultimately show ?thesis by simp
qed

theorem failed_request_shifts_responses_witness:
  "let c = demo_acp_client\<lparr>reader := [Ok ''?'', Ok ''resp'', Ok ''late'']\<rparr>;
       c1 = snd (send_request demo_acp_env QUOTA_UPDATE None c)
   in fst (send_request demo_acp_env QUOTA_CHECK None c1) = Ok (JBool True)"
proof -
  let ?E = demo_acp_env and ?c = "demo_acp_client\<lparr>reader := [Ok ''?'', Ok ''resp'', Ok ''late'']\<rparr>"
  let ?v = "JObject [(''id'', JNumber (PosInt 1)), (''result'', JBool True)]"
  obtain r1 c1 where 1: "send_request ?E QUOTA_UPDATE None ?c = (r1, c1)" by fastforce
  obtain r2 c2 where 2: "send_request ?E QUOTA_CHECK None c1 = (r2, c2)" by fastforce
  have "r2 = response_result ?E ?v"
    using failed_request_shifts_responses [OF _ _ _ _ _ 1 2, of "''?''" "''resp''" ?v "[Ok ''late'']"]
    by (simp add: demo_acp_env_def is_notification_def)
  then show ?thesis using 1 2 by (simp add: response_result_def demo_acp_env_def)
qed

end
