(* ===== verification/Overloop.thy ===== *)
theory Overloop
  imports Agentic_Loop Acp_Client
begin

text \<open>
  The agent process (\<^verbatim>\<open>loop/src/main.rs\<close>): its configuration from the environment
  (\<^verbatim>\<open>config.rs\<close>), the inlining of local files into messages
  (\<^verbatim>\<open>llm/resolve.rs\<close>), start-up, and the loop that turns every pushed message into a
  turn. The turn's services are the operations of the client of the tunnel.

  The state of the process is a \<open>host\<close>: the client and the rest of the outside.
\<close>

subsection \<open>Configuration\<close>

text \<open>Parsing of an unsigned integer: an optional plus sign and digits, at most 64 bits.\<close>

definition is_digit :: "char \<Rightarrow> bool" where
  "is_digit c \<longleftrightarrow> 48 \<le> (of_char c :: nat) \<and> (of_char c :: nat) \<le> 57"

definition digits_value :: "string \<Rightarrow> nat" where
  "digits_value ds = foldl (\<lambda>n c. 10 * n + (of_char c - 48)) 0 ds"

definition parse_u64 :: "string \<Rightarrow> nat option" where
  "parse_u64 s =
     (let ds = (case s of c # cs \<Rightarrow> if c = CHR ''+'' then cs else s | [] \<Rightarrow> [])
      in if ds \<noteq> [] \<and> list_all is_digit ds \<and> digits_value ds < 2 ^ 64 then Some (digits_value ds) else None)"

record config =
  llm_api_key :: string
  llm_api_url :: string
  conf_model :: string
  workspace :: string
  mcp_servers :: "string list"
  conf_max_iterations :: nat
  timeout_minutes :: nat
  conf_context_window :: nat
  conf_compaction_threshold :: f64
  conf_compaction_keep_recent :: nat
  conf_max_compactions :: nat
  agent_name :: "string option"
  sentry_dsn :: "string option"
  sentry_environment :: string
  sentry_traces_sample_rate :: "32 word"
  langfuse_public_key :: "string option"
  langfuse_secret_key :: "string option"
  langfuse_host :: string
  langfuse_environment :: string
  conf_langfuse_capture_input :: bool

definition nonempty_trimmed :: "string option \<Rightarrow> string option" where
  "nonempty_trimmed v = Option.bind v (\<lambda>s. if trim s = [] then None else Some (trim s))"

text \<open>Parsing of floating-point numbers is a parameter; the defaults are the bit patterns of 0.80 and 0.1.\<close>

definition from_env ::
    "(string \<Rightarrow> f64 option) \<Rightarrow> (string \<Rightarrow> 32 word option) \<Rightarrow> (string \<Rightarrow> string option) \<Rightarrow> (config, string) result" where
  "from_env parse_f64 parse_f32 var =
     res_map (\<lambda>key.
       \<lparr>llm_api_key = key,
        llm_api_url = unwrap_or ''https://openrouter.ai/api/v1'' (var ''LLM_API_URL''),
        conf_model = unwrap_or ''anthropic/claude-sonnet-4-20250514'' (var ''OVERFOLDER_MODEL''),
        workspace = unwrap_or ''.'' (var ''OVERFOLDER_WORKSPACE''),
        mcp_servers = filter (\<lambda>s. s \<noteq> []) (map trim (split_on (CHR '','') (unwrap_or [] (var ''MCP_SERVERS'')))),
        conf_max_iterations = unwrap_or 100 (parse_u64 (unwrap_or ''100'' (var ''MAX_ITERATIONS''))),
        timeout_minutes = unwrap_or 60 (parse_u64 (unwrap_or ''60'' (var ''TIMEOUT_MINUTES''))),
        conf_context_window = unwrap_or 128000 (parse_u64 (unwrap_or ''128000'' (var ''CONTEXT_WINDOW''))),
        conf_compaction_threshold =
          unwrap_or 0x3FE999999999999A (parse_f64 (unwrap_or ''0.80'' (var ''COMPACTION_THRESHOLD''))),
        conf_compaction_keep_recent = unwrap_or 10 (parse_u64 (unwrap_or ''10'' (var ''COMPACTION_KEEP_RECENT''))),
        conf_max_compactions = unwrap_or 3 (parse_u64 (unwrap_or ''3'' (var ''MAX_COMPACTIONS''))),
        agent_name = nonempty_trimmed (var ''OVERLOOP_AGENT_NAME''),
        sentry_dsn = nonempty_trimmed (var ''SENTRY_DSN''),
        sentry_environment = unwrap_or ''local'' (var ''SENTRY_ENVIRONMENT''),
        sentry_traces_sample_rate =
          unwrap_or 0x3DCCCCCD (Option.bind (var ''SENTRY_TRACES_SAMPLE_RATE'') parse_f32),
        langfuse_public_key = nonempty_trimmed (var ''LANGFUSE_PUBLIC_KEY''),
        langfuse_secret_key = nonempty_trimmed (var ''LANGFUSE_SECRET_KEY''),
        langfuse_host = unwrap_or ''https://cloud.langfuse.com'' (var ''LANGFUSE_HOST''),
        langfuse_environment = unwrap_or ''local'' (var ''LANGFUSE_ENVIRONMENT''),
        conf_langfuse_capture_input =
          (case var ''LANGFUSE_CAPTURE_INPUT'' of None \<Rightarrow> False
           | Some s \<Rightarrow> to_ascii_lowercase (trim s) \<in> {''1'', ''true'', ''yes''})\<rparr>)
     (ok_or ''LLM_API_KEY must be set'' (var ''LLM_API_KEY''))"

text \<open>The timeout in seconds is a 64-bit product; the loop counts in nanoseconds.\<close>

definition timeout_secs :: "config \<Rightarrow> nat" where
  "timeout_secs c = timeout_minutes c * 60 mod 2 ^ 64"

definition loop_config_of :: "config \<Rightarrow> loop_config" where
  "loop_config_of c =
     \<lparr>max_iterations = conf_max_iterations c, timeout = timeout_secs c * 10 ^ 9, cfg_model = conf_model c,
      context_window = conf_context_window c, compaction_threshold = conf_compaction_threshold c,
      compaction_keep_recent = conf_compaction_keep_recent c, max_compactions = conf_max_compactions c,
      langfuse_capture_input = conf_langfuse_capture_input c\<rparr>"

subsection \<open>Files in messages\<close>

definition resolve_mime :: "'s os \<Rightarrow> string \<Rightarrow> string option" where
  "resolve_mime os path =
     Option.bind (path_extension os path)
       (\<lambda>e. map_of [(''png'', ''image/png''), (''jpg'', ''image/jpeg''), (''jpeg'', ''image/jpeg''),
          (''gif'', ''image/gif''), (''webp'', ''image/webp''), (''pdf'', ''application/pdf'')] (to_ascii_lowercase e))"

definition resolve_file_url :: "'s os \<Rightarrow> string \<Rightarrow> 's \<Rightarrow> (string, string) result \<times> 's" where
  "resolve_file_url os path s =
     (case resolve_mime os path of
        None \<Rightarrow> (Err (''unsupported file extension: '' @ path), s)
      | Some mime \<Rightarrow>
          apfst (res_map (\<lambda>bytes. ''data:'' @ mime @ '';base64,'' @ base64 os bytes)) (os_read os path s))"

fun json_set :: "string \<Rightarrow> json \<Rightarrow> json \<Rightarrow> json" where
  "json_set k v (JObject kvs) = JObject (AList.update k v kvs)"
| "json_set k v j = j"

definition resolve_content_block :: "'s os \<Rightarrow> content_block \<Rightarrow> 's \<Rightarrow> content_block \<times> 's" where
  "resolve_content_block os b s =
     (case b of
        BImageUrl image_url \<Rightarrow>
          (case Option.bind (json_get ''url'' image_url) as_str of
             None \<Rightarrow> (b, s)
           | Some url \<Rightarrow>
               if \<not> starts_with url ''file:///'' then (b, s)
               else
                 (case resolve_file_url os (drop 7 url) s of
                    (Ok data_url, s') \<Rightarrow> (BImageUrl (json_set ''url'' (JString data_url) image_url), s')
                  | (Err err, s') \<Rightarrow>
                      (BText (''[Image not available: '' @ drop 7 url @ '': '' @ err @ '']''), s')))
      | _ \<Rightarrow> (b, s))"

fun map_state :: "('a \<Rightarrow> 's \<Rightarrow> 'b \<times> 's) \<Rightarrow> 'a list \<Rightarrow> 's \<Rightarrow> 'b list \<times> 's" where
  "map_state f [] s = ([], s)"
| "map_state f (x # xs) s = (case f x s of (y, s1) \<Rightarrow> (case map_state f xs s1 of (ys, s2) \<Rightarrow> (y # ys, s2)))"

definition resolve_typed_block :: "'s os \<Rightarrow> typed_block \<Rightarrow> 's \<Rightarrow> typed_block \<times> 's" where
  "resolve_typed_block os t s =
     (case t of Known b \<Rightarrow> apfst Known (resolve_content_block os b s) | Unknown v \<Rightarrow> (t, s))"

definition resolve_file_urls_in_message :: "'s os \<Rightarrow> message \<Rightarrow> 's \<Rightarrow> message \<times> 's" where
  "resolve_file_urls_in_message os m s =
     (case m_content m of
        Some (CBlocks bs) \<Rightarrow>
          (case map_state (resolve_typed_block os) bs s of
             (bs', s') \<Rightarrow> (m\<lparr>m_content := Some (CBlocks bs')\<rparr>, s'))
      | _ \<Rightarrow> (m, s))"

definition resolve_file_urls :: "'s os \<Rightarrow> message list \<Rightarrow> 's \<Rightarrow> message list \<times> 's" where
  "resolve_file_urls os = map_state (resolve_file_urls_in_message os)"

subsection \<open>The process\<close>

record ('w, 'x) host =
  client :: "'w acp_client"
  outside :: 'x

definition on_client ::
    "('w acp_client \<Rightarrow> 'r \<times> 'w acp_client) \<Rightarrow> ('w, 'x) host \<Rightarrow> 'r \<times> ('w, 'x) host" where
  "on_client f h = (case f (client h) of (r, c) \<Rightarrow> (r, h\<lparr>client := c\<rparr>))"

definition acp_service_of :: "'w acp_env \<Rightarrow> (('w, 'x) host, acp_error) acp_service" where
  "acp_service_of A =
     \<lparr>svc_text_delta = (\<lambda>t. on_client (stream_text_delta A t)),
      svc_activity = (\<lambda>t. on_client (stream_activity A t)),
      svc_tool_call = (\<lambda>i n v. on_client (stream_tool_call A i n v)),
      svc_tool_result = (\<lambda>i v b. on_client (stream_tool_result A i v b)),
      svc_turn_end = (\<lambda>ms u. on_client (turn_end A ms u)),
      svc_context_compacted = (\<lambda>t ms u. on_client (context_compacted A t ms u)),
      svc_quota_check = on_client (acp_quota_check A),
      svc_quota_update = (\<lambda>i k. on_client (acp_quota_update A i k)),
      svc_heartbeat = on_client (acp_heartbeat A),
      svc_tools_call = (\<lambda>n v. on_client (acp_tools_call A n v))\<rparr>"

text \<open>
  What the process is given: its client's surroundings, the operating system, the decoder of the
  boot response, the start of a trace, and the surroundings of the loop, whose \<open>acp\<close> is
  replaced by the client.
\<close>

record ('w, 'x) main_env =
  me_acp :: "'w acp_env"
  me_os :: "('w, 'x) host os"
  decode_initialize :: "json \<Rightarrow> initialize_result option"
  set_current_dir :: "string \<Rightarrow> ('w, 'x) host \<Rightarrow> (unit, string) result \<times> ('w, 'x) host"
  create_trace :: "string \<Rightarrow> string list \<Rightarrow> ('w, 'x) host \<Rightarrow> ('w, 'x) host"
  me_loop :: "(('w, 'x) host, acp_error) loop_env"

definition session_env :: "('w, 'x) main_env \<Rightarrow> (('w, 'x) host, acp_error) loop_env" where
  "session_env M = (me_loop M)\<lparr>acp := acp_service_of (me_acp M)\<rparr>"

datatype main_error = InitializeFailed acp_error | ChdirFailed string | PushFailed acp_error

datatype exit_kind = Cancelled | Exited main_error | ExitPanic

record ('w, 'x) session =
  s_messages :: "message list"
  s_registry :: "('w, 'x) host tool_registry"
  s_host :: "('w, 'x) host"

fun connect_all ::
    "'s mcp_env \<Rightarrow> string list \<Rightarrow> 's tool_registry \<Rightarrow> 's \<Rightarrow> 's tool_registry \<times> 's" where
  "connect_all E [] reg s = (reg, s)"
| "connect_all E (url # urls) reg s = (case connect_mcp E url reg s of (_, reg', s') \<Rightarrow> connect_all E urls reg' s')"

definition fetch_acp_tools ::
    "'w acp_env \<Rightarrow> ('w, 'x) host tool_registry \<Rightarrow> ('w, 'x) host
      \<Rightarrow> ('w, 'x) host tool_registry \<times> ('w, 'x) host" where
  "fetch_acp_tools A reg h =
     (case on_client (acp_tools_list A) h of
        (Ok v, h') \<Rightarrow>
          (let tools = parse_acp_tools v in (if tools = [] then reg else set_acp_tools tools reg, h'))
      | (Err _, h') \<Rightarrow> (reg, h'))"

definition prepend_system :: "string \<Rightarrow> message list \<Rightarrow> message list" where
  "prepend_system p ms =
     (case ms of
        m # _ \<Rightarrow> if m_role m = RSystem then ms else plain_message RSystem p # ms
      | [] \<Rightarrow> [plain_message RSystem p])"

text \<open>A turn on a pushed message. An error of the turn is logged.\<close>

definition user_turn ::
    "('w, 'x) main_env \<Rightarrow> config \<Rightarrow> message \<Rightarrow> ('w, 'x) session \<Rightarrow> acp_error flow \<times> ('w, 'x) session" where
  "user_turn M c m st =
     (case resolve_file_urls_in_message (me_os M) m (s_host st) of (m', h1) \<Rightarrow>
        let preview = unwrap_or [] (Option.bind (m_content m') extract_text);
            tags = conf_model c # (case agent_name c of None \<Rightarrow> [] | Some n \<Rightarrow> [n]);
            h2 = create_trace M preview tags h1
        in case run (session_env M) (loop_config_of c) (s_registry st) (s_messages st @ [m']) h2 of
             (x, ls) \<Rightarrow> (x, \<lparr>s_messages = messages ls, s_registry = registry_of ls, s_host = world ls\<rparr>))"

text \<open>The outer loop, with the number of pushes it may take.\<close>

fun turns ::
    "('w, 'x) main_env \<Rightarrow> config \<Rightarrow> nat \<Rightarrow> ('w, 'x) session \<Rightarrow> (exit_kind \<times> ('w, 'x) session) option" where
  "turns M c 0 st = None"
| "turns M c (Suc n) st =
     (case on_client (next_push (me_acp M)) (s_host st) of
        (Err e, h) \<Rightarrow> Some (Exited (PushFailed e), st\<lparr>s_host := h\<rparr>)
      | (Ok PushCancel, h) \<Rightarrow> Some (Cancelled, st\<lparr>s_host := h\<rparr>)
      | (Ok (PushMessage m), h) \<Rightarrow>
          (case user_turn M c m (st\<lparr>s_host := h\<rparr>) of
             (Crash, st') \<Rightarrow> Some (ExitPanic, st')
           | (_, st') \<Rightarrow> turns M c n st'))"

text \<open>
  Every push takes a notification from the client, so one more than what is buffered or on the
  stream is enough.
\<close>

definition client_size :: "'w acp_client \<Rightarrow> nat" where
  "client_size c = length (pending_notifications c) + length (reader c)"

definition agent_run ::
    "('w, 'x) main_env \<Rightarrow> config \<Rightarrow> ('w, 'x) host \<Rightarrow> (exit_kind \<times> ('w, 'x) session) option" where
  "agent_run M c h0 =
     (case connect_all (env_mcp (me_loop M)) (mcp_servers c) (tools_new (me_os M)) h0 of (reg1, h1) \<Rightarrow>
      (case fetch_acp_tools (me_acp M) reg1 h1 of (reg2, h2) \<Rightarrow>
      (case (if workspace c \<noteq> ''.'' then set_current_dir M (workspace c) h2 else (Ok (), h2)) of
         (Err e, h3) \<Rightarrow> Some (Exited (ChdirFailed e), \<lparr>s_messages = [], s_registry = reg2, s_host = h3\<rparr>)
       | (Ok _, h3) \<Rightarrow>
           (case on_client (acp_initialize (me_acp M) (decode_initialize M)) h3 of
              (Err e, h4) \<Rightarrow> Some (Exited (InitializeFailed e), \<lparr>s_messages = [], s_registry = reg2, s_host = h4\<rparr>)
            | (Ok init, h4) \<Rightarrow>
                (case resolve_file_urls (me_os M) (init_messages init) h4 of (ms, h5) \<Rightarrow>
                   turns M c (Suc (client_size (client h5)))
                     \<lparr>s_messages = prepend_system (system_prompt init) ms, s_registry = reg2, s_host = h5\<rparr>)))))"

subsection \<open>Lemmas\<close>

text \<open>What is left to read only shrinks: the number of lines, and the set of lines.\<close>

definition unread :: "'w acp_client \<Rightarrow> string set" where
  "unread c = set (pending_notifications c) \<union> {buf. Ok buf \<in> set (reader c)}"

definition shrinks :: "('w acp_client \<Rightarrow> 'r \<times> 'w acp_client) \<Rightarrow> bool" where
  "shrinks f \<longleftrightarrow> (\<forall>c. client_size (snd (f c)) \<le> client_size c \<and> unread (snd (f c)) \<subseteq> unread c)"

lemma await_response_shrinks:
  assumes "await_response E ls pending = (r, rest, pending')"
  shows "length pending' + length rest \<le> length pending + length ls
    \<and> set pending' \<union> {buf. Ok buf \<in> set rest} \<subseteq> set pending \<union> {buf. Ok buf \<in> set ls}"
  using assms
  by (induction E ls pending rule: await_response.induct) (force split: option.splits if_splits)+

lemma send_request_shrinks: "shrinks (send_request E m p)"
  unfolding shrinks_def
proof
  fix c :: "'a acp_client"
  obtain r rest pending where "await_response E (reader c) (pending_notifications c) = (r, rest, pending)"
    by (metis surj_pair)
  from this await_response_shrinks [OF this]
  show "client_size (snd (send_request E m p c)) \<le> client_size c \<and> unread (snd (send_request E m p c)) \<subseteq> unread c"
    by (auto simp: send_request_def client_size_def unread_def split: prod.splits bool.splits)
qed

lemma send_notification_shrinks: "shrinks (send_notification E m p)"
  by (auto simp: shrinks_def send_notification_def client_size_def unread_def split: prod.splits)

lemma shrinks_apfst: "shrinks f \<Longrightarrow> shrinks (\<lambda>c. apfst g (f c))"
  by (simp add: shrinks_def)

lemma recv_notification_shrinks: "shrinks (recv_notification E)"
  by (auto simp: shrinks_def recv_notification_def client_size_def unread_def split: list.splits result.splits)

text \<open>The step of \<open>next_push\<close> on a notification it skips.\<close>

lemma next_push_cases:
  obtains (ended) e c' where "recv_notification E c = (Err e, c')" "next_push E c = (Err e, c')"
  | (message) n c' where "recv_notification E c = (Ok n, c')"
      "next_push E c = (res_bind (ok_or ParseParams (decode_params E (notif_params n)))
         (\<lambda>p. res_map PushMessage (session_message_to_llm_message E p)), c')"
  | (cancel) n c' where "recv_notification E c = (Ok n, c')" "next_push E c = (Ok PushCancel, c')"
  | (skip) n c' where "recv_notification E c = (Ok n, c')" "next_push E c = next_push E c'"
proof (cases "recv_notification E c")
  case (Pair r c')
  show thesis
  proof (cases r)
    case (Err e)
    with Pair ended show thesis by (simp add: next_push.simps [of E c])
  next
    case (Ok n)
    with Pair message cancel skip show thesis
      by (cases "notif_method n = SESSION_MESSAGE"; cases "notif_method n = SESSION_CANCEL")
        (simp_all add: next_push.simps [of E c])
  qed
qed

lemma recv_notification_source:
  "recv_notification E c = (Ok n, c') \<Longrightarrow> \<exists>buf \<in> unread c. parse_notification E buf = Ok n"
  by (auto simp: recv_notification_def unread_def split: list.splits result.splits)

lemma next_push_shrinks: "shrinks (next_push E)"
proof -
  have "client_size (snd (next_push E c)) \<le> client_size c \<and> unread (snd (next_push E c)) \<subseteq> unread c" for c
  proof (induction "client_size c" arbitrary: c rule: less_induct)
    case less
    have s: "client_size c' \<le> client_size c" "unread c' \<subseteq> unread c" if "recv_notification E c = (r, c')" for r c'
      using recv_notification_shrinks that unfolding shrinks_def by (metis snd_conv)+
    show ?case
    proof (cases rule: next_push_cases [where E = E and c = c])
      case (skip n c')
      from recv_notification_consumes [OF skip(1)] have "client_size c' < client_size c" by (simp add: client_size_def)
      from less [OF this] s [OF skip(1)] skip(2) show ?thesis by auto
    qed (use s in auto)
  qed
  then show ?thesis by (simp add: shrinks_def)
qed

text \<open>A pushed message was one of the lines, and its push leaves less to read.\<close>

lemma next_push_message:
  assumes "next_push E c = (Ok (PushMessage m), c')"
  shows "client_size c' < client_size c \<and> (\<exists>buf \<in> unread c. \<exists>n p. parse_notification E buf = Ok n
    \<and> decode_params E (notif_params n) = Some p \<and> session_message_to_llm_message E p = Ok m)"
  using assms
proof (induction "client_size c" arbitrary: c rule: less_induct)
  case less
  have s: "client_size d < client_size c \<and> unread d \<subseteq> unread c" if "recv_notification E c = (Ok n, d)" for n d
    using recv_notification_shrinks recv_notification_consumes [OF that] that
    unfolding shrinks_def client_size_def by (metis snd_conv)
  show ?case
  proof (cases rule: next_push_cases [where E = E and c = c])
    case (message n d)
    with less.prems s recv_notification_source [OF message(1)] show ?thesis by (auto simp: res_bind_Ok)
  next
    case (skip n d)
    with less.prems s [OF skip(1)] have d: "client_size d < client_size c" "unread d \<subseteq> unread c"
      "next_push E d = (Ok (PushMessage m), c')" by simp_all
    from less.hyps [OF d(1,3)] d(1,2) show ?thesis by (meson order_less_trans subsetD)
  qed (use less.prems in auto)
qed

lemmas client_ops_shrink = send_request_shrinks send_notification_shrinks

lemmas acp_ops = stream_text_delta_def stream_activity_def stream_tool_call_def stream_tool_result_def turn_end_def
  context_compacted_def acp_quota_check_def acp_quota_update_def acp_heartbeat_def acp_tools_call_def

lemma service_ops_shrink:
  "shrinks (stream_text_delta A t)" "shrinks (stream_activity A t)" "shrinks (stream_tool_call A i n v)"
  "shrinks (stream_tool_result A i v b)" "shrinks (turn_end A ms u)" "shrinks (context_compacted A t ms u)"
  "shrinks (acp_quota_check A)" "shrinks (acp_quota_update A p q)" "shrinks (acp_heartbeat A)"
  "shrinks (acp_tools_call A n v)"
  by (simp_all add: acp_ops client_ops_shrink)
    (simp_all add: shrinks_def acp_ops client_ops_shrink [unfolded shrinks_def])

text \<open>The predicate on the host that a turn keeps.\<close>

definition client_within :: "nat \<Rightarrow> string set \<Rightarrow> ('w, 'x) host \<Rightarrow> bool" where
  "client_within k U h \<longleftrightarrow> client_size (client h) \<le> k \<and> unread (client h) \<subseteq> U"

lemma on_client_within: "shrinks f \<Longrightarrow> client_within k U h \<Longrightarrow> client_within k U (snd (on_client f h))"
  unfolding shrinks_def client_within_def on_client_def
  by (simp add: case_prod_beta) (meson order_trans)

lemma service_keeps_within: "acp_keeps (acp_service_of A) (client_within k U)"
  by (simp add: acp_keeps_def acp_service_of_def on_client_within service_ops_shrink)


subsection \<open>Who touches the client\<close>

definition os_keeps :: "'s os \<Rightarrow> ('s \<Rightarrow> bool) \<Rightarrow> bool" where
  "os_keeps os J \<longleftrightarrow> (\<forall>w. J w \<longrightarrow>
     (\<forall>p. J (snd (os_read_to_string os p w))) \<and> (\<forall>p. J (snd (os_read os p w)))
   \<and> (\<forall>p. J (snd (os_create_dir_all os p w))) \<and> (\<forall>p t. J (snd (os_write os p t w)))
   \<and> (\<forall>a t. J (snd (os_exec os a t w))) \<and> (\<forall>a. J (snd (os_output os a w)))
   \<and> (\<forall>p. J (snd (os_walk os p w))))"

lemma os_keeps_fun: "(\<And>l. os_keeps os (\<lambda>w. f w = l)) \<Longrightarrow> os_keeps os (\<lambda>w. P (f w))"
  unfolding os_keeps_def by metis

lemma os_keepsD:
  assumes "os_keeps os J" and "J w"
  shows "os_read_to_string os p w = (r1, w') \<Longrightarrow> J w'" and "os_read os p w = (r2, w') \<Longrightarrow> J w'"
    and "os_create_dir_all os p w = (r3, w') \<Longrightarrow> J w'" and "os_write os p t w = (r4, w') \<Longrightarrow> J w'"
    and "os_exec os a k w = (r5, w') \<Longrightarrow> J w'" and "os_output os a w = (r6, w') \<Longrightarrow> J w'"
    and "os_walk os p w = (r7, w') \<Longrightarrow> J w'"
  using assms unfolding os_keeps_def by (metis snd_conv)+

lemma builtin_tools_keep:
  assumes "os_keeps os J" and "J w"
  shows "J (snd (tool_read os args w))" and "J (snd (tool_exec os args w))" and "J (snd (tool_glob os args w))"
    and "J (snd (tool_grep os args w))" and "J (snd (tool_read_media os args w))" and "J (snd (tool_write os args w))"
proof -
  note d = os_keepsD [OF assms]
  show "J (snd (tool_read os args w))"
    by (auto simp: tool_read_def Let_def assms(2) split: result.splits prod.splits option.splits dest: d(1))
  show "J (snd (tool_exec os args w))"
    by (auto simp: tool_exec_def Let_def assms(2) split: result.splits prod.splits exec_outcome.splits dest: d(5))
  show "J (snd (tool_glob os args w))"
    by (auto simp: tool_glob_def Let_def assms(2) split: result.splits prod.splits dest: d(7))
  show "J (snd (tool_grep os args w))"
    by (auto simp: tool_grep_def Let_def assms(2) split: result.splits prod.splits dest: d(6))
  show "J (snd (tool_read_media os args w))"
    by (auto simp: tool_read_media_def assms(2) split: result.splits prod.splits option.splits dest: d(2))
  have dirs: "J w1" if "(case path_parent os path of None \<Rightarrow> (Ok (), w)
      | Some parent \<Rightarrow> apfst (res_map_err (g parent)) (os_create_dir_all os parent w)) = (r, w1)" for path g r w1
    using that assms by (auto split: option.splits simp: apfst_def map_prod_def case_prod_beta os_keeps_def)
  show "J (snd (tool_write os args w))"
    by (auto simp: tool_write_def assms(2) split: result.splits prod.splits dest!: dirs dest: os_keepsD(4) [OF assms(1)])
qed

lemma tools_new_keep: "os_keeps os J \<Longrightarrow> tools_keep J (builtins (tools_new os))"
  by (simp add: tools_keep_def tools_new_def register_builtins_def register_tool_def builtin_tools_keep)


text \<open>Only the client's own operations change the client.\<close>

definition client_private :: "('w, 'x) main_env \<Rightarrow> bool" where
  "client_private M \<longleftrightarrow> (\<forall>c. outside_keeps (me_loop M) (\<lambda>h. client h = c) \<and> os_keeps (me_os M) (\<lambda>h. client h = c)
     \<and> (\<forall>t tags h. client (create_trace M t tags h) = client h)
     \<and> (\<forall>p h. client (snd (set_current_dir M p h)) = client h))"

lemma client_privateD:
  assumes "client_private M"
  shows "outside_keeps (session_env M) (client_within k U)" and "os_keeps (me_os M) (client_within k U)"
    and "client_within k U h \<Longrightarrow> client_within k U (create_trace M t tags h)"
    and "client_within k U h \<Longrightarrow> client_within k U (snd (set_current_dir M p h))"
    and "outside_keeps (me_loop M) (client_within k U)"
proof -
  let ?P = "\<lambda>c. client_size c \<le> k \<and> unread c \<subseteq> U"
  have e: "client_within k U = (\<lambda>h :: ('a, 'b) host. ?P (client h))" by (simp add: fun_eq_iff client_within_def)
  show l: "outside_keeps (me_loop M) (client_within k U)"
    unfolding e by (rule outside_keeps_fun [where f = client]) (use assms in \<open>simp add: client_private_def\<close>)
  then show "outside_keeps (session_env M) (client_within k U)"
    by (simp add: outside_keeps_def session_env_def)
  show "os_keeps (me_os M) (client_within k U)"
    unfolding e by (rule os_keeps_fun [where f = client]) (use assms in \<open>simp add: client_private_def\<close>)
  show "client_within k U h \<Longrightarrow> client_within k U (create_trace M t tags h)"
    "client_within k U h \<Longrightarrow> client_within k U (snd (set_current_dir M p h))"
    using assms by (simp_all add: client_private_def client_within_def)
qed

lemma resolve_content_block_keeps:
  assumes "os_keeps os J" and "J w" shows "J (snd (resolve_content_block os b w))"
proof -
  have "J (snd (resolve_file_url os p w))" for p
    using assms by (auto simp: resolve_file_url_def os_keeps_def split: option.splits)
  then have "J w'" if "resolve_file_url os p w = (r, w')" for p r w' using that by (metis snd_conv)
  then show ?thesis
    using assms(2) by (auto simp: resolve_content_block_def split: content_block.splits option.splits prod.splits result.splits)
qed

lemma map_state_keeps:
  "(\<And>x w. J w \<Longrightarrow> J (snd (f x w))) \<Longrightarrow> J w \<Longrightarrow> J (snd (map_state f xs w))"
proof (induction xs arbitrary: w)
  case (Cons x xs)
  from Cons.IH [OF Cons.prems(1) Cons.prems(1) [OF Cons.prems(2)]] show ?case by (simp add: case_prod_beta)
qed simp

lemma resolve_message_keeps:
  assumes "os_keeps os J" and "J w" shows "J (snd (resolve_file_urls_in_message os m w))"
proof -
  have "J (snd (resolve_typed_block os t w))" if "J w" for t w
    using resolve_content_block_keeps [OF assms(1) that] that by (simp add: resolve_typed_block_def split: typed_block.split)
  from map_state_keeps [where f = "resolve_typed_block os", OF this assms(2)] assms(2) show ?thesis
    by (auto simp: resolve_file_urls_in_message_def case_prod_beta split: option.split content.split)
qed

lemma resolve_message_shape:
  "m_role (fst (resolve_file_urls_in_message os m w)) = m_role m"
  "m_tool_calls (fst (resolve_file_urls_in_message os m w)) = m_tool_calls m"
  "m_tool_call_id (fst (resolve_file_urls_in_message os m w)) = m_tool_call_id m"
  by (auto simp: resolve_file_urls_in_message_def case_prod_beta split: option.split content.split)

lemma session_tool_calls_keep:
  assumes "client_private M" and "tools_keep (client_within k U) tools"
  shows "stage_inv (world_inv (client_within k U) tools) (handle_tool_call (session_env M) tc)"
proof (rule handle_tool_call_keeps [OF _ client_privateD(1) [OF assms(1)] assms(2)])
  show "acp_keeps (acp (session_env M)) (client_within k U)"
    by (simp add: session_env_def service_keeps_within)
qed (simp_all add: session_env_def acp_service_of_def on_client_within service_ops_shrink)

lemma user_turn_within:
  assumes M: "client_private M" and w: "client_within k U (s_host st)"
    and T: "tools_keep (client_within k U) (builtins (s_registry st))"
    and t: "user_turn M c m st = (x, st')" and x: "x \<noteq> Crash"
  shows "client_within k U (s_host st') \<and> builtins (s_registry st') = builtins (s_registry st)"
proof -
  obtain m' h1 where r: "resolve_file_urls_in_message (me_os M) m (s_host st) = (m', h1)"
    by (cases "resolve_file_urls_in_message (me_os M) m (s_host st)")
  have h1: "client_within k U h1"
    using resolve_message_keeps [OF client_privateD(2) [OF M] w, of m] r by simp
  let ?tags = "conf_model c # (case agent_name c of None \<Rightarrow> [] | Some n \<Rightarrow> [n])"
  let ?h2 = "create_trace M (unwrap_or [] (Option.bind (m_content m') extract_text)) ?tags h1"
  obtain y ls where l: "run (session_env M) (loop_config_of c) (s_registry st) (s_messages st @ [m']) ?h2 = (y, ls)"
    by (cases "run (session_env M) (loop_config_of c) (s_registry st) (s_messages st @ [m']) ?h2")
  have st': "y = x" "st' = \<lparr>s_messages = messages ls, s_registry = registry_of ls, s_host = world ls\<rparr>"
    using t r l by (simp_all add: user_turn_def Let_def)
  have "world_inv (client_within k U) (builtins (s_registry st)) ls"
  proof (rule run_keeps [OF _ client_privateD(1) [OF M] session_tool_calls_keep [OF M T] l])
    show "acp_keeps (acp (session_env M)) (client_within k U)" by (simp add: session_env_def service_keeps_within)
    show "client_within k U ?h2" by (rule client_privateD(3) [OF M h1])
  qed (use x st'(1) in simp)
  with st'(2) show ?thesis by (simp add: world_inv_def)
qed

text \<open>The history over a turn and over a session.\<close>

lemma user_turn_pairing:
  assumes "responses_well_formed (llm (me_loop M))" and "pairing {} (s_messages st) = Some {}"
    and "m_role m \<noteq> RTool" and "m_tool_calls m = None"
    and "user_turn M c m st = (x, st')" and "x \<noteq> Crash"
  shows "pairing {} (s_messages st') = Some {}"
proof -
  obtain m' h1 where r: "resolve_file_urls_in_message (me_os M) m (s_host st) = (m', h1)"
    by (cases "resolve_file_urls_in_message (me_os M) m (s_host st)")
  have "m_role m' \<noteq> RTool" "m_tool_calls m' = None"
    using resolve_message_shape [of "me_os M" m "s_host st"] r assms(3,4) by simp_all
  then have p: "pairing {} (s_messages st @ [m']) = Some {}"
    by (simp add: pairing_append assms(2) unanswered_step_def split: role_kind.split)
  have l: "responses_well_formed (llm (session_env M))" using assms(1) by (simp add: session_env_def)
  from assms(5,6) r run_pairing [OF l p] show ?thesis
    by (auto simp: user_turn_def Let_def split: prod.splits)
qed

text \<open>No pushed message claims to be the answer of a tool.\<close>

definition no_tool_pushes :: "'w acp_env \<Rightarrow> string set \<Rightarrow> bool" where
  "no_tool_pushes A U \<longleftrightarrow> (\<forall>buf n p. buf \<in> U \<longrightarrow> parse_notification A buf = Ok n
     \<longrightarrow> decode_params A (notif_params n) = Some p \<longrightarrow> smp_role p \<noteq> PTool)"

lemma pushed_message_shape:
  assumes "session_message_to_llm_message A p = Ok m"
  shows "m_role m = llm_role (smp_role p) \<and> m_tool_calls m = None"
  using assms by (auto simp: session_message_to_llm_message_def Let_def split: json.splits)

lemma turns_return:
  assumes M: "client_private M" and "client_size (client (s_host st)) < n"
    and T: "\<And>k U. tools_keep (client_within k U) (builtins (s_registry st))"
  shows "\<exists>r. turns M c n st = Some r"
  using assms(2,3)
proof (induction n arbitrary: st)
  case (Suc n)
  obtain r cl where p: "next_push (me_acp M) (client (s_host st)) = (r, cl)"
    by (cases "next_push (me_acp M) (client (s_host st))")
  let ?st = "st\<lparr>s_host := (s_host st)\<lparr>client := cl\<rparr>\<rparr>"
  show ?case
  proof (cases "\<exists>m. r = Ok (PushMessage m)")
    case True
    then obtain m where m: "r = Ok (PushMessage m)" by blast
    obtain x st' where u: "user_turn M c m ?st = (x, st')" by (cases "user_turn M c m ?st")
    have "turns M c (Suc n) st = (if x = Crash then Some (ExitPanic, st') else turns M c n st')"
      using p m u by (cases x) (simp_all add: on_client_def)
    moreover have "\<exists>r. turns M c n st' = Some r" if "x \<noteq> Crash"
    proof -
      have "client_within (client_size cl) (unread cl) (s_host ?st)" by (simp add: client_within_def)
      from user_turn_within [OF M this _ u that] Suc.prems(2)
      have w: "client_within (client_size cl) (unread cl) (s_host st')" "builtins (s_registry st') = builtins (s_registry st)"
        by simp_all
      have "client_size cl < client_size (client (s_host st))" using next_push_message p m by blast
      with w(1) Suc.prems(1) have "client_size (client (s_host st')) < n" by (simp add: client_within_def)
      with Suc.IH Suc.prems(2) w(2) show ?thesis by simp
    qed
    ultimately show ?thesis by simp
  next
    case False
    then have "(\<exists>e. r = Err e) \<or> r = Ok PushCancel" by (metis push.exhaust result.exhaust)
    with p show ?thesis by (auto simp: on_client_def)
  qed
qed simp

lemma turns_pairing:
  assumes M: "client_private M" and L: "responses_well_formed (llm (me_loop M))"
    and N: "no_tool_pushes (me_acp M) U"
    and "pairing {} (s_messages st) = Some {}" and "unread (client (s_host st)) \<subseteq> U"
    and T: "\<And>k V. tools_keep (client_within k V) (builtins (s_registry st))"
    and "turns M c n st = Some (x, st')" and "x \<noteq> ExitPanic"
  shows "pairing {} (s_messages st') = Some {}"
  using assms(4-8)
proof (induction n arbitrary: st)
  case (Suc n)
  obtain r cl where p: "next_push (me_acp M) (client (s_host st)) = (r, cl)"
    by (cases "next_push (me_acp M) (client (s_host st))")
  let ?st = "st\<lparr>s_host := (s_host st)\<lparr>client := cl\<rparr>\<rparr>"
  have cl: "unread cl \<subseteq> U"
    using next_push_shrinks [of "me_acp M"] p Suc.prems(2) unfolding shrinks_def by (metis order_trans snd_conv)
  show ?case
  proof (cases "\<exists>m. r = Ok (PushMessage m)")
    case True
    then obtain m where m: "r = Ok (PushMessage m)" by blast
    obtain y st1 where u: "user_turn M c m ?st = (y, st1)" by (cases "user_turn M c m ?st")
    have t: "turns M c (Suc n) st = (if y = Crash then Some (ExitPanic, st1) else turns M c n st1)"
      using p m u by (cases y) (simp_all add: on_client_def)
    with Suc.prems(4,5) have y: "y \<noteq> Crash" "turns M c n st1 = Some (x, st')" by (auto split: if_splits)
    from next_push_message [OF p [unfolded m]] obtain buf k q where
      "buf \<in> unread (client (s_host st))" "parse_notification (me_acp M) buf = Ok k"
      "decode_params (me_acp M) (notif_params k) = Some q" "session_message_to_llm_message (me_acp M) q = Ok m" by blast
    with N Suc.prems(2) have "smp_role q \<noteq> PTool" "m_role m = llm_role (smp_role q)" "m_tool_calls m = None"
      using pushed_message_shape [of "me_acp M" q m] unfolding no_tool_pushes_def by blast+
    then have "m_role m \<noteq> RTool" "m_tool_calls m = None" by (cases "smp_role q"; simp)+
    from user_turn_pairing [OF L _ this u y(1)] Suc.prems(1) have "pairing {} (s_messages st1) = Some {}" by simp
    moreover have "client_within (client_size cl) U (s_host ?st)" using cl by (simp add: client_within_def)
    from user_turn_within [OF M this _ u y(1)] Suc.prems(3)
    have "client_within (client_size cl) U (s_host st1)" "builtins (s_registry st1) = builtins (s_registry st)" by simp_all
    ultimately show ?thesis using Suc.IH [of st1] Suc.prems(3,5) y(2) by (simp add: client_within_def)
  next
    case False
    then have "(\<exists>e. r = Err e) \<or> r = Ok PushCancel" by (metis push.exhaust result.exhaust)
    with p Suc.prems(1,4) show ?thesis by (auto simp: on_client_def)
  qed
qed simp

text \<open>Start-up leaves nothing more to read, and the built-in tools as they were made.\<close>

lemma list_tools_keeps:
  assumes "outside_keeps E J" and "J w" shows "J (snd (snd (list_tools (env_mcp E) c w)))"
proof -
  have i: "J (snd (snd (mcp_initialize (env_mcp E) c w)))"
    using mcp_send_keeps [OF assms] by (simp add: mcp_initialize_def)
  obtain r c1 w1 where e: "mcp_initialize (env_mcp E) c w = (r, c1, w1)" by (metis surj_pair)
  with i have "J w1" by simp
  from mcp_send_keeps [OF assms(1) this] e \<open>J w1\<close> show ?thesis by (cases r) (simp_all add: list_tools_def)
qed

lemma connect_all_keeps:
  assumes "outside_keeps E J" and "J w" and "connect_all (env_mcp E) urls reg w = (reg', w')"
  shows "J w' \<and> builtins reg' = builtins reg"
  using assms(2,3)
proof (induction urls arbitrary: reg w)
  case (Cons url urls)
  obtain r c w1 where l: "list_tools (env_mcp E) (mcp_new url) w = (r, c, w1)" by (metis surj_pair)
  with list_tools_keeps [OF assms(1) Cons.prems(1), of "mcp_new url"] have w1: "J w1" by simp
  obtain reg1 where c: "connect_mcp (env_mcp E) url reg w = (case r of Ok _ \<Rightarrow> Ok () | Err e \<Rightarrow> Err e, reg1, w1)"
      "builtins reg1 = builtins reg"
    using l by (cases r) (auto simp: connect_mcp_def)
  from Cons.IH [OF w1, of reg1] Cons.prems(2) c show ?case by simp
qed simp

lemma fetch_acp_tools_within:
  assumes "client_within k U h" and "fetch_acp_tools A reg h = (reg', h')"
  shows "client_within k U h' \<and> builtins reg' = builtins reg"
proof -
  have "shrinks (acp_tools_list A)" by (simp add: acp_tools_list_def send_request_shrinks)
  from on_client_within [OF this assms(1)] assms(2) show ?thesis
    by (auto simp: fetch_acp_tools_def set_acp_tools_def Let_def split: prod.splits result.splits if_splits)
qed

lemma acp_initialize_shrinks: "shrinks (acp_initialize A d)"
  using send_request_shrinks unfolding shrinks_def acp_initialize_def by simp

lemma resolve_file_urls_pairing:
  "pairing p (fst (resolve_file_urls os ms w)) = pairing p ms"
proof (induction ms arbitrary: p w)
  case (Cons m ms)
  have "unanswered_step p (fst (resolve_file_urls_in_message os m w)) = unanswered_step p m"
    by (cases "m_role m") (simp_all add: unanswered_step_def resolve_message_shape)
  with Cons show ?case
    by (simp add: resolve_file_urls_def case_prod_beta resolve_message_shape)
qed (simp add: resolve_file_urls_def)

lemma prepend_system_pairing: "pairing p (prepend_system t ms) = pairing p ms"
  by (auto simp: prepend_system_def plain_message_def unanswered_step_def split: list.split)

lemma agent_run_cases:
  assumes M: "client_private M" and r: "agent_run M c h = r"
  obtains (early) e reg h' where "r = Some (Exited e, \<lparr>s_messages = [], s_registry = reg, s_host = h'\<rparr>)"
  | (started) v init st where "decode_initialize M v = Some init"
      "r = turns M c (Suc (client_size (client (s_host st)))) st"
      "pairing {} (s_messages st) = pairing {} (init_messages init)" "unread (client (s_host st)) \<subseteq> unread (client h)"
      "\<And>k U. tools_keep (client_within k U) (builtins (s_registry st))"
proof -
  let ?W = "client_within (client_size (client h)) (unread (client h))"
  obtain reg1 h1 where 1: "connect_all (env_mcp (me_loop M)) (mcp_servers c) (tools_new (me_os M)) h = (reg1, h1)"
    by (cases "connect_all (env_mcp (me_loop M)) (mcp_servers c) (tools_new (me_os M)) h")
  have "?W h" by (simp add: client_within_def)
  from connect_all_keeps [OF client_privateD(5) [OF M] this 1]
  have w1: "?W h1" "builtins reg1 = builtins (tools_new (me_os M))" by simp_all
  obtain reg2 h2 where 2: "fetch_acp_tools (me_acp M) reg1 h1 = (reg2, h2)" by (cases "fetch_acp_tools (me_acp M) reg1 h1")
  from fetch_acp_tools_within [OF w1(1) 2] w1(2) have w2: "?W h2" "builtins reg2 = builtins (tools_new (me_os M))" by simp_all
  obtain r3 h3 where 3: "(if workspace c \<noteq> ''.'' then set_current_dir M (workspace c) h2 else (Ok (), h2)) = (r3, h3)"
    by (metis surj_pair)
  have w3: "?W h3" using client_privateD(4) [OF M w2(1), of "workspace c"] w2(1) 3 by (auto split: if_splits)
  obtain r4 h4 where 4: "on_client (acp_initialize (me_acp M) (decode_initialize M)) h3 = (r4, h4)"
    by (cases "on_client (acp_initialize (me_acp M) (decode_initialize M)) h3")
  have w4: "?W h4" using on_client_within [OF acp_initialize_shrinks w3] 4 by (metis snd_conv)
  show thesis
  proof (cases "is_ok r3 \<and> is_ok r4")
    case False
    with early r 1 2 3 4 show thesis by (cases r3; cases r4) (auto simp: agent_run_def)
  next
    case True
    then obtain init where ok: "r3 = Ok ()" "r4 = Ok init" by (auto simp: is_ok_iff)
    obtain ms h5 where 5: "resolve_file_urls (me_os M) (init_messages init) h4 = (ms, h5)"
      by (cases "resolve_file_urls (me_os M) (init_messages init) h4")
    let ?st = "\<lparr>s_messages = prepend_system (system_prompt init) ms, s_registry = reg2, s_host = h5\<rparr>"
    have "?W h5"
      using map_state_keeps [where f = "resolve_file_urls_in_message (me_os M)",
          OF resolve_message_keeps [OF client_privateD(2) [OF M]] w4] 5
      by (metis resolve_file_urls_def snd_conv)
    then have u: "unread (client (s_host ?st)) \<subseteq> unread (client h)" by (simp add: client_within_def)
    have p: "pairing {} (s_messages ?st) = pairing {} (init_messages init)"
      using resolve_file_urls_pairing [of "{}" "me_os M" "init_messages init" h4] 5 by (simp add: prepend_system_pairing)
    have t: "tools_keep (client_within k U) (builtins (s_registry ?st))" for k U
      using tools_new_keep [OF client_privateD(2) [OF M]] w2(2) by simp
    have e: "r = turns M c (Suc (client_size (client (s_host ?st)))) ?st"
      using r 1 2 3 4 5 ok by (simp add: agent_run_def)
    have "\<exists>v. decode_initialize M v = Some init"
      using 4 ok(2) by (auto simp: on_client_def acp_initialize_def res_bind_Ok apfst_def map_prod_def case_prod_beta)
    with started e p u t show thesis by blast
  qed
qed

subsection \<open>Properties\<close>

text \<open>
  C15: the agent process ends. If only the client's own operations touch the client, the process
  comes to an exit on every input stream: it is cancelled, fails, or panics in a tool, and at the
  latest exits when the stream is closed. The bound on the number of turns is never reached.
\<close>

theorem agent_run_ends:
  assumes "client_private M"
  shows "\<exists>x st. agent_run M c h = Some (x, st)"
proof -
  obtain r where "agent_run M c h = r" by simp
  with assms show ?thesis
  proof (cases rule: agent_run_cases)
    case (started v init st)
    from turns_return [OF assms _ started(5), of "Suc (client_size (client (s_host st)))" c] started(2)
      \<open>agent_run M c h = r\<close>
    show ?thesis by auto
  qed (use \<open>agent_run M c h = r\<close> in simp)
qed


text \<open>
  A process whose stream holds the responses to its two start-up requests and one pushed message.
  The model answers at once.
\<close>

definition demo_lines_env :: "unit acp_env" where
  "demo_lines_env =
     \<lparr>acp_serde = \<lparr>parse_json = (\<lambda>s.
          if s = ''push'' then Some (JObject [(''method'', JString ''session/message'')])
          else if s = ''resp'' then Some (JObject [(''id'', JNull)])
          else None), print_json = (\<lambda>_. [])\<rparr>,
      acp_write = (\<lambda>_ w. (True, w)),
      decode_response = (\<lambda>_. Some \<lparr>resp_result = Some JNull, resp_error = None\<rparr>),
      decode_notification = (\<lambda>v. map_option (\<lambda>m. \<lparr>notif_method = m, notif_params = JNull\<rparr>)
         (Option.bind (json_get ''method'' v) as_str)),
      decode_params = (\<lambda>_. Some \<lparr>smp_role = PUser, smp_content = JString ''hi''\<rparr>), decode_block = (\<lambda>_. None)\<rparr>"

definition demo_loop_env :: "((unit, unit) host, acp_error) loop_env" where
  "demo_loop_env =
     \<lparr>acp = acp_service_of demo_lines_env,
      llm = \<lparr>llm_stream = (\<lambda>_ _ w. ((Ok (demo_reply 1), []), w)), llm_complete = (\<lambda>_ w. (Err [], w))\<rparr>,
      env_mcp = demo_mcp, loop_serde = \<lparr>parse_json = (\<lambda>_. None), print_json = (\<lambda>_. [])\<rparr>,
      parse_arguments = (\<lambda>_. Ok JNull), now = (\<lambda>w. (0, w)), record_generation = (\<lambda>_ w. w),
      record_tool_span = (\<lambda>_ w. w), trace_finalize = (\<lambda>_ _ _ _ w. w),
      exceeds_threshold = (\<lambda>_ _ _. False), f64_add = (\<lambda>a b. a), error_string = (\<lambda>_. [])\<rparr>"

definition idle_os :: "'s os" where
  "idle_os =
     \<lparr>os_read_to_string = (\<lambda>p s. (Err [], s)), os_read = (\<lambda>p s. (Err [], s)), os_create_dir_all = (\<lambda>p s. (Ok (), s)),
      os_write = (\<lambda>p t s. (Ok (), s)), os_exec = (\<lambda>c t s. (ExecTimeout, s)),
      os_output = (\<lambda>c s. (Ok [], s)), os_walk = (\<lambda>p s. ([], s)), path_parent = (\<lambda>_. None),
      path_extension = (\<lambda>_. None), to_lowercase = (\<lambda>s. s), glob_pattern = (\<lambda>_. Err []), base64 = (\<lambda>s. s)\<rparr>"

definition demo_main :: "(unit, unit) main_env" where
  "demo_main =
     \<lparr>me_acp = demo_lines_env, me_os = idle_os,
      decode_initialize = (\<lambda>_. Some \<lparr>system_prompt = ''sys'', init_messages = [], tools_config = JNull\<rparr>),
      set_current_dir = (\<lambda>_ h. (Ok (), h)), create_trace = (\<lambda>_ _ h. h), me_loop = demo_loop_env\<rparr>"

definition demo_conf :: config where
  "demo_conf =
     \<lparr>llm_api_key = ''k'', llm_api_url = [], conf_model = [], workspace = ''.'', mcp_servers = [], conf_max_iterations = 1,
      timeout_minutes = 60, conf_context_window = 128000, conf_compaction_threshold = 0, conf_compaction_keep_recent = 10,
      conf_max_compactions = 3, agent_name = None, sentry_dsn = None, sentry_environment = [],
      sentry_traces_sample_rate = 0, langfuse_public_key = None, langfuse_secret_key = None, langfuse_host = [],
      langfuse_environment = [], conf_langfuse_capture_input = False\<rparr>"

definition demo_host :: "(unit, unit) host" where
  "demo_host = \<lparr>client = \<lparr>reader = [Ok ''resp'', Ok ''push'', Ok ''resp'', Ok ''resp''], writer = (),
     pending_notifications = [], next_id = 1\<rparr>, outside = ()\<rparr>"

lemma demo_private: "client_private demo_main"
  by (simp add: client_private_def demo_main_def outside_keeps_def os_keeps_def demo_loop_env_def demo_mcp_def idle_os_def)

theorem agent_run_ends_witness: "\<exists>x st. agent_run demo_main demo_conf demo_host = Some (x, st)"
  by (rule agent_run_ends [OF demo_private])

definition demo_ready :: "(unit, unit) session" where
  "demo_ready = \<lparr>s_messages = [plain_message RSystem ''sys''], s_registry = tools_new idle_os,
     s_host = \<lparr>client = \<lparr>reader = [Ok ''resp''], writer = (), pending_notifications = [''push''], next_id = 3\<rparr>, outside = ()\<rparr>\<rparr>"

lemma demo_main_sel:
  "me_acp demo_main = demo_lines_env" "me_os demo_main = idle_os" "me_loop demo_main = demo_loop_env"
  "create_trace demo_main t tags h = h"
  "decode_initialize demo_main v = Some \<lparr>system_prompt = ''sys'', init_messages = [], tools_config = JNull\<rparr>"
  by (simp_all add: demo_main_def)

lemmas client_eval = on_client_def send_request_def send_notification_def demo_lines_env_def is_notification_def
  response_result_def client_size_def

lemma demo_start:
  "agent_run demo_main demo_conf demo_host = turns demo_main demo_conf (Suc (Suc (Suc 0))) demo_ready"
  by (simp add: agent_run_def demo_main_sel demo_conf_def demo_host_def demo_ready_def fetch_acp_tools_def
      acp_tools_list_def acp_initialize_def parse_acp_tools_def resolve_file_urls_def prepend_system_def client_eval
      del: turns.simps)

definition demo_over :: "(unit, unit) session" where
  "demo_over = \<lparr>s_messages = [plain_message RSystem ''sys'', plain_message RUser ''hi'', plain_message RAssistant ''done''],
     s_registry = tools_new idle_os,
     s_host = \<lparr>client = \<lparr>reader = [], writer = (), pending_notifications = [], next_id = 4\<rparr>, outside = ()\<rparr>\<rparr>"

lemma demo_pushes:
  "next_push demo_lines_env \<lparr>reader = [Ok ''resp''], writer = (), pending_notifications = [''push''], next_id = 3\<rparr>
   = (Ok (PushMessage (plain_message RUser ''hi'')), \<lparr>reader = [Ok ''resp''], writer = (), pending_notifications = [], next_id = 3\<rparr>)"
  "next_push demo_lines_env \<lparr>reader = [], writer = (), pending_notifications = [], next_id = 4\<rparr>
   = (Err StdinClosed, \<lparr>reader = [], writer = (), pending_notifications = [], next_id = 4\<rparr>)"
  by (subst next_push.simps; simp add: recv_notification_def parse_notification_def demo_lines_env_def method_names
      session_message_to_llm_message_def plain_message_def)+

lemma demo_turn:
  "user_turn demo_main demo_conf (plain_message RUser ''hi'')
     (demo_ready\<lparr>s_host := (s_host demo_ready)\<lparr>client := \<lparr>reader = [Ok ''resp''], writer = (),
        pending_notifications = [], next_id = 3\<rparr>\<rparr>\<rparr>) = (Leave, demo_over)"
  by (simp add: user_turn_def demo_main_sel resolve_file_urls_in_message_def plain_message_def demo_ready_def demo_over_def
      session_env_def demo_loop_env_def demo_conf_def loop_config_of_def timeout_secs_def run_def round_def stage_defs
      acp_service_of_def acp_ops client_eval HEARTBEAT_INTERVAL_def WIND_DOWN_ITERS_def forward_deltas_def
      accept_response_def demo_reply_def Let_def finish_turn_def)

lemma demo_session: "agent_run demo_main demo_conf demo_host = Some (Exited (PushFailed StdinClosed), demo_over)"
proof -
  have "client (s_host demo_ready) = \<lparr>reader = [Ok ''resp''], writer = (), pending_notifications = [''push''], next_id = 3\<rparr>"
    by (simp add: demo_ready_def)
  moreover have "s_host demo_over = \<lparr>client = \<lparr>reader = [], writer = (), pending_notifications = [], next_id = 4\<rparr>, outside = ()\<rparr>"
    by (simp add: demo_over_def)
  ultimately show ?thesis
    by (simp add: demo_start on_client_def demo_main_sel demo_pushes demo_turn)
qed


end
