(* ===== verification/Redis_Inbox.thy ===== *)
theory Redis_Inbox
  imports Redis_Store Overloop
begin

text \<open>
  The consumer that carries an agent's inbox stream to the sender of its tunnel
  (\<^verbatim>\<open>server/src/redis_backend/inbox.rs\<close>). The consumer runs until its tunnel is gone or it
  is aborted, so the model is one round of its loop and the repetition of rounds. The commands on
  consumer groups are a parameter, as in the theory of the store.
\<close>

definition CONSUMER_GROUP :: string where "CONSUMER_GROUP = ''owners''"
definition IDLE_POLL_MS :: nat where "IDLE_POLL_MS = 200"
definition AUTOCLAIM_INTERVAL :: nat where "AUTOCLAIM_INTERVAL = 1500"
definition AUTOCLAIM_MIN_IDLE_MS :: nat where "AUTOCLAIM_MIN_IDLE_MS = 300000"
definition MAX_DELIVERIES :: nat where "MAX_DELIVERIES = 3"
definition MAX_RECLAIM_AGE_MS :: nat where "MAX_RECLAIM_AGE_MS = 4 * 3600 * 1000"

datatype redis_value = BulkString string | OtherValue

type_synonym inbox_entry = "string \<times> (string \<times> redis_value) list"

text \<open>The commands take the key, the group and, where there is one, the consumer.\<close>

record 'r group_commands =
  xgroup_create :: "string \<Rightarrow> string \<Rightarrow> 'r \<Rightarrow> 'r"
  xreadgroup :: "string \<Rightarrow> string \<Rightarrow> string \<Rightarrow> nat \<Rightarrow> string \<Rightarrow> 'r \<Rightarrow> ((string \<times> inbox_entry list) list, string) result \<times> 'r"
  xack :: "string \<Rightarrow> string \<Rightarrow> string \<Rightarrow> 'r \<Rightarrow> 'r"
  xautoclaim :: "string \<Rightarrow> string \<Rightarrow> string \<Rightarrow> nat \<Rightarrow> nat \<Rightarrow> 'r \<Rightarrow> (inbox_entry list, string) result \<times> 'r"
  xpending_counts :: "string \<Rightarrow> string \<Rightarrow> string \<Rightarrow> 'r \<Rightarrow> (nat list, string) result \<times> 'r"
  dlq_xadd :: "string \<Rightarrow> fields \<Rightarrow> 'r \<Rightarrow> 'r"
  valid_utf8 :: "string \<Rightarrow> bool"
  lossy_utf8 :: "string \<Rightarrow> string"
  now_ms :: "'r \<Rightarrow> nat"

definition ensure_consumer_group :: "'r group_commands \<Rightarrow> (uuid \<Rightarrow> string) \<Rightarrow> uuid \<Rightarrow> 'r \<Rightarrow> 'r" where
  "ensure_consumer_group G U a w = xgroup_create G (inbox_key U a) CONSUMER_GROUP w"

definition frame_of :: "'r group_commands \<Rightarrow> inbox_entry \<Rightarrow> string option" where
  "frame_of G e =
     (case map_of (snd e) ''frame'' of
        Some (BulkString bytes) \<Rightarrow> if valid_utf8 G bytes then Some bytes else None
      | _ \<Rightarrow> None)"

text \<open>The entries of one reply: whether the tunnel turned out to be closed, which ends the consumer.\<close>

fun deliver_entries ::
    "'r group_commands \<Rightarrow> ('t, 'w) sender \<Rightarrow> string \<Rightarrow> 't \<Rightarrow> inbox_entry list \<Rightarrow> 'w \<times> 'r \<Rightarrow> bool \<times> 'w \<times> 'r" where
  "deliver_entries G send key t [] s = (False, s)"
| "deliver_entries G send key t (e # es) (c, w) =
     (case frame_of G e of
        None \<Rightarrow> deliver_entries G send key t es (c, w)
      | Some f \<Rightarrow>
          (case send t f c of
             (False, c') \<Rightarrow> (True, c', w)
           | (True, c') \<Rightarrow> deliver_entries G send key t es (c', xack G key CONSUMER_GROUP (fst e) w)))"

definition get_delivery_count :: "'r group_commands \<Rightarrow> string \<Rightarrow> string \<Rightarrow> 'r \<Rightarrow> nat \<times> 'r" where
  "get_delivery_count G key i w =
     apfst (\<lambda>r. case r of Ok (n # _) \<Rightarrow> n | _ \<Rightarrow> 1) (xpending_counts G key CONSUMER_GROUP i w)"

definition stream_id_age_ms :: "'r group_commands \<Rightarrow> string \<Rightarrow> 'r \<Rightarrow> nat option" where
  "stream_id_age_ms G i w = map_option (\<lambda>ms. now_ms G w - ms) (parse_u64 (hd (split_on (CHR ''-'') i)))"

definition should_dlq :: "nat \<Rightarrow> nat option \<Rightarrow> bool" where
  "should_dlq count age \<longleftrightarrow> MAX_DELIVERIES \<le> count \<or> (case age of Some a \<Rightarrow> MAX_RECLAIM_AGE_MS < a | None \<Rightarrow> False)"

definition dlq_fields :: "'r group_commands \<Rightarrow> (uuid \<Rightarrow> string) \<Rightarrow> uuid \<Rightarrow> nat \<Rightarrow> inbox_entry \<Rightarrow> fields" where
  "dlq_fields G U a count e =
     List.map_filter (\<lambda>(k, v). case v of BulkString b \<Rightarrow> Some (k, lossy_utf8 G b) | OtherValue \<Rightarrow> None) (snd e)
     @ [(''dlq_original_id'', fst e), (''dlq_delivery_count'', show_nat count), (''dlq_agent_id'', U a)]"

fun sort_claimed :: "'r group_commands \<Rightarrow> (uuid \<Rightarrow> string) \<Rightarrow> uuid \<Rightarrow> string \<Rightarrow> inbox_entry list \<Rightarrow> 'r \<Rightarrow> 'r" where
  "sort_claimed G U a key [] w = w"
| "sort_claimed G U a key (e # es) w =
     (case get_delivery_count G key (fst e) w of (count, w1) \<Rightarrow>
        sort_claimed G U a key es
          (if should_dlq count (stream_id_age_ms G (fst e) w1)
           then xack G key CONSUMER_GROUP (fst e) (dlq_xadd G dlq_key (dlq_fields G U a count e) w1)
           else w1))"

definition autoclaim_orphaned ::
    "'r group_commands \<Rightarrow> (uuid \<Rightarrow> string) \<Rightarrow> uuid \<Rightarrow> string \<Rightarrow> string \<Rightarrow> 'r \<Rightarrow> 'r" where
  "autoclaim_orphaned G U a consumer key w =
     (case xautoclaim G key CONSUMER_GROUP consumer AUTOCLAIM_MIN_IDLE_MS 10 w of
        (Err _, w') \<Rightarrow> w'
      | (Ok entries, w') \<Rightarrow> sort_claimed G U a key entries w')"

text \<open>
  One round: the position to read from and the number of rounds so far, then the state; None when
  the consumer has returned. Sleeping has no effect on the state.
\<close>

definition poll ::
    "'r group_commands \<Rightarrow> (uuid \<Rightarrow> string) \<Rightarrow> ('t, 'w) sender \<Rightarrow> uuid \<Rightarrow> string \<Rightarrow> 't
      \<Rightarrow> string \<times> nat \<Rightarrow> 'w \<times> 'r \<Rightarrow> (string \<times> nat) option \<times> 'w \<times> 'r" where
  "poll G U send a consumer t pos s =
     (case (pos, s) of ((read_id, n), (c, w)) \<Rightarrow>
      (let key = inbox_key U a;
           sweep = (\<lambda>w. if Suc n mod AUTOCLAIM_INTERVAL = 0 then autoclaim_orphaned G U a consumer key w else w)
       in case xreadgroup G key CONSUMER_GROUP consumer 1 read_id w of
            (Ok reply, w1) \<Rightarrow>
              if reply = [] then (Some (if read_id = ''0'' then ''>'' else read_id, Suc n), c, sweep w1)
              else
                (let entries = concat (map snd reply)
                 in case deliver_entries G send key t entries (c, w1) of
                      (True, s') \<Rightarrow> (None, s')
                    | (False, c', w2) \<Rightarrow>
                        (Some (if entries = [] \<and> read_id = ''0'' then ''>'' else read_id, Suc n), c', sweep w2))
          | (Err _, w1) \<Rightarrow> (Some (read_id, Suc n), c, sweep w1)))"

fun polls ::
    "'r group_commands \<Rightarrow> (uuid \<Rightarrow> string) \<Rightarrow> ('t, 'w) sender \<Rightarrow> uuid \<Rightarrow> string \<Rightarrow> 't
      \<Rightarrow> nat \<Rightarrow> string \<times> nat \<Rightarrow> 'w \<times> 'r \<Rightarrow> (string \<times> nat) option \<times> 'w \<times> 'r" where
  "polls G U send a consumer t 0 pos s = (Some pos, s)"
| "polls G U send a consumer t (Suc k) pos s =
     (case poll G U send a consumer t pos s of
        (None, s') \<Rightarrow> (None, s')
      | (Some pos', s') \<Rightarrow> polls G U send a consumer t k pos' s')"

definition consumer_start :: "string \<times> nat" where "consumer_start = (''0'', 0)"

subsection \<open>What the server promises\<close>

text \<open>
  A consumer group, seen by one consumer of one stream: the entries no consumer was given, and
  those this consumer was given and has not acknowledged. Reading new entries moves the first of
  the former to the latter, reading from the start repeats the first of the latter, and an
  acknowledgement removes it. The last law is that no other consumer left anything to claim.
\<close>

definition group_laws ::
    "'r group_commands \<Rightarrow> string \<Rightarrow> string \<Rightarrow> ('r \<Rightarrow> inbox_entry list) \<Rightarrow> ('r \<Rightarrow> inbox_entry list) \<Rightarrow> bool" where
  "group_laws G key c fresh pend \<longleftrightarrow>
     (\<forall>w. fresh w = [] \<longrightarrow> xreadgroup G key CONSUMER_GROUP c 1 ''>'' w = (Ok [], w))
   \<and> (\<forall>w e es. fresh w = e # es \<longrightarrow> (\<exists>w'. xreadgroup G key CONSUMER_GROUP c 1 ''>'' w = (Ok [(key, [e])], w')
        \<and> fresh w' = es \<and> pend w' = pend w @ [e]))
   \<and> (\<forall>w. \<exists>w'. xreadgroup G key CONSUMER_GROUP c 1 ''0'' w = (Ok [(key, take 1 (pend w))], w') \<and> fresh w' = fresh w \<and> pend w' = pend w)
   \<and> (\<forall>i w. fresh (xack G key CONSUMER_GROUP i w) = fresh w \<and> pend (xack G key CONSUMER_GROUP i w) = filter (\<lambda>e. fst e \<noteq> i) (pend w))
   \<and> (\<forall>w. xautoclaim G key CONSUMER_GROUP c AUTOCLAIM_MIN_IDLE_MS 10 w = (Ok [], w))"

definition carries_frame :: "'r group_commands \<Rightarrow> inbox_entry \<Rightarrow> bool" where
  "carries_frame G e \<longleftrightarrow> frame_of G e \<noteq> None"

definition frames_in :: "'r group_commands \<Rightarrow> inbox_entry list \<Rightarrow> string list" where
  "frames_in G es = map (the \<circ> frame_of G) es"

subsection \<open>Lemmas\<close>

lemma sweep_nothing:
  "group_laws G (inbox_key U a) c fresh pend \<Longrightarrow>
     (if b then autoclaim_orphaned G U a c (inbox_key U a) w else w) = w"
  by (simp add: autoclaim_orphaned_def group_laws_def)

text \<open>A round that has an entry to deliver.\<close>

lemma poll_pending:
  assumes "group_laws G (inbox_key U a) c fresh pend" and "mpsc_laws send alive sent" and "alive v t"
    and "pend w = e # es" and "fst e \<notin> fst ` set es" and "carries_frame G e"
  shows "\<exists>v' w'. poll G U send a c t (''0'', n) (v, w) = (Some (''0'', Suc n), v', w')
    \<and> alive v' = alive v \<and> sent v' t = sent v t @ frames_in G [e] \<and> pend w' = es \<and> fresh w' = fresh w"
proof -
  obtain w1 where w1: "xreadgroup G (inbox_key U a) CONSUMER_GROUP c 1 ''0'' w = (Ok [(inbox_key U a, [e])], w1)"
    "fresh w1 = fresh w" "pend w1 = pend w"
  proof -
    from assms(1) obtain w1 where "xreadgroup G (inbox_key U a) CONSUMER_GROUP c 1 ''0'' w = (Ok [(inbox_key U a, take 1 (pend w))], w1)"
      "fresh w1 = fresh w" "pend w1 = pend w" unfolding group_laws_def by blast
    with assms(4) that show thesis by simp
  qed
  from assms(6) obtain f where f: "frame_of G e = Some f" by (auto simp: carries_frame_def)
  obtain v' where v': "send t f v = (True, v')" "sent v' = (sent v)(t := sent v t @ [f])" "alive v' = alive v"
    using mpsc_accept [OF assms(2,3)] by blast
  let ?w2 = "xack G (inbox_key U a) CONSUMER_GROUP (fst e) w1"
  have "filter (\<lambda>x. fst x \<noteq> fst e) es = es" using assms(5) by (intro filter_True) (metis imageI)
  then have w2: "pend ?w2 = es" "fresh ?w2 = fresh w" using assms(1,4) w1(2,3) by (simp_all add: group_laws_def)
  have "poll G U send a c t (''0'', n) (v, w) = (Some (''0'', Suc n), v', ?w2)"
    using w1(1) f v'(1) by (simp add: poll_def Let_def sweep_nothing [OF assms(1)])
  with w2 v' f show ?thesis by (simp add: frames_in_def)
qed

lemma poll_fresh:
  assumes "group_laws G (inbox_key U a) c fresh pend" and "mpsc_laws send alive sent" and "alive v t"
    and "fresh w = e # es" and "pend w = []" and "carries_frame G e"
  shows "\<exists>v' w'. poll G U send a c t (''>'', n) (v, w) = (Some (''>'', Suc n), v', w')
    \<and> alive v' = alive v \<and> sent v' t = sent v t @ frames_in G [e] \<and> pend w' = [] \<and> fresh w' = es"
proof -
  obtain w1 where w1: "xreadgroup G (inbox_key U a) CONSUMER_GROUP c 1 ''>'' w = (Ok [(inbox_key U a, [e])], w1)"
    "fresh w1 = es" "pend w1 = pend w @ [e]" using assms(1,4) unfolding group_laws_def by blast
  from assms(6) obtain f where f: "frame_of G e = Some f" by (auto simp: carries_frame_def)
  obtain v' where v': "send t f v = (True, v')" "sent v' = (sent v)(t := sent v t @ [f])" "alive v' = alive v"
    using mpsc_accept [OF assms(2,3)] by blast
  let ?w2 = "xack G (inbox_key U a) CONSUMER_GROUP (fst e) w1"
  have w2: "pend ?w2 = []" "fresh ?w2 = es" using assms(1,5) w1(2,3) by (simp_all add: group_laws_def)
  have "poll G U send a c t (''>'', n) (v, w) = (Some (''>'', Suc n), v', ?w2)"
    using w1(1) f v'(1) by (simp add: poll_def Let_def sweep_nothing [OF assms(1)])
  with w2 v' f show ?thesis by (simp add: frames_in_def)
qed

lemma polls_add:
  "polls G U send a c t (j + k) pos s =
     (case polls G U send a c t j pos s of (None, s') \<Rightarrow> (None, s') | (Some pos', s') \<Rightarrow> polls G U send a c t k pos' s')"
  by (induction j arbitrary: pos s) (simp_all split: prod.split option.split)

lemma polls_pending:
  assumes "group_laws G (inbox_key U a) c fresh pend" and "mpsc_laws send alive sent"
  shows "alive v t \<Longrightarrow> pend w = es \<Longrightarrow> distinct (map fst es) \<Longrightarrow> list_all (carries_frame G) es \<Longrightarrow>
    \<exists>v' w'. polls G U send a c t (length es) (''0'', n) (v, w) = (Some (''0'', n + length es), v', w')
    \<and> alive v' = alive v \<and> sent v' t = sent v t @ frames_in G es \<and> pend w' = [] \<and> fresh w' = fresh w"
proof (induction es arbitrary: v w n)
  case Nil
  then show ?case by (simp add: frames_in_def)
next
  case (Cons e es)
  from poll_pending [OF assms Cons.prems(1,2), of n] Cons.prems(3,4) obtain v1 w1 where
    1: "poll G U send a c t (''0'', n) (v, w) = (Some (''0'', Suc n), v1, w1)" "alive v1 = alive v"
    "sent v1 t = sent v t @ frames_in G [e]" "pend w1 = es" "fresh w1 = fresh w" by auto
  from Cons.IH [of v1 w1 "Suc n"] Cons.prems 1 obtain v2 w2 where
    "polls G U send a c t (length es) (''0'', Suc n) (v1, w1) = (Some (''0'', Suc n + length es), v2, w2)"
    "alive v2 = alive v1" "sent v2 t = sent v1 t @ frames_in G es" "pend w2 = []" "fresh w2 = fresh w1" by auto
  with 1 show ?case by (simp add: frames_in_def)
qed

lemma polls_fresh:
  assumes "group_laws G (inbox_key U a) c fresh pend" and "mpsc_laws send alive sent"
  shows "alive v t \<Longrightarrow> fresh w = es \<Longrightarrow> pend w = [] \<Longrightarrow> list_all (carries_frame G) es \<Longrightarrow>
    \<exists>v' w'. polls G U send a c t (length es) (''>'', n) (v, w) = (Some (''>'', n + length es), v', w')
    \<and> alive v' = alive v \<and> sent v' t = sent v t @ frames_in G es \<and> pend w' = [] \<and> fresh w' = []"
proof (induction es arbitrary: v w n)
  case Nil
  then show ?case by (simp add: frames_in_def)
next
  case (Cons e es)
  from poll_fresh [OF assms Cons.prems(1,2,3), of n] Cons.prems(4) obtain v1 w1 where
    1: "poll G U send a c t (''>'', n) (v, w) = (Some (''>'', Suc n), v1, w1)" "alive v1 = alive v"
    "sent v1 t = sent v t @ frames_in G [e]" "pend w1 = []" "fresh w1 = es" by auto
  from Cons.IH [of v1 w1 "Suc n"] Cons.prems 1 obtain v2 w2 where
    "polls G U send a c t (length es) (''>'', Suc n) (v1, w1) = (Some (''>'', Suc n + length es), v2, w2)"
    "alive v2 = alive v1" "sent v2 t = sent v1 t @ frames_in G es" "pend w2 = []" "fresh w2 = []" by auto
  with 1 show ?case by (simp add: frames_in_def)
qed

lemma poll_switch:
  assumes "group_laws G (inbox_key U a) c fresh pend" and "pend w = []"
  shows "\<exists>w'. poll G U send a c t (''0'', n) (v, w) = (Some (''>'', Suc n), v, w') \<and> pend w' = [] \<and> fresh w' = fresh w"
proof -
  from assms obtain w1 where "xreadgroup G (inbox_key U a) CONSUMER_GROUP c 1 ''0'' w = (Ok [(inbox_key U a, [])], w1)"
    "fresh w1 = fresh w" "pend w1 = []" unfolding group_laws_def by (metis take_Nil)
  then show ?thesis by (simp add: poll_def Let_def sweep_nothing [OF assms(1)])
qed

subsection \<open>Properties\<close>


text \<open>
  A stream with its group: what is new and what is pending, as lists. The laws hold of it, also
  when there are entries of other consumers, which a claim would move here.
\<close>

type_synonym demo_group = "inbox_entry list \<times> inbox_entry list"

definition demo_groups :: "demo_group group_commands" where
  "demo_groups =
     \<lparr>xgroup_create = (\<lambda>k g w. w),
      xreadgroup = (\<lambda>k g c n i w.
        if i = ''>'' then (case fst w of [] \<Rightarrow> (Ok [], w) | e # es \<Rightarrow> (Ok [(k, [e])], (es, snd w @ [e])))
        else (Ok [(k, take 1 (snd w))], w)),
      xack = (\<lambda>k g i w. (fst w, filter (\<lambda>e. fst e \<noteq> i) (snd w))),
      xautoclaim = (\<lambda>k g c m n w. (Ok [], w)), xpending_counts = (\<lambda>k g i w. (Ok [], w)),
      dlq_xadd = (\<lambda>k fs w. w), valid_utf8 = (\<lambda>s. True), lossy_utf8 = (\<lambda>s. s), now_ms = (\<lambda>w. 0)\<rparr>"

lemma demo_group_laws: "group_laws demo_groups k c fst snd"
  by (simp add: group_laws_def demo_groups_def)

definition demo_entry :: "string \<Rightarrow> string \<Rightarrow> inbox_entry" where
  "demo_entry i f = (i, [(''frame'', BulkString f)])"

lemma demo_entry_frame: "frame_of demo_groups (demo_entry i f) = Some f"
  by (simp add: frame_of_def demo_entry_def demo_groups_def)


text \<open>
  What claiming does, for the new entries only: nothing it calls gives out a new entry. An entry
  that is claimed becomes pending here.
\<close>

definition claim_laws :: "'r group_commands \<Rightarrow> string \<Rightarrow> string \<Rightarrow> ('r \<Rightarrow> inbox_entry list) \<Rightarrow> bool" where
  "claim_laws G key c fresh \<longleftrightarrow>
     (\<forall>w. fresh w = [] \<longrightarrow> xreadgroup G key CONSUMER_GROUP c 1 ''>'' w = (Ok [], w))
   \<and> (\<forall>i w. fresh (xack G key CONSUMER_GROUP i w) = fresh w)
   \<and> (\<forall>m n w. fresh (snd (xautoclaim G key CONSUMER_GROUP c m n w)) = fresh w)
   \<and> (\<forall>i w. fresh (snd (xpending_counts G key CONSUMER_GROUP i w)) = fresh w)
   \<and> (\<forall>k fs w. fresh (dlq_xadd G k fs w) = fresh w)"

lemma sort_claimed_fresh: "claim_laws G key c fresh \<Longrightarrow> fresh (sort_claimed G U a key es w) = fresh w"
proof (induction es arbitrary: w)
  case (Cons e es)
  then show ?case
    by (simp add: get_delivery_count_def case_prod_beta claim_laws_def)
qed simp

lemma autoclaim_fresh: "claim_laws G key c fresh \<Longrightarrow> fresh (autoclaim_orphaned G U a c key w) = fresh w"
  using sort_claimed_fresh [of G key c fresh]
  by (auto simp: autoclaim_orphaned_def claim_laws_def split: prod.split result.split) (metis snd_conv)+

text \<open>
  A message that was claimed from a dead consumer is not delivered. Once the consumer has
  switched to new entries it never reads its pending ones again, so as long as nothing new
  arrives, any number of rounds, sweeps that claim entries included, sends nothing to the tunnel.
\<close>

theorem claimed_entries_not_delivered:
  assumes "claim_laws G (inbox_key U a) c fresh" and "fresh w = []"
  shows "\<exists>w'. polls G U send a c t k (''>'', n) (v, w) = (Some (''>'', n + k), v, w') \<and> fresh w' = []"
  using assms(2)
proof (induction k arbitrary: n w)
  case (Suc k)
  let ?w = "if Suc n mod AUTOCLAIM_INTERVAL = 0 then autoclaim_orphaned G U a c (inbox_key U a) w else w"
  have "xreadgroup G (inbox_key U a) CONSUMER_GROUP c 1 ''>'' w = (Ok [], w)"
    using assms(1) Suc.prems by (simp add: claim_laws_def)
  then have "poll G U send a c t (''>'', n) (v, w) = (Some (''>'', Suc n), v, ?w)" by (simp add: poll_def Let_def)
  moreover have "fresh ?w = []" using Suc.prems autoclaim_fresh [OF assms(1)] by simp
  ultimately show ?case using Suc.IH [of ?w "Suc n"] by auto
qed simp

text \<open>A sweep that does claim: the entry of another consumer becomes this one's, and stays there.\<close>

definition claiming_groups :: "demo_group group_commands" where
  "claiming_groups = demo_groups\<lparr>xautoclaim := (\<lambda>k g c m n w. (Ok [demo_entry ''1-0'' ''lost''], (fst w, [demo_entry ''1-0'' ''lost''])))\<rparr>"

theorem claimed_entries_not_delivered_witness:
  "\<exists>w'. polls claiming_groups demo_show world_send 7 ''A'' (1::nat) 2000 (''>'', 1499) (world_init, ([], [])) = (Some (''>'', 3499), world_init, w')"
proof -
  have "claim_laws claiming_groups (inbox_key demo_show 7) ''A'' fst"
    by (simp add: claim_laws_def claiming_groups_def demo_groups_def)
  from claimed_entries_not_delivered [OF this, of "([], [])" world_send 1 2000 1499 world_init] show ?thesis by auto
qed

end
