(* ===== verification/Backends.thy ===== *)
theory Backends
  imports Tunnel Redis_Pubsub Redis_Inbox
begin

text \<open>
  The server over its provider traits. The handlers and the tunnel of the sources call
  \<^verbatim>\<open>dyn AgentRegistryProvider\<close>, \<^verbatim>\<open>dyn MessageQueueProvider\<close> and
  \<^verbatim>\<open>dyn StreamBrokerProvider\<close>; \<open>providers\<close> holds the operations of the three traits over one
  state, and the handlers and the tunnel are functions of it. The theories on the REST interface
  and on the tunnel have them with the in-memory providers in place; here those are one instance,
  shown to agree, and the Redis providers are the other.
\<close>

record ('l, 'tx, 'rx, 's) providers =
  p_acquire :: "nat \<Rightarrow> uuid \<Rightarrow> 'tx \<Rightarrow> claims \<Rightarrow> 's \<Rightarrow> ('l, registry_error) result \<times> 's"
  p_lease_drop :: "nat \<Rightarrow> 'l \<Rightarrow> 's \<Rightarrow> 's"
  p_deliver :: "uuid \<Rightarrow> string \<Rightarrow> 's \<Rightarrow> delivery_outcome \<times> 's"
  p_is_connected :: "uuid \<Rightarrow> 's \<Rightarrow> bool \<times> 's"
  p_list :: "nat \<Rightarrow> 's \<Rightarrow> agent_description list \<times> 's"
  p_describe :: "nat \<Rightarrow> uuid \<Rightarrow> 's \<Rightarrow> agent_description option \<times> 's"
  p_disconnect :: "nat \<Rightarrow> uuid \<Rightarrow> 's \<Rightarrow> 's"
  p_touch :: "nat \<Rightarrow> uuid \<Rightarrow> 's \<Rightarrow> 's"
  p_control :: "uuid \<Rightarrow> 's \<Rightarrow> bool \<times> 's"
  p_push :: "uuid \<Rightarrow> string \<Rightarrow> 's \<Rightarrow> (unit, queue_error) result \<times> 's"
  p_drain :: "uuid \<Rightarrow> 's \<Rightarrow> string list \<times> 's"
  p_publish :: "uuid \<Rightarrow> string \<Rightarrow> 's \<Rightarrow> 's"
  p_subscribe :: "uuid \<Rightarrow> 's \<Rightarrow> 'rx \<times> 's"

subsection \<open>Handlers over the traits\<close>

definition list_agents_on :: "('l, 'tx, 'rx, 's) providers \<Rightarrow> nat \<Rightarrow> 's \<Rightarrow> (agent_description list, api_error) result \<times> 's" where
  "list_agents_on B ts s = apfst Ok (p_list B ts s)"

definition describe_agent_on ::
    "('l, 'tx, 'rx, 's) providers \<Rightarrow> (uuid \<Rightarrow> string) \<Rightarrow> nat \<Rightarrow> 's \<Rightarrow> uuid \<Rightarrow> (agent_description, api_error) result \<times> 's" where
  "describe_agent_on B U ts s i = apfst (ok_or (NotFound (''agent '' @ U i))) (p_describe B ts i s)"

definition disconnect_agent_on ::
    "('l, 'tx, 'rx, 's) providers \<Rightarrow> (uuid \<Rightarrow> string) \<Rightarrow> nat \<Rightarrow> 's \<Rightarrow> uuid \<Rightarrow> (nat, api_error) result \<times> 's" where
  "disconnect_agent_on B U ts s i =
     (case p_is_connected B i s of
        (False, s') \<Rightarrow> (Err (NotFound (''agent '' @ U i)), s')
      | (True, s') \<Rightarrow> (Ok 202, p_disconnect B ts i s'))"

definition send_message_on ::
    "serde \<Rightarrow> (uuid \<Rightarrow> string) \<Rightarrow> ('l, 'tx, 'rx, 's) providers \<Rightarrow> 's \<Rightarrow> uuid \<Rightarrow> send_message_request
      \<Rightarrow> (nat \<times> delivery, api_error) result \<times> 's" where
  "send_message_on S U B s i req =
     (if msg_role req = [] then (Err (BadRequest (CHR 0x27 # ''role'' @ CHR 0x27 # '' must not be empty'')), s)
      else
        (case p_deliver B i (session_message_frame S req) s of
           (Live, s1) \<Rightarrow> (Ok (202, DeliveryLive), s1)
         | (NoTunnel frame, s1) \<Rightarrow>
             (case p_push B i frame s1 of
                (Ok _, s2) \<Rightarrow> (Ok (202, DeliveryQueued), s2)
              | (Err (Full _ capacity), s2) \<Rightarrow> (Err (queue_full U i capacity), s2))))"

definition stream_events_on :: "('l, 'tx, 'rx, 's) providers \<Rightarrow> 's \<Rightarrow> uuid \<Rightarrow> 'rx \<times> 's" where
  "stream_events_on B s i = p_subscribe B i s"

definition cancel_turn_on :: "serde \<Rightarrow> ('l, 'tx, 'rx, 's) providers \<Rightarrow> 's \<Rightarrow> uuid \<Rightarrow> (nat, api_error) result \<times> 's" where
  "cancel_turn_on S B s i = (Ok 202, snd (p_deliver B i (session_cancel_frame S) s))"

subsection \<open>The tunnel over the traits\<close>

text \<open>
  \<open>dispatch\<close> is the handling of a frame with the operator's hooks, \<open>local_send\<close> a send on the
  connection's own channel. An event is what the read loop's \<^verbatim>\<open>select!\<close> takes next: a message of the
  socket, or a signal of the control receiver, None when that channel is closed, which the pattern
  of the branch does not match.
\<close>

datatype select_event = FromSocket ws_event | FromControl "string option"

definition tunnel_text_on ::
    "('l, 'tx, 'rx, 's) providers \<Rightarrow> (claims \<Rightarrow> string \<Rightarrow> 's \<Rightarrow> string option \<times> 's) \<Rightarrow> ('tx, 's) sender \<Rightarrow> nat \<Rightarrow> claims \<Rightarrow> 'tx
      \<Rightarrow> string \<Rightarrow> 's \<Rightarrow> 's" where
  "tunnel_text_on B dispatch local_send ts c t frame s =
     (let s1 = p_touch B ts (sub c) s;
          s2 = (if fans_out frame then p_publish B (sub c) frame s1 else s1)
      in case dispatch c frame s2 of
           (None, s3) \<Rightarrow> s3
         | (Some response, s3) \<Rightarrow> snd (local_send t response s3))"

fun tunnel_read_on ::
    "('l, 'tx, 'rx, 's) providers \<Rightarrow> (claims \<Rightarrow> string \<Rightarrow> 's \<Rightarrow> string option \<times> 's) \<Rightarrow> ('tx, 's) sender \<Rightarrow> bool \<Rightarrow> claims \<Rightarrow> 'tx
      \<Rightarrow> (nat \<times> select_event) list \<Rightarrow> 's \<Rightarrow> 's" where
  "tunnel_read_on B dispatch local_send has_control c t [] s = s"
| "tunnel_read_on B dispatch local_send has_control c t ((ts, ev) # evs) s =
     (case ev of
        FromSocket m \<Rightarrow>
          (case m of
             WsText frame \<Rightarrow> tunnel_read_on B dispatch local_send has_control c t evs (tunnel_text_on B dispatch local_send ts c t frame s)
           | WsOther \<Rightarrow> tunnel_read_on B dispatch local_send has_control c t evs s
           | WsClose \<Rightarrow> s
           | WsFailed \<Rightarrow> s)
      | FromControl x \<Rightarrow>
          (if has_control \<and> x \<noteq> None then s else tunnel_read_on B dispatch local_send has_control c t evs s))"

definition tunnel_open_on ::
    "('l, 'tx, 'rx, 's) providers \<Rightarrow> ('tx, 's) sender \<Rightarrow> nat \<Rightarrow> claims \<Rightarrow> 'tx \<Rightarrow> 's \<Rightarrow> 'l option \<times> 's" where
  "tunnel_open_on B local_send ts c t s =
     (case p_acquire B ts (sub c) t c s of
        (Err _, s1) \<Rightarrow> (None, s1)
      | (Ok lease, s1) \<Rightarrow>
          (case p_drain B (sub c) s1 of (buffered, s2) \<Rightarrow> (Some lease, send_all local_send t buffered s2)))"

definition run_tunnel_on ::
    "('l, 'tx, 'rx, 's) providers \<Rightarrow> (claims \<Rightarrow> string \<Rightarrow> 's \<Rightarrow> string option \<times> 's) \<Rightarrow> ('tx, 's) sender \<Rightarrow> nat \<Rightarrow> nat \<Rightarrow> claims
      \<Rightarrow> 'tx \<Rightarrow> (nat \<times> select_event) list \<Rightarrow> 's \<Rightarrow> 's" where
  "run_tunnel_on B dispatch local_send start finish c t evs s =
     (case tunnel_open_on B local_send start c t s of
        (None, s') \<Rightarrow> s'
      | (Some lease, s1) \<Rightarrow>
          (case p_control B (sub c) s1 of
             (has_control, s2) \<Rightarrow> p_lease_drop B finish lease (tunnel_read_on B dispatch local_send has_control c t evs s2)))"

subsection \<open>The in-memory providers\<close>

definition on_channels :: "('tx, 'w) sender \<Rightarrow> ('tx, ('tx, 'ch, 'w, 'bw, 'h) app_state) sender" where
  "on_channels send t f st = (case send t f (channels st) of (b, w) \<Rightarrow> (b, st\<lparr>channels := w\<rparr>))"

definition memory_providers ::
    "('tx, 'ch, 'rx, 'w, 'bw) environment \<Rightarrow> (tunnel_lease, 'tx, 'rx, ('tx, 'ch, 'w, 'bw, 'h) app_state) providers" where
  "memory_providers E =
     \<lparr>p_acquire = (\<lambda>ts a t c st. case registry_acquire ts (registry st) a t c of (r, reg) \<Rightarrow> (r, st\<lparr>registry := reg\<rparr>)),
      p_lease_drop = (\<lambda>ts l st. st\<lparr>registry := lease_drop ts (registry st) l\<rparr>),
      p_deliver = (\<lambda>a f st. case registry_deliver (env_send E) (registry st) a f (channels st) of (r, w) \<Rightarrow> (r, st\<lparr>channels := w\<rparr>)),
      p_is_connected = (\<lambda>a st. (registry_is_connected (registry st) a, st)),
      p_list = (\<lambda>ts st. (registry_list (registry st) ts, st)),
      p_describe = (\<lambda>ts a st. (registry_describe (registry st) a ts, st)),
      p_disconnect = (\<lambda>ts a st. st\<lparr>registry := registry_disconnect ts (registry st) a\<rparr>),
      p_touch = (\<lambda>ts a st. st\<lparr>registry := registry_touch ts (registry st) a\<rparr>),
      p_control = (\<lambda>a st. (False, st)),
      p_push = (\<lambda>a f st. case queue_push (message_queue st) a f of (r, q) \<Rightarrow> (r, st\<lparr>message_queue := q\<rparr>)),
      p_drain = (\<lambda>a st. case queue_drain (message_queue st) a of (fs, q) \<Rightarrow> (fs, st\<lparr>message_queue := q\<rparr>)),
      p_publish = (\<lambda>a f st. case broker_publish (env_broadcast E) (stream_broker st) a f (buses st) of
         (b, bw) \<Rightarrow> st\<lparr>stream_broker := b, buses := bw\<rparr>),
      p_subscribe = (\<lambda>a st. case broker_subscribe (env_broadcast E) (stream_broker st) a (buses st) of
         (rx, b, bw) \<Rightarrow> (rx, st\<lparr>stream_broker := b, buses := bw\<rparr>))\<rparr>"

text \<open>What an SSE subscriber of the in-memory broker sees: the items of its receiver, lag reports left out.\<close>

definition broadcast_stream :: "(string, nat) result list \<Rightarrow> string list" where
  "broadcast_stream items = List.map_filter (\<lambda>r. case r of Ok f \<Rightarrow> Some f | Err _ \<Rightarrow> None) items"

definition hook_dispatch ::
    "serde \<Rightarrow> 'h hooks \<Rightarrow> claims \<Rightarrow> string \<Rightarrow> ('tx, 'ch, 'w, 'bw, 'h) app_state \<Rightarrow> string option \<times> ('tx, 'ch, 'w, 'bw, 'h) app_state" where
  "hook_dispatch S H c frame st = (case handle_message S H c frame (operator_state st) of (r, h) \<Rightarrow> (r, st\<lparr>operator_state := h\<rparr>))"

subsection \<open>The in-memory instance is the server of the other theories\<close>

lemma memory_handlers:
  "list_agents_on (memory_providers E) ts st = (list_agents ts st, st)"
  "describe_agent_on (memory_providers E) U ts st i = (describe_agent U ts st i, st)"
  "disconnect_agent_on (memory_providers E) U ts st i = disconnect_agent U ts st i"
  "send_message_on S U (memory_providers E) st i req = send_message S U (env_send E) st i req"
  "stream_events_on (memory_providers E) st i = stream_events (env_broadcast E) st i"
  "cancel_turn_on S (memory_providers E) st i = cancel_turn S (env_send E) st i"
  by (simp_all add: list_agents_on_def list_agents_def describe_agent_on_def describe_agent_def disconnect_agent_on_def
      disconnect_agent_def send_message_on_def send_message_def stream_events_on_def stream_events_def cancel_turn_on_def
      cancel_turn_def memory_providers_def case_prod_beta split: delivery_outcome.split result.split queue_error.split bool.split)

lemma send_all_on_channels:
  "send_all (on_channels send) t fs st = st\<lparr>channels := send_all send t fs (channels st)\<rparr>"
  by (induction fs arbitrary: st) (simp_all add: on_channels_def case_prod_beta)

lemma memory_text:
  "tunnel_text_on (memory_providers E) (hook_dispatch (env_serde E) H) (on_channels (env_send E)) ts c t frame st
    = tunnel_text E H ts c t frame st"
  by (simp add: tunnel_text_on_def tunnel_text_def tunnel_publish_def memory_providers_def hook_dispatch_def on_channels_def
      Let_def case_prod_beta split: option.split)

lemma memory_read:
  "tunnel_read_on (memory_providers E) (hook_dispatch (env_serde E) H) (on_channels (env_send E)) b c t
     (map (apsnd FromSocket) evs) st = tunnel_read E H c t evs st"
proof (induction evs arbitrary: st)
  case (Cons x evs)
  obtain ts ev where "x = (ts, ev)" by (cases x)
  with Cons show ?case by (simp add: memory_text split: ws_event.split)
qed simp

lemma memory_sel:
  "p_acquire (memory_providers E) n a t c st = apsnd (\<lambda>reg. st\<lparr>registry := reg\<rparr>) (registry_acquire n (registry st) a t c)"
  "p_drain (memory_providers E) a st = apsnd (\<lambda>q. st\<lparr>message_queue := q\<rparr>) (queue_drain (message_queue st) a)"
  "p_lease_drop (memory_providers E) n l st = tunnel_close n l st"
  "p_deliver (memory_providers E) a f st =
     apsnd (\<lambda>w. st\<lparr>channels := w\<rparr>) (registry_deliver (env_send E) (registry st) a f (channels st))"
  "p_push (memory_providers E) a f st = apsnd (\<lambda>q. st\<lparr>message_queue := q\<rparr>) (queue_push (message_queue st) a f)"
  "p_control (memory_providers E) a st = (False, st)"
  by (simp_all add: memory_providers_def tunnel_close_def case_prod_beta apsnd_def map_prod_def)

lemma memory_run:
  "run_tunnel_on (memory_providers E) (hook_dispatch (env_serde E) H) (on_channels (env_send E)) start finish c t
     (map (apsnd FromSocket) evs) st = run_tunnel E H start finish c t evs st"
  by (simp add: run_tunnel_on_def run_tunnel_def tunnel_open_on_def tunnel_open_def memory_read send_all_on_channels
      case_prod_beta registry_acquire_def memory_sel split: option.split)

subsection \<open>What posting promises, on any backend\<close>

text \<open>
  The specification of posting: per agent the frames handed to its tunnel and those buffered, and
  which agents are routed to a tunnel, which posting does not change.
\<close>

record mailboxes =
  mb_routed :: "uuid \<Rightarrow> bool"
  mb_inbox :: buffers
  mb_buffer :: buffers

definition post_spec ::
    "serde \<Rightarrow> (uuid \<Rightarrow> string) \<Rightarrow> nat \<Rightarrow> mailboxes \<Rightarrow> uuid \<Rightarrow> send_message_request
      \<Rightarrow> (nat \<times> delivery, api_error) result \<times> mailboxes" where
  "post_spec S U cap m a req =
     (if msg_role req = [] then (Err (BadRequest (CHR 0x27 # ''role'' @ CHR 0x27 # '' must not be empty'')), m)
      else if mb_routed m a
      then (Ok (202, DeliveryLive), m\<lparr>mb_inbox := (mb_inbox m)(a := mb_inbox m a @ [session_message_frame S req])\<rparr>)
      else if length (mb_buffer m a) < cap
      then (Ok (202, DeliveryQueued), m\<lparr>mb_buffer := (mb_buffer m)(a := mb_buffer m a @ [session_message_frame S req])\<rparr>)
      else (Err (queue_full U a cap), m))"

text \<open>Posts one after the other, with any implementation of one.\<close>

fun posts ::
    "('s \<Rightarrow> uuid \<Rightarrow> send_message_request \<Rightarrow> (nat \<times> delivery, api_error) result \<times> 's) \<Rightarrow> 's
      \<Rightarrow> (uuid \<times> send_message_request) list \<Rightarrow> (nat \<times> delivery, api_error) result list \<times> 's" where
  "posts post s [] = ([], s)"
| "posts post s ((a, req) # xs) = (case post s a req of (r, s1) \<Rightarrow> (case posts post s1 xs of (rs, s2) \<Rightarrow> (r # rs, s2)))"

text \<open>
  The part of the registry and of the queue that posting uses. \<open>inv\<close> holds what the laws depend
  on: the invariant of the implementation, and what its runtime documents.
\<close>

locale message_backend =
  fixes deliver :: "uuid \<Rightarrow> string \<Rightarrow> 's \<Rightarrow> delivery_outcome \<times> 's"
    and push :: "uuid \<Rightarrow> string \<Rightarrow> 's \<Rightarrow> (unit, queue_error) result \<times> 's"
    and capacity :: nat
    and inv :: "'s \<Rightarrow> bool"
    and boxes :: "'s \<Rightarrow> mailboxes"
  assumes deliver_inv: "inv s \<Longrightarrow> inv (snd (deliver a f s))"
    and push_inv: "inv s \<Longrightarrow> inv (snd (push a f s))"
    and deliver_routed: "inv s \<Longrightarrow> mb_routed (boxes s) a \<Longrightarrow> fst (deliver a f s) = Live
      \<and> boxes (snd (deliver a f s)) = (boxes s)\<lparr>mb_inbox := (mb_inbox (boxes s))(a := mb_inbox (boxes s) a @ [f])\<rparr>"
    and deliver_unrouted: "inv s \<Longrightarrow> \<not> mb_routed (boxes s) a \<Longrightarrow> fst (deliver a f s) = NoTunnel f
      \<and> boxes (snd (deliver a f s)) = boxes s"
    and push_room: "inv s \<Longrightarrow> length (mb_buffer (boxes s) a) < capacity \<Longrightarrow> fst (push a f s) = Ok ()
      \<and> boxes (snd (push a f s)) = (boxes s)\<lparr>mb_buffer := (mb_buffer (boxes s))(a := mb_buffer (boxes s) a @ [f])\<rparr>"
    and push_full: "inv s \<Longrightarrow> capacity \<le> length (mb_buffer (boxes s) a) \<Longrightarrow> fst (push a f s) = Err (Full a capacity)
      \<and> boxes (snd (push a f s)) = boxes s"
begin

lemma post_refines:
  assumes "inv s" and "p_deliver B = deliver" and "p_push B = push"
  shows "inv (snd (send_message_on S U B s a req))
    \<and> post_spec S U capacity (boxes s) a req = apsnd boxes (send_message_on S U B s a req)"
proof -
  obtain r s1 where d: "deliver a (session_message_frame S req) s = (r, s1)" by (metis surj_pair)
  then have i1: "inv s1" using deliver_inv [OF assms(1), of a "session_message_frame S req"] by simp
  obtain q s2 where q: "push a (session_message_frame S req) s1 = (q, s2)" by (metis surj_pair)
  then have i2: "inv s2" using push_inv [OF i1, of a "session_message_frame S req"] by simp
  show ?thesis
  proof (cases "mb_routed (boxes s) a")
    case True
    with deliver_routed [OF assms(1), of a "session_message_frame S req"] d i1 assms show ?thesis
      by (simp add: post_spec_def send_message_on_def)
  next
    case False
    with deliver_unrouted [OF assms(1), of a "session_message_frame S req"] d
    have u: "r = NoTunnel (session_message_frame S req)" "boxes s1 = boxes s" by simp_all
    with push_room [OF i1, of a "session_message_frame S req"] push_full [OF i1, of a "session_message_frame S req"] q
      False d i1 i2 assms show ?thesis
      by (cases "length (mb_buffer (boxes s) a) < capacity") (simp_all add: post_spec_def send_message_on_def)
  qed
qed

lemma posts_refine:
  assumes "inv s" and "p_deliver B = deliver" and "p_push B = push"
  shows "posts (post_spec S U capacity) (boxes s) xs = apsnd boxes (posts (send_message_on S U B) s xs)"
  using assms(1)
proof (induction xs arbitrary: s)
  case (Cons x xs)
  obtain a req where x: "x = (a, req)" by (cases x)
  obtain r s1 where p: "send_message_on S U B s a req = (r, s1)" by (metis surj_pair)
  with post_refines [OF Cons.prems assms(2,3), of S U a req]
  have "inv s1" "post_spec S U capacity (boxes s) a req = (r, boxes s1)" by simp_all
  with Cons.IH [of s1] x p show ?case by (simp add: case_prod_beta)
qed simp

end

subsection \<open>The in-memory backend\<close>

definition memory_inv ::
    "('tx, 'ch, 'rx, 'w, 'bw) environment \<Rightarrow> ('w \<Rightarrow> 'tx \<Rightarrow> bool) \<Rightarrow> ('w \<Rightarrow> 'tx \<Rightarrow> string list) \<Rightarrow> nat
      \<Rightarrow> ('tx, 'ch, 'w, 'bw, 'h) app_state \<Rightarrow> bool" where
  "memory_inv E alive sent cap st \<longleftrightarrow>
     mpsc_laws (env_send E) alive sent \<and> per_agent_capacity (message_queue st) = cap
     \<and> (\<forall>a b t. registry_tunnel (registry st) a = Some t \<longrightarrow> registry_tunnel (registry st) b = Some t \<longrightarrow> a = b)"

definition tunnel_inbox ::
    "('w \<Rightarrow> 'tx \<Rightarrow> bool) \<Rightarrow> ('w \<Rightarrow> 'tx \<Rightarrow> string list) \<Rightarrow> ('tx, 'ch, 'w, 'bw, 'h) app_state \<Rightarrow> buffers" where
  "tunnel_inbox alive sent st a = (case live_tunnel alive st a of Some t \<Rightarrow> sent (channels st) t | None \<Rightarrow> [])"

definition memory_boxes ::
    "('w \<Rightarrow> 'tx \<Rightarrow> bool) \<Rightarrow> ('w \<Rightarrow> 'tx \<Rightarrow> string list) \<Rightarrow> ('tx, 'ch, 'w, 'bw, 'h) app_state \<Rightarrow> mailboxes" where
  "memory_boxes alive sent st =
     \<lparr>mb_routed = (\<lambda>a. live_tunnel alive st a \<noteq> None),
      mb_inbox = tunnel_inbox alive sent st,
      mb_buffer = queue_frames (message_queue st)\<rparr>"

lemma memory_deliver_boxes:
  assumes "memory_inv E alive sent cap st"
  shows "live_tunnel alive st a \<noteq> None \<Longrightarrow>
      fst (p_deliver (memory_providers E) a f st) = Live
      \<and> memory_boxes alive sent (snd (p_deliver (memory_providers E) a f st))
        = (memory_boxes alive sent st)\<lparr>mb_inbox := (mb_inbox (memory_boxes alive sent st))(a := mb_inbox (memory_boxes alive sent st) a @ [f])\<rparr>"
    and "live_tunnel alive st a = None \<Longrightarrow>
      fst (p_deliver (memory_providers E) a f st) = NoTunnel f
      \<and> memory_boxes alive sent (snd (p_deliver (memory_providers E) a f st)) = memory_boxes alive sent st"
proof -
  have laws: "mpsc_laws (env_send E) alive sent" using assms by (simp add: memory_inv_def)
  let ?d = "registry_deliver (env_send E) (registry st) a f (channels st)"
  let ?st = "snd (p_deliver (memory_providers E) a f st)"
  have al: "alive (channels ?st) = alive (channels st)" and reg: "registry ?st = registry st"
    and q: "message_queue ?st = message_queue st" and ch: "channels ?st = snd ?d"
    using registry_deliver_cases(3) [OF laws, of st a f] by (simp_all add: memory_sel)
  then have lt: "live_tunnel alive ?st b = live_tunnel alive st b" for b by (simp add: live_tunnel_def)
  show "fst (p_deliver (memory_providers E) a f st) = NoTunnel f \<and> memory_boxes alive sent ?st = memory_boxes alive sent st"
    if "live_tunnel alive st a = None"
    using registry_deliver_cases(2) [OF laws that, of f] lt q ch by (simp add: memory_boxes_def memory_sel tunnel_inbox_def fun_eq_iff cong: option.case_cong)
  show "fst (p_deliver (memory_providers E) a f st) = Live \<and> memory_boxes alive sent ?st
      = (memory_boxes alive sent st)\<lparr>mb_inbox := (mb_inbox (memory_boxes alive sent st))(a := mb_inbox (memory_boxes alive sent st) a @ [f])\<rparr>"
    if some: "live_tunnel alive st a \<noteq> None"
  proof -
    from some obtain t where t: "live_tunnel alive st a = Some t" by blast
    have u: "live_tunnel alive st b = Some t \<Longrightarrow> b = a" for b
      using assms t unfolding memory_inv_def live_tunnel_Some by blast
    have d: "fst ?d = Live" "sent (channels ?st) = (sent (channels st))(t := sent (channels st) t @ [f])"
      using registry_deliver_cases(1) [OF laws t, of f] ch by simp_all
    have "tunnel_inbox alive sent ?st b = ((tunnel_inbox alive sent st)(a := tunnel_inbox alive sent st a @ [f])) b" for b
    proof (cases "live_tunnel alive st b")
      case None
      with t have "b \<noteq> a" by auto
      with None show ?thesis by (simp add: tunnel_inbox_def lt)
    next
      case (Some t')
      then have "t' = t \<longleftrightarrow> b = a" using u [of b] t by auto
      with Some t show ?thesis by (simp add: tunnel_inbox_def lt d(2))
    qed
    then have "tunnel_inbox alive sent ?st = (tunnel_inbox alive sent st)(a := tunnel_inbox alive sent st a @ [f])" by (rule ext)
    then have "memory_boxes alive sent ?st = (memory_boxes alive sent st)\<lparr>mb_inbox := (tunnel_inbox alive sent st)(a := tunnel_inbox alive sent st a @ [f])\<rparr>"
      by (simp only: memory_boxes_def lt q mailboxes.update_convs)
    moreover have "mb_inbox (memory_boxes alive sent st) = tunnel_inbox alive sent st" by (simp add: memory_boxes_def)
    moreover have "fst (p_deliver (memory_providers E) a f st) = Live" using d(1) by (simp add: memory_sel)
    ultimately show ?thesis by (simp only:)
  qed
qed

lemma queue_push_reply:
  "fst (queue_push q a f) = (if per_agent_capacity q \<le> length (queue_frames q a) then Err (Full a (per_agent_capacity q)) else Ok ())"
  using queue_push_frames(1) [of q a f] by (simp split: if_splits) (metis fst_conv)+

lemma memory_push_boxes:
  "memory_inv E alive sent cap st \<Longrightarrow> memory_inv E alive sent cap (snd (p_push (memory_providers E) a f st))"
  "memory_inv E alive sent cap st \<Longrightarrow> length (queue_frames (message_queue st) a) < cap \<Longrightarrow>
     fst (p_push (memory_providers E) a f st) = Ok ()
     \<and> memory_boxes alive sent (snd (p_push (memory_providers E) a f st))
       = (memory_boxes alive sent st)\<lparr>mb_buffer := (queue_frames (message_queue st))(a := queue_frames (message_queue st) a @ [f])\<rparr>"
  "memory_inv E alive sent cap st \<Longrightarrow> cap \<le> length (queue_frames (message_queue st) a) \<Longrightarrow>
     fst (p_push (memory_providers E) a f st) = Err (Full a cap)
     \<and> memory_boxes alive sent (snd (p_push (memory_providers E) a f st)) = memory_boxes alive sent st"
  by (simp_all add: memory_inv_def memory_sel memory_boxes_def live_tunnel_def queue_push_reply queue_push_frames(2,3)
      tunnel_inbox_def fun_eq_iff
      cong: option.case_cong)

lemma memory_boxes_sel:
  "mb_routed (memory_boxes alive sent st) a \<longleftrightarrow> live_tunnel alive st a \<noteq> None"
  "mb_buffer (memory_boxes alive sent st) = queue_frames (message_queue st)"
  by (simp_all add: memory_boxes_def)

interpretation memory_backend: message_backend "p_deliver (memory_providers E)" "p_push (memory_providers E)" cap
  "memory_inv E alive sent cap" "memory_boxes alive sent" for E alive sent cap
proof (unfold_locales, goal_cases)
  case 1
  then show ?case by (simp add: memory_inv_def memory_sel)
next
  case 2
  then show ?case by (rule memory_push_boxes(1))
next
  case 3
  from memory_deliver_boxes(1) [OF this(1)] 3(2) show ?case by (simp only: memory_boxes_sel) blast
next
  case 4
  from memory_deliver_boxes(2) [OF this(1)] 4(2) show ?case by (simp only: memory_boxes_sel) blast
next
  case 5
  from memory_push_boxes(2) [OF this(1)] 5(2) show ?case by (simp only: memory_boxes_sel)
next
  case 6
  from memory_push_boxes(3) [OF this(1)] 6(2) show ?case by (simp only: memory_boxes_sel)
qed

end
