(* ===== verification/Redis_Expiry.thy ===== *)
theory Redis_Expiry
  imports Redis_Store
begin

text \<open>
  Ownership leases in time (\<^verbatim>\<open>server/src/redis_backend/lease.rs\<close>). The owner key is set
  with a lifetime of \<open>LEASE_TTL_SECS\<close>, which the background task of a lease renews at every tick
  of its interval. The server is seen through \<open>ttl\<close>: the value of a key and the seconds it has
  left. \<open>pass d\<close> lets \<open>d\<close> seconds pass and does nothing else.
\<close>

subsection \<open>The renewal task\<close>

text \<open>
  The end of a lease: the heartbeat task is stopped, and the lease is released by a task that is
  started for it. An explicit release is followed by that of the value being dropped.
\<close>

definition ownership_drop :: "'r redis \<Rightarrow> (uuid \<Rightarrow> string) \<Rightarrow> ('r \<Rightarrow> 'r) \<Rightarrow> int \<Rightarrow> ownership_lease \<Rightarrow> 'r \<Rightarrow> 'r" where
  "ownership_drop R U stop_heartbeat ms l w = release_lease R U ms l (stop_heartbeat w)"

definition ownership_release :: "'r redis \<Rightarrow> (uuid \<Rightarrow> string) \<Rightarrow> ('r \<Rightarrow> 'r) \<Rightarrow> int \<Rightarrow> ownership_lease \<Rightarrow> 'r \<Rightarrow> 'r" where
  "ownership_release R U stop_heartbeat ms l w =
     ownership_drop R U stop_heartbeat ms l (release_lease R U ms l (stop_heartbeat w))"

text \<open>Releasing twice leaves the owners that releasing once leaves, when nothing comes in between.\<close>

lemma ownership_release_once:
  assumes "lease_laws R U kv" and "\<And>v. kv (stop v) = kv v"
  shows "owner_of U kv (ownership_release R U stop ms l w) = owner_of U kv (ownership_drop R U stop ms l w)"
proof -
  have "owner_of U kv (stop v) = owner_of U kv v" for v by (simp add: owner_of_def fun_eq_iff assms(2))
  then show ?thesis by (simp add: ownership_release_def ownership_drop_def release_lease_effect [OF assms(1)])
qed

text \<open>
  The task of a lease over the ticks of its interval, each with the seconds before it and the
  server as it answers at that tick, and then whether the task is still running. Stopping it is
  its end from outside, so a stopped task is a shorter list.
\<close>

fun heartbeat_task ::
    "(uuid \<Rightarrow> string) \<Rightarrow> (nat \<Rightarrow> 'r \<Rightarrow> 'r) \<Rightarrow> ownership_lease \<Rightarrow> (nat \<times> 'r redis) list \<Rightarrow> 'r \<Rightarrow> bool \<times> 'r" where
  "heartbeat_task U pass l [] w = (True, w)"
| "heartbeat_task U pass l ((d, R) # ts) w =
     (case heartbeat_tick R U l (pass d w) of
        (False, w') \<Rightarrow> (False, w')
      | (True, w') \<Rightarrow> heartbeat_task U pass l ts w')"

subsection \<open>What the server promises about lifetimes\<close>

definition values_of :: "('r \<Rightarrow> string \<rightharpoonup> string \<times> nat) \<Rightarrow> 'r \<Rightarrow> string \<rightharpoonup> string" where
  "values_of ttl w k = map_option fst (ttl w k)"

fun elapse :: "nat \<Rightarrow> (string \<times> nat) option \<Rightarrow> (string \<times> nat) option" where
  "elapse d None = None"
| "elapse d (Some (v, n)) = (if d < n then Some (v, n - d) else None)"

definition ttl_laws :: "'r redis \<Rightarrow> ('r \<Rightarrow> string \<rightharpoonup> string \<times> nat) \<Rightarrow> (nat \<Rightarrow> 'r \<Rightarrow> 'r) \<Rightarrow> bool" where
  "ttl_laws R ttl pass \<longleftrightarrow>
     (\<forall>k w. ttl (snd (cmd_get R k w)) = ttl w)
   \<and> (\<forall>k v n w. ttl (snd (cmd_set_ex R k v n w)) = (ttl w)(k \<mapsto> (v, n)))
   \<and> (\<forall>k n w. ttl (snd (cmd_expire R k n w)) = (ttl w)(k := map_option (\<lambda>(v, _). (v, n)) (ttl w k)))
   \<and> (\<forall>k w. ttl (snd (cmd_del R k w)) = (ttl w)(k := None))
   \<and> (\<forall>k fs w. ttl (snd (cmd_hset R k fs w)) = ttl w)
   \<and> (\<forall>k m w. ttl (snd (cmd_sadd R k m w)) = ttl w)
   \<and> (\<forall>k m w. ttl (snd (cmd_srem R k m w)) = ttl w)
   \<and> (\<forall>k s m w. ttl (snd (cmd_zadd R k s m w)) = ttl w)
   \<and> (\<forall>k m w. ttl (snd (cmd_zrem R k m w)) = ttl w)
   \<and> (\<forall>k i j w. ttl (snd (cmd_zremrangebyrank R k i j w)) = ttl w)
   \<and> (\<forall>c m w. ttl (snd (cmd_publish R c m w)) = ttl w)
   \<and> (\<forall>d k w. ttl (pass d w) k = elapse d (ttl w k))"

definition expiry_laws ::
    "'r redis \<Rightarrow> (uuid \<Rightarrow> string) \<Rightarrow> ('r \<Rightarrow> string \<rightharpoonup> string \<times> nat) \<Rightarrow> (nat \<Rightarrow> 'r \<Rightarrow> 'r) \<Rightarrow> bool" where
  "expiry_laws R U ttl pass \<longleftrightarrow> lease_laws R U (values_of ttl) \<and> ttl_laws R ttl pass"

text \<open>The owner of an agent and the seconds its lease has left.\<close>

definition lease_left :: "(uuid \<Rightarrow> string) \<Rightarrow> ('r \<Rightarrow> string \<rightharpoonup> string \<times> nat) \<Rightarrow> 'r \<Rightarrow> uuid \<rightharpoonup> string \<times> nat" where
  "lease_left U ttl w a = ttl w (owner_key U a)"

lemma owner_left: "owner_of U (values_of ttl) w a = map_option fst (lease_left U ttl w a)"
  by (simp add: owner_of_def values_of_def lease_left_def)

subsection \<open>The operations in time\<close>

lemma expiry_lawsD:
  assumes "expiry_laws R U ttl pass"
  shows "lease_laws R U (values_of ttl)"
    and "ttl (snd (cmd_get R k w)) = ttl w"
    and "ttl (snd (cmd_set_ex R k v n w)) = (ttl w)(k \<mapsto> (v, n))"
    and "ttl (snd (cmd_expire R k n w)) = (ttl w)(k := map_option (\<lambda>(v, _). (v, n)) (ttl w k))"
    and "ttl (snd (cmd_del R k w)) = (ttl w)(k := None)"
    and "ttl (pass d w) k = elapse d (ttl w k)"
  using assms by (simp_all add: expiry_laws_def ttl_laws_def)

lemma record_left:
  assumes "expiry_laws R U ttl pass"
  shows "ttl (snd (record_owner R U now a me cj w)) (owner_key U b) = ttl w (owner_key U b)"
    and "ttl (snd (record_release R U ms a w)) (owner_key U b) = ttl w (owner_key U b)"
    and "ttl (snd (record_renewal R U a w)) (owner_key U b) = ttl w (owner_key U b)"
    and "ttl (announce R U a me x w) = ttl w"
  using assms unfolding expiry_laws_def ttl_laws_def
  by (simp_all add: record_owner_def record_release_def record_renewal_def announce_def pipeline_simps ignored_simps
      owner_key_distinct split: option.split)

lemma expiry_inj: "expiry_laws R U ttl pass \<Longrightarrow> owner_key U a = owner_key U b \<longleftrightarrow> a = b"
  by (simp add: expiry_laws_def lease_laws_def owner_key_inj)

lemma acquire_lease_left:
  assumes "expiry_laws R U ttl pass"
  shows "lease_left U ttl (snd (acquire_lease R U now a me cj w)) = (lease_left U ttl w)(a \<mapsto> (me, LEASE_TTL_SECS))"
  by (simp add: acquire_lease_run [OF expiry_lawsD(1) [OF assms]] lease_left_def fun_eq_iff record_left [OF assms]
      expiry_lawsD(2,3) [OF assms] expiry_inj [OF assms])

lemma release_lease_left:
  assumes "expiry_laws R U ttl pass"
  shows "lease_left U ttl (release_lease R U ms l w) =
    (if map_option fst (lease_left U ttl w (lease_agent_id l)) = Some (lease_instance l)
     then (lease_left U ttl w)(lease_agent_id l := None) else lease_left U ttl w)"
  by (simp add: release_lease_run [OF expiry_lawsD(1) [OF assms]] owner_left Let_def lease_left_def fun_eq_iff
      record_left [OF assms] expiry_lawsD(2,5) [OF assms] expiry_inj [OF assms])

lemma heartbeat_tick_left:
  assumes "expiry_laws R U ttl pass"
  shows "lease_left U ttl (snd (heartbeat_tick R U l w)) =
    (if map_option fst (lease_left U ttl w (lease_agent_id l)) = Some (lease_instance l)
     then (lease_left U ttl w)(lease_agent_id l \<mapsto> (lease_instance l, LEASE_TTL_SECS)) else lease_left U ttl w)"
  by (auto simp: heartbeat_tick_run [OF expiry_lawsD(1) [OF assms]] owner_left Let_def lease_left_def fun_eq_iff
      record_left [OF assms] expiry_lawsD(2,4) [OF assms] expiry_inj [OF assms])

subsection \<open>Timelines\<close>

text \<open>What the instances do to leases, and the time between.\<close>

datatype lease_event = Act lease_op | Wait nat

fun event_step :: "'r redis \<Rightarrow> (uuid \<Rightarrow> string) \<Rightarrow> (nat \<Rightarrow> 'r \<Rightarrow> 'r) \<Rightarrow> string \<Rightarrow> string \<Rightarrow> int \<Rightarrow> lease_event \<Rightarrow> 'r \<Rightarrow> 'r" where
  "event_step R U pass now cj ms (Act x) w = lease_step R U now cj ms x w"
| "event_step R U pass now cj ms (Wait d) w = pass d w"

text \<open>
  Whether the lease of instance \<open>b\<close> on agent \<open>a\<close> is renewed in time: \<open>n\<close> seconds are left, and
  only \<open>b\<close>'s own renewals put the lifetime back. Takeovers and releases by \<open>b\<close> are excluded.
\<close>

fun renewed_in_time :: "string \<Rightarrow> uuid \<Rightarrow> nat \<Rightarrow> lease_event list \<Rightarrow> bool" where
  "renewed_in_time b a n [] \<longleftrightarrow> True"
| "renewed_in_time b a n (Wait d # xs) \<longleftrightarrow> d < n \<and> renewed_in_time b a (n - d) xs"
| "renewed_in_time b a n (Act (HeartbeatOp l) # xs) \<longleftrightarrow>
     renewed_in_time b a (if lease_agent_id l = a \<and> lease_instance l = b then LEASE_TTL_SECS else n) xs"
| "renewed_in_time b a n (Act _ # xs) \<longleftrightarrow> renewed_in_time b a n xs"

fun undisturbed :: "string \<Rightarrow> uuid \<Rightarrow> lease_event \<Rightarrow> bool" where
  "undisturbed b a (Act x) \<longleftrightarrow> elsewhere b a x"
| "undisturbed b a (Wait d) \<longleftrightarrow> True"

text \<open>The leases as a map, and the events on it.\<close>

fun left_step :: "lease_event \<Rightarrow> (uuid \<rightharpoonup> string \<times> nat) \<Rightarrow> uuid \<rightharpoonup> string \<times> nat" where
  "left_step (Act (AcquireOp a me)) m = m(a \<mapsto> (me, LEASE_TTL_SECS))"
| "left_step (Act (ReleaseOp l)) m =
     (if map_option fst (m (lease_agent_id l)) = Some (lease_instance l) then m(lease_agent_id l := None) else m)"
| "left_step (Act (HeartbeatOp l)) m =
     (if map_option fst (m (lease_agent_id l)) = Some (lease_instance l)
      then m(lease_agent_id l \<mapsto> (lease_instance l, LEASE_TTL_SECS)) else m)"
| "left_step (Wait d) m = (\<lambda>a. elapse d (m a))"

lemma event_step_left:
  assumes "expiry_laws R U ttl pass"
  shows "lease_left U ttl (event_step R U pass now cj ms x w) = left_step x (lease_left U ttl w)"
proof (cases x)
  case (Act y)
  with assms show ?thesis
    by (cases y) (simp_all add: acquire_lease_left release_lease_left heartbeat_tick_left)
next
  case (Wait d)
  with assms show ?thesis by (simp add: lease_left_def fun_eq_iff expiry_laws_def ttl_laws_def)
qed

lemma event_steps_left:
  "expiry_laws R U ttl pass \<Longrightarrow>
     lease_left U ttl (fold (event_step R U pass now cj ms) xs w) = fold left_step xs (lease_left U ttl w)"
  by (induction xs arbitrary: w) (simp_all add: event_step_left)

lemma expired_stays:
  "list_all (undisturbed b a) xs \<Longrightarrow> m a = None \<Longrightarrow> fold left_step xs m a = None"
proof (induction xs arbitrary: m)
  case (Cons x xs)
  from Cons.prems have "left_step x m a = None" by (cases "(x, m)" rule: left_step.cases) auto
  with Cons show ?case by simp
qed simp

text \<open>What is left after one event, None when the lease has run out.\<close>

fun left_after :: "string \<Rightarrow> uuid \<Rightarrow> nat \<Rightarrow> lease_event \<Rightarrow> nat option" where
  "left_after b a n (Wait d) = (if d < n then Some (n - d) else None)"
| "left_after b a n (Act (HeartbeatOp l)) =
     Some (if lease_agent_id l = a \<and> lease_instance l = b then LEASE_TTL_SECS else n)"
| "left_after b a n (Act _) = Some n"

lemma renewed_Cons: "renewed_in_time b a n (x # xs) =
    (case left_after b a n x of None \<Rightarrow> False | Some n' \<Rightarrow> renewed_in_time b a n' xs)"
  by (cases "(b, a, n, x)" rule: left_after.cases) simp_all

lemma left_step_held:
  "undisturbed b a x \<Longrightarrow> m a = Some (b, n) \<Longrightarrow> left_step x m a = map_option (Pair b) (left_after b a n x)"
  by (cases "(b, a, n, x)" rule: left_after.cases) auto

lemma held_iff_renewed:
  "list_all (undisturbed b a) xs \<Longrightarrow> m a = Some (b, n) \<Longrightarrow>
     map_option fst (fold left_step xs m a) = (if renewed_in_time b a n xs then Some b else None)"
proof (induction xs arbitrary: m n)
  case (Cons x xs)
  then have s: "left_step x m a = map_option (Pair b) (left_after b a n x)" by (simp add: left_step_held)
  show ?case
  proof (cases "left_after b a n x")
    case None
    with s Cons.prems expired_stays [of b a xs "left_step x m"] show ?thesis by (simp add: renewed_Cons)
  next
    case (Some n')
    with s have "left_step x m a = Some (b, n')" by simp
    from Cons.IH [of "left_step x m" n', OF _ this] Cons.prems Some show ?thesis by (simp add: renewed_Cons)
  qed
qed simp

lemma redis_is_connected_effect:
  "lease_laws R U kv \<Longrightarrow> fst (redis_is_connected R U a w) \<longleftrightarrow> owner_of U kv w a \<noteq> None"
  by (simp add: redis_is_connected_def lease_laws_def string_laws_def owner_of_def)

lemma deliver_live_iff:
  assumes "lease_laws R U kv" and "stream_laws R strm"
  shows "fst (redis_deliver R U a f w) = (if owner_of U kv w a = None then NoTunnel f else Live)"
  using redis_deliver_effect [OF assms, of w a f] by (simp split: if_splits)

subsection \<open>The renewal task on the timeline\<close>

lemma renewal_run:
  assumes "expiry_laws R U ttl pass" and "list_all (\<lambda>d. d < LEASE_TTL_SECS) ds"
    and "lease_left U ttl w (lease_agent_id l) = Some (lease_instance l, LEASE_TTL_SECS)"
  shows "heartbeat_task U pass l (map (\<lambda>d. (d, R)) ds @ ts) w = heartbeat_task U pass l ts (snd (heartbeat_task U pass l (map (\<lambda>d. (d, R)) ds) w))
    \<and> fst (heartbeat_task U pass l (map (\<lambda>d. (d, R)) ds) w)
    \<and> lease_left U ttl (snd (heartbeat_task U pass l (map (\<lambda>d. (d, R)) ds) w)) (lease_agent_id l) = Some (lease_instance l, LEASE_TTL_SECS)"
  using assms(2,3)
proof (induction ds arbitrary: w)
  case (Cons d ds)
  let ?a = "lease_agent_id l"
  obtain b w1 where t: "heartbeat_tick R U l (pass d w) = (b, w1)" by (metis surj_pair)
  have p: "lease_left U ttl (pass d w) ?a = Some (lease_instance l, LEASE_TTL_SECS - d)"
    using Cons.prems expiry_lawsD(6) [OF assms(1)] by (simp add: lease_left_def)
  have "b" using heartbeat_tick_effect(1) [OF expiry_lawsD(1) [OF assms(1)], of l "pass d w"] t p by (simp add: owner_left)
  moreover have "lease_left U ttl w1 ?a = Some (lease_instance l, LEASE_TTL_SECS)"
    using heartbeat_tick_left [OF assms(1), of l "pass d w"] t p by simp
  ultimately show ?case using Cons.IH [of w1] Cons.prems t by simp
qed simp

text \<open>A server that fails to answer the first command of a tick.\<close>

definition outage :: "string \<Rightarrow> 'r redis \<Rightarrow> 'r redis" where
  "outage e R = R\<lparr>cmd_get := (\<lambda>k w. (Err e, w))\<rparr>"

lemma outage_tick: "heartbeat_tick (outage e R) U l w = (False, w)"
  by (simp add: outage_def heartbeat_tick_def heartbeat_script_def and_then_def Let_def)

subsection \<open>Listing\<close>

text \<open>
  The set of connected agents, seen through \<open>mem\<close>: it has no lifetime, and only the commands on
  its own key change it. A key of claims never holds anything but a string.
\<close>

definition set_laws ::
    "'r redis \<Rightarrow> (uuid \<Rightarrow> string) \<Rightarrow> (nat \<Rightarrow> 'r \<Rightarrow> 'r) \<Rightarrow> ('r \<Rightarrow> string set) \<Rightarrow> bool" where
  "set_laws R U pass mem \<longleftrightarrow>
     (\<forall>m w. mem (snd (cmd_sadd R connected_set_key m w)) = insert m (mem w))
   \<and> (\<forall>m w. fst (cmd_sismember R connected_set_key m w) = Ok (m \<in> mem w))
   \<and> (\<forall>w. \<exists>ms. fst (cmd_smembers R connected_set_key w) = Ok ms \<and> set ms = mem w)
   \<and> (\<forall>m w. mem (snd (cmd_zrem R recent_zset_key m w)) = mem w)
   \<and> (\<forall>k v n w. k \<noteq> connected_set_key \<longrightarrow> mem (snd (cmd_set_ex R k v n w)) = mem w)
   \<and> (\<forall>d w. mem (pass d w) = mem w)
   \<and> (\<forall>a w. is_ok (fst (cmd_get R (claims_key U a) w)))"

lemma hydrate_connected:
  assumes "is_ok (fst (cmd_get R (claims_key U a) w))"
  shows "\<exists>d. fst (hydrate_description R U E a conn w) = Some d \<and> desc_agent d = a \<and> desc_connected d = conn"
  using assms by (auto simp: hydrate_description_def is_ok_iff split: prod.split option.split)

lemma hydrate_all_lists:
  assumes "\<And>w. is_ok (fst (cmd_get R (claims_key U a) w))" and "parse_id E s = Some a" and "s \<in> set ss"
  shows "\<exists>d \<in> set (fst (hydrate_all R U E ss w)). desc_agent d = a \<and> desc_connected d"
  using assms(3)
proof (induction ss arbitrary: w)
  case (Cons s' ss)
  show ?case
  proof (cases "s' = s")
    case True
    with hydrate_connected [OF assms(1), of E True w] assms(2) show ?thesis
      by (auto simp: case_prod_beta)
  next
    case False
    with Cons show ?thesis by (auto simp: case_prod_beta split: option.split)
  qed
qed simp

lemma acquire_lease_member:
  assumes "lease_laws R U kv" and "set_laws R U pass mem"
  shows "U a \<in> mem (snd (acquire_lease R U now a me cj w))"
proof -
  have "connected_set_key \<noteq> claims_key U a" by (simp add: key_defs)
  with assms(2) show ?thesis
    by (simp add: acquire_lease_run [OF assms(1)] record_owner_def pipeline_simps set_laws_def)
qed

subsection \<open>Properties\<close>

text \<open>A server that holds strings with their lifetimes, the set of connected agents, and streams.\<close>

type_synonym timed_state = "(string \<rightharpoonup> string \<times> nat) \<times> string list \<times> (string \<Rightarrow> (string \<times> fields) list)"

definition demo_timed :: "timed_state redis" where
  "demo_timed =
     \<lparr>cmd_get = (\<lambda>k w. (Ok (map_option fst (fst w k)), w)),
      cmd_set_ex = (\<lambda>k v n w. (Ok (), ((fst w)(k \<mapsto> (v, n)), snd w))),
      cmd_exists = (\<lambda>k w. (Ok (fst w k \<noteq> None), w)),
      cmd_expire = (\<lambda>k n w. (Ok (if fst w k = None then 0 else 1), ((fst w)(k := map_option (\<lambda>(v, _). (v, n)) (fst w k)), snd w))),
      cmd_del = (\<lambda>k w. (Ok (if fst w k = None then 0 else 1), ((fst w)(k := None), fst (snd w), (snd (snd w))(k := [])))),
      cmd_hset = (\<lambda>k fs w. (Ok (), w)),
      cmd_sadd = (\<lambda>k m w. (Ok (), (fst w, m # fst (snd w), snd (snd w)))), cmd_srem = (\<lambda>k m w. (Ok (), (fst w, removeAll m (fst (snd w)), snd (snd w)))),
      cmd_smembers = (\<lambda>k w. (Ok (remdups (fst (snd w))), w)), cmd_sismember = (\<lambda>k m w. (Ok (m \<in> set (fst (snd w))), w)),
      cmd_zadd = (\<lambda>k s m w. (Ok (), w)), cmd_zrem = (\<lambda>k m w. (Ok (), w)), cmd_zremrangebyrank = (\<lambda>k i j w. (Ok (), w)),
      cmd_zrange_scores = (\<lambda>k w. (Ok [], w)), cmd_zscore = (\<lambda>k m w. (Err ''nil'', w)), cmd_publish = (\<lambda>c m w. (Ok (), w)),
      cmd_xlen = (\<lambda>k w. (Ok (length (snd (snd w) k)), w)),
      cmd_xadd = (\<lambda>k fs w. (Ok ''0-1'', (fst w, fst (snd w), (snd (snd w))(k := snd (snd w) k @ [(''0-1'', fs)])))),
      cmd_xrange = (\<lambda>k n w. (Ok (take n (snd (snd w) k)), w))\<rparr>"

definition demo_pass :: "nat \<Rightarrow> timed_state \<Rightarrow> timed_state" where
  "demo_pass d w = (\<lambda>k. elapse d (fst w k), snd w)"

definition demo_timed_init :: timed_state where "demo_timed_init = (Map.empty, [], \<lambda>_. [])"

definition demo_redis_env :: redis_env where
  "demo_redis_env =
     \<lparr>clock_secs = 0, parse_id = (\<lambda>s. Some (of_nat (length s))), parse_rfc3339 = (\<lambda>s. None),
      decode_snapshot = (\<lambda>s. None), idle_since = (\<lambda>x. 0)\<rparr>"

lemma demo_timed_laws:
  "expiry_laws demo_timed demo_show fst demo_pass"
  "stream_laws demo_timed (snd \<circ> snd)"
  "set_laws demo_timed demo_show demo_pass (set \<circ> fst \<circ> snd)"
proof -
  show "expiry_laws demo_timed demo_show fst demo_pass"
    using demo_show_inj
    by (simp add: expiry_laws_def lease_laws_def string_laws_def side_laws_def ttl_laws_def demo_timed_def demo_pass_def
        values_of_def fun_eq_iff option.map_comp comp_def case_prod_beta)
  show "stream_laws demo_timed (snd \<circ> snd)" by (simp add: stream_laws_def demo_timed_def)
  show "set_laws demo_timed demo_show demo_pass (set \<circ> fst \<circ> snd)"
    by (simp add: set_laws_def demo_timed_def demo_pass_def)
qed

text \<open>
  C9: a lease lives exactly as long as it is renewed. From the acquisition on, whatever the other
  instances do to other leases, the agent is connected, and messages for it go to its inbox, if
  and only if no thirty seconds passed without a renewal by the owner; an instance that crashed
  loses its agents after that time, and a lease that ran out is not revived by a late renewal.
\<close>

theorem lease_held_iff_renewed:
  assumes "expiry_laws R U ttl pass" and "stream_laws R strm" and "list_all (undisturbed b a) xs"
    and "acquire_lease R U now a b cj w = (r, w1)" and "w2 = fold (event_step R U pass now cj ms) xs w1"
  shows "(fst (redis_is_connected R U a w2) \<longleftrightarrow> renewed_in_time b a LEASE_TTL_SECS xs)
    \<and> fst (redis_deliver R U a f w2) = (if renewed_in_time b a LEASE_TTL_SECS xs then Live else NoTunnel f)"
proof -
  note lw = expiry_lawsD(1) [OF assms(1)]
  from acquire_lease_left [OF assms(1), of now a b cj w] assms(4)
  have "lease_left U ttl w1 a = Some (b, LEASE_TTL_SECS)" by simp
  from held_iff_renewed [of b a xs "lease_left U ttl w1", OF assms(3) this] assms(5) event_steps_left [OF assms(1), of now cj ms xs w1]
  have "owner_of U (values_of ttl) w2 a = (if renewed_in_time b a LEASE_TTL_SECS xs then Some b else None)"
    by (simp add: owner_left)
  then show ?thesis by (simp add: redis_is_connected_effect [OF lw] deliver_live_iff [OF lw assms(2)])
qed

theorem lease_held_iff_renewed_witness:
  "let w1 = snd (acquire_lease demo_timed demo_show ''now'' 7 ''A'' ''{}'' demo_timed_init);
       run = (\<lambda>xs. fold (event_step demo_timed demo_show demo_pass ''now'' ''{}'' 0) xs w1);
       beat = Act (HeartbeatOp \<lparr>lease_agent_id = 7, lease_instance = ''A''\<rparr>)
   in fst (redis_deliver demo_timed demo_show 7 ''hi'' (run [Wait 25, beat, Wait 25])) = Live
    \<and> fst (redis_deliver demo_timed demo_show 7 ''hi'' (run [Wait 30, beat])) = NoTunnel ''hi''"
proof -
  let ?beat = "Act (HeartbeatOp \<lparr>lease_agent_id = 7, lease_instance = ''A''\<rparr>)"
  obtain r w1 where a: "acquire_lease demo_timed demo_show ''now'' 7 ''A'' ''{}'' demo_timed_init = (r, w1)" by (metis surj_pair)
  have "list_all (undisturbed ''A'' 7) [Wait 25, ?beat, Wait 25]" "list_all (undisturbed ''A'' 7) [Wait 30, ?beat]" by simp_all
  note 1 = lease_held_iff_renewed [OF demo_timed_laws(1,2) this(1) a refl, of 0 "''hi''"]
    and 2 = lease_held_iff_renewed [OF demo_timed_laws(1,2) this(2) a refl, of 0 "''hi''"]
  from 1 2 a show ?thesis by (simp only: Let_def snd_conv) (simp add: LEASE_TTL_SECS_def)
qed

text \<open>
  One failed command at a renewal unroutes a connected agent. The task takes the failure for
  a lost lease and ends; the server answers again, but nobody renews the lease, and thirty seconds
  later messages for the agent find no tunnel although its tunnel is open.
\<close>

theorem failed_renewal_unroutes:
  assumes "expiry_laws R U ttl pass" and "stream_laws R strm" and "list_all (\<lambda>d. d < LEASE_TTL_SECS) ds"
    and "d < LEASE_TTL_SECS" and "LEASE_TTL_SECS \<le> later"
    and "acquire_lease R U now a b cj w = (Ok l, w1)"
    and "heartbeat_task U pass l (map (\<lambda>d. (d, R)) ds @ (d, outage e R) # ts) w1 = (running, w2)"
  shows "\<not> running \<and> fst (redis_deliver R U a f w2) = Live \<and> fst (redis_deliver R U a f (pass later w2)) = NoTunnel f"
proof -
  note lw = expiry_lawsD(1) [OF assms(1)]
  from acquire_lease_effect(1) [OF lw, of now a b cj w] assms(6) have l: "l = \<lparr>lease_agent_id = a, lease_instance = b\<rparr>" by simp
  from acquire_lease_left [OF assms(1), of now a b cj w] assms(6)
  have "lease_left U ttl w1 a = Some (b, LEASE_TTL_SECS)" by simp
  with renewal_run [OF assms(1,3), of w1 l "(d, outage e R) # ts"] assms(7) l
  obtain w3 where w3: "lease_left U ttl w3 a = Some (b, LEASE_TTL_SECS)" "\<not> running" "w2 = pass d w3"
    by (auto simp: outage_tick)
  with expiry_lawsD(6) [OF assms(1)] assms(4,5) have "lease_left U ttl w2 a \<noteq> None" "lease_left U ttl (pass later w2) a = None"
    by (simp_all add: lease_left_def)
  with w3(2) show ?thesis by (simp add: deliver_live_iff [OF lw assms(2)] owner_left)
qed

theorem failed_renewal_unroutes_witness:
  "let w1 = snd (acquire_lease demo_timed demo_show ''now'' 7 ''A'' ''{}'' demo_timed_init);
       l = \<lparr>lease_agent_id = 7, lease_instance = ''A''\<rparr>;
       w2 = snd (heartbeat_task demo_show demo_pass l [(10, demo_timed), (10, outage ''timeout'' demo_timed), (10, demo_timed)] w1)
   in fst (redis_deliver demo_timed demo_show 7 ''hi'' w2) = Live
    \<and> fst (redis_deliver demo_timed demo_show 7 ''hi'' (demo_pass 30 w2)) = NoTunnel ''hi''"
proof -
  let ?l = "\<lparr>lease_agent_id = 7, lease_instance = ''A''\<rparr>"
  let ?w1 = "snd (acquire_lease demo_timed demo_show ''now'' 7 ''A'' ''{}'' demo_timed_init)"
  have a: "acquire_lease demo_timed demo_show ''now'' 7 ''A'' ''{}'' demo_timed_init = (Ok ?l, ?w1)"
    using acquire_lease_effect(1) [OF expiry_lawsD(1) [OF demo_timed_laws(1)]] by (metis prod.collapse)
  obtain b w2 where t: "heartbeat_task demo_show demo_pass ?l
      (map (\<lambda>d. (d, demo_timed)) [10] @ (10, outage ''timeout'' demo_timed) # [(10, demo_timed)]) ?w1 = (b, w2)"
    by (metis surj_pair)
  from failed_renewal_unroutes [OF demo_timed_laws(1,2) _ _ _ a t, of 30 "''hi''"] t
  show ?thesis unfolding Let_def by (simp add: LEASE_TTL_SECS_def)
qed

text \<open>
  C37: an agent whose instance crashed stays listed as connected. Its lease runs out and messages
  for it find no tunnel, but nothing removes it from the set of connected agents, which has no
  lifetime, and both the listing and the description read that set.
\<close>

theorem crashed_agent_listed_connected:
  assumes "expiry_laws R U ttl pass" and "stream_laws R strm" and "set_laws R U pass mem" and "parse_id E (U a) = Some a"
    and "LEASE_TTL_SECS \<le> d" and "acquire_lease R U now a b cj w = (r, w1)"
  shows "fst (redis_deliver R U a f (pass d w1)) = NoTunnel f \<and> \<not> fst (redis_is_connected R U a (pass d w1))
    \<and> (\<exists>desc. fst (redis_describe_agent R U E a (pass d w1)) = Some desc \<and> desc_connected desc)
    \<and> (\<exists>desc \<in> set (fst (redis_list_agents R U E (pass d w1))). desc_agent desc = a \<and> desc_connected desc)"
proof -
  note lw = expiry_lawsD(1) [OF assms(1)]
  have ok: "\<And>v. is_ok (fst (cmd_get R (claims_key U a) v))" using assms(3) by (simp add: set_laws_def)
  from acquire_lease_left [OF assms(1), of now a b cj w] assms(6)
  have "lease_left U ttl w1 a = Some (b, LEASE_TTL_SECS)" by simp
  with expiry_lawsD(6) [OF assms(1)] assms(5) have "owner_of U (values_of ttl) (pass d w1) a = None"
    by (simp add: owner_left lease_left_def)
  then have gone: "fst (redis_deliver R U a f (pass d w1)) = NoTunnel f" "\<not> fst (redis_is_connected R U a (pass d w1))"
    by (simp_all add: redis_is_connected_effect [OF lw] deliver_live_iff [OF lw assms(2)])
  have m: "U a \<in> mem (pass d w1)"
    using acquire_lease_member [OF lw assms(3), of a now b cj w] assms(3,6) by (simp add: set_laws_def)
  then have "fst (cmd_sismember R connected_set_key (U a) (pass d w1)) = Ok True" using assms(3) by (simp add: set_laws_def)
  then have "\<exists>desc. fst (redis_describe_agent R U E a (pass d w1)) = Some desc \<and> desc_connected desc"
    using hydrate_connected [OF ok, of E True] by (simp add: redis_describe_agent_def case_prod_beta) metis
  moreover obtain ms where ms: "fst (cmd_smembers R connected_set_key (pass d w1)) = Ok ms" "U a \<in> set ms"
    using m assms(3) unfolding set_laws_def by metis
  then have "\<exists>desc \<in> set (fst (redis_list_agents R U E (pass d w1))). desc_agent desc = a \<and> desc_connected desc"
    using hydrate_all_lists [OF ok assms(4) ms(2)] by (fastforce simp: redis_list_agents_def Let_def case_prod_beta)
  ultimately show ?thesis using gone by blast
qed

theorem crashed_agent_listed_connected_witness:
  "let w1 = snd (acquire_lease demo_timed demo_show ''now'' 7 ''A'' ''{}'' demo_timed_init)
   in fst (redis_deliver demo_timed demo_show 7 ''hi'' (demo_pass 30 w1)) = NoTunnel ''hi''
    \<and> (\<exists>desc \<in> set (fst (redis_list_agents demo_timed demo_show demo_redis_env (demo_pass 30 w1))). desc_agent desc = 7 \<and> desc_connected desc)"
proof -
  obtain r w1 where a: "acquire_lease demo_timed demo_show ''now'' 7 ''A'' ''{}'' demo_timed_init = (r, w1)" by (metis surj_pair)
  have "parse_id demo_redis_env (demo_show 7) = Some 7" by (simp add: demo_redis_env_def demo_show_def)
  from crashed_agent_listed_connected [OF demo_timed_laws this _ a, of 30 "''hi''"] a
  show ?thesis unfolding Let_def by (simp add: LEASE_TTL_SECS_def)
qed

end
