(* ===== verification/Redis_Server.thy ===== *)
theory Redis_Server
  imports Backends Redis_Expiry
begin

text \<open>
  The server over the Redis providers (\<^verbatim>\<open>server/src/redis_backend\<close> plugged into the handlers
  and the tunnel by \<^verbatim>\<open>state.rs\<close>): several instances, each with its own registry and channels,
  over one Redis. The state is an instance's own part and Redis.
\<close>

record ('tx, 'h, 'w, 'r, 'o) redis_app =
  ra_registry :: "('tx, 'h) redis_agent_registry"
  ra_channels :: 'w
  ra_redis :: 'r
  ra_operator :: 'o

text \<open>
  The runtime: Redis and its consumer groups, starting and aborting the background task of an
  inbox, starting the task of a subscription on a channel, and the printing of identifiers, times
  and snapshots.
\<close>

record ('tx, 'h, 'rx, 'w, 'r) redis_runtime =
  rr_redis :: "'r redis"
  rr_groups :: "'r group_commands"
  rr_spawn_consumer :: "uuid \<Rightarrow> string \<Rightarrow> 'tx \<Rightarrow> 'r \<Rightarrow> 'h \<times> 'r"
  rr_abort :: "'h \<Rightarrow> 'r \<Rightarrow> 'r"
  rr_spawn_subscription :: "string \<Rightarrow> 'r \<Rightarrow> 'rx \<times> 'r"
  rr_send :: "('tx, 'w) sender"
  rr_show_uuid :: "uuid \<Rightarrow> string"
  rr_rfc3339 :: "nat \<Rightarrow> string"
  rr_millis :: "nat \<Rightarrow> int"
  rr_encode_snapshot :: "claims_snapshot \<Rightarrow> string"
  rr_env :: "nat \<Rightarrow> redis_env"

definition redis_app_new :: "string \<Rightarrow> 'w \<Rightarrow> 'r \<Rightarrow> 'o \<Rightarrow> ('tx, 'h, 'w, 'r, 'o) redis_app" where
  "redis_app_new me w r h = \<lparr>ra_registry = redis_registry_new me, ra_channels = w, ra_redis = r, ra_operator = h\<rparr>"

text \<open>A command on Redis from the state of an instance.\<close>

definition on_redis :: "('r \<Rightarrow> 'a \<times> 'r) \<Rightarrow> ('tx, 'h, 'w, 'r, 'o) redis_app \<Rightarrow> 'a \<times> ('tx, 'h, 'w, 'r, 'o) redis_app" where
  "on_redis f s = (case f (ra_redis s) of (x, r) \<Rightarrow> (x, s\<lparr>ra_redis := r\<rparr>))"

definition claims_json_of :: "('tx, 'h, 'rx, 'w, 'r) redis_runtime \<Rightarrow> nat \<Rightarrow> uuid \<Rightarrow> claims \<Rightarrow> string" where
  "claims_json_of X ts a c =
     rr_encode_snapshot X \<lparr>snap_agent = a, snap_user = user c, snap_connected_at = rr_rfc3339 X ts\<rparr>"

definition redis_providers ::
    "('tx, 'h, 'rx, 'w, 'r) redis_runtime \<Rightarrow> (ownership_lease, 'tx, 'rx, ('tx, 'h, 'w, 'r, 'o) redis_app) providers" where
  "redis_providers X =
     (let R = rr_redis X; U = rr_show_uuid X; G = rr_groups X in
      \<lparr>p_acquire = (\<lambda>ts a t c s.
         case redis_acquire R U (ensure_consumer_group G U) (rr_spawn_consumer X) (rr_rfc3339 X ts) (claims_json_of X ts a c) a t
                (ra_registry s, ra_redis s) of
           (r, reg, w) \<Rightarrow> (r, s\<lparr>ra_registry := reg, ra_redis := w\<rparr>)),
       p_lease_drop = (\<lambda>ts l s.
         case redis_lease_drop R U (rr_abort X) (rr_millis X ts) l (ra_registry s, ra_redis s) of
           (reg, w) \<Rightarrow> s\<lparr>ra_registry := reg, ra_redis := w\<rparr>),
       p_deliver = (\<lambda>a f. on_redis (redis_deliver R U a f)),
       p_is_connected = (\<lambda>a. on_redis (redis_is_connected R U a)),
       p_list = (\<lambda>ts. on_redis (redis_list_agents R U (rr_env X ts))),
       p_describe = (\<lambda>ts a. on_redis (redis_describe_agent R U (rr_env X ts) a)),
       p_disconnect = (\<lambda>ts a s. s\<lparr>ra_redis := redis_disconnect R U a (ra_redis s)\<rparr>),
       p_touch = (\<lambda>ts a s. s\<lparr>ra_redis := redis_touch a (ra_redis s)\<rparr>),
       p_control = (\<lambda>a s. (True, snd (on_redis (rr_spawn_subscription X (control_channel U a)) s))),
       p_push = (\<lambda>a f. on_redis (\<lambda>w. redis_push R U DEFAULT_QUEUE_CAPACITY w a f)),
       p_drain = (\<lambda>a. on_redis (\<lambda>w. redis_drain R U DEFAULT_QUEUE_CAPACITY w a)),
       p_publish = (\<lambda>a f s. s\<lparr>ra_redis := redis_publish R U a f (ra_redis s)\<rparr>),
       p_subscribe = (\<lambda>a. on_redis (rr_spawn_subscription X (stream_channel U a)))\<rparr>)"

definition on_ra_channels :: "('tx, 'w) sender \<Rightarrow> ('tx, ('tx, 'h, 'w, 'r, 'o) redis_app) sender" where
  "on_ra_channels send t f s = (case send t f (ra_channels s) of (b, w) \<Rightarrow> (b, s\<lparr>ra_channels := w\<rparr>))"

definition redis_dispatch ::
    "serde \<Rightarrow> 'o hooks \<Rightarrow> claims \<Rightarrow> string \<Rightarrow> ('tx, 'h, 'w, 'r, 'o) redis_app \<Rightarrow> string option \<times> ('tx, 'h, 'w, 'r, 'o) redis_app" where
  "redis_dispatch S H c frame s = (case handle_message S H c frame (ra_operator s) of (r, h) \<Rightarrow> (r, s\<lparr>ra_operator := h\<rparr>))"

text \<open>The REST calls and the tunnel of an instance.\<close>

definition redis_send_message ::
    "('tx, 'h, 'rx, 'w, 'r) redis_runtime \<Rightarrow> serde \<Rightarrow> ('tx, 'h, 'w, 'r, 'o) redis_app \<Rightarrow> uuid \<Rightarrow> send_message_request
      \<Rightarrow> (nat \<times> delivery, api_error) result \<times> ('tx, 'h, 'w, 'r, 'o) redis_app" where
  "redis_send_message X S = send_message_on S (rr_show_uuid X) (redis_providers X)"

definition redis_disconnect_agent ::
    "('tx, 'h, 'rx, 'w, 'r) redis_runtime \<Rightarrow> nat \<Rightarrow> ('tx, 'h, 'w, 'r, 'o) redis_app \<Rightarrow> uuid
      \<Rightarrow> (nat, api_error) result \<times> ('tx, 'h, 'w, 'r, 'o) redis_app" where
  "redis_disconnect_agent X ts = disconnect_agent_on (redis_providers X) (rr_show_uuid X) ts"

definition redis_tunnel_open ::
    "('tx, 'h, 'rx, 'w, 'r) redis_runtime \<Rightarrow> nat \<Rightarrow> claims \<Rightarrow> 'tx \<Rightarrow> ('tx, 'h, 'w, 'r, 'o) redis_app
      \<Rightarrow> ownership_lease option \<times> ('tx, 'h, 'w, 'r, 'o) redis_app" where
  "redis_tunnel_open X = tunnel_open_on (redis_providers X) (on_ra_channels (rr_send X))"

definition redis_run_tunnel ::
    "('tx, 'h, 'rx, 'w, 'r) redis_runtime \<Rightarrow> serde \<Rightarrow> 'o hooks \<Rightarrow> nat \<Rightarrow> nat \<Rightarrow> claims \<Rightarrow> 'tx \<Rightarrow> (nat \<times> select_event) list
      \<Rightarrow> ('tx, 'h, 'w, 'r, 'o) redis_app \<Rightarrow> ('tx, 'h, 'w, 'r, 'o) redis_app" where
  "redis_run_tunnel X S H = run_tunnel_on (redis_providers X) (redis_dispatch S H) (on_ra_channels (rr_send X))"

lemma redis_sel:
  "p_deliver (redis_providers X) a f = on_redis (redis_deliver (rr_redis X) (rr_show_uuid X) a f)"
  "p_push (redis_providers X) a f = on_redis (\<lambda>w. redis_push (rr_redis X) (rr_show_uuid X) DEFAULT_QUEUE_CAPACITY w a f)"
  "p_drain (redis_providers X) a = on_redis (\<lambda>w. redis_drain (rr_redis X) (rr_show_uuid X) DEFAULT_QUEUE_CAPACITY w a)"
  "p_is_connected (redis_providers X) a = on_redis (redis_is_connected (rr_redis X) (rr_show_uuid X) a)"
  "p_disconnect (redis_providers X) ts a s = s\<lparr>ra_redis := redis_disconnect (rr_redis X) (rr_show_uuid X) a (ra_redis s)\<rparr>"
  "p_control (redis_providers X) a s = (True, snd (on_redis (rr_spawn_subscription X (control_channel (rr_show_uuid X) a)) s))"
  by (simp_all add: redis_providers_def Let_def)

lemma on_redis_sel [simp]:
  "fst (on_redis f s) = fst (f (ra_redis s))" "ra_redis (snd (on_redis f s)) = snd (f (ra_redis s))"
  "ra_registry (snd (on_redis f s)) = ra_registry s" "ra_channels (snd (on_redis f s)) = ra_channels s"
  "ra_operator (snd (on_redis f s)) = ra_operator s"
  by (simp_all add: on_redis_def case_prod_beta)

subsection \<open>Posting on any instance\<close>

definition redis_inv ::
    "('tx, 'h, 'rx, 'w, 'r) redis_runtime \<Rightarrow> ('r \<Rightarrow> string \<rightharpoonup> string) \<Rightarrow> ('r \<Rightarrow> string \<Rightarrow> (string \<times> fields) list)
      \<Rightarrow> ('tx, 'h, 'w, 'r, 'o) redis_app \<Rightarrow> bool" where
  "redis_inv X kv strm s \<longleftrightarrow>
     lease_laws (rr_redis X) (rr_show_uuid X) kv \<and> stream_laws (rr_redis X) strm
     \<and> buffer_inv (rr_show_uuid X) DEFAULT_QUEUE_CAPACITY strm (ra_redis s)"

definition redis_boxes ::
    "('tx, 'h, 'rx, 'w, 'r) redis_runtime \<Rightarrow> ('r \<Rightarrow> string \<rightharpoonup> string) \<Rightarrow> ('r \<Rightarrow> string \<Rightarrow> (string \<times> fields) list)
      \<Rightarrow> ('tx, 'h, 'w, 'r, 'o) redis_app \<Rightarrow> mailboxes" where
  "redis_boxes X kv strm s =
     \<lparr>mb_routed = (\<lambda>a. owner_of (rr_show_uuid X) kv (ra_redis s) a \<noteq> None),
      mb_inbox = (\<lambda>a. List.map_filter entry_frame (strm (ra_redis s) (inbox_key (rr_show_uuid X) a))),
      mb_buffer = redis_frames (rr_show_uuid X) strm (ra_redis s)\<rparr>"

lemma stream_key_cases:
  "inj U \<Longrightarrow> inbox_key U a = inbox_key U b \<longleftrightarrow> a = b" "inbox_key U a \<noteq> buffer_key U b" "buffer_key U b \<noteq> inbox_key U a"
  by (auto simp: key_defs dest: injD)

lemma redis_deliver_kv: "lease_laws R U kv \<Longrightarrow> kv (snd (redis_deliver R U a f w)) = kv w"
  by (simp add: redis_deliver_def deliver_script_def and_then_def ret_def lease_laws_def string_laws_def side_laws_def case_prod_beta
      split: result.split)

lemma redis_push_kv: "lease_laws R U kv \<Longrightarrow> kv (snd (redis_push R U cap w a f)) = kv w"
  by (simp add: redis_push_def push_script_def and_then_def ret_def lease_laws_def side_laws_def case_prod_beta split: result.split)

lemma redis_deliver_boxes:
  assumes "redis_inv X kv strm s"
  shows "redis_inv X kv strm (snd (p_deliver (redis_providers X) a f s))"
    and "owner_of (rr_show_uuid X) kv (ra_redis s) a \<noteq> None \<Longrightarrow> fst (p_deliver (redis_providers X) a f s) = Live
      \<and> redis_boxes X kv strm (snd (p_deliver (redis_providers X) a f s))
        = (redis_boxes X kv strm s)\<lparr>mb_inbox := (mb_inbox (redis_boxes X kv strm s))(a := mb_inbox (redis_boxes X kv strm s) a @ [f])\<rparr>"
    and "owner_of (rr_show_uuid X) kv (ra_redis s) a = None \<Longrightarrow> fst (p_deliver (redis_providers X) a f s) = NoTunnel f
      \<and> redis_boxes X kv strm (snd (p_deliver (redis_providers X) a f s)) = redis_boxes X kv strm s"
proof -
  let ?R = "rr_redis X" and ?U = "rr_show_uuid X" and ?w = "ra_redis s"
  have laws: "lease_laws ?R ?U kv" "stream_laws ?R strm" "buffer_inv ?U DEFAULT_QUEUE_CAPACITY strm ?w" and inj: "inj ?U"
    using assms by (simp_all add: redis_inv_def lease_laws_def)
  note d = redis_deliver_effect [OF laws(1,2), of ?w a f]
  note k = redis_deliver_kv [OF laws(1), of a f ?w]
  have b: "strm (snd (redis_deliver ?R ?U a f ?w)) (buffer_key ?U c) = strm ?w (buffer_key ?U c)" for c
    using d by (auto simp: stream_key_cases split: if_splits)
  from b have fr: "redis_frames ?U strm (snd (redis_deliver ?R ?U a f ?w)) = redis_frames ?U strm ?w"
    by (simp add: redis_frames_def fun_eq_iff)
  have o: "owner_of ?U kv (snd (redis_deliver ?R ?U a f ?w)) = owner_of ?U kv ?w"
    using k by (simp add: owner_of_def fun_eq_iff)
  show "redis_inv X kv strm (snd (p_deliver (redis_providers X) a f s))"
    using laws b by (simp add: redis_inv_def redis_sel buffer_inv_def)
  show "fst (p_deliver (redis_providers X) a f s) = NoTunnel f
      \<and> redis_boxes X kv strm (snd (p_deliver (redis_providers X) a f s)) = redis_boxes X kv strm s"
    if "owner_of ?U kv ?w a = None" using d that o fr by (simp add: redis_boxes_def redis_sel)
  show "fst (p_deliver (redis_providers X) a f s) = Live
      \<and> redis_boxes X kv strm (snd (p_deliver (redis_providers X) a f s))
        = (redis_boxes X kv strm s)\<lparr>mb_inbox := (mb_inbox (redis_boxes X kv strm s))(a := mb_inbox (redis_boxes X kv strm s) a @ [f])\<rparr>"
    if "owner_of ?U kv ?w a \<noteq> None"
  proof -
    from d that obtain i where i: "strm (snd (redis_deliver ?R ?U a f ?w))
        = (strm ?w)(inbox_key ?U a := strm ?w (inbox_key ?U a) @ [(i, [(''frame'', f)])])"
      and l: "fst (redis_deliver ?R ?U a f ?w) = Live" by auto
    have "List.map_filter entry_frame (strm (snd (redis_deliver ?R ?U a f ?w)) (inbox_key ?U c))
        = (if c = a then List.map_filter entry_frame (strm ?w (inbox_key ?U a)) @ [f]
           else List.map_filter entry_frame (strm ?w (inbox_key ?U c)))" for c
      unfolding i by (simp add: stream_key_cases(1) [OF inj] map_filter_append List.map_filter_simps entry_frame_def)
    with l o fr show ?thesis by (simp add: redis_boxes_def redis_sel fun_eq_iff)
  qed
qed

lemma redis_push_boxes:
  assumes "redis_inv X kv strm s"
  shows "redis_inv X kv strm (snd (p_push (redis_providers X) a f s))"
    and "length (redis_frames (rr_show_uuid X) strm (ra_redis s) a) < DEFAULT_QUEUE_CAPACITY \<Longrightarrow>
      fst (p_push (redis_providers X) a f s) = Ok ()
      \<and> redis_boxes X kv strm (snd (p_push (redis_providers X) a f s))
        = (redis_boxes X kv strm s)\<lparr>mb_buffer := (mb_buffer (redis_boxes X kv strm s))(a := mb_buffer (redis_boxes X kv strm s) a @ [f])\<rparr>"
    and "DEFAULT_QUEUE_CAPACITY \<le> length (redis_frames (rr_show_uuid X) strm (ra_redis s) a) \<Longrightarrow>
      fst (p_push (redis_providers X) a f s) = Err (Full a DEFAULT_QUEUE_CAPACITY)
      \<and> redis_boxes X kv strm (snd (p_push (redis_providers X) a f s)) = redis_boxes X kv strm s"
proof -
  let ?R = "rr_redis X" and ?U = "rr_show_uuid X" and ?w = "ra_redis s" and ?cap = DEFAULT_QUEUE_CAPACITY
  let ?w1 = "snd (redis_push ?R ?U ?cap ?w a f)"
  have laws: "lease_laws ?R ?U kv" "stream_laws ?R strm" "buffer_inv ?U ?cap strm ?w" and inj: "inj ?U"
    using assms by (simp_all add: redis_inv_def lease_laws_def)
  have len: "length (redis_frames ?U strm ?w a) = length (strm ?w (buffer_key ?U a))"
    using laws(3) by (auto simp: redis_frames_def buffer_inv_def intro: map_filter_length)
  have o: "owner_of ?U kv ?w1 = owner_of ?U kv ?w" using redis_push_kv [OF laws(1)] by (simp add: owner_of_def fun_eq_iff)
  obtain r v where p: "push_script ?R (buffer_key ?U a) ?cap f ?w = (r, v)" by (metis surj_pair)
  note e = push_script_effect [OF laws(2) stream_keys(1), of ?cap ?w ?U a f, unfolded p fst_conv snd_conv]
  have step: "redis_inv X kv strm (snd (p_push (redis_providers X) a f s))
      \<and> (if ?cap \<le> length (strm ?w (buffer_key ?U a))
         then fst (redis_push ?R ?U ?cap ?w a f) = Err (Full a ?cap) \<and> strm ?w1 = strm ?w
         else fst (redis_push ?R ?U ?cap ?w a f) = Ok ()
           \<and> (\<exists>i. strm ?w1 = (strm ?w)(buffer_key ?U a := strm ?w (buffer_key ?U a) @ [(i, [(''frame'', f)])])))"
  proof (cases "?cap \<le> length (strm ?w (buffer_key ?U a))")
    case True
    with e p have "fst (redis_push ?R ?U ?cap ?w a f) = Err (Full a ?cap)" "strm ?w1 = strm ?w" by (simp_all add: redis_push_def)
    with True laws show ?thesis by (simp add: redis_inv_def redis_sel buffer_inv_def)
  next
    case False
    with e p obtain i where "fst (redis_push ?R ?U ?cap ?w a f) = Ok ()"
      "strm ?w1 = (strm ?w)(buffer_key ?U a := strm ?w (buffer_key ?U a) @ [(i, [(''frame'', f)])])"
      by (auto simp: redis_push_def)
    with False laws buffer_key_inj [OF inj] show ?thesis by (auto simp: redis_inv_def redis_sel buffer_inv_def entry_frame_def)
  qed
  then show "redis_inv X kv strm (snd (p_push (redis_providers X) a f s))" by blast
  show "fst (p_push (redis_providers X) a f s) = Err (Full a ?cap)
      \<and> redis_boxes X kv strm (snd (p_push (redis_providers X) a f s)) = redis_boxes X kv strm s"
    if "?cap \<le> length (redis_frames ?U strm ?w a)"
    using step that len o by (simp add: redis_boxes_def redis_sel redis_frames_def fun_eq_iff)
  show "fst (p_push (redis_providers X) a f s) = Ok ()
      \<and> redis_boxes X kv strm (snd (p_push (redis_providers X) a f s))
        = (redis_boxes X kv strm s)\<lparr>mb_buffer := (mb_buffer (redis_boxes X kv strm s))(a := mb_buffer (redis_boxes X kv strm s) a @ [f])\<rparr>"
    if "length (redis_frames ?U strm ?w a) < ?cap"
  proof -
    from step that len obtain i where i: "strm ?w1 = (strm ?w)(buffer_key ?U a := strm ?w (buffer_key ?U a) @ [(i, [(''frame'', f)])])"
      and ok: "fst (redis_push ?R ?U ?cap ?w a f) = Ok ()" by auto
    have "redis_frames ?U strm ?w1 = (redis_frames ?U strm ?w)(a := redis_frames ?U strm ?w a @ [f])"
      unfolding redis_frames_def i
      by (simp add: buffer_key_inj [OF inj] map_filter_append List.map_filter_simps entry_frame_def fun_eq_iff)
    with i ok o show ?thesis by (simp add: redis_boxes_def redis_sel stream_key_cases)
  qed
qed

lemma redis_boxes_sel:
  "mb_routed (redis_boxes X kv strm s) a \<longleftrightarrow> owner_of (rr_show_uuid X) kv (ra_redis s) a \<noteq> None"
  "mb_buffer (redis_boxes X kv strm s) = redis_frames (rr_show_uuid X) strm (ra_redis s)"
  by (simp_all add: redis_boxes_def)

interpretation redis_backend: message_backend "p_deliver (redis_providers X)" "p_push (redis_providers X)" DEFAULT_QUEUE_CAPACITY
  "redis_inv X kv strm" "redis_boxes X kv strm" for X kv strm
proof (unfold_locales, goal_cases)
  case 1
  then show ?case by (rule redis_deliver_boxes(1))
next
  case 2
  then show ?case by (rule redis_push_boxes(1))
next
  case 3
  from redis_deliver_boxes(2) [OF this(1)] 3(2) show ?case by (simp only: redis_boxes_sel) blast
next
  case 4
  from redis_deliver_boxes(3) [OF this(1)] 4(2) show ?case by (simp only: redis_boxes_sel) blast
next
  case 5
  from redis_push_boxes(2) [OF this(1)] 5(2) show ?case by (simp only: redis_boxes_sel)
next
  case 6
  from redis_push_boxes(3) [OF this(1)] 6(2) show ?case by (simp only: redis_boxes_sel)
qed

subsection \<open>Streams and their consumers\<close>

text \<open>
  An agent's inbox seen by its consumer: an entry that is added is new to the group, and asking
  whether a key exists changes nothing. A frame is a string, so its bytes are valid UTF-8.
\<close>

definition inbox_laws ::
    "'r redis \<Rightarrow> (uuid \<Rightarrow> string) \<Rightarrow> uuid \<Rightarrow> ('r \<Rightarrow> inbox_entry list) \<Rightarrow> ('r \<Rightarrow> inbox_entry list) \<Rightarrow> bool" where
  "inbox_laws R U a fresh pend \<longleftrightarrow>
     (\<forall>fs w i w'. cmd_xadd R (inbox_key U a) fs w = (Ok i, w') \<longrightarrow>
        fresh w' = fresh w @ [(i, map (apsnd BulkString) fs)] \<and> pend w' = pend w)
   \<and> (\<forall>k w. fresh (snd (cmd_exists R k w)) = fresh w \<and> pend (snd (cmd_exists R k w)) = pend w)"

lemma deliver_fresh:
  assumes "lease_laws R U kv" and "stream_laws R strm" and "inbox_laws R U a fresh pend" and "owner_of U kv w a \<noteq> None"
  shows "\<exists>i. fresh (snd (redis_deliver R U a f w)) = fresh w @ [(i, [(''frame'', BulkString f)])]
    \<and> pend (snd (redis_deliver R U a f w)) = pend w"
proof -
  let ?w1 = "snd (cmd_exists R (owner_key U a) w)"
  have e: "fst (cmd_exists R (owner_key U a) w) = Ok True"
    using assms(1,4) by (simp add: lease_laws_def string_laws_def owner_of_def)
  have p: "fresh ?w1 = fresh w" "pend ?w1 = pend w" using assms(3) by (simp_all add: inbox_laws_def)
  obtain i w2 where x: "cmd_xadd R (inbox_key U a) [(''frame'', f)] ?w1 = (Ok i, w2)"
    using stream_lawsD(3) [OF assms(2) stream_keys(2), of U a "[(''frame'', f)]" ?w1] by (metis prod.collapse)
  with assms(3) p have "fresh w2 = fresh w @ [(i, map (apsnd BulkString) [(''frame'', f)])]" "pend w2 = pend w"
    unfolding inbox_laws_def by metis+
  with e x show ?thesis by (simp add: redis_deliver_def deliver_script_def and_then_def ret_def case_prod_beta)
qed

text \<open>Posts to a routed agent: every one is answered live and is new to the agent's consumer.\<close>

lemma posts_fresh:
  assumes "lease_laws (rr_redis X) (rr_show_uuid X) kv" and "stream_laws (rr_redis X) strm"
    and "inbox_laws (rr_redis X) (rr_show_uuid X) a fresh pend" and "\<And>req. req \<in> set reqs \<Longrightarrow> msg_role req \<noteq> []"
    and "owner_of (rr_show_uuid X) kv (ra_redis s) a \<noteq> None"
  shows "\<exists>ids. length ids = length reqs
    \<and> fst (posts (redis_send_message X S) s (map (Pair a) reqs)) = map (\<lambda>_. Ok (202, DeliveryLive)) reqs
    \<and> fresh (ra_redis (snd (posts (redis_send_message X S) s (map (Pair a) reqs))))
      = fresh (ra_redis s) @ map (\<lambda>(i, req). (i, [(''frame'', BulkString (session_message_frame S req))])) (zip ids reqs)
    \<and> pend (ra_redis (snd (posts (redis_send_message X S) s (map (Pair a) reqs)))) = pend (ra_redis s)"
  using assms(4,5)
proof (induction reqs arbitrary: s)
  case (Cons req reqs)
  let ?R = "rr_redis X" and ?U = "rr_show_uuid X" and ?f = "session_message_frame S req"
  let ?s1 = "snd (on_redis (redis_deliver ?R ?U a ?f) s)"
  have l: "fst (redis_deliver ?R ?U a ?f (ra_redis s)) = Live"
    using redis_deliver_effect [OF assms(1,2), of "ra_redis s" a ?f] Cons.prems(2) by simp
  have p: "redis_send_message X S s a req = (Ok (202, DeliveryLive), ?s1)"
    using Cons.prems(1) l by (simp add: redis_send_message_def send_message_on_def redis_sel case_prod_beta)
  have "owner_of ?U kv (ra_redis ?s1) a \<noteq> None"
    using Cons.prems(2) redis_deliver_kv [OF assms(1)] by (simp add: owner_of_def)
  from Cons.IH [OF _ this] Cons.prems(1) obtain ids where ids: "length ids = length reqs"
    "fst (posts (redis_send_message X S) ?s1 (map (Pair a) reqs)) = map (\<lambda>_. Ok (202, DeliveryLive)) reqs"
    "fresh (ra_redis (snd (posts (redis_send_message X S) ?s1 (map (Pair a) reqs))))
      = fresh (ra_redis ?s1) @ map (\<lambda>(i, req). (i, [(''frame'', BulkString (session_message_frame S req))])) (zip ids reqs)"
    "pend (ra_redis (snd (posts (redis_send_message X S) ?s1 (map (Pair a) reqs)))) = pend (ra_redis ?s1)" by auto
  from deliver_fresh [OF assms(1-3) Cons.prems(2), of ?f] obtain i where
    i: "fresh (ra_redis ?s1) = fresh (ra_redis s) @ [(i, [(''frame'', BulkString ?f)])]" "pend (ra_redis ?s1) = pend (ra_redis s)" by auto
  from ids i p show ?case by (intro exI [of _ "i # ids"]) (simp add: case_prod_beta)
qed simp

subsection \<open>Properties\<close>

text \<open>A Redis with the owners and streams of the other theories and one consumer group, on agent 7's inbox.\<close>

type_synonym shared_state = "demo_redis_state \<times> demo_group"

definition on_fst :: "('a \<Rightarrow> 'x \<times> 'a) \<Rightarrow> 'a \<times> 'b \<Rightarrow> 'x \<times> 'a \<times> 'b" where
  "on_fst f w = (case f (fst w) of (x, v) \<Rightarrow> (x, v, snd w))"

definition on_snd :: "('b \<Rightarrow> 'x \<times> 'b) \<Rightarrow> 'a \<times> 'b \<Rightarrow> 'x \<times> 'a \<times> 'b" where
  "on_snd f w = (case f (snd w) of (x, v) \<Rightarrow> (x, fst w, v))"

definition demo_shared :: "shared_state redis" where
  "demo_shared =
     \<lparr>cmd_get = (\<lambda>k. on_fst (cmd_get demo_redis k)), cmd_set_ex = (\<lambda>k v n. on_fst (cmd_set_ex demo_redis k v n)),
      cmd_exists = (\<lambda>k. on_fst (cmd_exists demo_redis k)), cmd_expire = (\<lambda>k n. on_fst (cmd_expire demo_redis k n)),
      cmd_del = (\<lambda>k. on_fst (cmd_del demo_redis k)), cmd_hset = (\<lambda>k fs. on_fst (cmd_hset demo_redis k fs)),
      cmd_sadd = (\<lambda>k m. on_fst (cmd_sadd demo_redis k m)), cmd_srem = (\<lambda>k m. on_fst (cmd_srem demo_redis k m)),
      cmd_smembers = (\<lambda>k. on_fst (cmd_smembers demo_redis k)), cmd_sismember = (\<lambda>k m. on_fst (cmd_sismember demo_redis k m)),
      cmd_zadd = (\<lambda>k x m. on_fst (cmd_zadd demo_redis k x m)), cmd_zrem = (\<lambda>k m. on_fst (cmd_zrem demo_redis k m)),
      cmd_zremrangebyrank = (\<lambda>k i j. on_fst (cmd_zremrangebyrank demo_redis k i j)),
      cmd_zrange_scores = (\<lambda>k. on_fst (cmd_zrange_scores demo_redis k)), cmd_zscore = (\<lambda>k m. on_fst (cmd_zscore demo_redis k m)),
      cmd_publish = (\<lambda>c m. on_fst (cmd_publish demo_redis c m)), cmd_xlen = (\<lambda>k. on_fst (cmd_xlen demo_redis k)),
      cmd_xadd = (\<lambda>k fs w. case on_fst (cmd_xadd demo_redis k fs) w of (r, v, g) \<Rightarrow>
        (r, v, if k = inbox_key demo_show 7
               then (fst g @ [(show_nat (length (snd (fst w) k)), map (apsnd BulkString) fs)], snd g) else g)),
      cmd_xrange = (\<lambda>k n. on_fst (cmd_xrange demo_redis k n))\<rparr>"

definition demo_shared_groups :: "shared_state group_commands" where
  "demo_shared_groups =
     \<lparr>xgroup_create = (\<lambda>k g w. w), xreadgroup = (\<lambda>k g c n i. on_snd (xreadgroup demo_groups k g c n i)),
      xack = (\<lambda>k g i w. (fst w, xack demo_groups k g i (snd w))),
      xautoclaim = (\<lambda>k g c m n. on_snd (xautoclaim demo_groups k g c m n)),
      xpending_counts = (\<lambda>k g i. on_snd (xpending_counts demo_groups k g i)),
      dlq_xadd = (\<lambda>k fs w. w), valid_utf8 = (\<lambda>s. True), lossy_utf8 = (\<lambda>s. s), now_ms = (\<lambda>w. 0)\<rparr>"

lemma demo_shared_laws:
  "lease_laws demo_shared demo_show (fst \<circ> fst)" "stream_laws demo_shared (snd \<circ> fst)"
  "inbox_laws demo_shared demo_show 7 (fst \<circ> snd) (snd \<circ> snd)"
  "group_laws demo_shared_groups k c (fst \<circ> snd) (snd \<circ> snd)"
proof -
  show "lease_laws demo_shared demo_show (fst \<circ> fst)"
    using demo_show_inj by (simp add: lease_laws_def string_laws_def side_laws_def demo_shared_def demo_redis_def on_fst_def)
  show "stream_laws demo_shared (snd \<circ> fst)" by (simp add: stream_laws_def demo_shared_def demo_redis_def on_fst_def)
  show "inbox_laws demo_shared demo_show 7 (fst \<circ> snd) (snd \<circ> snd)"
    by (auto simp: inbox_laws_def demo_shared_def demo_redis_def on_fst_def)
  show "group_laws demo_shared_groups k c (fst \<circ> snd) (snd \<circ> snd)"
    by (simp add: group_laws_def demo_shared_groups_def demo_groups_def on_snd_def)
qed

definition demo_runtime :: "(nat, nat, unit, world, shared_state) redis_runtime" where
  "demo_runtime =
     \<lparr>rr_redis = demo_shared, rr_groups = demo_shared_groups, rr_spawn_consumer = (\<lambda>a n t w. (t, w)), rr_abort = (\<lambda>h w. w),
      rr_spawn_subscription = (\<lambda>c w. ((), w)), rr_send = world_send, rr_show_uuid = demo_show, rr_rfc3339 = show_nat,
      rr_millis = int, rr_encode_snapshot = (\<lambda>s. ''{}''), rr_env = (\<lambda>n. demo_redis_env)\<rparr>"

definition demo_instance :: "string \<Rightarrow> shared_state \<Rightarrow> (nat, nat, world, shared_state, unit) redis_app" where
  "demo_instance me w = redis_app_new me world_init w ()"

lemma demo_runtime_sel [simp]:
  "rr_redis demo_runtime = demo_shared" "rr_groups demo_runtime = demo_shared_groups" "rr_show_uuid demo_runtime = demo_show"
  "rr_send demo_runtime = world_send"
  by (simp_all add: demo_runtime_def)

lemma demo_instance_sel [simp]: "ra_redis (demo_instance me w) = w" "ra_channels (demo_instance me w) = world_init"
  by (simp_all add: demo_instance_def redis_app_new_def)

text \<open>
  C3: the server answers posts in the same way whether it runs on its own memory or on Redis. From
  states with the same routes, inboxes and buffers, any sequence of posts gets the same statuses
  and bodies, and leaves the same messages with the same agents.
\<close>

theorem backends_agree:
  assumes "memory_inv E alive sent DEFAULT_QUEUE_CAPACITY st" and "redis_inv X kv strm s"
    and "memory_boxes alive sent st = redis_boxes X kv strm s"
    and "posts (send_message S (rr_show_uuid X) (env_send E)) st xs = (rs, st')"
    and "posts (redis_send_message X S) s xs = (rs', s')"
  shows "rs = rs' \<and> memory_boxes alive sent st' = redis_boxes X kv strm s'"
proof -
  have m: "send_message S (rr_show_uuid X) (env_send E) = send_message_on S (rr_show_uuid X) (memory_providers E)"
    by (intro ext) (simp add: memory_handlers(4))
  from memory_backend.posts_refine [OF assms(1) refl refl, of S "rr_show_uuid X" xs] assms(4)
  have "posts (post_spec S (rr_show_uuid X) DEFAULT_QUEUE_CAPACITY) (memory_boxes alive sent st) xs = (rs, memory_boxes alive sent st')"
    by (simp add: m)
  moreover from redis_backend.posts_refine [OF assms(2) refl refl, of S "rr_show_uuid X" xs] assms(5)
  have "posts (post_spec S (rr_show_uuid X) DEFAULT_QUEUE_CAPACITY) (redis_boxes X kv strm s) xs = (rs', redis_boxes X kv strm s')"
    by (simp add: redis_send_message_def)
  ultimately show ?thesis using assms(3) by simp
qed

definition demo_memory :: "(nat, nat, world, nat \<times> (nat \<Rightarrow> string list), unit) app_state" where
  "demo_memory = app_state_new world_init (0, \<lambda>_. []) ()"

theorem backends_agree_witness:
  "\<exists>st' s'. posts (send_message demo_serde demo_show world_send) demo_memory [(7, demo_request)] = ([Ok (202, DeliveryQueued)], st')
    \<and> posts (redis_send_message demo_runtime demo_serde) (demo_instance ''A'' (demo_redis_init, [], [])) [(7, demo_request)]
      = ([Ok (202, DeliveryQueued)], s')"
proof -
  let ?s = "demo_instance ''A'' (demo_redis_init, [], [])"
  have m: "memory_inv demo_environment fst snd DEFAULT_QUEUE_CAPACITY demo_memory"
    using world_laws by (simp add: memory_inv_def demo_environment_def demo_memory_def app_state_new_def queue_default_def queue_new_def
        DEFAULT_PER_AGENT_CAPACITY_def DEFAULT_QUEUE_CAPACITY_def registry_new_def registry_tunnel_def registry_get_def)
  have r: "redis_inv demo_runtime (fst \<circ> fst) (snd \<circ> fst) ?s"
    using demo_shared_laws(1,2) by (simp add: redis_inv_def buffer_inv_def demo_redis_init_def)
  have b: "memory_boxes fst snd demo_memory = redis_boxes demo_runtime (fst \<circ> fst) (snd \<circ> fst) ?s"
    by (simp add: memory_boxes_def redis_boxes_def demo_memory_def app_state_new_def live_tunnel_def registry_tunnel_def registry_get_def
        registry_new_def tunnel_inbox_def queue_frames_def queue_default_def queue_new_def owner_of_def demo_redis_init_def redis_frames_def
        List.map_filter_simps fun_eq_iff)
  have e: "env_send demo_environment = world_send" by (simp add: demo_environment_def)
  obtain rs st' where 1: "posts (send_message demo_serde (rr_show_uuid demo_runtime) (env_send demo_environment)) demo_memory [(7, demo_request)] = (rs, st')"
    by (metis surj_pair)
  obtain rs' s' where 2: "posts (redis_send_message demo_runtime demo_serde) ?s [(7, demo_request)] = (rs', s')" by (metis surj_pair)
  have "rs = [Ok (202, DeliveryQueued)]"
  proof -
    have d: "msg_role demo_request \<noteq> []" and l: "live_tunnel fst demo_memory 7 = None"
      by (simp_all add: demo_request_def demo_memory_def app_state_new_def live_tunnel_def registry_tunnel_def registry_get_def registry_new_def)
    have c: "\<not> per_agent_capacity (message_queue demo_memory) \<le> length (queue_frames (message_queue demo_memory) 7)"
      by (simp add: demo_memory_def app_state_new_def queue_default_def queue_new_def queue_frames_def DEFAULT_PER_AGENT_CAPACITY_def)
    have "fst (send_message demo_serde demo_show world_send demo_memory 7 demo_request) = Ok (202, DeliveryQueued)"
      by (rule send_message_queued [OF world_laws d l, of demo_serde demo_show]) (use c in simp)
    with 1 e show ?thesis by (auto split: prod.splits)
  qed
  with backends_agree [OF m r b 1 2] 1 2 e show ?thesis by auto
qed



text \<open>
  C40: when Redis does not answer, a post is refused with status 503 as if the agent's queue were
  full, and a disconnection with status 404 as if the agent were not connected.
\<close>

theorem redis_outage_disguised:
  assumes "\<And>k w. fst (cmd_exists (rr_redis X) k w) = Err e" and "\<And>k w. fst (cmd_xlen (rr_redis X) k w) = Err e"
    and "msg_role req \<noteq> []"
  shows "fst (redis_send_message X S s a req) = Err (queue_full (rr_show_uuid X) a DEFAULT_QUEUE_CAPACITY)
    \<and> fst (redis_disconnect_agent X ts s a) = Err (NotFound (''agent '' @ rr_show_uuid X a))"
proof -
  let ?R = "rr_redis X" and ?U = "rr_show_uuid X"
  have "fst (redis_deliver ?R ?U a f w) = NoTunnel f" for f w
    using assms(1) by (simp add: redis_deliver_def deliver_script_def and_then_def case_prod_beta)
  moreover have "fst (redis_push ?R ?U DEFAULT_QUEUE_CAPACITY w a f) = Err (Full a DEFAULT_QUEUE_CAPACITY)" for f w
    using assms(2) by (simp add: redis_push_def push_script_def and_then_def case_prod_beta)
  moreover have "\<not> fst (redis_is_connected ?R ?U a w)" for w
    using assms(1) by (simp add: redis_is_connected_def)
  ultimately show ?thesis using assms(3)
    by (simp add: redis_send_message_def send_message_on_def redis_disconnect_agent_def disconnect_agent_on_def redis_sel case_prod_beta)
qed

definition demo_outage :: "(nat, nat, unit, world, shared_state) redis_runtime" where
  "demo_outage = demo_runtime\<lparr>rr_redis := demo_shared\<lparr>cmd_exists := (\<lambda>k w. (Err ''down'', w)), cmd_xlen := (\<lambda>k w. (Err ''down'', w))\<rparr>\<rparr>"

theorem redis_outage_disguised_witness:
  "fst (redis_send_message demo_outage demo_serde (demo_instance ''A'' (demo_redis_init, [], [])) 7 demo_request)
     = Err (queue_full demo_show 7 64)"
proof -
  have r: "msg_role demo_request \<noteq> []" by (simp add: demo_request_def)
  have s: "rr_show_uuid demo_outage = demo_show" by (simp add: demo_outage_def)
  have "fst (cmd_exists (rr_redis demo_outage) k w) = Err ''down''" "fst (cmd_xlen (rr_redis demo_outage) k w) = Err ''down''" for k w
    by (simp_all add: demo_outage_def)
  from redis_outage_disguised [where X = demo_outage, OF this r, of demo_serde "demo_instance ''A'' (demo_redis_init, [], [])" 7] show ?thesis
    by (simp add: s DEFAULT_QUEUE_CAPACITY_def)
qed

end
