(* ===== verification/Redis_Cluster.thy ===== *)
theory Redis_Cluster
  imports Redis_Pubsub
begin

text \<open>
  Several server instances and the connections of agents to them, over one Redis
  (\<^verbatim>\<open>acquire_lease\<close>, the heartbeat and the release of \<^verbatim>\<open>lease.rs\<close>, the control receiver of
  \<^verbatim>\<open>registry.rs\<close> and the end of a tunnel in \<^verbatim>\<open>run.rs\<close>). An acquisition is taken apart into the
  commands that other instances can come between: looking the owner up, announcing the takeover,
  and taking the lease; the subscription to control signals is a task that is started after the
  acquisition and comes to listen at some later time. A connection is named by a number, and a
  run is any sequence of events, those that are not possible at their time being without effect.
\<close>

datatype phase = Looked "string option" | Announced | Serving

record 's connection =
  cn_agent :: uuid
  cn_instance :: string
  cn_phase :: phase
  cn_control :: "'s option"

record ('s, 'r) cluster =
  cl_redis :: 'r
  cl_conns :: "nat \<rightharpoonup> 's connection"
  cl_used :: "nat set"

datatype cluster_event = Look nat string uuid | Announce nat | Take nat | Listen nat | Beat nat | End nat

definition lease_of :: "'s connection \<Rightarrow> ownership_lease" where
  "lease_of c = \<lparr>lease_agent_id = cn_agent c, lease_instance = cn_instance c\<rparr>"

text \<open>What an event does to its connection, and to Redis.\<close>

definition look ::
    "'r redis \<Rightarrow> (uuid \<Rightarrow> string) \<Rightarrow> string \<Rightarrow> uuid \<Rightarrow> 'r \<Rightarrow> 's connection option \<times> 'r" where
  "look R U i a w =
     (case cmd_get R (owner_key U a) w of
        (Ok e, w') \<Rightarrow> (Some \<lparr>cn_agent = a, cn_instance = i, cn_phase = Looked e, cn_control = None\<rparr>, w')
      | (Err _, w') \<Rightarrow> (None, w'))"

definition take_lease ::
    "'r redis \<Rightarrow> (uuid \<Rightarrow> string) \<Rightarrow> string \<Rightarrow> string \<Rightarrow> 's connection \<Rightarrow> 'r \<Rightarrow> 's connection option \<times> 'r" where
  "take_lease R U ts claims_json c w =
     (case and_then (cmd_set_ex R (owner_key U (cn_agent c)) (cn_instance c) LEASE_TTL_SECS)
             (\<lambda>_. record_owner R U ts (cn_agent c) (cn_instance c) claims_json) w of
        (Ok _, w') \<Rightarrow> (Some (c\<lparr>cn_phase := Serving\<rparr>), w')
      | (Err _, w') \<Rightarrow> (None, w'))"

definition conn_step ::
    "'r redis \<Rightarrow> (uuid \<Rightarrow> string) \<Rightarrow> ('s, 'r) pubsub \<Rightarrow> string \<Rightarrow> string \<Rightarrow> string \<Rightarrow> int \<Rightarrow> cluster_event \<Rightarrow> 's connection \<Rightarrow> 'r
      \<Rightarrow> 's connection option \<times> 'r" where
  "conn_step R U P url ts claims_json ms ev c w =
     (case ev of
        Announce _ \<Rightarrow>
          (case cn_phase c of
             Looked e \<Rightarrow> (Some (c\<lparr>cn_phase := Announced\<rparr>), announce R U (cn_agent c) (cn_instance c) e w)
           | _ \<Rightarrow> (Some c, w))
      | Take _ \<Rightarrow> (if cn_phase c = Announced then take_lease R U ts claims_json c w else (Some c, w))
      | Listen _ \<Rightarrow>
          (if cn_phase c = Serving \<and> cn_control c = None
           then (case open_subscription P url (control_channel U (cn_agent c)) w of (x, w') \<Rightarrow> (Some (c\<lparr>cn_control := x\<rparr>), w'))
           else (Some c, w))
      | Beat _ \<Rightarrow> (if cn_phase c = Serving then (Some c, snd (heartbeat_tick R U (lease_of c) w)) else (Some c, w))
      | End _ \<Rightarrow> (if cn_phase c = Serving then (None, release_lease R U ms (lease_of c) w) else (Some c, w))
      | Look _ _ _ \<Rightarrow> (Some c, w))"

fun event_id :: "cluster_event \<Rightarrow> nat" where
  "event_id (Look k i a) = k"
| "event_id (Announce k) = k"
| "event_id (Take k) = k"
| "event_id (Listen k) = k"
| "event_id (Beat k) = k"
| "event_id (End k) = k"

definition cluster_step ::
    "'r redis \<Rightarrow> (uuid \<Rightarrow> string) \<Rightarrow> ('s, 'r) pubsub \<Rightarrow> string \<Rightarrow> string \<Rightarrow> string \<Rightarrow> int \<Rightarrow> cluster_event
      \<Rightarrow> ('s, 'r) cluster \<Rightarrow> ('s, 'r) cluster" where
  "cluster_step R U P url ts claims_json ms ev s =
     (let k = event_id ev in
      case cl_conns s k of
        Some c \<Rightarrow>
          (case conn_step R U P url ts claims_json ms ev c (cl_redis s) of
             (c', w) \<Rightarrow> s\<lparr>cl_redis := w, cl_conns := (cl_conns s)(k := c')\<rparr>)
      | None \<Rightarrow>
          (case ev of
             Look _ i a \<Rightarrow>
               (if k \<in> cl_used s then s
                else (case look R U i a (cl_redis s) of
                   (c', w) \<Rightarrow> s\<lparr>cl_redis := w, cl_conns := (cl_conns s)(k := c'), cl_used := insert k (cl_used s)\<rparr>))
           | _ \<Rightarrow> s))"

definition cluster_init :: "'r \<Rightarrow> ('s, 'r) cluster" where
  "cluster_init w = \<lparr>cl_redis = w, cl_conns = Map.empty, cl_used = {}\<rparr>"

text \<open>The steps of one connection are the acquisition of the lease.\<close>

lemma look_announce_take:
  "acquire_lease R U ts a me cj w =
     (case look R U me a w of
        (None, w1) \<Rightarrow> (Err (case fst (cmd_get R (owner_key U a) w) of Err e \<Rightarrow> e), w1)
      | (Some c, w1) \<Rightarrow>
          (case conn_step R U P url ts cj ms (Announce k) c w1 of
             (Some c1, w2) \<Rightarrow>
               apfst (res_map (\<lambda>_. \<lparr>lease_agent_id = a, lease_instance = me\<rparr>))
                 (and_then (cmd_set_ex R (owner_key U (cn_agent c1)) (cn_instance c1) LEASE_TTL_SECS)
                   (\<lambda>_. record_owner R U ts (cn_agent c1) (cn_instance c1) cj) w2)))"
  by (simp add: acquire_lease_def look_def conn_step_def and_then_def ret_def case_prod_beta apfst_def map_prod_def split: result.split)

subsection \<open>Told of a takeover\<close>

text \<open>A connection has a signal to read, or is gone.\<close>

definition told :: "('r \<Rightarrow> 's \<rightharpoonup> string \<times> string list) \<Rightarrow> ('s, 'r) cluster \<Rightarrow> nat \<Rightarrow> bool" where
  "told subs s k \<longleftrightarrow>
     (case cl_conns s k of
        None \<Rightarrow> True
      | Some c \<Rightarrow> (case cn_control c of
            None \<Rightarrow> False
          | Some x \<Rightarrow> (case subs (cl_redis s) x of Some (_, ms) \<Rightarrow> ms \<noteq> [] | None \<Rightarrow> False)))"

text \<open>A serving connection of an instance for an agent that listens to the agent's control channel.\<close>

definition listening ::
    "(uuid \<Rightarrow> string) \<Rightarrow> ('r \<Rightarrow> 's \<rightharpoonup> string \<times> string list) \<Rightarrow> ('s, 'r) cluster \<Rightarrow> nat \<Rightarrow> string \<Rightarrow> uuid \<Rightarrow> bool" where
  "listening U subs s k i a \<longleftrightarrow>
     (\<exists>c x ms. cl_conns s k = Some c \<and> cn_agent c = a \<and> cn_instance c = i \<and> cn_phase c = Serving
        \<and> cn_control c = Some x \<and> subs (cl_redis s) x = Some (control_channel U a, ms))"

text \<open>What an operation on Redis does to subscriptions: messages may be added to them.\<close>

definition grows :: "('r \<Rightarrow> 's \<rightharpoonup> string \<times> string list) \<Rightarrow> 'r \<Rightarrow> 'r \<Rightarrow> bool" where
  "grows subs w w' \<longleftrightarrow> (\<forall>x ch ms. subs w x = Some (ch, ms) \<longrightarrow> (\<exists>ms'. subs w' x = Some (ch, ms @ ms')))"

lemma growsI: "subs w' = subs w \<Longrightarrow> grows subs w w'"
  by (simp add: grows_def)

lemma grows_trans: "grows subs w w1 \<Longrightarrow> grows subs w1 w2 \<Longrightarrow> grows subs w w2"
  by (fastforce simp: grows_def)

lemma grows_publish:
  assumes "channel_laws R P subs"
  shows "grows subs w (snd (cmd_publish R c m w))"
  using channel_lawsD(3) [OF assms, of c m w] by (auto simp: grows_def)

lemma record_subs:
  assumes "channel_laws R P subs"
  shows "subs (snd (record_owner R U ts a i cj w)) = subs w" "subs (snd (record_release R U ms a w)) = subs w"
    "subs (snd (record_renewal R U a w)) = subs w"
proof -
  note laws = assms [unfolded channel_laws_def]
  note channel_law_tail = conjunct2 [OF conjunct2 [OF conjunct2 [OF conjunct2 [OF laws]]]]
  have k: "subs (snd (cmd_hset R k fs w)) = subs w" "subs (snd (cmd_sadd R k m w)) = subs w" "subs (snd (cmd_srem R k m w)) = subs w"
    "subs (snd (cmd_zadd R k y m w)) = subs w" "subs (snd (cmd_zrem R k m w)) = subs w"
    "subs (snd (cmd_zremrangebyrank R k y z w)) = subs w" for k fs m y z w
    using channel_law_tail by simp_all
  show "subs (snd (record_owner R U ts a i cj w)) = subs w" "subs (snd (record_release R U ms a w)) = subs w"
    "subs (snd (record_renewal R U a w)) = subs w"
    by (simp_all add: record_owner_def record_release_def record_renewal_def pipeline_simps ignored_simps k channel_lawsD(5-7) [OF assms])
qed

lemma lease_op_subs:
  assumes "channel_laws R P subs"
  shows "subs (snd (heartbeat_tick R U l w)) = subs w" "subs (release_lease R U ms l w) = subs w"
  by (simp_all add: heartbeat_tick_def heartbeat_script_def release_lease_def release_script_def and_then_def ret_def Let_def case_prod_beta
      record_subs [OF assms] channel_lawsD(4,6,7) [OF assms] split: result.split)

lemma announce_grows: "channel_laws R P subs \<Longrightarrow> grows subs w (announce R U a me e w)"
  by (cases e) (auto simp: announce_def intro: growsI grows_publish)

lemma open_subscription_grows:
  assumes "channel_laws R P subs"
  shows "grows subs w (snd (open_subscription P url c w))"
proof -
  have o: "subs (snd (open_pubsub P url w)) = subs w"
    using conjunct1 [OF conjunct2 [OF assms [unfolded channel_laws_def]]] by simp
  have e: "subs (snd (ps_subscribe P s c v)) = subs v" if "fst (ps_subscribe P s c v) = Err x" for s v x
    using assms that unfolding channel_laws_def by (metis prod.collapse)
  show ?thesis
  proof (cases "fst (open_subscription P url c w)")
    case None
    with o e show ?thesis
      by (auto simp: open_subscription_def case_prod_beta split: result.splits intro!: growsI)
  next
    case (Some s)
    then obtain w' where w': "open_subscription P url c w = (Some s, w')" by (metis prod.collapse)
    then obtain w1 where "open_pubsub P url w = (Ok s, w1)"
      by (auto simp: open_subscription_def split: result.splits prod.splits)
    with channel_lawsD(1) [OF assms] have "subs w s = None" by blast
    with w' open_subscription_effect [OF assms w'] show ?thesis by (auto simp: grows_def)
  qed
qed

lemma conn_step_grows:
  assumes "channel_laws R P subs"
  shows "grows subs w (snd (conn_step R U P url ts cj ms ev c w))"
proof -
  have t: "subs (snd (take_lease R U ts cj c w)) = subs w" for c w
    by (simp add: take_lease_def and_then_def case_prod_beta record_subs [OF assms] channel_lawsD(5) [OF assms] split: result.split)
  show ?thesis
    by (cases ev) (auto simp: conn_step_def case_prod_beta t lease_op_subs [OF assms] split: phase.split
        intro: growsI announce_grows [OF assms] open_subscription_grows [OF assms])
qed

lemma cluster_step_grows:
  assumes "channel_laws R P subs"
  shows "grows subs (cl_redis s) (cl_redis (cluster_step R U P url ts cj ms ev s))"
  using conn_step_grows [OF assms, of "cl_redis s" U url ts cj ms ev]
  by (auto simp: cluster_step_def Let_def look_def case_prod_beta channel_lawsD(4) [OF assms]
      split: option.split cluster_event.split result.split intro: growsI)

subsection \<open>Connections through a step\<close>

text \<open>
  A serving connection that listens keeps its agent, instance and subscription until it ends, and
  its name is not given out again.
\<close>

lemma cluster_step_listening:
  assumes "cl_conns s k = Some c" and "cn_phase c = Serving" and "cn_control c = Some x"
  shows "cl_conns (cluster_step R U P url ts cj ms ev s) k \<in> {Some c, None}"
proof (cases "event_id ev = k")
  case True
  with assms show ?thesis by (cases ev) (auto simp: cluster_step_def conn_step_def case_prod_beta)
next
  case False
  with assms(1) show ?thesis
    by (auto simp: cluster_step_def Let_def case_prod_beta split: option.split cluster_event.split)
qed

lemma cluster_step_gone:
  assumes "cl_conns s k = None" and "k \<in> cl_used s"
  shows "cl_conns (cluster_step R U P url ts cj ms ev s) k = None"
  using assms by (auto simp: cluster_step_def Let_def case_prod_beta split: option.split cluster_event.split)

lemma cluster_step_used:
  "cl_used s \<subseteq> cl_used (cluster_step R U P url ts cj ms ev s)"
  by (auto simp: cluster_step_def Let_def case_prod_beta split: option.split cluster_event.split)

lemma told_step:
  assumes "channel_laws R P subs" and "told subs s k" and "k \<in> cl_used s"
    and "\<And>c. cl_conns s k = Some c \<Longrightarrow> cn_phase c = Serving"
  shows "told subs (cluster_step R U P url ts cj ms ev s) k"
proof (cases "cl_conns s k")
  case None
  with cluster_step_gone [OF None assms(3)] show ?thesis by (simp add: told_def)
next
  case (Some c)
  with assms(2) obtain x ch m ms' where x: "cn_control c = Some x" "subs (cl_redis s) x = Some (ch, m # ms')"
    by (auto simp: told_def neq_Nil_conv split: option.splits)
  from x(2) cluster_step_grows [OF assms(1), of s U url ts cj ms ev] obtain ms2 where
    "subs (cl_redis (cluster_step R U P url ts cj ms ev s)) x = Some (ch, (m # ms') @ ms2)" unfolding grows_def by blast
  with cluster_step_listening [OF Some assms(4) [OF Some] x(1), of R U P url ts cj ms ev] x(1) show ?thesis
    by (auto simp: told_def)
qed


text \<open>A connection that is alone with its subscription, which has a signal or waits for one, and the rest.\<close>

definition owed ::
    "(uuid \<Rightarrow> string) \<Rightarrow> ('r \<Rightarrow> 's \<rightharpoonup> string \<times> string list) \<Rightarrow> string \<Rightarrow> string \<Rightarrow> uuid \<Rightarrow> nat \<Rightarrow> nat \<Rightarrow> ('s, 'r) cluster \<Rightarrow> bool" where
  "owed U subs i j a k c s \<longleftrightarrow>
     cl_conns s c = Some \<lparr>cn_agent = a, cn_instance = j, cn_phase = Looked (Some i), cn_control = None\<rparr>
     \<and> (cl_conns s k = None \<or> listening U subs s k i a)"

definition settled :: "('r \<Rightarrow> 's \<rightharpoonup> string \<times> string list) \<Rightarrow> nat \<Rightarrow> ('s, 'r) cluster \<Rightarrow> bool" where
  "settled subs k s \<longleftrightarrow> told subs s k \<and> (\<forall>d. cl_conns s k = Some d \<longrightarrow> cn_phase d = Serving)"

lemma listening_step:
  assumes "channel_laws R P subs" and "listening U subs s k i a"
  shows "cl_conns (cluster_step R U P url ts cj ms ev s) k = None \<or> listening U subs (cluster_step R U P url ts cj ms ev s) k i a"
proof -
  from assms(2) obtain c x m where c: "cl_conns s k = Some c" "cn_agent c = a" "cn_instance c = i" "cn_phase c = Serving"
    "cn_control c = Some x" "subs (cl_redis s) x = Some (control_channel U a, m)" by (auto simp: listening_def)
  from c(6) cluster_step_grows [OF assms(1), of s U url ts cj ms ev] obtain m' where
    "subs (cl_redis (cluster_step R U P url ts cj ms ev s)) x = Some (control_channel U a, m @ m')" unfolding grows_def by blast
  with cluster_step_listening [OF c(1,4,5), of R U P url ts cj ms ev] c(2-5) show ?thesis by (auto simp: listening_def)
qed

lemma settled_step:
  assumes "channel_laws R P subs" and "k \<in> cl_used s" and "settled subs k s"
  shows "settled subs k (cluster_step R U P url ts cj ms ev s)"
proof -
  have t: "told subs (cluster_step R U P url ts cj ms ev s) k"
    using told_step [OF assms(1) _ assms(2)] assms(3) by (simp add: settled_def)
  show ?thesis
  proof (cases "cl_conns s k")
    case None
    with t cluster_step_gone [OF None assms(2)] show ?thesis by (simp add: settled_def)
  next
    case (Some c)
    with assms(3) obtain x where "cn_phase c = Serving" "cn_control c = Some x"
      by (auto simp: settled_def told_def split: option.splits)
    with t cluster_step_listening [OF Some this, of R U P url ts cj ms ev] show ?thesis by (auto simp: settled_def)
  qed
qed

text \<open>The announcement reaches the connection that listens.\<close>

lemma announced_settles:
  assumes "channel_laws R P subs" and "owed U subs i j a k c s" and "j \<noteq> i" and "k \<noteq> c"
  shows "settled subs k (cluster_step R U P url ts cj ms (Announce c) s)"
proof -
  have st: "cluster_step R U P url ts cj ms (Announce c) s =
      s\<lparr>cl_redis := snd (cmd_publish R (control_channel U a) ''takeover'' (cl_redis s)),
        cl_conns := (cl_conns s)(c \<mapsto> \<lparr>cn_agent = a, cn_instance = j, cn_phase = Announced, cn_control = None\<rparr>)\<rparr>"
    using assms(2,3) by (auto simp: owed_def cluster_step_def conn_step_def announce_def)
  show ?thesis
  proof (cases "cl_conns s k")
    case None
    with st assms(4) show ?thesis by (simp add: settled_def told_def)
  next
    case (Some d)
    with assms(2) obtain x m where d: "cn_phase d = Serving" "cn_control d = Some x"
      "subs (cl_redis s) x = Some (control_channel U a, m)" by (auto simp: owed_def listening_def)
    have "subs (snd (cmd_publish R (control_channel U a) ''takeover'' (cl_redis s))) x = Some (control_channel U a, m @ [''takeover''])"
      using channel_lawsD(3) [OF assms(1)] d(3) by simp
    with st assms(4) Some d show ?thesis by (simp add: settled_def told_def)
  qed
qed

lemma owed_step:
  assumes "channel_laws R P subs" and "owed U subs i j a k c s" and "j \<noteq> i" and "k \<noteq> c" and "k \<in> cl_used s"
  shows "owed U subs i j a k c (cluster_step R U P url ts cj ms ev s) \<or> settled subs k (cluster_step R U P url ts cj ms ev s)"
proof (cases "ev = Announce c")
  case True
  with announced_settles [OF assms(1-4)] show ?thesis by simp
next
  case False
  let ?d = "\<lparr>cn_agent = a, cn_instance = j, cn_phase = Looked (Some i), cn_control = None\<rparr>"
  have d: "cl_conns s c = Some ?d" using assms(2) by (simp add: owed_def)
  have "cl_conns (cluster_step R U P url ts cj ms ev s) c = Some ?d"
  proof (cases "event_id ev = c")
    case True
    with False d show ?thesis by (cases ev) (auto simp: cluster_step_def conn_step_def)
  next
    case False
    with d show ?thesis by (auto simp: cluster_step_def Let_def case_prod_beta split: option.split cluster_event.split)
  qed
  moreover have "cl_conns (cluster_step R U P url ts cj ms ev s) k = None \<or> listening U subs (cluster_step R U P url ts cj ms ev s) k i a"
  proof (cases "cl_conns s k")
    case None
    with cluster_step_gone [OF None assms(5)] show ?thesis by simp
  next
    case (Some d)
    with assms(2) have "listening U subs s k i a" by (simp add: owed_def)
    from listening_step [OF assms(1) this] show ?thesis .
  qed
  ultimately show ?thesis by (simp add: owed_def)
qed

lemma owed_run:
  assumes "channel_laws R P subs" and "j \<noteq> i" and "k \<noteq> c"
  shows "k \<in> cl_used s \<Longrightarrow> owed U subs i j a k c s \<or> settled subs k s
    \<Longrightarrow> owed U subs i j a k c (fold (cluster_step R U P url ts cj ms) es s) \<or> settled subs k (fold (cluster_step R U P url ts cj ms) es s)"
proof (induction es arbitrary: s)
  case (Cons ev es)
  let ?s = "cluster_step R U P url ts cj ms ev s"
  have "k \<in> cl_used ?s" using Cons.prems(1) cluster_step_used by blast
  moreover have "owed U subs i j a k c ?s \<or> settled subs k ?s"
    using Cons.prems owed_step [OF assms(1) _ assms(2,3)] settled_step [OF assms(1)] by blast
  ultimately show ?case using Cons.IH by simp
qed simp

subsection \<open>A connection from its start to its service\<close>

lemma take_lease_some: "lease_laws R U kv \<Longrightarrow> fst (take_lease R U ts cj c w) = Some (c\<lparr>cn_phase := Serving\<rparr>)"
  by (simp add: take_lease_def and_then_def case_prod_beta lease_lawsD(3) record_effects(1))

lemma pair_of: "fst p = x \<Longrightarrow> \<exists>y. p = (x, y)"
  by (cases p) simp

text \<open>The three steps of an acquisition, one after the other, with nothing in between.\<close>

lemma connect_run:
  fixes s :: "('s, 'r) cluster"
  assumes "lease_laws R U kv" and "cl_conns s k = None" and "k \<notin> cl_used s"
  shows "\<exists>w. fold (cluster_step R U P url ts cj ms) [Look k i a, Announce k, Take k] s =
    s\<lparr>cl_redis := w, cl_conns := (cl_conns s)(k \<mapsto> \<lparr>cn_agent = a, cn_instance = i, cn_phase = Serving, cn_control = None\<rparr>),
      cl_used := insert k (cl_used s)\<rparr>"
proof -
  have "fst (look R U i a (cl_redis s)) =
      Some \<lparr>cn_agent = a, cn_instance = i, cn_phase = Looked (owner_of U kv (cl_redis s) a), cn_control = None :: 's option\<rparr>"
    using lease_lawsD(1) [OF assms(1)] by (simp add: look_def case_prod_beta)
  from pair_of [OF this] obtain w1 where "look R U i a (cl_redis s) =
      (Some \<lparr>cn_agent = a, cn_instance = i, cn_phase = Looked (owner_of U kv (cl_redis s) a), cn_control = None :: 's option\<rparr>, w1)" by blast
  then have 1: "cluster_step R U P url ts cj ms (Look k i a) s = s\<lparr>cl_redis := w1,
      cl_conns := (cl_conns s)(k \<mapsto> \<lparr>cn_agent = a, cn_instance = i, cn_phase = Looked (owner_of U kv (cl_redis s) a), cn_control = None\<rparr>),
      cl_used := insert k (cl_used s)\<rparr>"
    using assms(2,3) by (simp add: cluster_step_def)
  obtain w3 where 3: "take_lease R U ts cj \<lparr>cn_agent = a, cn_instance = i, cn_phase = Announced, cn_control = None :: 's option\<rparr>
      (announce R U a i (owner_of U kv (cl_redis s) a) w1) =
      (Some \<lparr>cn_agent = a, cn_instance = i, cn_phase = Serving, cn_control = None\<rparr>, w3)"
    using pair_of [OF take_lease_some [OF assms(1), of ts cj "\<lparr>cn_agent = a, cn_instance = i, cn_phase = Announced, cn_control = None :: 's option\<rparr>"
      "announce R U a i (owner_of U kv (cl_redis s) a) w1"]] by auto
  show ?thesis
  proof (rule exI [of _ w3])
    have "fold (cluster_step R U P url ts cj ms) [Look k i a, Announce k, Take k] s =
      s\<lparr>cl_used := insert k (cl_used s), cl_redis := w3,
        cl_conns := (cl_conns s)(k \<mapsto> \<lparr>cn_agent = a, cn_instance = i, cn_phase = Serving, cn_control = None\<rparr>)\<rparr>"
      by (simp add: 1) (simp add: cluster_step_def conn_step_def 3)
    then show "fold (cluster_step R U P url ts cj ms) [Look k i a, Announce k, Take k] s =
      s\<lparr>cl_redis := w3, cl_conns := (cl_conns s)(k \<mapsto> \<lparr>cn_agent = a, cn_instance = i, cn_phase = Serving, cn_control = None\<rparr>),
        cl_used := insert k (cl_used s)\<rparr>" by (cases s) simp
  qed
qed

text \<open>Coming to listen, when Redis takes the subscription.\<close>

lemma listen_run:
  assumes "cl_conns s k = Some c" and "cn_phase c = Serving" and "cn_control c = None"
    and "open_subscription P url (control_channel U (cn_agent c)) (cl_redis s) = (Some x, w)"
  shows "cluster_step R U P url ts cj ms (Listen k) s = s\<lparr>cl_redis := w, cl_conns := (cl_conns s)(k \<mapsto> c\<lparr>cn_control := Some x\<rparr>)\<rparr>"
  using assms by (simp add: cluster_step_def conn_step_def)

lemma beats_run:
  assumes "channel_laws R P subs"
  shows "cl_conns (fold (cluster_step R U P url ts cj ms) (map Beat ks) s) = cl_conns s
    \<and> subs (cl_redis (fold (cluster_step R U P url ts cj ms) (map Beat ks) s)) = subs (cl_redis s)"
proof (induction ks arbitrary: s)
  case (Cons k ks)
  have "cl_conns (cluster_step R U P url ts cj ms (Beat k) s) = cl_conns s
      \<and> subs (cl_redis (cluster_step R U P url ts cj ms (Beat k) s)) = subs (cl_redis s)"
    by (auto simp: cluster_step_def conn_step_def case_prod_beta fun_eq_iff lease_op_subs [OF assms] split: option.split)
  with Cons show ?case by simp
qed simp

lemma fold_append3: "fold f (xs @ ys @ zs) s = fold f zs (fold f ys (fold f xs s))"
  by simp

subsection \<open>Properties\<close>

text \<open>
  C8: an instance that takes an agent over tells the connection it replaces first. Once the new
  connection is past its announcement, and so before it holds the lease and in all later states,
  the connection of the previous owner that listened has a signal to read, or has ended; the events
  in between are any events of any connections.
\<close>

theorem takeover_completes:
  assumes "channel_laws R P subs" and "lease_laws R U kv"
    and "listening U subs s k i a" and "k \<in> cl_used s" and "owner_of U kv (cl_redis s) a = Some i"
    and "cl_conns s c = None" and "c \<notin> cl_used s" and "j \<noteq> i"
    and "s2 = fold (cluster_step R U P url ts cj ms) (Look c j a # es) s"
    and "cl_conns s2 c = Some d" and "cn_phase d \<noteq> Looked (Some i)"
  shows "told subs s2 k"
proof -
  let ?s1 = "cluster_step R U P url ts cj ms (Look c j a) s"
  have k: "k \<noteq> c" using assms(3,6) by (auto simp: listening_def)
  have "cl_conns ?s1 c = Some \<lparr>cn_agent = a, cn_instance = j, cn_phase = Looked (Some i), cn_control = None\<rparr>"
    using assms(5,6,7) lease_lawsD(1) [OF assms(2)] by (simp add: cluster_step_def look_def case_prod_beta)
  with listening_step [OF assms(1,3)] have "owed U subs i j a k c ?s1" by (auto simp: owed_def)
  moreover have "k \<in> cl_used ?s1" using assms(4) cluster_step_used by blast
  ultimately have "owed U subs i j a k c s2 \<or> settled subs k s2"
    using owed_run [OF assms(1,8) k] assms(9) by simp
  with assms(10,11) show ?thesis by (auto simp: owed_def settled_def)
qed

text \<open>
  C36: two instances can serve one agent at the same time for good. The subscription to takeover
  signals starts after the lease is taken, so the announcement of a second connection that comes in
  between is lost; then both connections listen, neither has a signal to read, and no later
  heartbeat of either changes that.
\<close>

theorem split_tunnels:
  fixes P :: "('s, 'r) pubsub"
  assumes "channel_laws R P subs" and "lease_laws R U kv"
    and "\<forall>ch w. \<exists>x w'. open_subscription P url ch w = (Some x, w')"
    and "s = fold (cluster_step R U P url ts cj ms)
               ([Look 0 i a, Announce 0, Take 0] @ [Look 1 j a, Announce 1, Take 1] @ [Listen 0, Listen 1] @ map Beat ks) (cluster_init w)"
  shows "listening U subs s 0 i a \<and> listening U subs s 1 j a \<and> \<not> told subs s 0 \<and> \<not> told subs s 1"
proof -
  let ?step = "cluster_step R U P url ts cj ms"
  let ?c = "\<lambda>i x. \<lparr>cn_agent = a, cn_instance = i, cn_phase = Serving, cn_control = x :: 's option\<rparr>"
  obtain w1 where 1: "fold ?step [Look 0 i a, Announce 0, Take 0] (cluster_init w) =
      \<lparr>cl_redis = w1, cl_conns = [0 \<mapsto> ?c i None], cl_used = {0}\<rparr>"
    using connect_run [OF assms(2), of "cluster_init w" 0 P url ts cj ms i a] by (auto simp: cluster_init_def)
  obtain w2 where 2: "fold ?step [Look 1 j a, Announce 1, Take 1] \<lparr>cl_redis = w1, cl_conns = [0 \<mapsto> ?c i None], cl_used = {0}\<rparr> =
      \<lparr>cl_redis = w2, cl_conns = [0 \<mapsto> ?c i None, 1 \<mapsto> ?c j None], cl_used = {1, 0}\<rparr>"
    using connect_run [OF assms(2), of "\<lparr>cl_redis = w1, cl_conns = [0 \<mapsto> ?c i None], cl_used = {0}\<rparr>" 1 P url ts cj ms j a] by auto
  obtain x w3 where 3: "open_subscription P url (control_channel U a) w2 = (Some x, w3)" using assms(3) by blast
  obtain y w4 where 4: "open_subscription P url (control_channel U a) w3 = (Some y, w4)" using assms(3) by blast
  have e3: "subs w3 = (subs w2)(x \<mapsto> (control_channel U a, []))" by (rule open_subscription_effect [OF assms(1) 3])
  have e4: "subs w4 = (subs w3)(y \<mapsto> (control_channel U a, []))" by (rule open_subscription_effect [OF assms(1) 4])
  let ?s4 = "\<lparr>cl_redis = w4, cl_conns = [0 \<mapsto> ?c i (Some x), 1 \<mapsto> ?c j (Some y)], cl_used = {1, 0}\<rparr>"
  have l0: "?step (Listen 0) \<lparr>cl_redis = w2, cl_conns = [0 \<mapsto> ?c i None, 1 \<mapsto> ?c j None], cl_used = {1, 0}\<rparr> =
      \<lparr>cl_redis = w3, cl_conns = [0 \<mapsto> ?c i (Some x), 1 \<mapsto> ?c j None], cl_used = {1, 0}\<rparr>"
    using listen_run [of _ 0 "?c i None" P url U x w3 R ts cj ms] 3 by (simp add: fun_upd_twist)
  have l1: "?step (Listen 1) \<lparr>cl_redis = w3, cl_conns = [0 \<mapsto> ?c i (Some x), 1 \<mapsto> ?c j None], cl_used = {1, 0}\<rparr> = ?s4"
    using listen_run [of _ 1 "?c j None" P url U y w4 R ts cj ms] 4 by simp
  have s: "s = fold ?step (map Beat ks) ?s4"
    unfolding assms(4) fold_append3 1 2 using l0 l1 by simp
  from beats_run [OF assms(1), of U url ts cj ms ks ?s4] s
  have c: "cl_conns s 0 = Some (?c i (Some x))" "cl_conns s 1 = Some (?c j (Some y))" "subs (cl_redis s) = subs w4" by simp_all
  from e3 e4 have "subs w4 x = Some (control_channel U a, [])" "subs w4 y = Some (control_channel U a, [])" by simp_all
  with c show ?thesis by (simp add: listening_def told_def)
qed

text \<open>
  A server with strings, streams and subscriptions that answers every command, and gives out a
  subscription when asked.
\<close>

type_synonym hub = "demo_redis_state \<times> (string \<times> string list) list"

abbreviation hub_data :: "(demo_redis_state \<Rightarrow> 'x \<times> demo_redis_state) \<Rightarrow> hub \<Rightarrow> 'x \<times> hub" where
  "hub_data f w \<equiv> (fst (f (fst w)), (snd (f (fst w)), snd w))"

definition hub_redis :: "hub redis" where
  "hub_redis =
     \<lparr>cmd_get = (\<lambda>k. hub_data (cmd_get demo_redis k)), cmd_set_ex = (\<lambda>k v n. hub_data (cmd_set_ex demo_redis k v n)),
      cmd_exists = (\<lambda>k. hub_data (cmd_exists demo_redis k)), cmd_expire = (\<lambda>k n. hub_data (cmd_expire demo_redis k n)),
      cmd_del = (\<lambda>k. hub_data (cmd_del demo_redis k)), cmd_hset = (\<lambda>k fs. hub_data (cmd_hset demo_redis k fs)),
      cmd_sadd = (\<lambda>k m. hub_data (cmd_sadd demo_redis k m)), cmd_srem = (\<lambda>k m. hub_data (cmd_srem demo_redis k m)),
      cmd_smembers = (\<lambda>k. hub_data (cmd_smembers demo_redis k)), cmd_sismember = (\<lambda>k m. hub_data (cmd_sismember demo_redis k m)),
      cmd_zadd = (\<lambda>k x m. hub_data (cmd_zadd demo_redis k x m)), cmd_zrem = (\<lambda>k m. hub_data (cmd_zrem demo_redis k m)),
      cmd_zremrangebyrank = (\<lambda>k i j. hub_data (cmd_zremrangebyrank demo_redis k i j)),
      cmd_zrange_scores = (\<lambda>k. hub_data (cmd_zrange_scores demo_redis k)), cmd_zscore = (\<lambda>k m. hub_data (cmd_zscore demo_redis k m)),
      cmd_publish = (\<lambda>c m w. (Ok (), (fst w, map (\<lambda>(d, ms). (d, if d = c then ms @ [m] else ms)) (snd w)))),
      cmd_xlen = (\<lambda>k. hub_data (cmd_xlen demo_redis k)), cmd_xadd = (\<lambda>k fs. hub_data (cmd_xadd demo_redis k fs)),
      cmd_xrange = (\<lambda>k n. hub_data (cmd_xrange demo_redis k n))\<rparr>"

definition hub_init :: hub where "hub_init = (demo_redis_init, [])"

definition hub_pubsub :: "(nat, hub) pubsub" where
  "hub_pubsub =
     \<lparr>open_client = (\<lambda>url. Ok ()),
      open_pubsub = (\<lambda>url w. (Ok (length (snd w)), w)),
      ps_subscribe = (\<lambda>s c w. if s = length (snd w) then (Ok (), (fst w, snd w @ [(c, [])])) else (Err ''gone'', w))\<rparr>"

definition hub_subs :: "hub \<Rightarrow> nat \<rightharpoonup> string \<times> string list" where
  "hub_subs w s = (if s < length (snd w) then Some (snd w ! s) else None)"

abbreviation hub_strings :: "hub \<Rightarrow> string \<rightharpoonup> string" where "hub_strings w \<equiv> fst (fst w)"

lemma hub_channel_laws: "channel_laws hub_redis hub_pubsub hub_subs"
  by (auto simp: channel_laws_def hub_redis_def hub_pubsub_def hub_subs_def fun_eq_iff nth_append case_prod_beta
      split: if_splits)

lemma hub_lease_laws: "lease_laws hub_redis demo_show hub_strings"
  using demo_show_inj by (simp add: lease_laws_def string_laws_def side_laws_def hub_redis_def demo_redis_def)

lemma hub_stream_laws: "stream_laws hub_redis (\<lambda>w. snd (fst w))"
  by (simp add: stream_laws_def hub_redis_def demo_redis_def)

lemma hub_open: "\<exists>x w'. open_subscription hub_pubsub url ch w = (Some x, w')"
  by (simp add: open_subscription_def hub_pubsub_def)

theorem split_tunnels_witness:
  "let s = fold (cluster_step hub_redis demo_show hub_pubsub ''redis://'' ''now'' ''{}'' 0)
       ([Look 0 ''A'' 7, Announce 0, Take 0] @ [Look 1 ''B'' 7, Announce 1, Take 1] @ [Listen 0, Listen 1] @ map Beat [0, 1, 0])
       (cluster_init hub_init)
   in listening demo_show hub_subs s 0 ''A'' 7 \<and> \<not> told hub_subs s 0"
  unfolding Let_def
  using split_tunnels [OF hub_channel_laws hub_lease_laws _ refl, of "''redis://''" "''now''" "''{}''" 0 "''A''" 7 "''B''" "[0, 1, 0]" hub_init] hub_open by blast

text \<open>With the first connection listening before the second comes, it is told.\<close>

definition hub_owned :: "(nat, hub) cluster" where
  "hub_owned =
     \<lparr>cl_redis = (([owner_key demo_show 7 \<mapsto> ''A''], \<lambda>_. []), [(control_channel demo_show 7, [])]),
      cl_conns = [0 \<mapsto> \<lparr>cn_agent = 7, cn_instance = ''A'', cn_phase = Serving, cn_control = Some 0\<rparr>], cl_used = {0}\<rparr>"

theorem takeover_completes_witness:
  "\<exists>d. cl_conns (fold (cluster_step hub_redis demo_show hub_pubsub ''redis://'' ''now'' ''{}'' 0) (Look 1 ''B'' 7 # [Beat 0, Announce 1, Take 1]) hub_owned) 1
      = Some d \<and> cn_phase d = Serving
    \<and> told hub_subs (fold (cluster_step hub_redis demo_show hub_pubsub ''redis://'' ''now'' ''{}'' 0) (Look 1 ''B'' 7 # [Beat 0, Announce 1, Take 1]) hub_owned) 0"
proof -
  let ?step = "cluster_step hub_redis demo_show hub_pubsub ''redis://'' ''now'' ''{}'' 0"
  have l: "listening demo_show hub_subs hub_owned 0 ''A'' 7" "0 \<in> cl_used hub_owned" "cl_conns hub_owned 1 = None" "1 \<notin> cl_used hub_owned"
    "owner_of demo_show hub_strings (cl_redis hub_owned) 7 = Some ''A''"
    by (simp_all add: listening_def hub_owned_def hub_subs_def owner_of_def)
  have "\<exists>d. cl_conns (fold ?step (Look 1 ''B'' 7 # [Beat 0, Announce 1, Take 1]) hub_owned) 1 = Some d \<and> cn_phase d = Serving"
    by (simp add: hub_owned_def cluster_step_def conn_step_def look_def case_prod_beta take_lease_some [OF hub_lease_laws]
        lease_lawsD(1) [OF hub_lease_laws])
  then obtain d where d: "cl_conns (fold ?step (Look 1 ''B'' 7 # [Beat 0, Announce 1, Take 1]) hub_owned) 1 = Some d" "cn_phase d = Serving"
    by blast
  have "told hub_subs (fold ?step (Look 1 ''B'' 7 # [Beat 0, Announce 1, Take 1]) hub_owned) 0"
    by (rule takeover_completes [OF hub_channel_laws hub_lease_laws l(1,2,5,3,4) _ refl d(1)]) (use d(2) in simp_all)
  with d show ?thesis by blast
qed

end
