(* ===== verification/Server_Startup.thy ===== *)
theory Server_Startup
  imports Routes Redis_Server Redis_Cluster
begin

text \<open>
  The start of the server: the application state and its builders (\<^verbatim>\<open>server/src/state.rs\<close>), the
  Redis providers (\<^verbatim>\<open>redis_backend/mod.rs\<close>), the state from the environment (\<^verbatim>\<open>startup.rs\<close>) and
  \<^verbatim>\<open>main.rs\<close>. Providers behind the traits are values here, the concrete provider with what it was
  built from, so that what the environment selects can be stated. The environment, the opening of
  a Redis client and of its connection, the socket and the HTTP server are parameters; the cargo
  feature \<^verbatim>\<open>redis\<close> is a flag.
\<close>

subsection \<open>The application state\<close>

datatype ('tx, 'h, 'c) registry_object =
    Memory_Registry "'tx in_memory_agent_registry"
  | Redis_Registry 'c string "('tx, 'h) redis_agent_registry"

datatype 'c queue_object = Memory_Queue in_memory_message_queue | Redis_Queue 'c nat

datatype ('ch, 'c) broker_object = Memory_Broker "'ch in_memory_stream_broker" | Redis_Broker 'c string

record ('tx, 'ch, 'h, 'c, 'o) app =
  app_authenticator :: static_jwt_authenticator
  app_registry :: "('tx, 'h, 'c) registry_object"
  app_queue :: "'c queue_object"
  app_broker :: "('ch, 'c) broker_object"
  app_hooks :: "'o hooks"

definition app_new :: "static_jwt_authenticator \<Rightarrow> ('tx, 'ch, 'h, 'c, 'o) app" where
  "app_new au =
     \<lparr>app_authenticator = au, app_registry = Memory_Registry registry_new, app_queue = Memory_Queue queue_default,
      app_broker = Memory_Broker broker_new, app_hooks = default_hooks\<rparr>"

definition with_boot_provider :: "(claims \<Rightarrow> 'o \<Rightarrow> (json, boot_error) result \<times> 'o) \<Rightarrow> ('tx, 'ch, 'h, 'c, 'o) app \<Rightarrow> ('tx, 'ch, 'h, 'c, 'o) app" where
  "with_boot_provider p st = st\<lparr>app_hooks := (app_hooks st)\<lparr>boot_initialize := p\<rparr>\<rparr>"

definition with_tool_host ::
    "(claims \<Rightarrow> 'o \<Rightarrow> (json, tool_error) result \<times> 'o) \<Rightarrow> (claims \<Rightarrow> json \<Rightarrow> 'o \<Rightarrow> (json, tool_error) result \<times> 'o)
      \<Rightarrow> ('tx, 'ch, 'h, 'c, 'o) app \<Rightarrow> ('tx, 'ch, 'h, 'c, 'o) app" where
  "with_tool_host lst call st = st\<lparr>app_hooks := (app_hooks st)\<lparr>tool_list := lst, tool_call := call\<rparr>\<rparr>"

definition with_quota_policy ::
    "(claims \<Rightarrow> 'o \<Rightarrow> (bool, quota_error) result \<times> 'o) \<Rightarrow> (claims \<Rightarrow> json \<Rightarrow> 'o \<Rightarrow> (unit, quota_error) result \<times> 'o)
      \<Rightarrow> ('tx, 'ch, 'h, 'c, 'o) app \<Rightarrow> ('tx, 'ch, 'h, 'c, 'o) app" where
  "with_quota_policy check rec st = st\<lparr>app_hooks := (app_hooks st)\<lparr>quota_check := check, quota_record := rec\<rparr>\<rparr>"

record ('tx, 'ch, 'h, 'c) redis_parts =
  rp_registry :: "('tx, 'h, 'c) registry_object"
  rp_queue :: "'c queue_object"
  rp_broker :: "('ch, 'c) broker_object"

definition with_redis_providers :: "('tx, 'ch, 'h, 'c) redis_parts \<Rightarrow> ('tx, 'ch, 'h, 'c, 'o) app \<Rightarrow> ('tx, 'ch, 'h, 'c, 'o) app" where
  "with_redis_providers ps st =
     st\<lparr>app_registry := rp_registry ps, app_queue := rp_queue ps, app_broker := rp_broker ps\<rparr>"

subsection \<open>Connecting to Redis\<close>

record ('cl, 'c, 'w) redis_connect =
  client_open :: "string \<Rightarrow> ('cl, string) result"
  manager_new :: "'cl \<Rightarrow> 'w \<Rightarrow> ('c, string) result \<times> 'w"

definition providers_from_url ::
    "('cl, 'c, 'w) redis_connect \<Rightarrow> string \<Rightarrow> string \<Rightarrow> 'w \<Rightarrow> (('tx, 'ch, 'h, 'c) redis_parts, string) result \<times> 'w" where
  "providers_from_url C me url w =
     (case client_open C url of
        Err e \<Rightarrow> (Err e, w)
      | Ok cl \<Rightarrow>
          (case manager_new C cl w of
             (Err e, w1) \<Rightarrow> (Err e, w1)
           | (Ok conn, w1) \<Rightarrow>
               (Ok \<lparr>rp_registry = Redis_Registry conn url (redis_registry_new me),
                   rp_queue = Redis_Queue conn DEFAULT_QUEUE_CAPACITY, rp_broker = Redis_Broker conn url\<rparr>, w1)))"

subsection \<open>The state from the environment\<close>

datatype startup_error = MissingSigningKey | RedisFailed string

fun startup_error_string :: "startup_error \<Rightarrow> string" where
  "startup_error_string MissingSigningKey = ''OVERACP_JWT_SIGNING_KEY is required (set it in .env or the environment)''"
| "startup_error_string (RedisFailed e) = ''redis connection failed: '' @ e"

text \<open>\<open>fresh\<close> is the text of the random identifier that an instance without a name takes its own from.\<close>

definition build_state_from_env ::
    "bool \<Rightarrow> ('cl, 'c, 'w) redis_connect \<Rightarrow> (string \<Rightarrow> string option) \<Rightarrow> string \<Rightarrow> 'w
      \<Rightarrow> (('tx, 'ch, 'h, 'c, 'o) app, startup_error) result \<times> 'w" where
  "build_state_from_env redis_feature C var fresh w =
     (case var ''OVERACP_JWT_SIGNING_KEY'' of
        None \<Rightarrow> (Err MissingSigningKey, w)
      | Some key \<Rightarrow>
          (let name = unwrap_or ''overacp'' (var ''OVERACP_JWT_ISSUER'');
               st = app_new \<lparr>signing_key = key, auth_issuer = name\<rparr>
           in case (if redis_feature then var ''OVERACP_REDIS_URL'' else None) of
                None \<Rightarrow> (Ok st, w)
              | Some url \<Rightarrow>
                  (case providers_from_url C (instance_id var fresh) url w of
                     (Err e, w1) \<Rightarrow> (Err (RedisFailed e), w1)
                   | (Ok ps, w1) \<Rightarrow> (Ok (with_redis_providers ps st), w1))))"

text \<open>
  A variable of the environment after \<^verbatim>\<open>.env\<close> is loaded: a variable that is set stays. A server
  that is listening serves until it fails, if it ever does.
\<close>

definition with_dotenv :: "(string \<rightharpoonup> string) \<Rightarrow> (string \<Rightarrow> string option) \<Rightarrow> string \<Rightarrow> string option" where
  "with_dotenv file var k = (case var k of Some v \<Rightarrow> Some v | None \<Rightarrow> file k)"

record ('tx, 'ch, 'h, 'c, 'o, 'ln, 'w) server_os =
  dotenv_file :: "string \<rightharpoonup> string"
  os_var :: "string \<Rightarrow> string option"
  fresh_id :: string
  tcp_bind :: "string \<Rightarrow> 'w \<Rightarrow> ('ln, string) result \<times> 'w"
  axum_serve :: "'ln \<Rightarrow> ('tx, 'ch, 'h, 'c, 'o) app \<Rightarrow> 'w \<Rightarrow> ((unit, string) result \<times> 'w) option"

datatype server_error = StartupFailed startup_error | IoFailed string

definition server_main ::
    "bool \<Rightarrow> ('cl, 'c, 'w) redis_connect \<Rightarrow> ('tx, 'ch, 'h, 'c, 'o, 'ln, 'w) server_os \<Rightarrow> 'w
      \<Rightarrow> ((unit, server_error) result \<times> 'w) option" where
  "server_main redis_feature C S w =
     (let var = with_dotenv (dotenv_file S) (os_var S) in
      case build_state_from_env redis_feature C var (fresh_id S) w of
        (Err e, w1) \<Rightarrow> Some (Err (StartupFailed e), w1)
      | (Ok st, w1) \<Rightarrow>
          (let port = unwrap_or ''8080'' (var ''PORT'') in
           case tcp_bind S (''0.0.0.0:'' @ port) w1 of
             (Err e, w2) \<Rightarrow> Some (Err (IoFailed e), w2)
           | (Ok l, w2) \<Rightarrow> map_option (apfst (res_map_err IoFailed)) (axum_serve S l st w2)))"

text \<open>The server that a state makes: one over the providers in memory or one over Redis, and nothing for a mix.\<close>

definition running ::
    "('tx, 'ch, 'h, 'c, 'o) app \<Rightarrow> 'w \<Rightarrow> 'bw \<Rightarrow> 'r \<Rightarrow> 'o
      \<Rightarrow> (('tx, 'ch, 'w, 'bw, 'o) app_state + ('tx, 'h, 'w, 'r, 'o) redis_app) option" where
  "running st w bw r h =
     (case (app_registry st, app_queue st, app_broker st) of
        (Memory_Registry g, Memory_Queue q, Memory_Broker b) \<Rightarrow>
          Some (Inl \<lparr>registry = g, message_queue = q, stream_broker = b, channels = w, buses = bw, operator_state = h\<rparr>)
      | (Redis_Registry c url g, Redis_Queue c' n, Redis_Broker c'' url') \<Rightarrow>
          (if c = c' \<and> c = c'' \<and> url = url' \<and> n = DEFAULT_QUEUE_CAPACITY
           then Some (Inr \<lparr>ra_registry = g, ra_channels = w, ra_redis = r, ra_operator = h\<rparr>) else None)
      | _ \<Rightarrow> None)"

subsection \<open>Lemmas\<close>

lemma build_missing_key:
  "var ''OVERACP_JWT_SIGNING_KEY'' = None \<Longrightarrow> build_state_from_env rf C var fresh w = (Err MissingSigningKey, w)"
  by (simp add: build_state_from_env_def)

lemma build_authenticator:
  assumes "build_state_from_env rf C var fresh w = (Ok st, w')"
  shows "\<exists>key. var ''OVERACP_JWT_SIGNING_KEY'' = Some key
    \<and> app_authenticator st = \<lparr>signing_key = key, auth_issuer = unwrap_or ''overacp'' (var ''OVERACP_JWT_ISSUER'')\<rparr>
    \<and> app_hooks st = default_hooks"
  using assms
  by (auto simp: build_state_from_env_def Let_def app_new_def with_redis_providers_def split: option.splits result.splits prod.splits)

lemma providers_from_url_Ok:
  assumes "providers_from_url C me url w = (Ok ps, w')"
  shows "\<exists>conn. ps = \<lparr>rp_registry = Redis_Registry conn url (redis_registry_new me),
                   rp_queue = Redis_Queue conn DEFAULT_QUEUE_CAPACITY, rp_broker = Redis_Broker conn url\<rparr>"
  using assms by (auto simp: providers_from_url_def split: result.splits prod.splits)

lemma build_running:
  assumes "build_state_from_env rf C var fresh w = (Ok st, w')"
  shows "running st x bw r h =
    Some (if rf \<and> var ''OVERACP_REDIS_URL'' \<noteq> None then Inr (redis_app_new (instance_id var fresh) x r h) else Inl (app_state_new x bw h))"
  using assms
  by (auto simp: running_def build_state_from_env_def Let_def app_new_def with_redis_providers_def app_state_new_def redis_app_new_def
      split: option.splits result.splits prod.splits if_splits dest!: providers_from_url_Ok)

text \<open>Redis refuses: the URL is not one, or the connection cannot be made.\<close>

definition refused :: "('cl, 'c, 'w) redis_connect \<Rightarrow> string \<Rightarrow> 'w \<Rightarrow> string \<Rightarrow> bool" where
  "refused C url w e \<longleftrightarrow> client_open C url = Err e \<or> (\<exists>cl. client_open C url = Ok cl \<and> fst (manager_new C cl w) = Err e)"

lemma build_errors:
  assumes "build_state_from_env rf C var fresh w = (Err e, w')"
  shows "case e of
      MissingSigningKey \<Rightarrow> var ''OVERACP_JWT_SIGNING_KEY'' = None \<and> w' = w
    | RedisFailed m \<Rightarrow> rf \<and> (\<exists>url. var ''OVERACP_REDIS_URL'' = Some url \<and> refused C url w m)"
  using assms
  by (auto simp: build_state_from_env_def providers_from_url_def refused_def Let_def
      split: option.splits result.splits prod.splits if_splits)

lemma startup_cases:
  assumes "\<And>st w'. p = (Ok st, w') \<Longrightarrow> A st" and "\<And>w'. p = (Err MissingSigningKey, w') \<Longrightarrow> B w'"
    and "\<And>e w'. p = (Err (RedisFailed e), w') \<Longrightarrow> D e"
  shows "case p of (res, w') \<Rightarrow> (case res of Ok st \<Rightarrow> A st | Err MissingSigningKey \<Rightarrow> B w' | Err (RedisFailed e) \<Rightarrow> D e)"
  using assms by (cases p) (auto split: result.split startup_error.split)

text \<open>What the lines of the example \<^verbatim>\<open>.env\<close> of the repository set that the server reads.\<close>

definition env_example :: "string \<rightharpoonup> string" where
  "env_example = [''OVERACP_JWT_SIGNING_KEY'' \<mapsto> [], ''OVERACP_JWT_ISSUER'' \<mapsto> ''overacp'']"

lemma bearer_of: "bearer (Some (''Bearer '' @ t)) = Some t"
  by (simp add: bearer_def strip_prefix_def starts_with_def)

lemma admin_route_served:
  assumes "admin_only (req_route q)" and "authorization q = Some (''Bearer '' @ t)" and "static_validate J au t = Ok c" and "is_admin c"
  shows "serve J au E q st = handler J au E q st"
proof -
  have "bearer (authorization q) = Some t" by (simp only: assms(2) bearer_of)
  with assms(1,3,4) show ?thesis by (simp add: serve_def require_admin_def validate_bearer_def)
qed

text \<open>An instance that has no name of its own takes the one that all replicas of a deployment share.\<close>

lemma instance_id_revision:
  assumes "var ''OVERACP_INSTANCE_ID'' = None" and "var ''HOSTNAME'' = None" and "var ''K_REVISION'' = Some r"
  shows "instance_id var fresh = r"
  using assms by (simp add: instance_id_def)

lemma acquire_again_silent:
  assumes "lease_laws R U kv" and "channel_laws R P subs" and "owner_of U kv w a = Some me"
  shows "subs (snd (acquire_lease R U ts a me cj w)) = subs w"
  using channel_lawsD(4,5) [OF assms(2)] record_subs(1) [OF assms(2)] assms(3)
  by (simp add: acquire_lease_run [OF assms(1)] announce_def)

subsection \<open>Properties\<close>

text \<open>
  C13: a server runs over one backend. A state built from the environment has its three providers
  in memory, or all three on one connection of one Redis with the same capacity; the latter exactly
  when the binary has the feature and the URL is set, under the name the environment gives the
  instance, so a Redis that was asked for and does not answer stops the start and is never replaced
  by memory.
\<close>

theorem one_backend:
  "case build_state_from_env rf C var fresh w of (res, w') \<Rightarrow> (case res of
     Ok st \<Rightarrow> running st x bw r h =
        Some (if rf \<and> var ''OVERACP_REDIS_URL'' \<noteq> None then Inr (redis_app_new (instance_id var fresh) x r h)
              else Inl (app_state_new x bw h))
   | Err MissingSigningKey \<Rightarrow> var ''OVERACP_JWT_SIGNING_KEY'' = None \<and> w' = w
   | Err (RedisFailed e) \<Rightarrow> rf \<and> (\<exists>url. var ''OVERACP_REDIS_URL'' = Some url \<and> refused C url w e))"
  by (rule startup_cases) (auto dest: build_running build_errors)

text \<open>
  C39: with the example environment as it is, the server starts, and anyone is its administrator.
  The line that should hold the key sets it to the empty string, which counts as set; a token that
  a stranger signs with the empty key and the issuer of the example is then accepted on every
  route of administrators.
\<close>

theorem example_environment_admits_anyone:
  assumes "jwt_roundtrip J ts" and "jwt_encode J [] (claims_admin clk a ttl ''overacp'') = Ok t"
    and "sint ts \<le> sint (clk + ttl)"
    and "var ''OVERACP_JWT_SIGNING_KEY'' = None" and "var ''OVERACP_JWT_ISSUER'' = None" and "var ''OVERACP_REDIS_URL'' = None"
  shows "\<exists>st. build_state_from_env rf C (with_dotenv env_example var) fresh w = (Ok st, w)
    \<and> (\<forall>q s. admin_only (req_route q) \<longrightarrow> authorization q = Some (''Bearer '' @ t)
          \<longrightarrow> serve J (app_authenticator st) E q s = handler J (app_authenticator st) E q s)"
proof -
  let ?au = "\<lparr>signing_key = [], auth_issuer = ''overacp''\<rparr>"
  have "build_state_from_env rf C (with_dotenv env_example var) fresh w = (Ok (app_new ?au), w)"
    using assms(4-6) by (simp add: build_state_from_env_def with_dotenv_def env_example_def)
  moreover have "jwt_decode J [] ''overacp'' t = Ok (claims_admin clk a ttl ''overacp'')"
    using assms(1) [unfolded jwt_roundtrip_def, rule_format, OF assms(2), of "''overacp''"] assms(3) by simp
  then have V: "static_validate J ?au t = Ok (claims_admin clk a ttl ''overacp'')" by (simp add: static_validate_Ok)
  have "serve J ?au E q s = handler J ?au E q s"
    if "admin_only (req_route q)" "authorization q = Some (''Bearer '' @ t)" for q s
    by (rule admin_route_served [OF that V]) simp
  moreover have "app_authenticator (app_new ?au) = ?au" by (simp add: app_new_def)
  ultimately show ?thesis by metis
qed

text \<open>
  C38: replicas of one revision, without a name of their own, take each other for themselves. They
  have the same instance id whatever is random in them; when the second takes an agent of the first,
  no subscription gets a signal, and when the first then ends its tunnel, the agent is unrouted
  although the second still serves it.
\<close>

theorem replicas_share_identity:
  assumes "lease_laws R U kv" and "stream_laws R strm" and "channel_laws R P subs"
    and "\<forall>v \<in> {var1, var2}. v ''OVERACP_INSTANCE_ID'' = None \<and> v ''HOSTNAME'' = None \<and> v ''K_REVISION'' = Some rvn"
    and "acquire_lease R U ts1 a (instance_id var1 fresh1) cj1 w = (Ok l1, w1)"
    and "acquire_lease R U ts2 a (instance_id var2 fresh2) cj2 w1 = (Ok l2, w2)"
  shows "l1 = l2 \<and> subs w2 = subs w1 \<and> fst (redis_deliver R U a f w2) = Live
    \<and> fst (redis_deliver R U a f (release_lease R U ms l1 w2)) = NoTunnel f"
proof -
  have i: "instance_id var1 fresh1 = rvn" "instance_id var2 fresh2 = rvn" using assms(4) by (simp_all add: instance_id_revision)
  have l: "l1 = \<lparr>lease_agent_id = a, lease_instance = rvn\<rparr>" "l2 = \<lparr>lease_agent_id = a, lease_instance = rvn\<rparr>"
    using acquire_lease_effect(1) [OF assms(1)] assms(5,6) by (metis i fst_conv result.inject(1))+
  have o: "owner_of U kv w1 a = Some rvn" "owner_of U kv w2 a = Some rvn"
    using acquire_lease_effect(2) [OF assms(1)] assms(5,6) by (metis i snd_conv fun_upd_same)+
  have "subs w2 = subs w1" using acquire_again_silent [OF assms(1,3) o(1), of ts2 cj2] assms(6) i by simp
  moreover have "owner_of U kv (release_lease R U ms l1 w2) a = None"
    using release_lease_effect [OF assms(1), of ms l1 w2] l(1) o(2) by simp
  ultimately show ?thesis
    using redis_deliver_effect [OF assms(1,2), of w2 a f]
      redis_deliver_effect [OF assms(1,2), of "release_lease R U ms l1 w2" a f] o(2) l by simp
qed

definition open_jwt :: "unit jwt_lib" where
  "open_jwt =
     \<lparr>jwt_decode = (\<lambda>k i t. if k = [] \<and> i = ''overacp'' \<and> t = ''tok'' then Ok (claims_admin 1000 0 60 ''overacp'') else Err ()),
      jwt_encode = (\<lambda>k c. if k = [] \<and> c = claims_admin 1000 0 60 ''overacp'' then Ok ''tok'' else Err ()),
      jwt_err_string = (\<lambda>_. ''jwt'')\<rparr>"

definition list_request :: request where
  "list_request =
     \<lparr>req_route = List_Agents, req_path = ''/agents'', authorization = Some (''Bearer '' @ ''tok''), query_token = None, path_id = None,
      message_body = None, mint_body = None\<rparr>"

definition no_redis :: "(unit, unit, unit) redis_connect" where
  "no_redis = \<lparr>client_open = (\<lambda>_. Ok ()), manager_new = (\<lambda>_ w. (Ok (), w))\<rparr>"

theorem example_environment_admits_anyone_witness:
  "\<exists>st. fst (build_state_from_env True no_redis (with_dotenv env_example Map.empty) ''0'' ()) = Ok st
    \<and> serve open_jwt (app_authenticator st) demo_environment list_request demo_state
        = handler open_jwt (app_authenticator st) demo_environment list_request demo_state"
proof -
  have r: "jwt_roundtrip open_jwt 1000" by (auto simp: jwt_roundtrip_def open_jwt_def split: if_splits)
  have e: "jwt_encode open_jwt [] (claims_admin 1000 0 60 ''overacp'') = Ok ''tok''" by (simp add: open_jwt_def)
  have q: "admin_only (req_route list_request)" "authorization list_request = Some (''Bearer '' @ ''tok'')"
    by (simp_all add: list_request_def)
  have t: "sint (1000 :: i64) \<le> sint (1000 + 60 :: i64)" by simp
  have "\<exists>st. build_state_from_env True no_redis (with_dotenv env_example Map.empty) ''0'' () = (Ok st, ())
      \<and> (\<forall>q s. admin_only (req_route q) \<longrightarrow> authorization q = Some (''Bearer '' @ ''tok'')
          \<longrightarrow> serve open_jwt (app_authenticator st) demo_environment q s = handler open_jwt (app_authenticator st) demo_environment q s)"
    by (rule example_environment_admits_anyone [OF r e t]) simp_all
  with q show ?thesis by (metis fst_conv)
qed

theorem replicas_share_identity_witness:
  "\<exists>l1 w1 l2 w2. acquire_lease hub_redis demo_show ''now'' 7 (instance_id [''K_REVISION'' \<mapsto> ''r''] ''0'') ''{}'' hub_init = (Ok l1, w1)
    \<and> acquire_lease hub_redis demo_show ''now'' 7 (instance_id [''K_REVISION'' \<mapsto> ''r''] ''1'') ''{}'' w1 = (Ok l2, w2)
    \<and> fst (redis_deliver hub_redis demo_show 7 ''hi'' (release_lease hub_redis demo_show 0 l1 w2)) = NoTunnel ''hi''"
proof -
  let ?v = "[''K_REVISION'' \<mapsto> ''r'']"
  have a: "\<exists>l w'. acquire_lease hub_redis demo_show ''now'' 7 m ''{}'' w = (Ok l, w')" for m w
    using acquire_lease_effect(1) [OF hub_lease_laws] by (metis prod.collapse)
  obtain l1 w1 where 1: "acquire_lease hub_redis demo_show ''now'' 7 (instance_id ?v ''0'') ''{}'' hub_init = (Ok l1, w1)" using a by blast
  obtain l2 w2 where 2: "acquire_lease hub_redis demo_show ''now'' 7 (instance_id ?v ''1'') ''{}'' w1 = (Ok l2, w2)" using a by blast
  have v: "\<forall>v \<in> {?v, ?v}. v ''OVERACP_INSTANCE_ID'' = None \<and> v ''HOSTNAME'' = None \<and> v ''K_REVISION'' = Some ''r''"
    by simp
  note replicas_share_identity [OF hub_lease_laws hub_stream_laws hub_channel_laws v 1 2, of "''hi''" 0]
  then have "fst (redis_deliver hub_redis demo_show 7 ''hi'' (release_lease hub_redis demo_show 0 l1 w2)) = NoTunnel ''hi''"
    by (elim conjE)
  with 1 2 show ?thesis by blast
qed

end
