(* ===== verification/Tests_Server.thy ===== *)
theory Tests_Server
  imports Tests_Dispatch Server_Startup
begin

text \<open>
  The unit tests of the server's state and providers on the model: the authenticator
  (\<^verbatim>\<open>server/src/auth.rs\<close>), the message queue and the agent registry
  (\<^verbatim>\<open>server/src/registry/\<close>), the stream broker (\<^verbatim>\<open>server/src/tunnel/broker.rs\<close>), the
  shared state (\<^verbatim>\<open>server/src/state.rs\<close>) and the answers of errors (\<^verbatim>\<open>server/src/api/error.rs\<close>).
  A test is a definition with its name in the source; the ids, users and times it makes up are its
  arguments, and the lemmas hold for all of them. Ids that the source draws at random are distinct.
\<close>

subsection \<open>The authenticator\<close>

text \<open>
  Of the token library the tests also use that signing succeeds. \<open>ts\<close> is the clock in seconds; it is
  far from the ends of its type.
\<close>

definition jwt_signs :: "'je jwt_lib \<Rightarrow> bool" where
  "jwt_signs J \<longleftrightarrow> (\<forall>k c. is_ok (jwt_encode J k c))"

definition sane_clock :: "i64 \<Rightarrow> bool" where
  "sane_clock ts \<longleftrightarrow> 0 \<le> sint ts \<and> sint ts < 2 ^ 62"

definition make_auth :: static_jwt_authenticator where
  "make_auth = \<lparr>signing_key = ''k'', auth_issuer = ''overacp''\<rparr>"

text \<open>A token minted by one authenticator, as another sees it; no value when minting fails.\<close>

definition minted ::
    "'je jwt_lib \<Rightarrow> static_jwt_authenticator \<Rightarrow> static_jwt_authenticator \<Rightarrow> claims \<Rightarrow> (claims, auth_error) result option" where
  "minted J a b c = (case static_mint J a c of Ok token \<Rightarrow> Some (static_validate J b token) | Err _ \<Rightarrow> None)"

definition admin_round_trip :: "'je jwt_lib \<Rightarrow> i64 \<Rightarrow> uuid \<Rightarrow> bool" where
  "admin_round_trip J ts a \<longleftrightarrow>
     (case minted J make_auth make_auth (claims_admin ts a 60 ''overacp'') of
        Some (Ok d) \<Rightarrow> sub d = a \<and> role d = ''admin'' \<and> is_admin d \<and> \<not> is_agent d \<and> user d = None
      | _ \<Rightarrow> False)"

definition agent_round_trip_with_user :: "'je jwt_lib \<Rightarrow> i64 \<Rightarrow> uuid \<Rightarrow> uuid \<Rightarrow> bool" where
  "agent_round_trip_with_user J ts a u \<longleftrightarrow>
     (case minted J make_auth make_auth (claims_agent ts a (Some u) 60 ''overacp'') of
        Some (Ok d) \<Rightarrow> sub d = a \<and> role d = ''agent'' \<and> is_agent d \<and> user d = Some u
      | _ \<Rightarrow> False)"

definition agent_round_trip_without_user :: "'je jwt_lib \<Rightarrow> i64 \<Rightarrow> uuid \<Rightarrow> bool" where
  "agent_round_trip_without_user J ts a \<longleftrightarrow>
     (case minted J make_auth make_auth (claims_agent ts a None 60 ''overacp'') of
        Some (Ok d) \<Rightarrow> user d = None
      | _ \<Rightarrow> False)"

definition rejects_wrong_issuer :: "'je jwt_lib \<Rightarrow> i64 \<Rightarrow> uuid \<Rightarrow> bool" where
  "rejects_wrong_issuer J ts a \<longleftrightarrow>
     (case minted J make_auth make_auth (claims_agent ts a None 60 ''other'') of Some r \<Rightarrow> \<not> is_ok r | None \<Rightarrow> False)"

definition rejects_wrong_key :: "'je jwt_lib \<Rightarrow> i64 \<Rightarrow> uuid \<Rightarrow> bool" where
  "rejects_wrong_key J ts a \<longleftrightarrow>
     (case minted J (make_auth\<lparr>signing_key := ''k1''\<rparr>) (make_auth\<lparr>signing_key := ''k2''\<rparr>)
        (claims_agent ts a None 60 ''overacp'') of Some r \<Rightarrow> \<not> is_ok r | None \<Rightarrow> False)"

definition rejects_expired_token :: "'je jwt_lib \<Rightarrow> i64 \<Rightarrow> uuid \<Rightarrow> bool" where
  "rejects_expired_token J ts a \<longleftrightarrow>
     (case minted J make_auth make_auth (claims_agent ts a None (- 3600) ''overacp'') of Some r \<Rightarrow> \<not> is_ok r | None \<Rightarrow> False)"

definition rejects_invalid_role :: "'je jwt_lib \<Rightarrow> i64 \<Rightarrow> uuid \<Rightarrow> bool" where
  "rejects_invalid_role J ts a \<longleftrightarrow>
     (case minted J make_auth make_auth \<lparr>sub = a, role = ''superuser'', user = None, exp = ts + 60, iss = ''overacp''\<rparr> of
        Some (Err (Invalid msg)) \<Rightarrow> str_contains msg ''invalid role''
      | _ \<Rightarrow> False)"

lemma minted_valid:
  assumes "jwt_signs J" and "jwt_roundtrip J ts" and "signing_key b = signing_key a" and "auth_issuer b = iss c"
    and "sint ts \<le> sint (exp c) + 60"
  shows "minted J a b c = Some (if role c = ROLE_ADMIN \<or> role c = ROLE_AGENT then Ok c
    else Err (Invalid (''invalid role: '' @ role c)))"
proof -
  from assms(1) obtain t where t: "jwt_encode J (signing_key a) c = Ok t"
    unfolding jwt_signs_def is_ok_iff by blast
  with assms(2,5) have "jwt_decode J (signing_key a) (iss c) t = Ok c" unfolding jwt_roundtrip_def by blast
  with t assms(3,4) show ?thesis by (simp add: minted_def static_mint_def static_validate_def)
qed

lemma minted_refused:
  assumes "jwt_signs J" and "jwt_rejects J ts"
    and "signing_key b \<noteq> signing_key a \<or> auth_issuer b \<noteq> iss c \<or> sint (exp c) + 60 < sint ts"
  shows "case minted J a b c of Some r \<Rightarrow> \<not> is_ok r | None \<Rightarrow> False"
proof -
  from assms(1) obtain t where t: "jwt_encode J (signing_key a) c = Ok t"
    unfolding jwt_signs_def is_ok_iff by blast
  with assms(2,3) have "\<not> is_ok (jwt_decode J (signing_key b) (auth_issuer b) t)" unfolding jwt_rejects_def by metis
  then have "\<not> is_ok (static_validate J b t)" by (auto simp: static_validate_def split: result.splits)
  with t show ?thesis by (simp add: minted_def static_mint_def)
qed

lemma clock_plus:
  assumes "sane_clock ts"
  shows "sint (ts + 60) = sint ts + 60" "sint (ts - 3600) = sint ts - 3600"
  using assms by (simp_all add: sane_clock_def sint_word_ariths signed_take_bit_int_eq_self)

lemma auth_accept_tests:
  assumes "jwt_signs J" and "jwt_roundtrip J ts" and "sane_clock ts"
  shows "admin_round_trip J ts a" "agent_round_trip_with_user J ts a u" "agent_round_trip_without_user J ts a"
    "rejects_invalid_role J ts a"
  using assms clock_plus(1) [OF assms(3)]
  by (simp_all add: admin_round_trip_def agent_round_trip_with_user_def agent_round_trip_without_user_def rejects_invalid_role_def
      minted_valid make_auth_def claims_admin_def claims_agent_def ROLE_ADMIN_def ROLE_AGENT_def is_admin_def is_agent_def)

lemma auth_reject_tests:
  assumes "jwt_signs J" and "jwt_rejects J ts" and "sane_clock ts"
  shows "rejects_wrong_issuer J ts a" "rejects_wrong_key J ts a" "rejects_expired_token J ts a"
  unfolding rejects_wrong_issuer_def rejects_wrong_key_def rejects_expired_token_def
  by (intro minted_refused [OF assms(1,2)]; simp add: make_auth_def clock_plus [OF assms(3)])+

subsection \<open>The message queue\<close>

definition field_n :: "nat \<Rightarrow> string" where "field_n n = quoted ''n'' @ quoted '':'' @ show_nat n"

definition frame_head :: string where
  "frame_head =
     ''{'' @ quoted ''jsonrpc'' @ quoted '':'' @ quoted ''2.0'' @ quoted '','' @ quoted ''method'' @ quoted '':''
       @ quoted ''session/message'' @ quoted '','' @ quoted ''params'' @ quoted '':{''"

definition test_frame :: "nat \<Rightarrow> string" where "test_frame n = frame_head @ field_n n @ ''}}''"

definition push_all :: "in_memory_message_queue \<Rightarrow> (uuid \<times> nat) list \<Rightarrow> in_memory_message_queue" where
  "push_all q xs = foldl (\<lambda>q (a, n). snd (queue_push q a (test_frame n))) q xs"

definition empty_drain_returns_empty :: "uuid \<Rightarrow> bool" where
  "empty_drain_returns_empty a \<longleftrightarrow> fst (queue_drain queue_default a) = []"

definition push_then_drain_preserves_order :: "uuid \<Rightarrow> bool" where
  "push_then_drain_preserves_order a \<longleftrightarrow>
     list_all2 str_contains (fst (queue_drain (push_all queue_default [(a, 1), (a, 2), (a, 3)]) a)) [field_n 1, field_n 2, field_n 3]"

definition drain_removes_slot :: "uuid \<Rightarrow> bool" where
  "drain_removes_slot a \<longleftrightarrow>
     (let q = snd (queue_drain (push_all queue_default [(a, 1)]) a)
      in queue_len q a = 0 \<and> queue_len (push_all q [(a, 2)]) a = 1)"

definition capacity_overflow_returns_full :: "uuid \<Rightarrow> bool" where
  "capacity_overflow_returns_full a \<longleftrightarrow>
     fst (queue_push (push_all (queue_new 3) [(a, 1), (a, 2), (a, 3)]) a (test_frame 4)) = Err (Full a 3)"

definition agents_are_isolated :: "uuid \<Rightarrow> uuid \<Rightarrow> bool" where
  "agents_are_isolated a b \<longleftrightarrow>
     (let q = push_all queue_default [(a, 1), (b, 99)]; (drained, q1) = queue_drain q a
      in queue_len q a = 1 \<and> queue_len q b = 1 \<and> drained \<noteq> [] \<and> str_contains (hd drained) (field_n 1) \<and> queue_len q1 b = 1)"

definition len_and_is_empty_track_buffer :: "uuid \<Rightarrow> bool" where
  "len_and_is_empty_track_buffer a \<longleftrightarrow>
     (let q = push_all queue_default [(a, 1)]
      in queue_is_empty queue_default a \<and> queue_len q a = 1 \<and> \<not> queue_is_empty q a)"

definition capacity_returns_configured_value :: bool where
  "capacity_returns_configured_value \<longleftrightarrow>
     queue_capacity (queue_new 7) = 7 \<and> queue_capacity queue_default = DEFAULT_PER_AGENT_CAPACITY"

lemma frame_mentions: "str_contains (test_frame n) (field_n n)"
  by (simp add: test_frame_def str_contains_sublist sublist_appendI)

lemma queue_tests:
  "empty_drain_returns_empty a" "push_then_drain_preserves_order a" "drain_removes_slot a" "capacity_overflow_returns_full a"
  "a \<noteq> b \<Longrightarrow> agents_are_isolated a b" "len_and_is_empty_track_buffer a" "capacity_returns_configured_value"
  by (simp_all add: empty_drain_returns_empty_def push_then_drain_preserves_order_def drain_removes_slot_def
      capacity_overflow_returns_full_def agents_are_isolated_def len_and_is_empty_track_buffer_def
      capacity_returns_configured_value_def push_all_def queue_push_def queue_drain_def queue_default_def queue_new_def queue_len_def
      queue_is_empty_def queue_capacity_def DEFAULT_PER_AGENT_CAPACITY_def frame_mentions Let_def)

subsection \<open>The agent registry\<close>

text \<open>
  The entry of a test, connected at the instant \<open>n\<close> over a channel of its own. The tests do not observe
  time passing, apart from the one that sleeps, so every operation happens at \<open>n\<close>.
\<close>

definition entry_for :: "'tx \<Rightarrow> i64 \<Rightarrow> uuid \<Rightarrow> nat \<Rightarrow> uuid \<Rightarrow> 'tx agent_entry" where
  "entry_for t ts u n a = entry_new t (claims_agent ts a (Some u) 60 ''test'') n"

definition enter :: "'tx \<Rightarrow> i64 \<Rightarrow> uuid \<Rightarrow> nat \<Rightarrow> uuid \<Rightarrow> 'tx in_memory_agent_registry \<Rightarrow> 'tx in_memory_agent_registry" where
  "enter t ts u n a reg = snd (register reg a (entry_for t ts u n a))"

definition register_and_get :: "'tx \<Rightarrow> i64 \<Rightarrow> uuid \<Rightarrow> nat \<Rightarrow> uuid \<Rightarrow> bool" where
  "register_and_get t ts u n a \<longleftrightarrow>
     (let reg = enter t ts u n a registry_new in registry_is_connected reg a \<and> registry_get reg a \<noteq> None)"

definition unregister_moves_to_recent_log :: "'tx \<Rightarrow> i64 \<Rightarrow> uuid \<Rightarrow> nat \<Rightarrow> uuid \<Rightarrow> bool" where
  "unregister_moves_to_recent_log t ts u n a \<longleftrightarrow>
     (let reg = unregister (enter t ts u n a registry_new) a n
      in \<not> registry_is_connected reg a
         \<and> (case registry_list reg n of [d] \<Rightarrow> \<not> desc_connected d \<and> desc_agent d = a | _ \<Rightarrow> False))"

definition describe_finds_recent_entry_after_disconnect :: "'tx \<Rightarrow> i64 \<Rightarrow> uuid \<Rightarrow> nat \<Rightarrow> uuid \<Rightarrow> bool" where
  "describe_finds_recent_entry_after_disconnect t ts u n a \<longleftrightarrow>
     (case registry_describe (unregister (enter t ts u n a registry_new) a n) a n of
        Some d \<Rightarrow> \<not> desc_connected d \<and> uptime_secs d = None
      | None \<Rightarrow> False)"

definition reconnected :: "'tx \<Rightarrow> 'tx \<Rightarrow> i64 \<Rightarrow> uuid \<Rightarrow> nat \<Rightarrow> uuid \<Rightarrow> 'tx in_memory_agent_registry" where
  "reconnected t t2 ts u n a = enter t2 ts u n a (unregister (enter t ts u n a registry_new) a n)"

definition reconnect_clears_recent_entry :: "'tx \<Rightarrow> 'tx \<Rightarrow> i64 \<Rightarrow> uuid \<Rightarrow> nat \<Rightarrow> uuid \<Rightarrow> bool" where
  "reconnect_clears_recent_entry t t2 ts u n a \<longleftrightarrow>
     (case registry_list (reconnected t t2 ts u n a) n of [d] \<Rightarrow> desc_connected d | _ \<Rightarrow> False)"

definition touch_advances_last_activity :: "'tx \<Rightarrow> i64 \<Rightarrow> uuid \<Rightarrow> nat \<Rightarrow> uuid \<Rightarrow> bool" where
  "touch_advances_last_activity t ts u n a \<longleftrightarrow>
     (let e = entry_for t ts u n a in last_activity e \<le> last_activity (entry_touch (n + 2 * 10 ^ 6) e))"

definition describe_unknown_agent_is_none :: "nat \<Rightarrow> uuid \<Rightarrow> bool" where
  "describe_unknown_agent_is_none n a \<longleftrightarrow> registry_describe (registry_new :: unit in_memory_agent_registry) a n = None"

definition recent_log_is_bounded :: "'tx \<Rightarrow> i64 \<Rightarrow> uuid \<Rightarrow> nat \<Rightarrow> uuid list \<Rightarrow> bool" where
  "recent_log_is_bounded t ts u n ids \<longleftrightarrow>
     (let reg = foldl (\<lambda>r a. unregister (enter t ts u n a r) a n) registry_new ids
      in length (filter (\<lambda>d. \<not> desc_connected d) (registry_list reg n)) \<le> RECENT_CAPACITY)"

definition list_orders_connected_first :: "'tx \<Rightarrow> 'tx \<Rightarrow> i64 \<Rightarrow> uuid \<Rightarrow> nat \<Rightarrow> uuid \<Rightarrow> uuid \<Rightarrow> bool" where
  "list_orders_connected_first t t2 ts u n dead live \<longleftrightarrow>
     (case registry_list (enter t2 ts u n live (unregister (enter t ts u n dead registry_new) dead n)) n of
        [d, e] \<Rightarrow> desc_connected d \<and> \<not> desc_connected e
      | _ \<Rightarrow> False)"

definition register_after_disconnect_is_always_visible_in_list :: "'tx \<Rightarrow> 'tx \<Rightarrow> i64 \<Rightarrow> uuid \<Rightarrow> nat \<Rightarrow> uuid \<Rightarrow> bool" where
  "register_after_disconnect_is_always_visible_in_list t t2 ts u n a \<longleftrightarrow>
     (let reg = reconnected t t2 ts u n a
      in (case filter (\<lambda>d. desc_agent d = a) (registry_list reg n) of [d] \<Rightarrow> desc_connected d | _ \<Rightarrow> False)
         \<and> (case registry_describe reg a n of Some d \<Rightarrow> desc_connected d | None \<Rightarrow> False))"

lemmas registry_tests_defs = enter_def entry_for_def entry_new_def register_def register_insert_def unregister_def
  unregister_remove_def push_recent_def purge_recent_def registry_new_def registry_list_def registry_describe_def
  registry_is_connected_def registry_get_def from_connected_def from_recent_def reconnected_def

lemma registry_tests:
  "register_and_get t ts u n a" "unregister_moves_to_recent_log t ts u n a" "describe_finds_recent_entry_after_disconnect t ts u n a"
  "reconnect_clears_recent_entry t t2 ts u n a" "touch_advances_last_activity t ts u n a" "describe_unknown_agent_is_none n a"
  "dead \<noteq> live \<Longrightarrow> list_orders_connected_first t t2 ts u n dead live"
  "register_after_disconnect_is_always_visible_in_list t t2 ts u n a"
  by (simp_all add: registry_tests_defs register_and_get_def unregister_moves_to_recent_log_def
      describe_finds_recent_entry_after_disconnect_def reconnect_clears_recent_entry_def touch_advances_last_activity_def
      describe_unknown_agent_is_none_def list_orders_connected_first_def register_after_disconnect_is_always_visible_in_list_def
      entry_touch_def RECENT_CAPACITY_def Let_def)

lemma recent_log_test: "recent_log_is_bounded t ts u n ids"
proof -
  have "registry_inv r \<Longrightarrow> registry_inv (foldl (\<lambda>r a. unregister (enter t ts u n a r) a n) r ids)"
    for r :: "'a in_memory_agent_registry"
    by (induction ids arbitrary: r) (simp_all add: enter_def register_inv unregister_inv)
  from this [OF registry_new_inv]
  have "length (recent (foldl (\<lambda>r a. unregister (enter t ts u n a r) a n) registry_new ids)) \<le> RECENT_CAPACITY"
    by (simp add: registry_inv_def)
  then show ?thesis
    unfolding recent_log_is_bounded_def registry_list_def Let_def
    by (simp add: filter_map o_def split_beta from_connected_def from_recent_def) (meson le_trans length_filter_le)
qed

subsection \<open>The broker\<close>

text \<open>A subscriber and a sender of one agent meet on the same channel.\<close>

definition fan_out_to_subscriber :: "('ch, 'ch, 'w) broadcast_lib \<Rightarrow> ('w \<Rightarrow> 'ch \<Rightarrow> string list) \<Rightarrow> uuid \<Rightarrow> 'w \<Rightarrow> bool" where
  "fan_out_to_subscriber B log a w \<longleftrightarrow>
     (case broker_subscribe B broker_new a w of
        (rx, b, w1) \<Rightarrow>
          (case sender_for B b a w1 of (ch, b1, w2) \<Rightarrow> log (bc_send B ch ''hello'' w2) rx = [''hello'']))"

lemma broker_test:
  assumes "broadcast_laws B chans log" and "\<And>ch w. fst (bc_subscribe B ch w) = ch"
  shows "fan_out_to_subscriber B log a w"
proof -
  obtain ch w1 where c: "bc_channel B STREAM_BUFFER w = (ch, w1)" by fastforce
  obtain rx w2 where r: "bc_subscribe B ch w1 = (rx, w2)" by fastforce
  from assms(1) c have "log w1 ch = []" unfolding broadcast_laws_def by (metis fst_conv snd_conv fun_upd_same)
  with assms(1) r have "log w2 ch = []" unfolding broadcast_laws_def by (metis snd_conv)
  with assms(1) have "log (bc_send B ch ''hello'' w2) ch = [''hello'']" by (simp add: broadcast_laws_def)
  moreover from assms(2) [of ch w1] r have "rx = ch" by simp
  ultimately show ?thesis
    using c r by (simp add: fan_out_to_subscriber_def broker_subscribe_def sender_for_def broker_new_def)
qed

subsection \<open>The shared state\<close>

definition base_state :: "(nat, nat, nat, nat, 'o) app" where
  "base_state = app_new make_auth"

definition defaults_for_hooks_are_installed :: "claims \<Rightarrow> 'o \<Rightarrow> bool" where
  "defaults_for_hooks_are_installed c h \<longleftrightarrow>
     (let H = app_hooks base_state
      in (case fst (boot_initialize H c h) of
            Ok v \<Rightarrow> json_at [''system_prompt''] (Some v) = Some (JString []) \<and> json_at [''messages''] (Some v) = Some (JArray [])
          | Err _ \<Rightarrow> False)
         \<and> (case fst (tool_list H c h) of Ok v \<Rightarrow> json_at [''tools''] (Some v) = Some (JArray []) | Err _ \<Rightarrow> False)
         \<and> fst (quota_check H c h) = Ok True)"

definition stub_boot :: "claims \<Rightarrow> 'o \<Rightarrow> (json, boot_error) result \<times> 'o" where
  "stub_boot c h = (Ok (JObject [(''system_prompt'', JString ''stubbed'')]), h)"

definition stub_tools_list :: "claims \<Rightarrow> 'o \<Rightarrow> (json, tool_error) result \<times> 'o" where
  "stub_tools_list c h = (Ok (JObject [(''tools'', JArray [JObject [(''name'', JString ''stub'')]])]), h)"

definition stub_tools_call :: "claims \<Rightarrow> json \<Rightarrow> 'o \<Rightarrow> (json, tool_error) result \<times> 'o" where
  "stub_tools_call c req h = (Ok (JObject [(''ok'', JBool True)]), h)"

definition stub_quota_check :: "claims \<Rightarrow> 'o \<Rightarrow> (bool, quota_error) result \<times> 'o" where
  "stub_quota_check c h = (Ok False, h)"

definition stub_quota_record :: "claims \<Rightarrow> json \<Rightarrow> 'o \<Rightarrow> (unit, quota_error) result \<times> 'o" where
  "stub_quota_record c usage h = (Ok (), h)"

definition builder_methods_swap_in_custom_hooks :: "claims \<Rightarrow> 'o \<Rightarrow> bool" where
  "builder_methods_swap_in_custom_hooks c h \<longleftrightarrow>
     (let H = app_hooks (with_quota_policy stub_quota_check stub_quota_record
                (with_tool_host stub_tools_list stub_tools_call (with_boot_provider stub_boot base_state)))
      in res_bind (fst (boot_initialize H c h)) (\<lambda>v. Ok (json_get ''system_prompt'' v)) = Ok (Some (JString ''stubbed''))
         \<and> (case Option.bind (case fst (tool_list H c h) of Ok v \<Rightarrow> json_get ''tools'' v | Err _ \<Rightarrow> None) as_array of
              Some (t # _) \<Rightarrow> json_get ''name'' t = Some (JString ''stub'') | _ \<Rightarrow> False)
         \<and> res_bind (fst (tool_call H c (JObject [(''name'', JString ''stub'')]) h)) (\<lambda>v. Ok (json_get ''ok'' v)) = Ok (Some (JBool True))
         \<and> fst (quota_check H c h) = Ok False
         \<and> is_ok (fst (quota_record H c (JObject []) h)))"

lemma state_tests: "defaults_for_hooks_are_installed c h" "builder_methods_swap_in_custom_hooks c h"
  by (simp_all add: defaults_for_hooks_are_installed_def builder_methods_swap_in_custom_hooks_def base_state_def app_new_def
      default_hooks_def default_boot_def default_tool_list_def default_quota_check_def with_boot_provider_def with_tool_host_def
      with_quota_policy_def stub_boot_def stub_tools_list_def stub_tools_call_def stub_quota_check_def stub_quota_record_def)

subsection \<open>Errors\<close>

text \<open>The answer to an error: its status, its kind and its message.\<close>

definition answers :: "api_error \<Rightarrow> nat \<Rightarrow> string \<Rightarrow> string \<Rightarrow> bool" where
  "answers e code kind msg \<longleftrightarrow>
     (case api_error_response e of (c, v) \<Rightarrow>
        c = code \<and> json_get ''error'' v = Some (JString kind) \<and> json_get ''message'' v = Some (JString msg))"

definition not_found_maps_to_404 :: bool where
  "not_found_maps_to_404 \<longleftrightarrow> (case api_error_response (NotFound ''x'') of (c, v) \<Rightarrow>
     c = 404 \<and> json_get ''error'' v = Some (JString ''not_found''))"

definition bad_request_maps_to_400 :: bool where
  "bad_request_maps_to_400 \<longleftrightarrow> fst (api_error_response (BadRequest ''x'')) = 400"

definition unauthorized_maps_to_401 :: bool where
  "unauthorized_maps_to_401 \<longleftrightarrow> answers (Unauthorized ''nope'') 401 ''unauthorized'' ''nope''"

definition service_unavailable_maps_to_503 :: bool where
  "service_unavailable_maps_to_503 \<longleftrightarrow> answers (ServiceUnavailable ''queue full'') 503 ''service_unavailable'' ''queue full''"

definition internal_maps_to_500 :: bool where
  "internal_maps_to_500 \<longleftrightarrow> answers (Internal ''mint failed'') 500 ''internal'' ''mint failed''"

lemma error_tests:
  "not_found_maps_to_404" "bad_request_maps_to_400" "unauthorized_maps_to_401" "service_unavailable_maps_to_503" "internal_maps_to_500"
  by (simp_all add: not_found_maps_to_404_def bad_request_maps_to_400_def unauthorized_maps_to_401_def
      service_unavailable_maps_to_503_def internal_maps_to_500_def answers_def error_body_def)

end
