(* ===== verification/Tests_Api.thy ===== *)
theory Tests_Api
  imports Tests_Server
begin

text \<open>
  The unit tests of the REST handlers (\<^verbatim>\<open>server/src/api/agents.rs\<close>,
  \<^verbatim>\<open>server/src/api/tokens.rs\<close>) and of the router's checks (\<^verbatim>\<open>server/src/routes.rs\<close>) on
  the model. The channels and buses are the concrete ones of the demonstrations: a channel is a number, its
  receiver is alive until a test drops it, and what was sent on it can be read.
\<close>

type_synonym test_state = "(nat, nat, world, nat \<times> (nat \<Rightarrow> string list), unit) app_state"

definition fresh_state :: test_state where
  "fresh_state = app_state_new world_init (0, \<lambda>_. []) ()"

definition state_with_queue_capacity :: "nat \<Rightarrow> test_state" where
  "state_with_queue_capacity cap = fresh_state\<lparr>message_queue := queue_new cap\<rparr>"

text \<open>A fake agent over the channel \<open>t\<close>, at the clock \<open>ts\<close> and the instant \<open>n\<close>; and the ends of a connection.\<close>

definition register_fake :: "nat \<Rightarrow> i64 \<Rightarrow> uuid \<Rightarrow> nat \<Rightarrow> uuid \<Rightarrow> test_state \<Rightarrow> test_state" where
  "register_fake t ts u n a st =
     st\<lparr>registry := snd (registry_acquire n (registry st) a t (claims_agent ts a (Some u) 60 ''test''))\<rparr>"

definition drop_receiver :: "nat \<Rightarrow> test_state \<Rightarrow> test_state" where
  "drop_receiver t st = st\<lparr>channels := ((fst (channels st))(t := False), snd (channels st))\<rparr>"

definition drop_lease :: "nat \<Rightarrow> uuid \<Rightarrow> test_state \<Rightarrow> test_state" where
  "drop_lease n a st = st\<lparr>registry := lease_drop n (registry st) (TunnelLease a)\<rparr>"

definition user_request :: "json \<Rightarrow> send_message_request" where
  "user_request v = \<lparr>msg_role = ''user'', msg_content = v\<rparr>"

definition received :: "serde \<Rightarrow> test_state \<Rightarrow> nat \<Rightarrow> json option" where
  "received S st t = (case snd (channels st) t of f # _ \<Rightarrow> parse_json S f | [] \<Rightarrow> None)"

definition is_unavailable :: "('a, api_error) result \<Rightarrow> bool" where
  "is_unavailable r \<longleftrightarrow> (case r of Err (ServiceUnavailable _) \<Rightarrow> True | _ \<Rightarrow> False)"

subsection \<open>Messages\<close>

definition send_message_delivers_inline_when_connected :: "serde \<Rightarrow> (uuid \<Rightarrow> string) \<Rightarrow> i64 \<Rightarrow> uuid \<Rightarrow> nat \<Rightarrow> uuid \<Rightarrow> bool" where
  "send_message_delivers_inline_when_connected S U ts u n a \<longleftrightarrow>
     (case send_message S U world_send (register_fake 0 ts u n a fresh_state) a (user_request (JObject [(''text'', JString ''hello'')])) of
        (r, st) \<Rightarrow> r = Ok (202, DeliveryLive) \<and> json_at [''method''] (received S st 0) = Some (JString ''session/message'')
          \<and> json_at [''params'', ''role''] (received S st 0) = Some (JString ''user'')
          \<and> json_at [''params'', ''content'', ''text''] (received S st 0) = Some (JString ''hello''))"

definition send_message_buffers_when_disconnected :: "serde \<Rightarrow> (uuid \<Rightarrow> string) \<Rightarrow> uuid \<Rightarrow> bool" where
  "send_message_buffers_when_disconnected S U a \<longleftrightarrow>
     (case send_message S U world_send fresh_state a (user_request (JString ''pending'')) of
        (r, st) \<Rightarrow> r = Ok (202, DeliveryQueued) \<and> queue_len (message_queue st) a = 1
          \<and> (case fst (queue_drain (message_queue st) a) of
               f # _ \<Rightarrow> json_at [''params'', ''content''] (parse_json S f) = Some (JString ''pending'') | [] \<Rightarrow> False))"

definition send_message_request_honours_default_role :: bool where
  "send_message_request_honours_default_role \<longleftrightarrow>
     message_request_of (JObject [(''content'', JString ''no-role'')]) = Some (user_request (JString ''no-role''))"

definition send_message_reconnect_race_plus_queue_full_returns_503 ::
    "serde \<Rightarrow> (uuid \<Rightarrow> string) \<Rightarrow> i64 \<Rightarrow> uuid \<Rightarrow> nat \<Rightarrow> uuid \<Rightarrow> bool" where
  "send_message_reconnect_race_plus_queue_full_returns_503 S U ts u n a \<longleftrightarrow>
     (let st0 = state_with_queue_capacity 1;
          st1 = st0\<lparr>message_queue := snd (queue_push (message_queue st0) a ''already-buffered'')\<rparr>
      in case send_message S U world_send (drop_receiver 0 (register_fake 0 ts u n a st1)) a (user_request (JString ''late'')) of
           (r, st) \<Rightarrow> is_unavailable r \<and> queue_len (message_queue st) a = 1)"

definition send_message_falls_back_to_queue_when_receiver_dropped ::
    "serde \<Rightarrow> (uuid \<Rightarrow> string) \<Rightarrow> i64 \<Rightarrow> uuid \<Rightarrow> nat \<Rightarrow> uuid \<Rightarrow> bool" where
  "send_message_falls_back_to_queue_when_receiver_dropped S U ts u n a \<longleftrightarrow>
     (case send_message S U world_send (drop_receiver 0 (register_fake 0 ts u n a fresh_state)) a (user_request (JString ''reconnect-race'')) of
        (r, st) \<Rightarrow> r = Ok (202, DeliveryQueued) \<and> queue_len (message_queue st) a = 1 \<and> registry_is_connected (registry st) a)"

definition send_message_empty_role_is_400 :: "serde \<Rightarrow> (uuid \<Rightarrow> string) \<Rightarrow> uuid \<Rightarrow> bool" where
  "send_message_empty_role_is_400 S U a \<longleftrightarrow>
     (case fst (send_message S U world_send fresh_state a \<lparr>msg_role = [], msg_content = JString ''x''\<rparr>) of
        Err (BadRequest _) \<Rightarrow> True | _ \<Rightarrow> False)"

definition send_message_returns_503_when_queue_full :: "serde \<Rightarrow> (uuid \<Rightarrow> string) \<Rightarrow> uuid \<Rightarrow> bool" where
  "send_message_returns_503_when_queue_full S U a \<longleftrightarrow>
     (case send_message S U world_send (state_with_queue_capacity 1) a (user_request (JString ''a'')) of
        (first, st1) \<Rightarrow> is_ok first
          \<and> (case send_message S U world_send st1 a (user_request (JString ''b'')) of
               (second, st2) \<Rightarrow> is_unavailable second \<and> queue_len (message_queue st2) a = 1))"

lemmas test_states = fresh_state_def state_with_queue_capacity_def register_fake_def drop_receiver_def drop_lease_def
  user_request_def received_def is_unavailable_def app_state_new_def world_init_def world_send_def
  registry_acquire_def registry_deliver_def register_def register_insert_def purge_recent_def registry_new_def entry_new_def
  registry_get_def queue_default_def queue_new_def queue_push_def queue_len_def queue_drain_def DEFAULT_PER_AGENT_CAPACITY_def

lemma message_tests:
  assumes "reads_back S"
  shows "send_message_delivers_inline_when_connected S U ts u n a" "send_message_buffers_when_disconnected S U a"
    "send_message_request_honours_default_role" "send_message_reconnect_race_plus_queue_full_returns_503 S U ts u n a"
    "send_message_falls_back_to_queue_when_receiver_dropped S U ts u n a" "send_message_empty_role_is_400 S U a"
    "send_message_returns_503_when_queue_full S U a"
  using assms
  by (simp_all add: send_message_delivers_inline_when_connected_def send_message_buffers_when_disconnected_def
      send_message_request_honours_default_role_def send_message_reconnect_race_plus_queue_full_returns_503_def
      send_message_falls_back_to_queue_when_receiver_dropped_def send_message_empty_role_is_400_def
      send_message_returns_503_when_queue_full_def test_states send_message_def session_message_frame_def message_request_of_def
      default_role_def reads_back_plain registry_is_connected_def queue_full_def Let_def)

subsection \<open>The other handlers of agents\<close>

definition list_agents_is_empty_when_nothing_connected :: "nat \<Rightarrow> bool" where
  "list_agents_is_empty_when_nothing_connected n \<longleftrightarrow> list_agents n fresh_state = Ok []"

definition list_agents_surfaces_connected_and_recent :: "i64 \<Rightarrow> uuid \<Rightarrow> nat \<Rightarrow> uuid \<Rightarrow> uuid \<Rightarrow> bool" where
  "list_agents_surfaces_connected_and_recent ts u n live dead \<longleftrightarrow>
     (case list_agents n (drop_lease n dead (register_fake 1 ts u n dead (register_fake 0 ts u n live fresh_state))) of
        Ok ds \<Rightarrow> length ds = 2 \<and> list_ex (\<lambda>d. desc_agent d = live \<and> desc_connected d) ds
          \<and> list_ex (\<lambda>d. desc_agent d = dead \<and> \<not> desc_connected d) ds
      | Err _ \<Rightarrow> False)"

definition describe_agent_returns_connected_shape :: "(uuid \<Rightarrow> string) \<Rightarrow> i64 \<Rightarrow> uuid \<Rightarrow> nat \<Rightarrow> uuid \<Rightarrow> bool" where
  "describe_agent_returns_connected_shape U ts u n a \<longleftrightarrow>
     (case describe_agent U n (register_fake 0 ts u n a fresh_state) a of
        Ok d \<Rightarrow> desc_agent d = a \<and> desc_connected d \<and> uptime_secs d \<noteq> None
      | Err _ \<Rightarrow> False)"

definition describe_unknown_agent_is_404 :: "(uuid \<Rightarrow> string) \<Rightarrow> nat \<Rightarrow> uuid \<Rightarrow> bool" where
  "describe_unknown_agent_is_404 U n a \<longleftrightarrow>
     (case describe_agent U n fresh_state a of Err (NotFound _) \<Rightarrow> True | _ \<Rightarrow> False)"

definition disconnect_unregisters_and_returns_202 :: "(uuid \<Rightarrow> string) \<Rightarrow> i64 \<Rightarrow> uuid \<Rightarrow> nat \<Rightarrow> uuid \<Rightarrow> bool" where
  "disconnect_unregisters_and_returns_202 U ts u n a \<longleftrightarrow>
     (case disconnect_agent U n (register_fake 0 ts u n a fresh_state) a of
        (r, st) \<Rightarrow> r = Ok 202 \<and> \<not> registry_is_connected (registry st) a)"

definition disconnect_unknown_agent_is_404 :: "(uuid \<Rightarrow> string) \<Rightarrow> nat \<Rightarrow> uuid \<Rightarrow> bool" where
  "disconnect_unknown_agent_is_404 U n a \<longleftrightarrow>
     (case fst (disconnect_agent U n fresh_state a) of Err (NotFound _) \<Rightarrow> True | _ \<Rightarrow> False)"

definition cancel_emits_notification_when_connected :: "serde \<Rightarrow> i64 \<Rightarrow> uuid \<Rightarrow> nat \<Rightarrow> uuid \<Rightarrow> bool" where
  "cancel_emits_notification_when_connected S ts u n a \<longleftrightarrow>
     (case cancel_turn S world_send (register_fake 0 ts u n a fresh_state) a of
        (r, st) \<Rightarrow> r = Ok 202 \<and> json_at [''method''] (received S st 0) = Some (JString ''session/cancel''))"

definition cancel_without_tunnel_still_202 :: "serde \<Rightarrow> uuid \<Rightarrow> bool" where
  "cancel_without_tunnel_still_202 S a \<longleftrightarrow> fst (cancel_turn S world_send fresh_state a) = Ok 202"

text \<open>The subscriber is handed the frame itself; wrapping it as an event of the stream is the web framework's.\<close>

definition stream_handler_forwards_broadcast_frames :: "serde \<Rightarrow> uuid \<Rightarrow> bool" where
  "stream_handler_forwards_broadcast_frames S a \<longleftrightarrow>
     (let f = print_json S (rpc_notification ''stream/textDelta'' (JObject []))
      in case stream_events demo_broadcast fresh_state a of
           (rx, st) \<Rightarrow> (case broker_publish demo_broadcast (stream_broker st) a f (buses st) of
              (b, bw) \<Rightarrow> (case snd bw rx of
                  g # _ \<Rightarrow> json_at [''method''] (parse_json S g) = Some (JString ''stream/textDelta'') | [] \<Rightarrow> False)))"

lemma agent_tests:
  "list_agents_is_empty_when_nothing_connected n" "live \<noteq> dead \<Longrightarrow> list_agents_surfaces_connected_and_recent ts u n live dead"
  "describe_agent_returns_connected_shape U ts u n a" "describe_unknown_agent_is_404 U n a"
  "disconnect_unregisters_and_returns_202 U ts u n a" "disconnect_unknown_agent_is_404 U n a"
  by (simp_all add: list_agents_is_empty_when_nothing_connected_def list_agents_surfaces_connected_and_recent_def
      describe_agent_returns_connected_shape_def describe_unknown_agent_is_404_def disconnect_unregisters_and_returns_202_def
      disconnect_unknown_agent_is_404_def test_states registry_tests_defs list_agents_def describe_agent_def disconnect_agent_def
      registry_disconnect_def RECENT_CAPACITY_def Let_def)

lemma notification_handler_tests:
  assumes "reads_back S"
  shows "cancel_emits_notification_when_connected S ts u n a" "cancel_without_tunnel_still_202 S a"
    "stream_handler_forwards_broadcast_frames S a"
  using assms
  by (simp_all add: cancel_emits_notification_when_connected_def cancel_without_tunnel_still_202_def cancel_turn_def
      session_cancel_frame_def test_states reads_back_plain stream_handler_forwards_broadcast_frames_def stream_events_def
      broker_subscribe_def broker_publish_def sender_for_def broker_new_def demo_broadcast_def rpc_notification_def Let_def)

subsection \<open>Tokens\<close>

definition auth_with_issuer :: "string \<Rightarrow> static_jwt_authenticator" where
  "auth_with_issuer i = \<lparr>signing_key = ''test-key'', auth_issuer = i\<rparr>"

definition mint_default_ttl_round_trip :: "'je jwt_lib \<Rightarrow> i64 \<Rightarrow> uuid \<Rightarrow> uuid \<Rightarrow> bool" where
  "mint_default_ttl_round_trip J ts a u \<longleftrightarrow>
     (let au = auth_with_issuer ''overacp'' in
      case mint_token J au ts \<lparr>mint_agent_id = a, mint_user = Some u, mint_ttl_secs = None\<rparr> of
        Ok (code, t, c) \<Rightarrow> code = 201 \<and> sub c = a \<and> is_agent c \<and> user c = Some u
          \<and> (case static_validate J au t of Ok d \<Rightarrow> sub d = a \<and> is_agent d | Err _ \<Rightarrow> False)
      | Err _ \<Rightarrow> False)"

text \<open>The test reads the clock again, at \<open>ts'\<close>, after the token was minted.\<close>

definition mint_explicit_ttl_is_honoured :: "'je jwt_lib \<Rightarrow> i64 \<Rightarrow> i64 \<Rightarrow> uuid \<Rightarrow> bool" where
  "mint_explicit_ttl_is_honoured J ts ts' a \<longleftrightarrow>
     (case mint_token J (auth_with_issuer ''overacp'') ts \<lparr>mint_agent_id = a, mint_user = None, mint_ttl_secs = Some 120\<rparr> of
        Ok (code, t, c) \<Rightarrow> 110 \<le> sint (exp c - ts') \<and> sint (exp c - ts') \<le> 125
      | Err _ \<Rightarrow> False)"

definition mint_rejects_non_positive_ttl :: "'je jwt_lib \<Rightarrow> i64 \<Rightarrow> uuid \<Rightarrow> bool" where
  "mint_rejects_non_positive_ttl J ts a \<longleftrightarrow>
     (case mint_token J (auth_with_issuer ''overacp'') ts \<lparr>mint_agent_id = a, mint_user = None, mint_ttl_secs = Some 0\<rparr> of
        Err (BadRequest _) \<Rightarrow> True | _ \<Rightarrow> False)"

definition mint_omits_user_when_not_supplied :: "'je jwt_lib \<Rightarrow> i64 \<Rightarrow> uuid \<Rightarrow> bool" where
  "mint_omits_user_when_not_supplied J ts a \<longleftrightarrow>
     (case mint_token J (auth_with_issuer ''overacp'') ts \<lparr>mint_agent_id = a, mint_user = None, mint_ttl_secs = None\<rparr> of
        Ok (code, t, c) \<Rightarrow> user c = None | Err _ \<Rightarrow> False)"

lemma mint_token_succeeds:
  assumes "jwt_signs J" and "0 < sint (unwrap_or DEFAULT_AGENT_TTL_SECS (mint_ttl_secs req))"
  obtains t where "jwt_encode J (signing_key au) (claims_agent ts (mint_agent_id req) (mint_user req)
      (unwrap_or DEFAULT_AGENT_TTL_SECS (mint_ttl_secs req)) (auth_issuer au)) = Ok t"
    "mint_token J au ts req = Ok (201, t, claims_agent ts (mint_agent_id req) (mint_user req)
      (unwrap_or DEFAULT_AGENT_TTL_SECS (mint_ttl_secs req)) (auth_issuer au))"
proof -
  let ?c = "claims_agent ts (mint_agent_id req) (mint_user req) (unwrap_or DEFAULT_AGENT_TTL_SECS (mint_ttl_secs req)) (auth_issuer au)"
  from assms(1) obtain t where "jwt_encode J (signing_key au) ?c = Ok t" unfolding jwt_signs_def is_ok_iff by blast
  with assms(2) that show thesis by (simp add: mint_token_def static_mint_def Let_def)
qed

lemma default_ttl_positive: "0 < sint DEFAULT_AGENT_TTL_SECS" "sint DEFAULT_AGENT_TTL_SECS = 2592000"
  by (simp_all add: DEFAULT_AGENT_TTL_SECS_def)

lemma default_ttl_test:
  assumes "jwt_signs J" and "jwt_roundtrip J ts" and "sane_clock ts"
  shows "mint_default_ttl_round_trip J ts a u"
proof -
  let ?req = "\<lparr>mint_agent_id = a, mint_user = Some u, mint_ttl_secs = None\<rparr>"
  let ?c = "claims_agent ts a (Some u) DEFAULT_AGENT_TTL_SECS ''overacp''"
  have "0 < sint (unwrap_or DEFAULT_AGENT_TTL_SECS (mint_ttl_secs ?req))" using default_ttl_positive by simp
  from mint_token_succeeds [OF assms(1) this, of "auth_with_issuer ''overacp''" ts] obtain t where
    t: "jwt_encode J ''test-key'' ?c = Ok t" "mint_token J (auth_with_issuer ''overacp'') ts ?req = Ok (201, t, ?c)"
    by (auto simp: auth_with_issuer_def)
  have "sint (ts + DEFAULT_AGENT_TTL_SECS) = sint ts + 2592000"
    using assms(3) by (subst sint_add_no_overflow) (simp_all add: sane_clock_def default_ttl_positive)
  with assms(2) t(1) have "jwt_decode J ''test-key'' ''overacp'' t = Ok ?c" unfolding jwt_roundtrip_def by force
  with t(2) show ?thesis
    by (simp add: mint_default_ttl_round_trip_def static_validate_def auth_with_issuer_def)
      (simp add: claims_agent_def is_agent_def ROLE_AGENT_def)
qed

lemma explicit_ttl_test:
  assumes "jwt_signs J" and "sane_clock ts" and "sint ts \<le> sint ts'" and "sint ts' \<le> sint ts + 10"
  shows "mint_explicit_ttl_is_honoured J ts ts' a"
proof -
  let ?req = "\<lparr>mint_agent_id = a, mint_user = None, mint_ttl_secs = Some 120\<rparr>"
  let ?c = "claims_agent ts a None 120 ''overacp''"
  have "0 < sint (unwrap_or DEFAULT_AGENT_TTL_SECS (mint_ttl_secs ?req))" by simp
  from mint_token_succeeds [OF assms(1) this, of "auth_with_issuer ''overacp''" ts] obtain t where
    t: "mint_token J (auth_with_issuer ''overacp'') ts ?req = Ok (201, t, ?c)"
    by (auto simp: auth_with_issuer_def)
  have e: "sint (ts + 120) = sint ts + 120"
    using assms(2) by (subst sint_add_no_overflow) (simp_all add: sane_clock_def)
  have "sint (ts + 120 - ts') = sint (ts + 120) - sint ts'"
    using assms(2-4) e by (simp add: sane_clock_def sint_word_ariths(2) signed_take_bit_int_eq_self)
  with e assms(3,4) t show ?thesis by (simp add: mint_explicit_ttl_is_honoured_def)
qed

lemma no_user_test:
  assumes "jwt_signs J"
  shows "mint_omits_user_when_not_supplied J ts a"
proof -
  let ?req = "\<lparr>mint_agent_id = a, mint_user = None, mint_ttl_secs = None\<rparr>"
  have "0 < sint (unwrap_or DEFAULT_AGENT_TTL_SECS (mint_ttl_secs ?req))" using default_ttl_positive by simp
  from mint_token_succeeds [OF assms this, of "auth_with_issuer ''overacp''" ts] obtain t where
    "mint_token J (auth_with_issuer ''overacp'') ts ?req = Ok (201, t, claims_agent ts a None DEFAULT_AGENT_TTL_SECS ''overacp'')"
    by (auto simp: auth_with_issuer_def)
  then show ?thesis by (simp add: mint_omits_user_when_not_supplied_def)
qed

lemma zero_ttl_test: "mint_rejects_non_positive_ttl J ts a"
  by (simp add: mint_rejects_non_positive_ttl_def mint_token_def)

subsection \<open>Routes\<close>

definition opened :: "'je jwt_lib \<Rightarrow> claims \<Rightarrow> uuid \<Rightarrow> (claims, tunnel_auth_rejection) result option" where
  "opened J c a =
     (case static_mint J make_auth c of
        Ok token \<Rightarrow> Some (authorize_tunnel (static_validate J make_auth) a (Some token)) | Err _ \<Rightarrow> None)"

definition missing_token_is_rejected :: "'je jwt_lib \<Rightarrow> uuid \<Rightarrow> bool" where
  "missing_token_is_rejected J a \<longleftrightarrow> authorize_tunnel (static_validate J make_auth) a None = Err MissingToken"

definition malformed_token_is_rejected :: "'je jwt_lib \<Rightarrow> uuid \<Rightarrow> bool" where
  "malformed_token_is_rejected J a \<longleftrightarrow>
     authorize_tunnel (static_validate J make_auth) a (Some ''not-a-jwt'') = Err InvalidToken"

definition admin_token_is_rejected :: "'je jwt_lib \<Rightarrow> i64 \<Rightarrow> uuid \<Rightarrow> uuid \<Rightarrow> bool" where
  "admin_token_is_rejected J ts a b \<longleftrightarrow> opened J (claims_admin ts a 60 ''overacp'') b = Some (Err WrongRole)"

definition agent_token_with_wrong_sub_is_rejected :: "'je jwt_lib \<Rightarrow> i64 \<Rightarrow> uuid \<Rightarrow> uuid \<Rightarrow> bool" where
  "agent_token_with_wrong_sub_is_rejected J ts a b \<longleftrightarrow>
     opened J (claims_agent ts a None 60 ''overacp'') b = Some (Err AgentMismatch)"

definition agent_token_with_matching_sub_passes :: "'je jwt_lib \<Rightarrow> i64 \<Rightarrow> uuid \<Rightarrow> bool" where
  "agent_token_with_matching_sub_passes J ts a \<longleftrightarrow>
     (case opened J (claims_agent ts a None 60 ''overacp'') a of Some (Ok c) \<Rightarrow> sub c = a \<and> is_agent c | _ \<Rightarrow> False)"

definition extracts_bearer_from_header :: bool where
  "extracts_bearer_from_header \<longleftrightarrow> extract_bearer_token (Some ''Bearer abc123'') None = Some ''abc123''"

definition extracts_token_from_query_when_no_header :: bool where
  "extracts_token_from_query_when_no_header \<longleftrightarrow> extract_bearer_token None (Some ''from-query'') = Some ''from-query''"

definition header_wins_over_query :: bool where
  "header_wins_over_query \<longleftrightarrow> extract_bearer_token (Some ''Bearer from-header'') (Some ''from-query'') = Some ''from-header''"

text \<open>\<open>parse_uuid\<close> reads ids and \<open>U\<close> prints them.\<close>

definition path_agent_id_extracts_uuid :: "(string \<Rightarrow> uuid option) \<Rightarrow> (uuid \<Rightarrow> string) \<Rightarrow> uuid \<Rightarrow> bool" where
  "path_agent_id_extracts_uuid parse_uuid U a \<longleftrightarrow>
     path_agent_id parse_uuid (''/agents/'' @ U a @ ''/messages'') = Some a"

definition path_agent_id_matches_bare_agent_route :: "(string \<Rightarrow> uuid option) \<Rightarrow> (uuid \<Rightarrow> string) \<Rightarrow> uuid \<Rightarrow> bool" where
  "path_agent_id_matches_bare_agent_route parse_uuid U a \<longleftrightarrow> path_agent_id parse_uuid (''/agents/'' @ U a) = Some a"

definition path_agent_id_returns_none_for_list_route :: "(string \<Rightarrow> uuid option) \<Rightarrow> bool" where
  "path_agent_id_returns_none_for_list_route parse_uuid \<longleftrightarrow> path_agent_id parse_uuid ''/agents'' = None"

definition path_agent_id_returns_none_for_unrelated_route :: "(string \<Rightarrow> uuid option) \<Rightarrow> bool" where
  "path_agent_id_returns_none_for_unrelated_route parse_uuid \<longleftrightarrow>
     path_agent_id parse_uuid ''/tokens'' = None \<and> path_agent_id parse_uuid ''/healthz'' = None"

definition path_agent_id_returns_none_for_non_uuid :: "(string \<Rightarrow> uuid option) \<Rightarrow> bool" where
  "path_agent_id_returns_none_for_non_uuid parse_uuid \<longleftrightarrow> path_agent_id parse_uuid ''/agents/not-a-uuid/messages'' = None"

fun reply_status :: "'rx reply \<Rightarrow> nat option" where
  "reply_status (RText code _) = Some code"
| "reply_status _ = None"

definition rejection_missing_token_into_response_is_401 :: bool where
  "rejection_missing_token_into_response_is_401 \<longleftrightarrow> reply_status (rejection_response MissingToken :: unit reply) = Some 401"

definition rejection_invalid_token_into_response_is_401 :: bool where
  "rejection_invalid_token_into_response_is_401 \<longleftrightarrow> reply_status (rejection_response InvalidToken :: unit reply) = Some 401"

definition rejection_wrong_role_into_response_is_403 :: bool where
  "rejection_wrong_role_into_response_is_403 \<longleftrightarrow> reply_status (rejection_response WrongRole :: unit reply) = Some 403"

definition rejection_agent_mismatch_into_response_is_403 :: bool where
  "rejection_agent_mismatch_into_response_is_403 \<longleftrightarrow> reply_status (rejection_response AgentMismatch :: unit reply) = Some 403"

lemma opened_minted:
  assumes "jwt_signs J" and "jwt_roundtrip J ts" and "sane_clock ts" and "exp c = ts + 60" and "iss c = ''overacp''"
    and "is_admin c \<or> is_agent c"
  shows "opened J c a = Some (if \<not> is_agent c then Err WrongRole else if sub c \<noteq> a then Err AgentMismatch else Ok c)"
proof -
  from assms(1) obtain t where t: "jwt_encode J ''k'' c = Ok t" unfolding jwt_signs_def is_ok_iff by blast
  moreover have "sint ts \<le> sint (exp c) + 60" using assms(3,4) clock_plus by simp
  ultimately have "jwt_decode J ''k'' ''overacp'' t = Ok c" using assms(2,5) unfolding jwt_roundtrip_def by blast
  then have "static_validate J make_auth t = Ok c" using assms(6) by (simp add: static_validate_Ok make_auth_def)
  with t show ?thesis by (simp add: opened_def static_mint_def make_auth_def authorize_tunnel_def)
qed

lemma tunnel_auth_tests:
  assumes "jwt_signs J" and "jwt_roundtrip J ts" and "sane_clock ts"
  shows "admin_token_is_rejected J ts a b" "a \<noteq> b \<Longrightarrow> agent_token_with_wrong_sub_is_rejected J ts a b"
    "agent_token_with_matching_sub_passes J ts a"
  by (simp_all add: admin_token_is_rejected_def agent_token_with_wrong_sub_is_rejected_def agent_token_with_matching_sub_passes_def
      opened_minted [OF assms])

lemma no_token_tests:
  "missing_token_is_rejected J a"
  "\<not> is_ok (jwt_decode J ''k'' ''overacp'' ''not-a-jwt'') \<Longrightarrow> malformed_token_is_rejected J a"
  by (auto simp: missing_token_is_rejected_def malformed_token_is_rejected_def authorize_tunnel_def static_validate_def make_auth_def
      split: result.splits)

lemma header_tests:
  "extracts_bearer_from_header" "extracts_token_from_query_when_no_header" "header_wins_over_query"
  "rejection_missing_token_into_response_is_401" "rejection_invalid_token_into_response_is_401"
  "rejection_wrong_role_into_response_is_403" "rejection_agent_mismatch_into_response_is_403"
  by (simp_all add: extracts_bearer_from_header_def extracts_token_from_query_when_no_header_def header_wins_over_query_def
      rejection_missing_token_into_response_is_401_def rejection_invalid_token_into_response_is_401_def
      rejection_wrong_role_into_response_is_403_def rejection_agent_mismatch_into_response_is_403_def
      extract_bearer_token_def bearer_def strip_prefix_def)

lemma path_tests:
  assumes "parse_uuid (U a) = Some a" and "CHR ''/'' \<notin> set (U a)"
  shows "path_agent_id_extracts_uuid parse_uuid U a" "path_agent_id_matches_bare_agent_route parse_uuid U a"
proof -
  have "strip_prefix ''/agents/'' (''/agents/'' @ r) = Some r" for r by (rule strip_prefix_append)
  moreover have "hd (split_on (CHR ''/'') (U a @ ''/messages'')) = U a"
    using split_on_hd [OF assms(2), of "''messages''"] by simp
  ultimately show "path_agent_id_extracts_uuid parse_uuid U a" "path_agent_id_matches_bare_agent_route parse_uuid U a"
    using assms
    by (simp_all add: path_agent_id_extracts_uuid_def path_agent_id_matches_bare_agent_route_def path_agent_id_def split_on_single)
qed

lemma other_path_tests:
  "path_agent_id_returns_none_for_list_route parse_uuid" "path_agent_id_returns_none_for_unrelated_route parse_uuid"
  "parse_uuid ''not-a-uuid'' = None \<Longrightarrow> path_agent_id_returns_none_for_non_uuid parse_uuid"
  by (simp_all add: path_agent_id_returns_none_for_list_route_def path_agent_id_returns_none_for_unrelated_route_def
      path_agent_id_returns_none_for_non_uuid_def path_agent_id_def strip_prefix_def)

end
