(* ===== verification/Tests_Acp.thy ===== *)
theory Tests_Acp
  imports Tests_Prelude Acp_Client
begin

text \<open>
  The unit tests of the agent's JSON-RPC client (\<^verbatim>\<open>loop/src/acp.rs\<close>) on the model. The writer is the
  list of lines written. The derived decoders are those the attributes on the types give; the decoder of a
  history message is an argument, since no test has one to decode. Of the JSON library it is assumed that it
  reads back a line it printed, the end of the line included.
\<close>

definition reads_lines :: "serde \<Rightarrow> bool" where
  "reads_lines S \<longleftrightarrow> (\<forall>v. plain_json v \<longrightarrow> parse_json S (print_json S v @ newline) = Some v)"

subsection \<open>The derived decoders\<close>

definition response_decode :: "json \<Rightarrow> rpc_response option" where
  "response_decode v =
     Option.bind (read_optional ''result'' Some v) (\<lambda>r.
     Option.bind (read_optional ''error'' (\<lambda>e. Option.bind (json_get ''message'' e) as_str) v) (\<lambda>e.
       Some \<lparr>resp_result = r, resp_error = e\<rparr>))"

definition notification_decode :: "json \<Rightarrow> notification option" where
  "notification_decode v =
     Option.bind (Option.bind (json_get ''method'' v) as_str) (\<lambda>m.
       Some \<lparr>notif_method = m, notif_params = unwrap_or JNull (json_get ''params'' v)\<rparr>)"

definition session_params_decode :: "json \<Rightarrow> session_message_params option" where
  "session_params_decode v =
     Option.bind (Option.bind (Option.bind (json_get ''role'' v) as_str) proto_role_decode) (\<lambda>r.
     Option.bind (json_get ''content'' v) (\<lambda>c. Some \<lparr>smp_role = r, smp_content = c\<rparr>))"

definition initialize_decode :: "(json \<Rightarrow> message option) \<Rightarrow> json \<Rightarrow> initialize_result option" where
  "initialize_decode decode_message v =
     Option.bind (case json_get ''system_prompt'' v of None \<Rightarrow> Some [] | Some s \<Rightarrow> as_str s) (\<lambda>sp.
     Option.bind (case json_get ''messages'' v of None \<Rightarrow> Some []
        | Some ms \<Rightarrow> Option.bind (as_array ms) (\<lambda>vs. those (map decode_message vs))) (\<lambda>ms.
       Some \<lparr>system_prompt = sp, init_messages = ms, tools_config = unwrap_or JNull (json_get ''tools_config'' v)\<rparr>))"

definition test_env :: "serde \<Rightarrow> string list acp_env" where
  "test_env S =
     \<lparr>acp_serde = S, acp_write = (\<lambda>l w. (True, w @ [l])), decode_response = response_decode,
      decode_notification = notification_decode, decode_params = session_params_decode, decode_block = demo_block_decode\<rparr>"

text \<open>A client over given lines, the lines that a broker sends, and the frame that was written.\<close>

definition mock_acp :: "string list \<Rightarrow> string list acp_client" where
  "mock_acp lines = acp_new (map Ok lines) []"

definition jsonrpc_result :: "serde \<Rightarrow> json \<Rightarrow> string" where
  "jsonrpc_result S v =
     print_json S (JObject [(''jsonrpc'', JString ''2.0''), (''id'', JNumber (PosInt 1)), (''result'', v)]) @ newline"

definition jsonrpc_failure :: "serde \<Rightarrow> json_number \<Rightarrow> string \<Rightarrow> string" where
  "jsonrpc_failure S code msg =
     print_json S (JObject [(''jsonrpc'', JString ''2.0''), (''id'', JNumber (PosInt 1)),
       (''error'', JObject [(''code'', JNumber code), (''message'', JString msg)])]) @ newline"

definition push_line :: "serde \<Rightarrow> string \<Rightarrow> json \<Rightarrow> string" where
  "push_line S m params =
     print_json S (JObject [(''jsonrpc'', JString ''2.0''), (''method'', JString m), (''params'', params)]) @ newline"

definition written :: "serde \<Rightarrow> 'e \<times> string list acp_client \<Rightarrow> json option" where
  "written S r = (case writer (snd r) of [l] \<Rightarrow> parse_json S l | _ \<Rightarrow> None)"

lemmas acp_tests = reads_lines_def test_env_def mock_acp_def acp_new_def jsonrpc_result_def jsonrpc_failure_def push_line_def
  written_def response_decode_def notification_decode_def session_params_decode_def initialize_decode_def read_optional_def
  send_request_def send_notification_def request_frame_def notification_frame_def is_notification_def response_result_def
  method_names

subsection \<open>Notifications of the agent\<close>

definition stream_text_delta_wraps_text :: "serde \<Rightarrow> bool" where
  "stream_text_delta_wraps_text S \<longleftrightarrow>
     (let parsed = written S (stream_text_delta (test_env S) ''hello'' (mock_acp []))
      in json_at [''method''] parsed = Some (JString ''stream/textDelta'') \<and> json_at [''params'', ''text''] parsed = Some (JString ''hello''))"

definition stream_activity_wraps_as_log_kind :: "serde \<Rightarrow> bool" where
  "stream_activity_wraps_as_log_kind S \<longleftrightarrow>
     (let parsed = written S (stream_activity (test_env S) ''working'' (mock_acp []))
      in json_at [''method''] parsed = Some (JString ''stream/activity'') \<and> json_at [''params'', ''kind''] parsed = Some (JString ''log'')
         \<and> json_at [''params'', ''data''] parsed = Some (JString ''working''))"

definition heartbeat_is_notification :: "serde \<Rightarrow> bool" where
  "heartbeat_is_notification S \<longleftrightarrow>
     (let parsed = written S (acp_heartbeat (test_env S) (mock_acp []))
      in json_at [''method''] parsed = Some (JString ''heartbeat'') \<and> json_at [''id''] parsed \<in> {None, Some JNull})"

definition image_message :: message where
  "image_message =
     \<lparr>m_role = RUser,
      m_content = Some (CBlocks [Known (BText ''describe''),
        Known (BImage (JObject [(''type'', JString ''base64''), (''media_type'', JString ''image/png''), (''data'', JString ''abc'')]))]),
      m_tool_calls = None, m_tool_call_id = None\<rparr>"

definition turn_end_sends_no_messages :: "serde \<Rightarrow> bool" where
  "turn_end_sends_no_messages S \<longleftrightarrow>
     (let u = usage_default\<lparr>prompt_tokens := 10, completion_tokens := 5, total_tokens := 15\<rparr>;
          parsed = written S (turn_end (test_env S) [image_message] u (mock_acp []))
      in json_at [''params'', ''messages''] parsed = None
         \<and> json_at [''params'', ''usage'', ''input_tokens''] parsed = Some (JNumber (PosInt 10)))"

definition turn_end_usage_only :: "serde \<Rightarrow> bool" where
  "turn_end_usage_only S \<longleftrightarrow>
     (let u = usage_default\<lparr>prompt_tokens := 100, completion_tokens := 50, total_tokens := 150\<rparr>;
          m = \<lparr>m_role = RAssistant, m_content = Some (CText ''done''), m_tool_calls = None, m_tool_call_id = None\<rparr>;
          parsed = written S (turn_end (test_env S) [m] u (mock_acp []))
      in json_at [''method''] parsed = Some (JString ''turn/end'') \<and> json_at [''id''] parsed \<in> {None, Some JNull}
         \<and> json_at [''params'', ''usage'', ''input_tokens''] parsed = Some (JNumber (PosInt 100))
         \<and> json_at [''params'', ''usage'', ''output_tokens''] parsed = Some (JNumber (PosInt 50))
         \<and> json_at [''params'', ''messages''] parsed = None)"

definition context_compacted_roundtrips_messages :: "serde \<Rightarrow> bool" where
  "context_compacted_roundtrips_messages S \<longleftrightarrow>
     (let mk = (\<lambda>c. \<lparr>m_role = RUser, m_content = Some c, m_tool_calls = None, m_tool_call_id = None\<rparr>);
          ms = [mk (CText ''deploy it''),
                mk (CBlocks [Known (BText ''with this image''),
                  Known (BImageUrl (JObject [(''url'', JString ''data:image/png;base64,abc'')]))])];
          u = usage_default\<lparr>prompt_tokens := 200, completion_tokens := 80, total_tokens := 280\<rparr>;
          parsed = written S (context_compacted (test_env S) ''summary of earlier work'' ms u (mock_acp []))
      in json_at [''method''] parsed = Some (JString ''context/compacted'') \<and> json_at [''id''] parsed \<in> {None, Some JNull}
         \<and> json_at [''params'', ''summary''] parsed = Some (JString ''summary of earlier work'')
         \<and> json_at [''params'', ''usage'', ''input_tokens''] parsed = Some (JNumber (PosInt 200))
         \<and> json_at [''params'', ''usage'', ''output_tokens''] parsed = Some (JNumber (PosInt 80))
         \<and> (case Option.bind (json_at [''params'', ''messages''] parsed) as_array of
              Some [m0, m1] \<Rightarrow> json_get ''role'' m0 = Some (JString ''user'') \<and> json_get ''content'' m0 = Some (JString ''deploy it'')
                \<and> (case Option.bind (json_get ''content'' m1) as_array of
                     Some [b0, b1] \<Rightarrow> json_get ''type'' b0 = Some (JString ''text'') \<and> json_get ''type'' b1 = Some (JString ''image_url'')
                   | _ \<Rightarrow> False)
            | _ \<Rightarrow> False))"

lemma acp_notification_tests:
  assumes "reads_lines S"
  shows "stream_text_delta_wraps_text S" "stream_activity_wraps_as_log_kind S" "heartbeat_is_notification S"
    "turn_end_sends_no_messages S" "turn_end_usage_only S" "context_compacted_roundtrips_messages S"
  using assms
  by (simp_all add: acp_tests stream_text_delta_wraps_text_def stream_text_delta_def text_delta_encode_def
      stream_activity_wraps_as_log_kind_def stream_activity_def activity_encode_def heartbeat_is_notification_def acp_heartbeat_def
      turn_end_sends_no_messages_def turn_end_usage_only_def turn_end_def turn_end_encode_def proto_usage_encode_def proto_usage_of_def
      usage_default_def context_compacted_roundtrips_messages_def context_compacted_def context_compacted_encode_def
      message_encode_def Let_def)

subsection \<open>Requests\<close>

definition quota_check_returns_allowed_flag :: "serde \<Rightarrow> bool" where
  "quota_check_returns_allowed_flag S \<longleftrightarrow>
     fst (acp_quota_check (test_env S) (mock_acp [jsonrpc_result S (JObject [(''allowed'', JBool True)])])) = Ok True"

definition quota_check_defaults_to_allowed_on_missing_field :: "serde \<Rightarrow> bool" where
  "quota_check_defaults_to_allowed_on_missing_field S \<longleftrightarrow>
     fst (acp_quota_check (test_env S) (mock_acp [jsonrpc_result S (JObject [])])) = Ok True"

definition quota_check_denied_surfaces_false :: "serde \<Rightarrow> bool" where
  "quota_check_denied_surfaces_false S \<longleftrightarrow>
     fst (acp_quota_check (test_env S) (mock_acp [jsonrpc_result S (JObject [(''allowed'', JBool False)])])) = Ok False"

definition initialize_parses_broker_response_shape :: "serde \<Rightarrow> (json \<Rightarrow> message option) \<Rightarrow> bool" where
  "initialize_parses_broker_response_shape S dm \<longleftrightarrow>
     (case fst (acp_initialize (test_env S) (initialize_decode dm) (mock_acp [jsonrpc_result S
         (JObject [(''system_prompt'', JString ''You are helpful.''), (''messages'', JArray []), (''tools_config'', JObject [])])])) of
        Ok r \<Rightarrow> system_prompt r = ''You are helpful.'' \<and> init_messages r = []
      | Err _ \<Rightarrow> False)"

definition initialize_tolerates_missing_optional_fields :: "serde \<Rightarrow> (json \<Rightarrow> message option) \<Rightarrow> bool" where
  "initialize_tolerates_missing_optional_fields S dm \<longleftrightarrow>
     (case fst (acp_initialize (test_env S) (initialize_decode dm) (mock_acp [jsonrpc_result S (JObject [])])) of
        Ok r \<Rightarrow> system_prompt r = [] \<and> init_messages r = []
      | Err _ \<Rightarrow> False)"

definition quota_update_sends_request_with_tokens :: "serde \<Rightarrow> bool" where
  "quota_update_sends_request_with_tokens S \<longleftrightarrow>
     (let r = acp_quota_update (test_env S) 100 50 (mock_acp [jsonrpc_result S (JObject [])]); parsed = written S r
      in is_ok (fst r) \<and> json_at [''method''] parsed = Some (JString ''quota/update'')
         \<and> json_at [''params'', ''input_tokens''] parsed = Some (JNumber (PosInt 100))
         \<and> json_at [''params'', ''output_tokens''] parsed = Some (JNumber (PosInt 50)))"

definition peer_error :: "('a, acp_error) result \<Rightarrow> string \<Rightarrow> bool" where
  "peer_error r s \<longleftrightarrow> (case r of Err (AcpError m) \<Rightarrow> str_contains m s | _ \<Rightarrow> False)"

definition send_request_surfaces_error_from_peer :: "serde \<Rightarrow> bool" where
  "send_request_surfaces_error_from_peer S \<longleftrightarrow>
     peer_error (fst (acp_quota_check (test_env S) (mock_acp [jsonrpc_failure S (NegInt (-1)) ''bad'']))) ''bad''"

definition tools_list_sends_request_and_returns_result :: "serde \<Rightarrow> bool" where
  "tools_list_sends_request_and_returns_result S \<longleftrightarrow>
     (let r = acp_tools_list (test_env S) (mock_acp [jsonrpc_result S
                (JObject [(''tools'', JArray [JObject [(''name'', JString ''echo''), (''description'', JString ''Echo tool'')]])])]);
          parsed = written S r
      in (case fst r of Ok v \<Rightarrow> (case Option.bind (json_get ''tools'' v) as_array of
              Some (t # _) \<Rightarrow> json_get ''name'' t = Some (JString ''echo'') | _ \<Rightarrow> False) | Err _ \<Rightarrow> False)
         \<and> json_at [''method''] parsed = Some (JString ''tools/list'') \<and> Option.bind (json_at [''id''] parsed) as_u64 \<noteq> None)"

definition tools_list_surfaces_error :: "serde \<Rightarrow> bool" where
  "tools_list_surfaces_error S \<longleftrightarrow>
     peer_error (fst (acp_tools_list (test_env S) (mock_acp [jsonrpc_failure S (PosInt 1404) ''not found'']))) ''not found''"

definition tools_call_sends_name_and_arguments :: "serde \<Rightarrow> bool" where
  "tools_call_sends_name_and_arguments S \<longleftrightarrow>
     (let r = acp_tools_call (test_env S) ''get_weather'' (JObject [(''city'', JString ''London'')]) (mock_acp [jsonrpc_result S
                (JObject [(''content'', JArray [JObject [(''type'', JString ''text''), (''text'', JString ''sunny'')]]), (''isError'', JBool False)])]);
          parsed = written S r
      in (case fst r of Ok v \<Rightarrow> (case Option.bind (json_get ''content'' v) as_array of
              Some (b # _) \<Rightarrow> json_get ''text'' b = Some (JString ''sunny'') | _ \<Rightarrow> False) | Err _ \<Rightarrow> False)
         \<and> json_at [''method''] parsed = Some (JString ''tools/call'') \<and> json_at [''params'', ''name''] parsed = Some (JString ''get_weather'')
         \<and> json_at [''params'', ''arguments'', ''city''] parsed = Some (JString ''London''))"

definition tools_call_surfaces_execution_error :: "serde \<Rightarrow> bool" where
  "tools_call_surfaces_execution_error S \<longleftrightarrow>
     peer_error (fst (acp_tools_call (test_env S) ''bad_tool'' (JObject []) (mock_acp [jsonrpc_failure S (PosInt 1502) ''exec failed''])))
       ''exec failed''"

lemma acp_request_tests:
  assumes "reads_lines S"
  shows "quota_check_returns_allowed_flag S" "quota_check_defaults_to_allowed_on_missing_field S" "quota_check_denied_surfaces_false S"
    "initialize_parses_broker_response_shape S dm" "initialize_tolerates_missing_optional_fields S dm"
    "quota_update_sends_request_with_tokens S"
  using assms
  by (simp_all add: acp_tests quota_check_returns_allowed_flag_def quota_check_defaults_to_allowed_on_missing_field_def
      quota_check_denied_surfaces_false_def acp_quota_check_def initialize_parses_broker_response_shape_def
      initialize_tolerates_missing_optional_fields_def acp_initialize_def quota_update_sends_request_with_tokens_def
      acp_quota_update_def quota_update_encode_def Let_def)

lemma acp_tool_tests:
  assumes "reads_lines S"
  shows "send_request_surfaces_error_from_peer S" "tools_list_sends_request_and_returns_result S" "tools_list_surfaces_error S"
    "tools_call_sends_name_and_arguments S" "tools_call_surfaces_execution_error S"
  using assms
  by (simp_all add: acp_tests send_request_surfaces_error_from_peer_def acp_quota_check_def tools_list_sends_request_and_returns_result_def
      tools_list_surfaces_error_def tools_call_sends_name_and_arguments_def tools_call_surfaces_execution_error_def peer_error_def
      acp_tools_list_def acp_tools_call_def Let_def)

subsection \<open>Pushes of the broker\<close>

definition user_push :: "serde \<Rightarrow> json \<Rightarrow> string" where
  "user_push S c = push_line S ''session/message'' (JObject [(''role'', JString ''user''), (''content'', c)])"

text \<open>What a test says of the message pushed, or of its blocks.\<close>

definition pushes_message :: "serde \<Rightarrow> string list \<Rightarrow> (message \<Rightarrow> bool) \<Rightarrow> bool" where
  "pushes_message S lines P \<longleftrightarrow>
     (case fst (next_push (test_env S) (mock_acp lines)) of Ok (PushMessage m) \<Rightarrow> P m | _ \<Rightarrow> False)"

definition pushes_blocks :: "serde \<Rightarrow> string list \<Rightarrow> (typed_block list \<Rightarrow> bool) \<Rightarrow> bool" where
  "pushes_blocks S lines P \<longleftrightarrow>
     pushes_message S lines (\<lambda>m. case m_content m of Some (CBlocks bs) \<Rightarrow> P bs | _ \<Rightarrow> False)"

definition text_block :: "string \<Rightarrow> json" where
  "text_block t = JObject [(''type'', JString ''text''), (''text'', JString t)]"

definition next_push_surfaces_session_message_as_user_message :: "serde \<Rightarrow> bool" where
  "next_push_surfaces_session_message_as_user_message S \<longleftrightarrow>
     pushes_message S [user_push S (JString ''hi'')]
       (\<lambda>m. m_role m = RUser \<and> Option.bind (m_content m) content_as_text = Some ''hi'')"

definition next_push_surfaces_session_cancel_as_cancel_sentinel :: "serde \<Rightarrow> bool" where
  "next_push_surfaces_session_cancel_as_cancel_sentinel S \<longleftrightarrow>
     fst (next_push (test_env S) (mock_acp [push_line S ''session/cancel'' (JObject [])])) = Ok PushCancel"

definition next_push_parses_content_blocks :: "serde \<Rightarrow> bool" where
  "next_push_parses_content_blocks S \<longleftrightarrow>
     (let lines = [user_push S (JArray [text_block (''what'' @ CHR 0x27 # ''s this?''),
        JObject [(''type'', JString ''image_url''), (''image_url'', JObject [(''url'', JString ''https://x/y.png'')])]])]
      in pushes_message S lines (\<lambda>m. m_role m = RUser) \<and> pushes_blocks S lines (\<lambda>bs. length bs = 2))"

definition next_push_skips_unknown_notifications_and_continues :: "serde \<Rightarrow> bool" where
  "next_push_skips_unknown_notifications_and_continues S \<longleftrightarrow>
     pushes_message S [push_line S ''stream/unknown'' (JObject []), user_push S (JString ''ok'')]
       (\<lambda>m. Option.bind (m_content m) content_as_text = Some ''ok'')"

definition next_push_parses_anthropic_image_blocks :: "serde \<Rightarrow> bool" where
  "next_push_parses_anthropic_image_blocks S \<longleftrightarrow>
     pushes_blocks S [user_push S (JArray [text_block (''what'' @ CHR 0x27 # ''s this?''),
        JObject [(''type'', JString ''image''), (''source'', JObject [(''type'', JString ''base64''),
          (''media_type'', JString ''image/png''), (''data'', JString ''iVBORw0KGgo='')])]])]
       (\<lambda>bs. case bs of [b0, b1] \<Rightarrow> block_as_text b0 \<noteq> None \<and> is_media b1 | _ \<Rightarrow> False)"

definition next_push_parses_input_audio_blocks :: "serde \<Rightarrow> bool" where
  "next_push_parses_input_audio_blocks S \<longleftrightarrow>
     pushes_blocks S [user_push S (JArray [JObject [(''type'', JString ''input_audio''),
        (''input_audio'', JObject [(''data'', JString ''base64audio''), (''format'', JString ''wav'')])]])]
       (\<lambda>bs. case bs of [b0] \<Rightarrow> is_media b0 | _ \<Rightarrow> False)"

definition next_push_handles_unknown_block_types_gracefully :: "serde \<Rightarrow> bool" where
  "next_push_handles_unknown_block_types_gracefully S \<longleftrightarrow>
     pushes_blocks S [user_push S (JArray [text_block ''hello'',
        JObject [(''type'', JString ''hologram_3d''), (''mesh'', JString ''data:model/gltf;base64,abc'')]])]
       (\<lambda>bs. case bs of [b0, b1] \<Rightarrow> block_as_text b0 = Some ''hello'' \<and> \<not> is_media b1 \<and> block_as_text b1 = None | _ \<Rightarrow> False)"

definition next_push_rejects_unknown_role :: "serde \<Rightarrow> bool" where
  "next_push_rejects_unknown_role S \<longleftrightarrow>
     fst (next_push (test_env S) (mock_acp [push_line S ''session/message''
       (JObject [(''role'', JString ''alien''), (''content'', JString ''hi'')])])) = Err ParseParams"

definition next_push_errors_on_eof :: "serde \<Rightarrow> bool" where
  "next_push_errors_on_eof S \<longleftrightarrow> fst (next_push (test_env S) (mock_acp [])) = Err StdinClosed"

text \<open>The first line of a client decides what \<^verbatim>\<open>next_push\<close> gives, unless it is of no interest.\<close>

lemma next_push_line:
  assumes "reads_lines S" and "plain_json params"
  shows "next_push (test_env S) (mock_acp (push_line S m params # rest)) =
    (if m = ''session/message'' then
       (res_bind (ok_or ParseParams (session_params_decode params))
          (\<lambda>p. res_map PushMessage (session_message_to_llm_message (test_env S) p)), mock_acp rest)
     else if m = ''session/cancel'' then (Ok PushCancel, mock_acp rest)
     else next_push (test_env S) (mock_acp rest))"
proof -
  have "recv_notification (test_env S) (mock_acp (push_line S m params # rest))
      = (Ok \<lparr>notif_method = m, notif_params = params\<rparr>, mock_acp rest)"
    using assms by (simp add: recv_notification_def parse_notification_def acp_tests)
  then show ?thesis
    by (subst next_push.simps) (simp add: method_names test_env_def)
qed

lemma pushed_user:
  assumes "reads_lines S" and "plain_json c"
  shows "fst (next_push (test_env S) (mock_acp (user_push S c # rest))) =
    res_map PushMessage (session_message_to_llm_message (test_env S) \<lparr>smp_role = PUser, smp_content = c\<rparr>)"
  using assms
  by (simp add: user_push_def next_push_line session_params_decode_def proto_role_decode_def)

lemma next_push_text_tests:
  assumes "reads_lines S"
  shows "next_push_surfaces_session_message_as_user_message S" "next_push_surfaces_session_cancel_as_cancel_sentinel S"
    "next_push_skips_unknown_notifications_and_continues S" "next_push_rejects_unknown_role S"
  using assms
  by (simp_all add: next_push_surfaces_session_message_as_user_message_def next_push_surfaces_session_cancel_as_cancel_sentinel_def
      next_push_skips_unknown_notifications_and_continues_def next_push_rejects_unknown_role_def pushes_message_def pushed_user
      next_push_line session_message_to_llm_message_def session_params_decode_def proto_role_decode_def)

lemma next_push_block_tests:
  assumes "reads_lines S"
  shows "next_push_parses_content_blocks S" "next_push_parses_anthropic_image_blocks S" "next_push_parses_input_audio_blocks S"
    "next_push_handles_unknown_block_types_gracefully S"
  using assms
  by (simp_all add: next_push_parses_content_blocks_def next_push_parses_anthropic_image_blocks_def
      next_push_parses_input_audio_blocks_def next_push_handles_unknown_block_types_gracefully_def pushes_blocks_def pushes_message_def
      pushed_user session_message_to_llm_message_def text_block_def Let_def)
    (simp_all add: test_env_def typed_block_decode_def demo_block_decode_def)

lemma end_of_stream_test: "next_push_errors_on_eof S"
  by (simp add: next_push_errors_on_eof_def next_push.simps recv_notification_def mock_acp_def acp_new_def)

end
