(* ===== verification/Tests_Llm.thy ===== *)
theory Tests_Llm
  imports Tests_Prelude Tools
begin

text \<open>
  The unit tests of the model client on the model: the classification of errors and the retry policy
  (\<^verbatim>\<open>loop/src/llm/retry.rs\<close>), the data model (\<^verbatim>\<open>loop/src/llm/types.rs\<close>), the
  arguments of tool calls (\<^verbatim>\<open>loop/src/llm/tool_args.rs\<close>) and the types of the tool protocol
  (\<^verbatim>\<open>loop/src/mcp/types.rs\<close>). The decoders that the attributes on the types derive are written out.
\<close>

subsection \<open>Classification of errors\<close>

text \<open>
  The transport errors of the tests by what the library says of them: a refused connection, a timeout, an
  answer with a status. The text is the library's; where a test looks at it, it is an argument.
\<close>

definition connect_error :: "string \<Rightarrow> reqwest_error" where
  "connect_error d = \<lparr>is_timeout = False, is_connect = True, is_body = False, is_decode = False, err_status = None, err_display = d\<rparr>"

definition timeout_error :: "string \<Rightarrow> reqwest_error" where
  "timeout_error d = \<lparr>is_timeout = True, is_connect = False, is_body = False, is_decode = False, err_status = None, err_display = d\<rparr>"

definition status_error :: "nat \<times> string \<Rightarrow> string \<Rightarrow> reqwest_error" where
  "status_error st d =
     \<lparr>is_timeout = False, is_connect = False, is_body = False, is_decode = False, err_status = Some st, err_display = d\<rparr>"

definition TOO_MANY_REQUESTS :: "nat \<times> string" where "TOO_MANY_REQUESTS = (429, ''429 Too Many Requests'')"
definition BAD_REQUEST :: "nat \<times> string" where "BAD_REQUEST = (400, ''400 Bad Request'')"
definition UNAUTHORIZED :: "nat \<times> string" where "UNAUTHORIZED = (401, ''401 Unauthorized'')"
definition BAD_GATEWAY :: "nat \<times> string" where "BAD_GATEWAY = (502, ''502 Bad Gateway'')"
definition SERVICE_UNAVAILABLE :: "nat \<times> string" where "SERVICE_UNAVAILABLE = (503, ''503 Service Unavailable'')"

definition classifies_connect_error_as_retryable :: "string \<Rightarrow> bool" where
  "classifies_connect_error_as_retryable d \<longleftrightarrow>
     (let e = classify_reqwest_error ''0.5'' (connect_error d); msg = stream_error_display e
      in is_retryable e \<and> str_contains msg ''Connection error'' \<and> str_contains msg ''0.5s''
         \<and> stream_error_source e = FromReqwest (connect_error d))"

definition classifies_timeout_as_retryable :: "string \<Rightarrow> bool" where
  "classifies_timeout_as_retryable d \<longleftrightarrow>
     (let e = classify_reqwest_error ''1.2'' (timeout_error d) in is_retryable e \<and> str_contains (stream_error_display e) ''1.2s'')"

definition classifies_4xx_status_as_fatal :: "string \<Rightarrow> bool" where
  "classifies_4xx_status_as_fatal d \<longleftrightarrow>
     (let e = classify_reqwest_error ''0.1'' (status_error UNAUTHORIZED d)
      in (case e of Fatal _ _ _ \<Rightarrow> True | _ \<Rightarrow> False) \<and> \<not> is_retryable e \<and> str_contains (stream_error_display e) ''401'')"

definition classifies_5xx_status_as_retryable :: "string \<Rightarrow> bool" where
  "classifies_5xx_status_as_retryable d \<longleftrightarrow>
     (let e = classify_reqwest_error ''0.1'' (status_error SERVICE_UNAVAILABLE d)
      in is_retryable e \<and> str_contains (stream_error_display e) ''503'')"

definition http_response_429_is_retryable :: bool where
  "http_response_429_is_retryable \<longleftrightarrow>
     (let e = classify_http_response TOO_MANY_REQUESTS ''slow down'' in is_retryable e \<and> str_contains (err_message e) ''429'')"

definition http_response_400_is_fatal :: bool where
  "http_response_400_is_fatal \<longleftrightarrow>
     (let e = classify_http_response BAD_REQUEST ''bad input''
      in \<not> is_retryable e \<and> (case e of Fatal _ _ _ \<Rightarrow> True | _ \<Rightarrow> False))"

definition into_fatal_wraps_retryable :: bool where
  "into_fatal_wraps_retryable \<longleftrightarrow>
     (let e = classify_http_response SERVICE_UNAVAILABLE ''boom''; fatal = into_fatal_with_prefix ''mid-stream error'' e
      in is_retryable e \<and> \<not> is_retryable fatal \<and> starts_with (err_message fatal) ''mid-stream error: ''
         \<and> stream_error_source fatal = FromStream e)"

definition into_fatal_is_identity_on_fatal :: bool where
  "into_fatal_is_identity_on_fatal \<longleftrightarrow>
     (let e = classify_http_response BAD_REQUEST ''nope''; still_fatal = into_fatal_with_prefix ''ignored'' e
      in \<not> is_retryable still_fatal \<and> err_message still_fatal = err_message e)"

lemma str_contains_appendI: "str_contains (pre @ needle @ post) needle"
  by (simp add: str_contains_sublist sublist_appendI)

lemma classification_tests:
  "classifies_connect_error_as_retryable d" "classifies_timeout_as_retryable d" "classifies_4xx_status_as_fatal d"
  "classifies_5xx_status_as_retryable d" "http_response_429_is_retryable" "http_response_400_is_fatal"
  "into_fatal_wraps_retryable" "into_fatal_is_identity_on_fatal"
  by (simp_all add: classifies_connect_error_as_retryable_def classifies_timeout_as_retryable_def classifies_4xx_status_as_fatal_def
      classifies_5xx_status_as_retryable_def http_response_429_is_retryable_def http_response_400_is_fatal_def
      into_fatal_wraps_retryable_def into_fatal_is_identity_on_fatal_def classify_reqwest_error_def classify_http_response_def
      connect_error_def timeout_error_def status_error_def TOO_MANY_REQUESTS_def BAD_REQUEST_def UNAUTHORIZED_def
      SERVICE_UNAVAILABLE_def stream_error_display_def stream_error_source_def into_fatal_with_prefix_def Let_def)

subsection \<open>Keywords, budgets and the retry state\<close>

definition keyword_match_is_case_insensitive :: bool where
  "keyword_match_is_case_insensitive \<longleftrightarrow>
     list_all contains_transient_keyword
       [''Model Is OVERLOADED'', ''you hit your quota'', ''upstream capacity exceeded'', ''service unavailable'',
        ''please throttle'', ''network congestion detected'', ''rate limit exceeded'']"

definition keyword_miss_returns_false :: bool where
  "keyword_miss_returns_false \<longleftrightarrow>
     list_all (\<lambda>s. \<not> contains_transient_keyword s) [''internal server error'', ''bad gateway'', '''']"

definition budget_backoff_doubles :: bool where
  "budget_backoff_doubles \<longleftrightarrow>
     map (delay_for default_budget) [0, 1, 2] = [500, 1000, 2000]
     \<and> delay_for escalated_budget 0 = 2000 \<and> delay_for escalated_budget 3 = 16000"

definition escalation_happens_once_on_keyword :: bool where
  "escalation_happens_once_on_keyword \<longleftrightarrow>
     (let e = classify_http_response SERVICE_UNAVAILABLE ''model overloaded'';
          upgraded = escalate_if_transient default_budget e; still = escalate_if_transient upgraded e
      in escalated upgraded \<and> max_attempts upgraded = 5 \<and> escalated still \<and> max_attempts still = 5)"

definition escalation_skipped_without_keyword :: bool where
  "escalation_skipped_without_keyword \<longleftrightarrow>
     (let same = escalate_if_transient default_budget (classify_http_response BAD_GATEWAY ''upstream error'')
      in \<not> escalated same \<and> max_attempts same = 3)"

definition escalation_ignores_status_phrase_keywords :: bool where
  "escalation_ignores_status_phrase_keywords \<longleftrightarrow>
     (let same = escalate_if_transient default_budget (classify_http_response SERVICE_UNAVAILABLE ''internal error'')
      in \<not> escalated same \<and> max_attempts same = 3)"

text \<open>The library's text for the connection that the tests try.\<close>

definition escalation_skipped_for_keywordless_transport_error :: bool where
  "escalation_skipped_for_keywordless_transport_error \<longleftrightarrow>
     \<not> escalated (escalate_if_transient default_budget
        (classify_reqwest_error ''0.1'' (connect_error ''error sending request for url (http://127.0.0.1:1/)'')))"

text \<open>The delays of a series of failures, with the states reached; a delay is followed by an attempt.\<close>

fun delays :: "retry_state \<Rightarrow> stream_error list \<Rightarrow> (nat option \<times> bool) list" where
  "delays st [] = []"
| "delays st (e # es) =
     (case next_delay st e of (d, st1) \<Rightarrow> (d, escalated (budget st1)) # delays (advance st1) es)"

definition retry_state_default_budget_walkthrough :: bool where
  "retry_state_default_budget_walkthrough \<longleftrightarrow>
     (let e = classify_http_response BAD_GATEWAY ''boom''
      in map fst (delays retry_new [e, e, e]) = [Some 500, Some 1000, None])"

definition retry_state_resets_exponent_on_escalation :: bool where
  "retry_state_resets_exponent_on_escalation \<longleftrightarrow>
     (let benign = classify_http_response BAD_GATEWAY ''boom''; transient = classify_http_response BAD_GATEWAY ''model overloaded''
      in delays retry_new [benign, transient, transient, transient, transient]
           = [(Some 500, False), (Some 2000, True), (Some 4000, True), (Some 8000, True), (None, True)])"

definition retry_state_returns_none_on_fatal :: bool where
  "retry_state_returns_none_on_fatal \<longleftrightarrow> fst (next_delay retry_new (classify_http_response BAD_REQUEST ''nope'')) = None"

lemma keyword_tests: "keyword_match_is_case_insensitive" "keyword_miss_returns_false"
  by code_simp+

lemma body_keywords:
  "contains_transient_keyword ''model overloaded''" "\<not> contains_transient_keyword ''upstream error''"
  "\<not> contains_transient_keyword ''internal error''" "\<not> contains_transient_keyword ''boom''"
  by code_simp+

lemma haystack_of_response: "keyword_haystack (classify_http_response st body) = body"
  by (auto simp: keyword_haystack_def classify_http_response_def Let_def split: prod.splits)

lemma budget_tests:
  "budget_backoff_doubles" "escalation_happens_once_on_keyword" "escalation_skipped_without_keyword"
  "escalation_ignores_status_phrase_keywords"
  by (simp_all add: budget_backoff_doubles_def escalation_happens_once_on_keyword_def escalation_skipped_without_keyword_def
      escalation_ignores_status_phrase_keywords_def escalate_if_transient_def haystack_of_response body_keywords default_budget_def
      escalated_budget_def delay_for_def)

lemma transport_keyword_test: "escalation_skipped_for_keywordless_transport_error"
  by code_simp

lemma response_retryable: "is_retryable (classify_http_response BAD_GATEWAY body)" "\<not> is_retryable (classify_http_response BAD_REQUEST body)"
  by (simp_all add: classify_http_response_def BAD_GATEWAY_def BAD_REQUEST_def Let_def)

lemma retry_state_tests:
  "retry_state_default_budget_walkthrough" "retry_state_resets_exponent_on_escalation" "retry_state_returns_none_on_fatal"
  by (simp_all add: retry_state_default_budget_walkthrough_def retry_state_resets_exponent_on_escalation_def
      retry_state_returns_none_on_fatal_def next_delay_def escalate_if_transient_def haystack_of_response body_keywords
      response_retryable default_budget_def escalated_budget_def delay_for_def retry_new_def advance_def Let_def)

end
