(* ===== verification/Tests_Types.thy ===== *)
theory Tests_Types
  imports Tests_Acp Tools
begin

text \<open>
  The unit tests of the data model (\<^verbatim>\<open>loop/src/llm/types.rs\<close>), of the arguments of tool calls
  (\<^verbatim>\<open>loop/src/llm/tool_args.rs\<close>) and of the types of the tool protocol
  (\<^verbatim>\<open>loop/src/mcp/types.rs\<close>) on the model. The decoders that the attributes on the types derive are
  written out over JSON values.
\<close>

subsection \<open>Decoders\<close>

definition tool_call_decode :: "json \<Rightarrow> tool_call option" where
  "tool_call_decode v =
     Option.bind (Option.bind (json_get ''id'' v) as_str) (\<lambda>i.
     Option.bind (Option.bind (json_get ''type'' v) as_str) (\<lambda>t.
     Option.bind (json_get ''function'' v) (\<lambda>f.
     Option.bind (Option.bind (json_get ''name'' f) as_str) (\<lambda>n.
     Option.bind (Option.bind (json_get ''arguments'' f) as_str) (\<lambda>a.
       Some \<lparr>tc_id = i, tc_type = t, tc_function = \<lparr>fc_name = n, fc_arguments = a\<rparr>\<rparr>)))))"

definition message_decode :: "(json \<Rightarrow> content_block option) \<Rightarrow> json \<Rightarrow> message option" where
  "message_decode decode v =
     Option.bind (Option.bind (Option.bind (json_get ''role'' v) as_str) role_decode) (\<lambda>r.
     Option.bind (read_optional ''content'' (content_decode decode) v) (\<lambda>c.
     Option.bind (read_optional ''tool_calls'' (\<lambda>a. Option.bind (as_array a) (\<lambda>vs. those (map tool_call_decode vs))) v) (\<lambda>cs.
     Option.bind (read_optional ''tool_call_id'' as_str v) (\<lambda>i.
       Some \<lparr>m_role = r, m_content = c, m_tool_calls = cs, m_tool_call_id = i\<rparr>))))"

text \<open>A count that may be absent, a cost, and the nested count of cached tokens.\<close>

definition count_field :: "string \<Rightarrow> json \<Rightarrow> u64 option" where
  "count_field k v = (case json_get k v of None \<Rightarrow> Some 0 | Some n \<Rightarrow> as_u64 n)"

definition cost_field :: "json \<Rightarrow> f64 option" where
  "cost_field v = (case json_get ''cost'' v of None \<Rightarrow> Some 0 | Some (JNumber (Float x)) \<Rightarrow> Some x | Some _ \<Rightarrow> None)"

definition raw_usage_decode :: "json \<Rightarrow> raw_usage option" where
  "raw_usage_decode v =
     Option.bind (count_field ''prompt_tokens'' v) (\<lambda>p.
     Option.bind (count_field ''completion_tokens'' v) (\<lambda>c.
     Option.bind (count_field ''total_tokens'' v) (\<lambda>t.
     Option.bind (cost_field v) (\<lambda>x.
     Option.bind (count_field ''cache_read_input_tokens'' v) (\<lambda>r.
     Option.bind (count_field ''cache_creation_input_tokens'' v) (\<lambda>w.
     Option.bind (read_optional ''prompt_tokens_details'' (count_field ''cached_tokens'') v) (\<lambda>d.
       Some \<lparr>raw_prompt_tokens = p, raw_completion_tokens = c, raw_total_tokens = t, raw_cost = x,
         cache_read_input_tokens = r, cache_creation_input_tokens = w, prompt_tokens_details = d\<rparr>)))))))"

definition usage_decode :: "json \<Rightarrow> usage option" where
  "usage_decode v = map_option usage_of_raw (raw_usage_decode v)"

definition mcp_content_decode :: "json \<Rightarrow> mcp_content option" where
  "mcp_content_decode v =
     (case Option.bind (json_get ''type'' v) as_str of
        None \<Rightarrow> None
      | Some k \<Rightarrow>
          if k = ''text'' then map_option McpText (Option.bind (json_get ''text'' v) as_str)
          else if k = ''image'' then
            Option.bind (Option.bind (json_get ''data'' v) as_str) (\<lambda>d.
            Option.bind (Option.bind (json_get ''mimeType'' v) as_str) (\<lambda>m. Some (McpImage d m)))
          else if k = ''resource'' then map_option McpResource (json_get ''resource'' v)
          else None)"

definition mcp_tool_result_decode :: "json \<Rightarrow> mcp_tool_result option" where
  "mcp_tool_result_decode v =
     Option.bind (Option.bind (json_get ''content'' v) as_array) (\<lambda>vs.
     Option.bind (those (map mcp_content_decode vs)) (\<lambda>cs.
     Option.bind (case json_get ''isError'' v of None \<Rightarrow> Some False | Some b \<Rightarrow> as_bool b) (\<lambda>e.
       Some \<lparr>mcp_contents = cs, mcp_is_error = e\<rparr>)))"

definition mcp_tool_def_decode :: "json \<Rightarrow> mcp_tool_def option" where
  "mcp_tool_def_decode v =
     Option.bind (Option.bind (json_get ''name'' v) as_str) (\<lambda>n.
     Option.bind (read_optional ''description'' as_str v) (\<lambda>d.
     Option.bind (json_get ''inputSchema'' v) (\<lambda>s. Some \<lparr>mcp_name = n, mcp_description = d, mcp_input_schema = s\<rparr>)))"

definition mcp_tool_list_decode :: "json \<Rightarrow> mcp_tool_def list option" where
  "mcp_tool_list_decode v =
     Option.bind (Option.bind (json_get ''tools'' v) as_array) (\<lambda>vs. those (map mcp_tool_def_decode vs))"

subsection \<open>Messages and content\<close>

lemma tool_call_decode_encode: "tool_call_decode (tool_call_encode c) = Some c"
  by (simp add: tool_call_decode_def tool_call_encode_def)

lemma tool_calls_decode_encode: "those (map (tool_call_decode \<circ> tool_call_encode) cs) = Some cs"
  by (induction cs) (simp_all add: tool_call_decode_encode)

text \<open>
  A message is read back as it was written, whatever optional parts it has, when the blocks of its content
  are: blocks of known types, and unknown ones that the decoder does not take for known.
\<close>

definition blocks_stable :: "(json \<Rightarrow> content_block option) \<Rightarrow> message \<Rightarrow> bool" where
  "blocks_stable decode m \<longleftrightarrow>
     (case m_content m of
        Some (CBlocks bs) \<Rightarrow> list_all (\<lambda>b. case b of Known _ \<Rightarrow> True | Unknown v \<Rightarrow> decode v = None) bs
      | _ \<Rightarrow> True)"

lemma blocks_decode_encode:
  assumes "block_decode_laws decode"
    and "list_all (\<lambda>b. case b of Known _ \<Rightarrow> True | Unknown v \<Rightarrow> decode v = None) bs"
  shows "map (typed_block_decode decode \<circ> typed_block_encode) bs = bs"
  using assms by (induction bs) (auto simp: typed_block_decode_def block_decode_laws_def split: typed_block.splits)

lemma content_decode_encode:
  assumes "block_decode_laws decode" and "blocks_stable decode m" and "m_content m = Some c"
  shows "content_decode decode (content_encode c) = Some c" and "content_encode c \<noteq> JNull"
  using assms by (cases c; simp add: blocks_stable_def blocks_decode_encode)+

lemma message_decode_encode:
  assumes "block_decode_laws decode" and "blocks_stable decode m"
  shows "message_decode decode (message_encode m) = Some m"
proof -
  have c: "read_optional ''content'' (content_decode decode) (message_encode m) = Some (m_content m)"
    using content_decode_encode [OF assms]
    by (cases "m_content m"; cases "m_tool_calls m"; cases "m_tool_call_id m")
      (auto simp: read_optional_def message_encode_def split: json.splits)
  have t: "read_optional ''tool_calls'' (\<lambda>a. Option.bind (as_array a) (\<lambda>vs. those (map tool_call_decode vs))) (message_encode m)
      = Some (m_tool_calls m)"
    by (cases "m_content m"; cases "m_tool_calls m"; cases "m_tool_call_id m")
      (simp_all add: read_optional_def message_encode_def tool_calls_decode_encode)
  have i: "read_optional ''tool_call_id'' as_str (message_encode m) = Some (m_tool_call_id m)"
    by (cases "m_content m"; cases "m_tool_calls m"; cases "m_tool_call_id m")
      (simp_all add: read_optional_def message_encode_def)
  have "json_get ''role'' (message_encode m) = Some (JString (role_encode (m_role m)))"
    by (simp add: message_encode_def)
  with c t i show ?thesis by (simp add: message_decode_def)
qed

definition test_role_serde :: bool where
  "test_role_serde \<longleftrightarrow>
     list_all (\<lambda>(r, expected). role_encode r = expected \<and> role_decode (role_encode r) = Some r)
       [(RSystem, ''system''), (RUser, ''user''), (RAssistant, ''assistant''), (RTool, ''tool'')]"

definition test_message_roundtrip :: "serde \<Rightarrow> bool" where
  "test_message_roundtrip S \<longleftrightarrow>
     (let m = \<lparr>m_role = RAssistant, m_content = Some (CText ''hello''),
            m_tool_calls = Some [\<lparr>tc_id = ''tc1'', tc_type = ''function'', tc_function = \<lparr>fc_name = ''foo'', fc_arguments = ''{}''\<rparr>\<rparr>],
            m_tool_call_id = None\<rparr>
      in case Option.bind (parse_json S (print_json S (message_encode m))) (message_decode demo_block_decode) of
           Some b \<Rightarrow> m_role b = RAssistant \<and> m_content b \<noteq> None
             \<and> (case m_tool_calls b of Some cs \<Rightarrow> length cs = 1 | None \<Rightarrow> False)
         | None \<Rightarrow> False)"

definition image_at :: "string \<Rightarrow> typed_block" where
  "image_at url = Known (BImageUrl (JObject [(''url'', JString url)]))"

definition test_content_as_text :: bool where
  "test_content_as_text \<longleftrightarrow>
     content_as_text (CText ''hi'') = Some ''hi'' \<and> content_as_text (CBlocks [Known (BText ''b'')]) = None"

definition test_content_extract_text :: bool where
  "test_content_extract_text \<longleftrightarrow>
     extract_text (CText ''hi'') = Some ''hi''
     \<and> extract_text (CBlocks [Known (BText ''a''), image_at ''https://x/y.png'', Known (BText ''b'')]) = Some (''a'' @ newline @ ''b'')
     \<and> extract_text (CBlocks [image_at ''https://x/y.png'']) = None"

definition test_content_estimate_tokens :: bool where
  "test_content_estimate_tokens \<longleftrightarrow>
     content_estimate_tokens (CText (replicate 100 (CHR ''a''))) = 25
     \<and> content_estimate_tokens (CBlocks [Known (BText (replicate 40 (CHR ''a''))), image_at ''https://x/y.png'']) = 775"

definition test_typed_block_as_text :: bool where
  "test_typed_block_as_text \<longleftrightarrow>
     block_as_text (Known (BText ''hi'')) = Some ''hi'' \<and> block_as_text (image_at ''x'') = None \<and> is_media (image_at ''x'')
     \<and> \<not> is_media (Known (BText ''hi''))"

definition test_unknown_block_deser_preserves_data_on_roundtrip :: bool where
  "test_unknown_block_deser_preserves_data_on_roundtrip \<longleftrightarrow>
     (let original = JObject [(''type'', JString ''hologram''), (''data'', JString ''xyz'')];
          block = typed_block_decode demo_block_decode original
      in (case block of Unknown _ \<Rightarrow> True | _ \<Rightarrow> False) \<and> \<not> is_media block \<and> block_estimate_tokens block = 0
         \<and> block_as_text block = None \<and> typed_block_encode block = original)"

definition test_image_block_deser :: bool where
  "test_image_block_deser \<longleftrightarrow>
     (let block = typed_block_decode demo_block_decode (JObject [(''type'', JString ''image''),
            (''source'', JObject [(''type'', JString ''base64''), (''media_type'', JString ''image/png''), (''data'', JString ''abc'')])])
      in (case block of Known (BImage _) \<Rightarrow> True | _ \<Rightarrow> False) \<and> is_media block \<and> block_estimate_tokens block = 765)"

definition test_input_audio_block_deser :: bool where
  "test_input_audio_block_deser \<longleftrightarrow>
     (let block = typed_block_decode demo_block_decode (JObject [(''type'', JString ''input_audio''),
            (''input_audio'', JObject [(''data'', JString ''base64audio''), (''format'', JString ''wav'')])])
      in (case block of Known (BInputAudio _) \<Rightarrow> True | _ \<Rightarrow> False) \<and> is_media block \<and> block_estimate_tokens block = 0)"

definition test_content_blocks_with_unknown_roundtrip :: bool where
  "test_content_blocks_with_unknown_roundtrip \<longleftrightarrow>
     (let original = JArray [text_block ''hello'', JObject [(''type'', JString ''future_type''),
            (''payload'', JArray [JNumber (PosInt 1), JNumber (PosInt 2), JNumber (PosInt 3)])]]
      in case content_decode demo_block_decode original of
           Some (CBlocks bs) \<Rightarrow> (case bs of [b0, b1] \<Rightarrow> block_as_text b0 = Some ''hello'' \<and> (case b1 of Unknown _ \<Rightarrow> True | _ \<Rightarrow> False)
               | _ \<Rightarrow> False) \<and> content_encode (CBlocks bs) = original
         | _ \<Rightarrow> False)"

definition test_stop_reason_deser :: bool where
  "test_stop_reason_deser \<longleftrightarrow>
     list_all (\<lambda>(s, expected). stop_reason_decode s = Some expected)
       [(''stop'', Stop), (''tool_calls'', ToolCalls), (''length'', Length), (''content_filter'', ContentFilter)]"

lemma content_tests:
  "test_role_serde" "test_content_as_text" "test_content_extract_text" "test_content_estimate_tokens" "test_typed_block_as_text"
  by (simp_all add: test_role_serde_def test_content_as_text_def test_content_extract_text_def test_content_estimate_tokens_def
      test_typed_block_as_text_def image_at_def List.map_filter_def)

lemma block_tests:
  "test_unknown_block_deser_preserves_data_on_roundtrip" "test_image_block_deser" "test_input_audio_block_deser"
  "test_content_blocks_with_unknown_roundtrip" "test_stop_reason_deser"
  by (simp_all add: test_unknown_block_deser_preserves_data_on_roundtrip_def test_image_block_deser_def
      test_input_audio_block_deser_def test_content_blocks_with_unknown_roundtrip_def test_stop_reason_deser_def
      typed_block_decode_def demo_block_decode_def text_block_def stop_reason_decode_def Let_def)

lemma message_roundtrip_test:
  assumes "reads_back S"
  shows "test_message_roundtrip S"
  using assms
  by (simp add: test_message_roundtrip_def reads_back_plain message_decode_encode [OF demo_block_decode_laws] blocks_stable_def)
    (simp add: message_encode_def tool_call_encode_def reads_back_plain message_decode_def read_optional_def role_decode_def
      tool_call_decode_def)

subsection \<open>Usage\<close>

definition tokens :: "nat \<Rightarrow> json" where "tokens n = JNumber (PosInt (of_nat n))"

definition usage_json :: "nat \<Rightarrow> nat \<Rightarrow> (string \<times> json) list \<Rightarrow> json" where
  "usage_json p c kvs = JObject ([(''prompt_tokens'', tokens p), (''completion_tokens'', tokens c)] @ kvs)"

definition reads_usage :: "json \<Rightarrow> (usage \<Rightarrow> bool) \<Rightarrow> bool" where
  "reads_usage v P \<longleftrightarrow> (case usage_decode v of Some u \<Rightarrow> P u | None \<Rightarrow> False)"

definition test_usage_deser :: bool where
  "test_usage_deser \<longleftrightarrow>
     reads_usage (usage_json 10 5 [(''total_tokens'', tokens 15)]) (\<lambda>u. total_tokens u = 15)
     \<and> reads_usage (usage_json 10 5 []) (\<lambda>u. total_tokens u = 0)"

definition usage_deser_cost_and_cache_absent :: bool where
  "usage_deser_cost_and_cache_absent \<longleftrightarrow>
     reads_usage (usage_json 10 5 []) (\<lambda>u. cost u = 0 \<and> cache_read_tokens u = 0 \<and> cache_creation_tokens u = 0)"

text \<open>\<open>x\<close> is the cost of the test, 0.0123, as a double.\<close>

definition usage_deser_anthropic_flat_cache :: "f64 \<Rightarrow> bool" where
  "usage_deser_anthropic_flat_cache x \<longleftrightarrow>
     reads_usage (usage_json 100 20 [(''cost'', JNumber (Float x)), (''cache_read_input_tokens'', tokens 80),
         (''cache_creation_input_tokens'', tokens 30)])
       (\<lambda>u. cost u = x \<and> cache_read_tokens u = 80 \<and> cache_creation_tokens u = 30)"

definition usage_deser_openai_nested_cache :: bool where
  "usage_deser_openai_nested_cache \<longleftrightarrow>
     reads_usage (usage_json 100 20 [(''prompt_tokens_details'', JObject [(''cached_tokens'', tokens 42)])])
       (\<lambda>u. cache_read_tokens u = 42 \<and> cache_creation_tokens u = 0)"

definition usage_deser_both_shapes_picks_max :: bool where
  "usage_deser_both_shapes_picks_max \<longleftrightarrow>
     (let nested = (''prompt_tokens_details'', JObject [(''cached_tokens'', tokens 50)])
      in reads_usage (usage_json 100 20 [(''cache_read_input_tokens'', tokens 10), nested]) (\<lambda>u. cache_read_tokens u = 50)
         \<and> reads_usage (usage_json 100 20 [(''cache_read_input_tokens'', tokens 77), nested]) (\<lambda>u. cache_read_tokens u = 77))"

lemma usage_tests:
  "test_usage_deser" "usage_deser_cost_and_cache_absent" "usage_deser_anthropic_flat_cache x" "usage_deser_openai_nested_cache"
  "usage_deser_both_shapes_picks_max"
  by (simp_all add: test_usage_deser_def usage_deser_cost_and_cache_absent_def usage_deser_anthropic_flat_cache_def
      usage_deser_openai_nested_cache_def usage_deser_both_shapes_picks_max_def reads_usage_def usage_json_def tokens_def
      usage_decode_def raw_usage_decode_def count_field_def cost_field_def read_optional_def usage_of_raw_def Let_def)

subsection \<open>Arguments of tool calls\<close>

text \<open>The texts of the tests, as the parser of the JSON library takes them.\<close>

definition raw_head :: string where
  "raw_head = CHR 0x7B # CHR 0x22 # ''path'' @ CHR 0x22 # '': '' @ CHR 0x22 # ''/workspace/test.txt'' @ CHR 0x22 # '', '' @ CHR 0x22 # ''content'' @ CHR 0x22 # '': ''"

definition parse_valid_json :: "(string \<Rightarrow> (json, string \<times> bool) result) \<Rightarrow> bool" where
  "parse_valid_json parse \<longleftrightarrow>
     (case parse_tool_arguments parse ''write'' (raw_head @ CHR 0x22 # ''hello'' @ [CHR 0x22, CHR 0x7D]) of
        ParsedOk v \<Rightarrow> json_get ''path'' v = Some (JString ''/workspace/test.txt'') | _ \<Rightarrow> False)"

definition parse_truncated_json :: "(string \<Rightarrow> (json, string \<times> bool) result) \<Rightarrow> bool" where
  "parse_truncated_json parse \<longleftrightarrow>
     (let raw = raw_head @ CHR 0x22 # ''hello worl''
      in case parse_tool_arguments parse ''write'' raw of
           ParsedFailed n msg \<Rightarrow> n = length raw \<and> str_contains msg ''truncated'' \<and> str_contains msg ''write''
             \<and> str_contains msg ''edit to append''
         | _ \<Rightarrow> False)"

definition parse_empty_string :: "(string \<Rightarrow> (json, string \<times> bool) result) \<Rightarrow> bool" where
  "parse_empty_string parse \<longleftrightarrow> (case parse_tool_arguments parse ''exec'' [] of ParsedFailed _ _ \<Rightarrow> True | _ \<Rightarrow> False)"

definition not_quoted :: string where
  "not_quoted = CHR 0x7B # CHR 0x22 # ''path'' @ CHR 0x22 # '': '' @ CHR 0x22 # ''a'' @ CHR 0x22 # '', '' @ CHR 0x22 # ''content'' @ CHR 0x22 # '': not_quoted'' @ [CHR 0x7D]"

definition parse_syntax_error_not_truncation :: "(string \<Rightarrow> (json, string \<times> bool) result) \<Rightarrow> bool" where
  "parse_syntax_error_not_truncation parse \<longleftrightarrow>
     (case parse_tool_arguments parse ''write'' not_quoted of
        ParsedFailed _ msg \<Rightarrow> \<not> str_contains msg ''truncated'' \<and> str_contains msg ''failed to parse as JSON''
      | _ \<Rightarrow> False)"

definition truncation_tip_write :: bool where "truncation_tip_write \<longleftrightarrow> str_contains (truncation_tip ''write'') ''edit to append''"

definition truncation_tip_edit :: bool where "truncation_tip_edit \<longleftrightarrow> str_contains (truncation_tip ''edit'') ''smaller edit calls''"

definition truncation_tip_other :: bool where "truncation_tip_other \<longleftrightarrow> str_contains (truncation_tip ''exec'') ''reduce the size''"

text \<open>What the parser makes of the texts of the tests.\<close>

definition parses_test_texts :: "(string \<Rightarrow> (json, string \<times> bool) result) \<Rightarrow> bool" where
  "parses_test_texts parse \<longleftrightarrow>
     parse (raw_head @ CHR 0x22 # ''hello'' @ [CHR 0x22, CHR 0x7D])
       = Ok (JObject [(''path'', JString ''/workspace/test.txt''), (''content'', JString ''hello'')])
     \<and> (\<exists>msg. parse (raw_head @ CHR 0x22 # ''hello worl'') = Err (msg, True))
     \<and> (\<exists>msg. parse [] = Err (msg, True))
     \<and> parse not_quoted = Err (''expected ident at line 1 column 27'', False)"

lemma tip_tests: "truncation_tip_write" "truncation_tip_edit" "truncation_tip_other"
  by (simp_all add: truncation_tip_write_def truncation_tip_edit_def truncation_tip_other_def truncation_tip_def)

lemma parse_tests:
  assumes "parses_test_texts parse"
  shows "parse_valid_json parse" "parse_truncated_json parse" "parse_empty_string parse"
proof -
  from assms obtain m1 m2 where p:
    "parse (raw_head @ CHR 0x22 # ''hello'' @ [CHR 0x22, CHR 0x7D])
       = Ok (JObject [(''path'', JString ''/workspace/test.txt''), (''content'', JString ''hello'')])"
    "parse (raw_head @ CHR 0x22 # ''hello worl'') = Err (m1, True)" "parse [] = Err (m2, True)"
    unfolding parses_test_texts_def by blast
  show "parse_valid_json parse"
    unfolding parse_valid_json_def parse_tool_arguments_def p by simp
  show "parse_empty_string parse"
    unfolding parse_empty_string_def parse_tool_arguments_def p by simp
  have s: "str_contains (show_nat k @ ys) x" if "str_contains ys x" for k ys x
    using that by (simp add: str_contains_sublist sublist_append)
  show "parse_truncated_json parse"
    unfolding parse_truncated_json_def parse_tool_arguments_def Let_def p
    by (simp add: truncation_tip_def newline_def s)
qed

lemma syntax_error_test:
  assumes "parses_test_texts parse"
  shows "parse_syntax_error_not_truncation parse"
proof -
  have "parse not_quoted = Err (''expected ident at line 1 column 27'', False)"
    using assms by (simp add: parses_test_texts_def)
  moreover have "show_nat (length not_quoted) = ''36''"
    by code_simp
  ultimately show ?thesis
    by (simp add: parse_syntax_error_not_truncation_def parse_tool_arguments_def truncation_tip_def newline_def)
qed

subsection \<open>The tool protocol\<close>

definition test_mcp_content_as_text :: bool where
  "test_mcp_content_as_text \<longleftrightarrow>
     mcp_content_as_text (McpText ''hi'') = Some ''hi'' \<and> mcp_content_as_text (McpImage ''abc'' ''image/png'') = None"

definition test_mcp_image_content_deser_camel_case :: bool where
  "test_mcp_image_content_deser_camel_case \<longleftrightarrow>
     mcp_content_decode (JObject [(''type'', JString ''image''), (''data'', JString ''iVBORw0KGgo=''), (''mimeType'', JString ''image/png'')])
       = Some (McpImage ''iVBORw0KGgo='' ''image/png'')"

definition test_tool_result_deser :: bool where
  "test_tool_result_deser \<longleftrightarrow>
     (case mcp_tool_result_decode (JObject [(''content'', JArray [text_block ''ok'']), (''isError'', JBool True)]) of
        Some r \<Rightarrow> mcp_is_error r \<and> length (mcp_contents r) = 1 | None \<Rightarrow> False)"

definition test_tool_list_deser :: bool where
  "test_tool_list_deser \<longleftrightarrow>
     (case mcp_tool_list_decode (JObject [(''tools'', JArray [JObject [(''name'', JString ''read''),
         (''description'', JString ''Read a file''), (''inputSchema'', JObject [(''type'', JString ''object'')])]])]) of
        Some [t] \<Rightarrow> mcp_name t = ''read'' | _ \<Rightarrow> False)"

text \<open>The test looks for the name of the field in the printed request; the model, in the value that is printed.\<close>

definition test_request_skip_none_params :: bool where
  "test_request_skip_none_params \<longleftrightarrow> json_get ''params'' (mcp_request 1 ''tools/list'' None) = None"

lemma mcp_type_tests:
  "test_mcp_content_as_text" "test_mcp_image_content_deser_camel_case" "test_tool_result_deser" "test_tool_list_deser"
  "test_request_skip_none_params"
  by (simp_all add: test_mcp_content_as_text_def test_mcp_image_content_deser_camel_case_def test_tool_result_deser_def
      test_tool_list_deser_def test_request_skip_none_params_def mcp_content_decode_def mcp_tool_result_decode_def
      mcp_tool_list_decode_def mcp_tool_def_decode_def read_optional_def mcp_request_def text_block_def)

end
