(* ===== verification/Tests_Loop.thy ===== *)
theory Tests_Loop
  imports Tests_Types Tests_Llm Agentic_Loop
begin

text \<open>
  The unit tests of the agent's loop on the model: compaction (\<^verbatim>\<open>loop/src/compaction.rs\<close>), the tool
  registry (\<^verbatim>\<open>loop/src/tools/registry.rs\<close>), the results of tools
  (\<^verbatim>\<open>loop/src/agentic_loop.rs\<close>) and the snapshot for a trace
  (\<^verbatim>\<open>loop/src/observability/preview.rs\<close>).
\<close>

subsection \<open>Compaction\<close>

definition user_says :: "string \<Rightarrow> message" where "user_says t = plain_message RUser t"

definition assistant_text :: "string \<Rightarrow> message" where "assistant_text t = plain_message RAssistant t"

definition assistant_tools :: "string list \<Rightarrow> message" where
  "assistant_tools ids =
     \<lparr>m_role = RAssistant, m_content = None,
      m_tool_calls = Some (map (\<lambda>i. \<lparr>tc_id = i, tc_type = ''function'', tc_function = \<lparr>fc_name = ''f'', fc_arguments = ''{}''\<rparr>\<rparr>) ids),
      m_tool_call_id = None\<rparr>"

definition result_of :: "string \<Rightarrow> message" where
  "result_of i =
     \<lparr>m_role = RTool, m_content = Some (CText (''result-'' @ i)), m_tool_calls = None, m_tool_call_id = Some i\<rparr>"

definition test_estimate_tokens_empty :: bool where "test_estimate_tokens_empty \<longleftrightarrow> estimate_tokens [] = 0"

definition test_estimate_tokens_text :: bool where
  "test_estimate_tokens_text \<longleftrightarrow> estimate_tokens [user_says (replicate 100 (CHR ''a''))] = 25"

definition test_estimate_tokens_no_content :: bool where
  "test_estimate_tokens_no_content \<longleftrightarrow>
     estimate_tokens [\<lparr>m_role = RAssistant, m_content = None, m_tool_calls = None, m_tool_call_id = None\<rparr>] = 0"

definition test_safe_split_no_tool_calls :: bool where
  "test_safe_split_no_tool_calls \<longleftrightarrow>
     (let msgs = [user_says ''q1'', assistant_text ''a1'', user_says ''q2'', assistant_text ''a2'', user_says ''q3'', assistant_text ''a3'']
      in find_safe_split msgs 0 3 = 3 \<and> find_safe_split msgs 0 5 = 5)"

definition test_safe_split_walks_past_tool_pair :: bool where
  "test_safe_split_walks_past_tool_pair \<longleftrightarrow>
     (let msgs = [user_says ''q'', assistant_tools [''a''], result_of ''a'', assistant_text ''done'']
      in find_safe_split msgs 0 2 = 1 \<and> find_safe_split msgs 0 3 = 3)"

definition test_safe_split_multi_tool_chain :: bool where
  "test_safe_split_multi_tool_chain \<longleftrightarrow>
     (let msgs = [user_says ''q'', assistant_tools [''a'', ''b''], result_of ''a'', result_of ''b'', assistant_text ''done'']
      in find_safe_split msgs 0 3 = 1 \<and> find_safe_split msgs 0 4 = 4)"

definition test_safe_split_respects_start :: bool where
  "test_safe_split_respects_start \<longleftrightarrow>
     find_safe_split [plain_message RSystem ''sys'', assistant_tools [''a''], result_of ''a''] 1 2 = 1"

definition test_safe_split_earlier_pair_unaffected :: bool where
  "test_safe_split_earlier_pair_unaffected \<longleftrightarrow>
     find_safe_split [user_says ''q1'', assistant_tools [''a''], result_of ''a'', user_says ''q2'', assistant_text ''a2''] 0 4 = 4"

definition test_estimate_tokens_with_image_blocks :: bool where
  "test_estimate_tokens_with_image_blocks \<longleftrightarrow>
     estimate_tokens [\<lparr>m_role = RUser,
       m_content = Some (CBlocks [Known (BText (replicate 40 (CHR ''a''))), image_at ''https://x/y.png'']),
       m_tool_calls = None, m_tool_call_id = None\<rparr>] = 775"

lemma estimate_tests:
  "test_estimate_tokens_empty" "test_estimate_tokens_text" "test_estimate_tokens_no_content" "test_estimate_tokens_with_image_blocks"
  by (simp_all add: test_estimate_tokens_empty_def test_estimate_tokens_text_def test_estimate_tokens_no_content_def
      test_estimate_tokens_with_image_blocks_def estimate_tokens_def user_says_def plain_message_def image_at_def List.map_filter_def)

lemma split_tests:
  "test_safe_split_no_tool_calls" "test_safe_split_walks_past_tool_pair" "test_safe_split_multi_tool_chain"
  "test_safe_split_respects_start" "test_safe_split_earlier_pair_unaffected"
  by (simp_all add: test_safe_split_no_tool_calls_def test_safe_split_walks_past_tool_pair_def test_safe_split_multi_tool_chain_def
      test_safe_split_respects_start_def test_safe_split_earlier_pair_unaffected_def find_safe_split_def has_straddling_pair_def
      slice_def unanswered_step_def user_says_def assistant_text_def assistant_tools_def result_of_def plain_message_def numeral_eq_Suc)

subsection \<open>The tool registry\<close>

definition broker_tools :: "(string \<times> json) list list \<Rightarrow> json" where
  "broker_tools ts = JObject [(''tools'', JArray (map JObject ts))]"

definition parse_acp_tools_extracts_tools_from_broker_response :: bool where
  "parse_acp_tools_extracts_tools_from_broker_response \<longleftrightarrow>
     (case parse_acp_tools (broker_tools
         [[(''name'', JString ''get_weather''), (''description'', JString ''Get the weather''),
           (''inputSchema'', JObject [(''type'', JString ''object''),
              (''properties'', JObject [(''city'', JObject [(''type'', JString ''string'')])]), (''required'', JArray [JString ''city''])])],
          [(''name'', JString ''search''), (''description'', JString ''Search the web'')]]) of
        [t0, t1] \<Rightarrow> def_name t0 = ''get_weather'' \<and> fd_description (td_function t0) = ''Get the weather''
          \<and> json_get ''type'' (fd_parameters (td_function t0)) = Some (JString ''object'') \<and> def_name t1 = ''search''
          \<and> json_get ''type'' (fd_parameters (td_function t1)) = Some (JString ''object'')
      | _ \<Rightarrow> False)"

definition parse_acp_tools_returns_empty_on_missing_tools_key :: bool where
  "parse_acp_tools_returns_empty_on_missing_tools_key \<longleftrightarrow>
     parse_acp_tools (JObject []) = [] \<and> parse_acp_tools (JObject [(''tools'', JString ''not_array'')]) = []"

definition parse_acp_tools_skips_entries_without_name :: bool where
  "parse_acp_tools_skips_entries_without_name \<longleftrightarrow>
     map def_name (parse_acp_tools (broker_tools [[(''description'', JString ''no name'')], [(''name'', JString ''ok'')]])) = [''ok'']"

definition parse_acp_tools_defaults_description :: bool where
  "parse_acp_tools_defaults_description \<longleftrightarrow>
     (case parse_acp_tools (broker_tools [[(''name'', JString ''bare'')]]) of
        t # _ \<Rightarrow> fd_description (td_function t) = ''ACP tool'' | [] \<Rightarrow> False)"

definition offered :: "string \<Rightarrow> tool_definition list" where
  "offered n = parse_acp_tools (broker_tools [[(''name'', JString n)]])"

definition described :: "string \<Rightarrow> string \<Rightarrow> tool_definition list" where
  "described n d = parse_acp_tools (broker_tools [[(''name'', JString n), (''description'', JString d)]])"

definition set_acp_tools_populates_registry :: "'s os \<Rightarrow> bool" where
  "set_acp_tools_populates_registry os \<longleftrightarrow>
     (let reg = set_acp_tools (described ''get_weather'' ''Weather'') (tools_new os)
      in \<not> is_acp_tool (tools_new os) ''get_weather'' \<and> is_acp_tool reg ''get_weather'' \<and> \<not> is_acp_tool reg ''nonexistent'')"

definition definitions_include_acp_tools :: "'s os \<Rightarrow> bool" where
  "definitions_include_acp_tools os \<longleftrightarrow>
     (let defs = definitions (set_acp_tools (described ''remote_tool'' ''Remote'') (tools_new os))
      in length defs = length (definitions (tools_new os)) + 1 \<and> list_ex (\<lambda>d. def_name d = ''remote_tool'') defs)"

definition set_acp_tools_replaces_previous :: "'s os \<Rightarrow> bool" where
  "set_acp_tools_replaces_previous os \<longleftrightarrow>
     (let reg1 = set_acp_tools (offered ''old_tool'') (tools_new os); reg2 = set_acp_tools (offered ''new_tool'') reg1
      in is_acp_tool reg1 ''old_tool'' \<and> \<not> is_acp_tool reg2 ''old_tool'' \<and> is_acp_tool reg2 ''new_tool'')"

definition acp_tool_shadows_builtin_in_definitions :: "'s os \<Rightarrow> bool" where
  "acp_tool_shadows_builtin_in_definitions os \<longleftrightarrow>
     (let builtin_count = length (definitions (tools_new os));
          defs = definitions (set_acp_tools (described ''read'' ''ACP read override'') (tools_new os))
      in 0 < builtin_count \<and> length defs = builtin_count
         \<and> (case find (\<lambda>d. def_name d = ''read'') defs of
              Some d \<Rightarrow> fd_description (td_function d) = ''ACP read override'' | None \<Rightarrow> False))"

lemmas acp_tool_defs = parse_acp_tools_def parse_acp_tool_def broker_tools_def List.map_filter_def def_name_def offered_def
  described_def set_acp_tools_def is_acp_tool_def

lemma acp_tools_tests:
  "parse_acp_tools_extracts_tools_from_broker_response" "parse_acp_tools_returns_empty_on_missing_tools_key"
  "parse_acp_tools_skips_entries_without_name" "parse_acp_tools_defaults_description"
  by (simp_all add: parse_acp_tools_extracts_tools_from_broker_response_def parse_acp_tools_returns_empty_on_missing_tools_key_def
      parse_acp_tools_skips_entries_without_name_def parse_acp_tools_defaults_description_def acp_tool_defs)

lemma registry_acp_tests: "set_acp_tools_populates_registry os" "set_acp_tools_replaces_previous os"
  by (simp_all add: set_acp_tools_populates_registry_def set_acp_tools_replaces_previous_def acp_tool_defs tools_new_def
      register_builtins_def register_tool_def Let_def)

lemma registry_definition_tests: "definitions_include_acp_tools os" "acp_tool_shadows_builtin_in_definitions os"
  by (simp_all add: definitions_include_acp_tools_def acp_tool_shadows_builtin_in_definitions_def acp_tool_defs definitions_def
      tools_new_def register_builtins_def register_tool_def Let_def)

subsection \<open>Results of tools\<close>

definition tool_output_text_converts_to_content_text :: bool where
  "tool_output_text_converts_to_content_text \<longleftrightarrow> tool_output_to_content (OText ''hello'') = CText ''hello''"

definition tool_output_blocks_text_only :: bool where
  "tool_output_blocks_text_only \<longleftrightarrow>
     (case tool_output_to_content (OBlocks [TText ''line 1'', TText ''line 2'']) of
        CBlocks bs \<Rightarrow> map block_as_text bs = [Some ''line 1'', Some ''line 2''] | _ \<Rightarrow> False)"

definition tool_output_blocks_with_image_produces_data_uri :: bool where
  "tool_output_blocks_with_image_produces_data_uri \<longleftrightarrow>
     (case tool_output_to_content (OBlocks [TText ''screenshot:'', TImageBase64 ''abc123'' ''image/png'']) of
        CBlocks [b0, Known (BImageUrl v)] \<Rightarrow>
          block_as_text b0 = Some ''screenshot:'' \<and> json_get ''url'' v = Some (JString ''data:image/png;base64,abc123'')
      | _ \<Rightarrow> False)"

definition tool_output_empty_blocks :: bool where
  "tool_output_empty_blocks \<longleftrightarrow> tool_output_to_content (OBlocks []) = CBlocks []"

definition extract_mcp_style_text_content :: "serde \<Rightarrow> bool" where
  "extract_mcp_style_text_content S \<longleftrightarrow>
     extract_acp_tool_result S (JObject [(''content'', JArray [text_block ''sunny, 22C'']), (''isError'', JBool False)])
       = Ok (OText ''sunny, 22C'')"

definition extract_mcp_style_error :: "serde \<Rightarrow> bool" where
  "extract_mcp_style_error S \<longleftrightarrow>
     extract_acp_tool_result S (JObject [(''content'', JArray [text_block ''city not found'']), (''isError'', JBool True)])
       = Err ''city not found''"

definition extract_multi_block_joins_text :: "serde \<Rightarrow> bool" where
  "extract_multi_block_joins_text S \<longleftrightarrow>
     extract_acp_tool_result S (JObject [(''content'', JArray [text_block ''line1'',
         JObject [(''type'', JString ''image''), (''data'', JString ''...'')], text_block ''line2''])])
       = Ok (OText (''line1'' @ newline @ ''line2''))"

definition gives_text :: "tool_result \<Rightarrow> string \<Rightarrow> bool" where
  "gives_text r s \<longleftrightarrow> (case r of Ok (OText t) \<Rightarrow> str_contains t s | _ \<Rightarrow> False)"

definition opaque_result :: json where "opaque_result = JObject [(''result'', JNumber (PosInt 42))]"

definition empty_content_result :: json where
  "empty_content_result = JObject [(''content'', JArray []), (''isError'', JBool False)]"

definition extract_fallback_stringifies_opaque_json :: "serde \<Rightarrow> bool" where
  "extract_fallback_stringifies_opaque_json S \<longleftrightarrow> gives_text (extract_acp_tool_result S opaque_result) ''42''"

definition extract_fallback_with_is_error :: "serde \<Rightarrow> bool" where
  "extract_fallback_with_is_error S \<longleftrightarrow>
     \<not> is_ok (extract_acp_tool_result S (JObject [(''detail'', JString ''bad''), (''isError'', JBool True)]))"

definition extract_empty_content_array_falls_back :: "serde \<Rightarrow> bool" where
  "extract_empty_content_array_falls_back S \<longleftrightarrow> gives_text (extract_acp_tool_result S empty_content_result) ''content''"

lemma tool_output_tests:
  "tool_output_text_converts_to_content_text" "tool_output_blocks_text_only" "tool_output_blocks_with_image_produces_data_uri"
  "tool_output_empty_blocks"
  by (simp_all add: tool_output_text_converts_to_content_text_def tool_output_blocks_text_only_def
      tool_output_blocks_with_image_produces_data_uri_def tool_output_empty_blocks_def tool_block_def)

lemma extract_tests:
  "extract_mcp_style_text_content S" "extract_mcp_style_error S" "extract_multi_block_joins_text S" "extract_fallback_with_is_error S"
  by (simp_all add: extract_mcp_style_text_content_def extract_mcp_style_error_def extract_multi_block_joins_text_def
      extract_fallback_with_is_error_def extract_acp_tool_result_def acp_result_text_def text_block_def List.map_filter_def Let_def)

text \<open>The fall-back prints the value; that a number and a key are in the text is the printer's.\<close>

lemma extract_fallback_tests:
  "str_contains (print_json S opaque_result) ''42'' \<Longrightarrow> extract_fallback_stringifies_opaque_json S"
  "str_contains (print_json S empty_content_result) ''content'' \<Longrightarrow> extract_empty_content_array_falls_back S"
  by (simp_all add: extract_fallback_stringifies_opaque_json_def extract_empty_content_array_falls_back_def gives_text_def
      extract_acp_tool_result_def acp_result_text_def List.map_filter_def Let_def)
    (simp_all add: opaque_result_def empty_content_result_def)

subsection \<open>The snapshot\<close>

definition msg_of :: "role_kind \<Rightarrow> string \<Rightarrow> message" where
  "msg_of r t = \<lparr>m_role = r, m_content = Some (CText t), m_tool_calls = None, m_tool_call_id = None\<rparr>"

definition tool_msg :: "string \<Rightarrow> string \<Rightarrow> message" where
  "tool_msg i t = \<lparr>m_role = RTool, m_content = Some (CText t), m_tool_calls = None, m_tool_call_id = Some i\<rparr>"

definition snapshot_text :: "message list \<Rightarrow> string" where
  "snapshot_text ms = unwrap_or [] (as_str (build_context_snapshot ms))"

definition cut_mark :: string where "cut_mark = [CHR 0xE2, CHR 0x80, CHR 0xA6] @ ''[truncated]''"

definition short_transcript_renders_every_message_past_system :: bool where
  "short_transcript_renders_every_message_past_system \<longleftrightarrow>
     (let s = snapshot_text [msg_of RSystem ''system prompt'', msg_of RUser ''hello'', msg_of RAssistant ''hi'']
      in \<not> str_contains s ''more messages'' \<and> str_contains s ''[USER]: hello'' \<and> str_contains s ''[AGENT]: hi''
         \<and> \<not> str_contains s ''[SYSTEM]: system prompt'')"

definition long_transcript_summarises_older_messages :: bool where
  "long_transcript_summarises_older_messages \<longleftrightarrow>
     (let s = snapshot_text (msg_of RSystem ''sys''
            # concat (map (\<lambda>i. [msg_of RUser (''u'' @ show_nat i), msg_of RAssistant (''a'' @ show_nat i)]) [0..<10]))
      in starts_with s ''<17 more messages...>'' \<and> str_contains s ''[USER]: u9'' \<and> str_contains s ''[AGENT]: a9''
         \<and> \<not> str_contains s ''[USER]: u0'')"

definition assistant_truncates_at_300 :: bool where
  "assistant_truncates_at_300 \<longleftrightarrow>
     (let long = replicate 500 (CHR ''x''); s = snapshot_text [msg_of RSystem ''s'', msg_of RAssistant long]
      in str_contains s cut_mark
         \<and> (case find (\<lambda>l. starts_with l ''[AGENT]:'') (split_on (CHR 0x0A) s) of
              Some l \<Rightarrow> length l < length long + length ''[AGENT]: '' | None \<Rightarrow> False))"

definition user_is_not_truncated :: bool where
  "user_is_not_truncated \<longleftrightarrow>
     (let long = replicate 5000 (CHR ''y'')
      in str_contains (snapshot_text [msg_of RSystem ''s'', msg_of RUser long]) long)"

definition tool_output_truncates_and_labels_with_id :: bool where
  "tool_output_truncates_and_labels_with_id \<longleftrightarrow>
     (let s = snapshot_text [msg_of RSystem ''s'', tool_msg ''call_123'' (replicate 500 (CHR ''t''))]
      in str_contains s ''[TOOL call_123]:'' \<and> str_contains s cut_mark)"

definition multimodal_blocks_render_as_placeholders :: bool where
  "multimodal_blocks_render_as_placeholders \<longleftrightarrow>
     (let s = snapshot_text [msg_of RSystem ''s'', \<lparr>m_role = RUser,
                m_content = Some (CBlocks [Known (BText ''see this''), image_at ''data:image/png;base64,SECRET'']),
                m_tool_calls = None, m_tool_call_id = None\<rparr>]
      in str_contains s ''[USER]: see this'' \<and> str_contains s ''[image]'' \<and> \<not> str_contains s ''SECRET''
         \<and> \<not> str_contains s ''data:image'')"

text \<open>The crab of the test takes four bytes, and the cut at the fourth byte falls inside it.\<close>

definition truncate_respects_char_boundaries :: bool where
  "truncate_respects_char_boundaries \<longleftrightarrow>
     ends_with (truncate_str (''aaa'' @ [CHR 0xF0, CHR 0x9F, CHR 0xA6, CHR 0x80] @ ''bbb'') 4) cut_mark"

lemmas snapshot_defs = snapshot_text_def build_context_snapshot_def snapshot_line_def detail_start_def DETAIL_TAIL_def
  content_to_text_def msg_of_def tool_msg_def

lemma truncate_long: "n < k \<Longrightarrow> \<not> is_cont c \<Longrightarrow> truncate_str (replicate k c) n = replicate n c @ cut_mark"
proof -
  assume "n < k" "\<not> is_cont c"
  then have "boundary_below (replicate k c) n = n" by (cases n) (simp_all add: is_char_boundary_def)
  with \<open>n < k\<close> show ?thesis by (simp add: truncate_str_def cut_mark_def min_def)
qed

lemma no_cut_char: "\<not> is_cont (CHR ''x'')" "\<not> is_cont (CHR ''t'')"
  by (simp_all add: is_cont_def)

lemma snapshot_tests:
  "short_transcript_renders_every_message_past_system" "multimodal_blocks_render_as_placeholders"
  by (simp_all add: short_transcript_renders_every_message_past_system_def multimodal_blocks_render_as_placeholders_def
      snapshot_defs truncate_str_def ASSISTANT_TRUNCATE_def SYSTEM_TRUNCATE_def image_at_def Let_def)

lemma long_transcript_test: "long_transcript_summarises_older_messages"
  by code_simp

lemma boundary_test: "truncate_respects_char_boundaries"
  by code_simp

lemma contains_last: "str_contains (xs @ ys) ys"
  by (simp add: str_contains_sublist)

lemma untruncated_test: "user_is_not_truncated"
proof -
  have "snapshot_text [msg_of RSystem ''s'', msg_of RUser u] = newline @ ''[USER]: '' @ u" for u
    by (simp add: snapshot_defs newline_def)
  then show ?thesis unfolding user_is_not_truncated_def Let_def
    by (metis append_assoc contains_last)
qed

lemma split_newline: "CHR 0x0A \<notin> set l \<Longrightarrow> split_on (CHR 0x0A) (newline @ l) = [[], l]"
  by (simp add: newline_def split_on_single)

lemma truncation_tests: "assistant_truncates_at_300" "tool_output_truncates_and_labels_with_id"
proof -
  have s: "snapshot_text [msg_of RSystem ''s'', msg_of RAssistant (replicate 500 (CHR ''x''))]
      = newline @ ''[AGENT]: '' @ replicate 300 (CHR ''x'') @ cut_mark"
    by (simp add: snapshot_defs ASSISTANT_TRUNCATE_def truncate_long no_cut_char newline_def Let_def)
  have "CHR 0x0A \<notin> set (''[AGENT]: '' @ replicate 300 (CHR ''x'') @ cut_mark)"
    by (simp add: cut_mark_def)
  note split_newline [OF this]
  moreover have "str_contains (newline @ ''[AGENT]: '' @ replicate 300 (CHR ''x'') @ cut_mark) cut_mark"
    using contains_last by (metis append_assoc)
  ultimately show "assistant_truncates_at_300"
    unfolding assistant_truncates_at_300_def Let_def s by (simp add: cut_mark_def)
  have t: "snapshot_text [msg_of RSystem ''s'', tool_msg ''call_123'' (replicate 500 (CHR ''t''))]
      = newline @ ''[TOOL call_123]:'' @ '' '' @ replicate 200 (CHR ''t'') @ cut_mark"
    by (simp add: snapshot_defs TOOL_TRUNCATE_def truncate_long no_cut_char newline_def Let_def)
  show "tool_output_truncates_and_labels_with_id"
    unfolding tool_output_truncates_and_labels_with_id_def Let_def t
    using contains_last [of "newline @ ''[TOOL call_123]:'' @ '' '' @ replicate 200 (CHR ''t'')" cut_mark]
      str_contains_appendI [of newline "''[TOOL call_123]:''" "'' '' @ replicate 200 (CHR ''t'') @ cut_mark"]
    by simp
qed

end
