(* ===== verification/Processes.thy ===== *)
theory Processes
  imports Acp_Prelude
begin

text \<open>
  Commands that start a process, as the sources build them with the runtime's
  \<^verbatim>\<open>Command\<close>: the program, its arguments, the variables it sets on top of the
  inherited environment, its directory and its standard streams. What a started process sees of
  its environment is \<open>child_var\<close>. The operating system itself is a parameter.
\<close>

datatype stdio = Inherit | Piped | Null

record command =
  cmd_program :: string
  cmd_args :: "string list"
  cmd_env :: "(string \<times> string) list"
  cmd_dir :: "string option"
  cmd_stdin :: stdio
  cmd_stdout :: stdio
  cmd_stderr :: stdio
  kill_on_drop :: bool

definition command_new :: "string \<Rightarrow> command" where
  "command_new program =
     \<lparr>cmd_program = program, cmd_args = [], cmd_env = [], cmd_dir = None,
      cmd_stdin = Inherit, cmd_stdout = Inherit, cmd_stderr = Inherit, kill_on_drop = False\<rparr>"

text \<open>Setting a variable replaces what was set for it before.\<close>

definition set_env :: "string \<Rightarrow> string \<Rightarrow> command \<Rightarrow> command" where
  "set_env k v cmd = cmd\<lparr>cmd_env := AList.update k v (cmd_env cmd)\<rparr>"

definition set_envs :: "(string \<times> string) list \<Rightarrow> command \<Rightarrow> command" where
  "set_envs kvs cmd = foldl (\<lambda>c (k, v). set_env k v c) cmd kvs"

definition child_var :: "(string \<Rightarrow> string option) \<Rightarrow> command \<Rightarrow> string \<Rightarrow> string option" where
  "child_var inherited cmd k = (case map_of (cmd_env cmd) k of Some v \<Rightarrow> Some v | None \<Rightarrow> inherited k)"

lemma child_var_new [simp]: "child_var inherited (command_new p) = inherited"
  by (simp add: child_var_def command_new_def fun_eq_iff)

lemma child_var_set_env [simp]:
  "child_var inherited (set_env k v cmd) = (child_var inherited cmd)(k \<mapsto> v)"
  by (simp add: child_var_def set_env_def update_conv' fun_eq_iff)

lemma child_var_set_envs:
  "child_var inherited (set_envs kvs cmd) = child_var inherited cmd ++ map_of (rev kvs)"
proof (induction kvs arbitrary: cmd)
  case Nil
  show ?case by (simp add: set_envs_def)
next
  case (Cons kv kvs)
  obtain k v where kv: "kv = (k, v)" by (cases kv)
  have "set_envs (kv # kvs) cmd = set_envs kvs (set_env k v cmd)"
    by (simp add: set_envs_def kv)
  with Cons.IH [of "set_env k v cmd"] show ?case
    by (simp add: kv map_add_def fun_eq_iff split: option.split)
qed

lemma child_var_stdio [simp]:
  "child_var inherited (cmd\<lparr>cmd_stdin := i\<rparr>) = child_var inherited cmd"
  "child_var inherited (cmd\<lparr>cmd_stdout := out\<rparr>) = child_var inherited cmd"
  "child_var inherited (cmd\<lparr>cmd_stderr := e\<rparr>) = child_var inherited cmd"
  "child_var inherited (cmd\<lparr>cmd_dir := d\<rparr>) = child_var inherited cmd"
  "child_var inherited (cmd\<lparr>kill_on_drop := b\<rparr>) = child_var inherited cmd"
  "child_var inherited (cmd\<lparr>cmd_args := a\<rparr>) = child_var inherited cmd"
  by (simp_all add: child_var_def fun_eq_iff)

end
