(* ===== verification/Bridge.thy ===== *)
theory Bridge
  imports Acp_Prelude
begin

text \<open>
  The two directions of the supervisor's bridge (\<^verbatim>\<open>agent/src/bridge.rs\<close>) between the
  WebSocket and the pipes of the agent process. The pipe, the socket and their errors are
  parameters. A stream is the list of what it yields before it ends.
\<close>

datatype ws_message = WsText string | WsBinary string | WsPing | WsPong | WsClose

datatype bridge_exit = TunnelClosed | ProcessExited | BridgeError string

record 'w pipe =
  write_all :: "string \<Rightarrow> 'w \<Rightarrow> (unit, string) result \<times> 'w"
  flush :: "'w \<Rightarrow> (unit, string) result \<times> 'w"

definition newline_char :: char where "newline_char = CHR 0x0A"

text \<open>Writing in sequence: the first error ends it.\<close>

definition then_write ::
    "('w \<Rightarrow> (unit, string) result \<times> 'w) \<Rightarrow> ('w \<Rightarrow> (unit, string) result \<times> 'w) \<Rightarrow> 'w \<Rightarrow> (unit, string) result \<times> 'w" where
  "then_write f g w = (case f w of (Err e, w') \<Rightarrow> (Err e, w') | (Ok _, w') \<Rightarrow> g w')"

definition write_frame :: "'w pipe \<Rightarrow> string \<Rightarrow> 'w \<Rightarrow> (unit, string) result \<times> 'w" where
  "write_frame P frame =
     then_write (write_all P frame)
     (then_write (if ends_with frame [newline_char] then (\<lambda>w. (Ok (), w)) else write_all P [newline_char])
        (flush P))"

fun ws_to_stdin :: "'w pipe \<Rightarrow> (ws_message, string) result list \<Rightarrow> 'w \<Rightarrow> bridge_exit \<times> 'w" where
  "ws_to_stdin P [] w = (TunnelClosed, w)"
| "ws_to_stdin P (Ok (WsText t) # msgs) w =
     (case write_frame P t w of
        (Err e, w') \<Rightarrow> (BridgeError (''write to stdin: '' @ e), w')
      | (Ok _, w') \<Rightarrow> ws_to_stdin P msgs w')"
| "ws_to_stdin P (Ok WsClose # msgs) w = (TunnelClosed, w)"
| "ws_to_stdin P (Ok _ # msgs) w = ws_to_stdin P msgs w"
| "ws_to_stdin P (Err e # msgs) w = (BridgeError (''ws read: '' @ e), w)"

text \<open>The other direction: \<open>send\<close> is the sink of the socket.\<close>

fun stdout_to_ws ::
    "(ws_message \<Rightarrow> 'w \<Rightarrow> (unit, string) result \<times> 'w) \<Rightarrow> (string, string) result list \<Rightarrow> 'w \<Rightarrow> bridge_exit \<times> 'w" where
  "stdout_to_ws send [] w = (ProcessExited, w)"
| "stdout_to_ws send (Ok line # ls) w =
     (case send (WsText (trim_end line)) w of
        (Err e, w') \<Rightarrow> (BridgeError (''ws write: '' @ e), w')
      | (Ok _, w') \<Rightarrow> stdout_to_ws send ls w')"
| "stdout_to_ws send (Err e # ls) w = (BridgeError (''stdout read: '' @ e), w)"

text \<open>
  The two directions race in a \<^verbatim>\<open>select!\<close>: the first to end decides the exit and the
  other is dropped where it waits. Both act on one state. The side of the tunnel waits for the
  next message and for every write of a frame, so its state is the messages to come and the
  writes still to do; a side is dropped between two of its calls. A schedule says which side makes
  its next step, and the result is None while the schedule has not come to an exit.
\<close>

datatype pipe_op = PWrite string | PFlush

definition frame_ops :: "string \<Rightarrow> pipe_op list" where
  "frame_ops t = PWrite t # (if ends_with t [newline_char] then [] else [PWrite [newline_char]]) @ [PFlush]"

fun pipe_do :: "'w pipe \<Rightarrow> pipe_op \<Rightarrow> 'w \<Rightarrow> (unit, string) result \<times> 'w" where
  "pipe_do P (PWrite t) w = write_all P t w"
| "pipe_do P PFlush w = flush P w"

type_synonym ws_side = "(ws_message, string) result list \<times> pipe_op list"

fun ws_step :: "'w pipe \<Rightarrow> ws_side \<Rightarrow> 'w \<Rightarrow> bridge_exit option \<times> ws_side \<times> 'w" where
  "ws_step P (msgs, x # xs) w =
     (case pipe_do P x w of
        (Err e, w') \<Rightarrow> (Some (BridgeError (''write to stdin: '' @ e)), (msgs, []), w')
      | (Ok _, w') \<Rightarrow> (None, (msgs, xs), w'))"
| "ws_step P ([], []) w = (Some TunnelClosed, ([], []), w)"
| "ws_step P (Err e # ms, []) w = (Some (BridgeError (''ws read: '' @ e)), (ms, []), w)"
| "ws_step P (Ok m # ms, []) w =
     (case m of
        WsText t \<Rightarrow> (None, (ms, frame_ops t), w)
      | WsClose \<Rightarrow> (Some TunnelClosed, (ms, []), w)
      | _ \<Rightarrow> (None, (ms, []), w))"

definition out_step ::
    "(ws_message \<Rightarrow> 'w \<Rightarrow> (unit, string) result \<times> 'w) \<Rightarrow> (string, string) result list \<Rightarrow> 'w
      \<Rightarrow> bridge_exit option \<times> (string, string) result list \<times> 'w" where
  "out_step send ls w =
     (case ls of
        [] \<Rightarrow> (Some ProcessExited, [], w)
      | Err e # r \<Rightarrow> (Some (BridgeError (''stdout read: '' @ e)), r, w)
      | Ok line # r \<Rightarrow>
          (case send (WsText (trim_end line)) w of
             (Err e, w') \<Rightarrow> (Some (BridgeError (''ws write: '' @ e)), r, w')
           | (Ok _, w') \<Rightarrow> (None, r, w')))"

fun race ::
    "'w pipe \<Rightarrow> (ws_message \<Rightarrow> 'w \<Rightarrow> (unit, string) result \<times> 'w) \<Rightarrow> bool list
      \<Rightarrow> ws_side \<Rightarrow> (string, string) result list \<Rightarrow> 'w \<Rightarrow> (bridge_exit \<times> 'w) option" where
  "race P send [] side ls w = None"
| "race P send (True # sched) side ls w =
     (case ws_step P side w of
        (Some x, _, w') \<Rightarrow> Some (x, w')
      | (None, side', w') \<Rightarrow> race P send sched side' ls w')"
| "race P send (False # sched) side ls w =
     (case out_step send ls w of
        (Some x, _, w') \<Rightarrow> Some (x, w')
      | (None, r, w') \<Rightarrow> race P send sched side r w')"

definition bridge_run ::
    "'w pipe \<Rightarrow> (ws_message \<Rightarrow> 'w \<Rightarrow> (unit, string) result \<times> 'w) \<Rightarrow> bool list
      \<Rightarrow> (ws_message, string) result list \<Rightarrow> (string, string) result list \<Rightarrow> 'w \<Rightarrow> (bridge_exit \<times> 'w) option" where
  "bridge_run P send sched msgs ls w = race P send sched (msgs, []) ls w"

subsection \<open>Lines\<close>

text \<open>
  What reading lines until the end of a stream of bytes gives: every line with its newline, and
  a rest without one.
\<close>

definition read_lines :: "string \<Rightarrow> string list" where
  "read_lines s =
     (let segs = split_on newline_char s
      in map (\<lambda>l. l @ [newline_char]) (butlast segs) @ (if last segs = [] then [] else [last segs]))"

lemma split_on_line: "newline_char \<notin> set l \<Longrightarrow> split_on newline_char (l @ newline_char # s) = l # split_on newline_char s"
  by (induction l) auto

lemma read_lines_line: "newline_char \<notin> set l \<Longrightarrow> read_lines (l @ newline_char # s) = (l @ [newline_char]) # read_lines s"
  by (simp add: read_lines_def split_on_line Let_def)

lemma read_lines_framed:
  "\<forall>l \<in> set ls. newline_char \<notin> set l \<Longrightarrow> read_lines (concat (map (\<lambda>l. l @ [newline_char]) ls)) = map (\<lambda>l. l @ [newline_char]) ls"
proof (induction ls)
  case Nil
  show ?case by (simp add: read_lines_def)
next
  case (Cons l ls)
  then show ?case using read_lines_line [of l] by simp
qed

text \<open>A pipe that takes every write appends to the bytes the process will read.\<close>

definition pipe_laws :: "'w pipe \<Rightarrow> ('w \<Rightarrow> string) \<Rightarrow> bool" where
  "pipe_laws P bytes \<longleftrightarrow>
     (\<forall>t w. fst (write_all P t w) = Ok () \<and> bytes (snd (write_all P t w)) = bytes w @ t)
   \<and> (\<forall>w. fst (flush P w) = Ok () \<and> bytes (snd (flush P w)) = bytes w)"

lemma write_frame_bytes:
  assumes "pipe_laws P bytes" and "newline_char \<notin> set t"
  shows "fst (write_frame P t w) = Ok () \<and> bytes (snd (write_frame P t w)) = bytes w @ t @ [newline_char]"
proof -
  have n: "\<not> ends_with t [newline_char]" using assms(2) by (auto simp: ends_with_suffix suffix_def)
  have wr: "\<exists>v'. write_all P u v = (Ok (), v') \<and> bytes v' = bytes v @ u" for u v
    using assms(1) unfolding pipe_laws_def by (metis prod.collapse)
  have fl: "\<exists>v'. flush P v = (Ok (), v') \<and> bytes v' = bytes v" for v
    using assms(1) unfolding pipe_laws_def by (metis prod.collapse)
  obtain w1 where 1: "write_all P t w = (Ok (), w1)" "bytes w1 = bytes w @ t" using wr by blast
  obtain w2 where 2: "write_all P [newline_char] w1 = (Ok (), w2)" "bytes w2 = bytes w1 @ [newline_char]" using wr by blast
  obtain w3 where 3: "flush P w2 = (Ok (), w3)" "bytes w3 = bytes w2" using fl by blast
  from 1 2 3 n show ?thesis by (simp add: write_frame_def then_write_def)
qed

text \<open>The text frames up to the end of the tunnel, and how it ended.\<close>

fun frames_until_end :: "(ws_message, string) result list \<Rightarrow> string list \<times> bridge_exit" where
  "frames_until_end [] = ([], TunnelClosed)"
| "frames_until_end (Ok (WsText t) # msgs) = apfst (Cons t) (frames_until_end msgs)"
| "frames_until_end (Ok WsClose # msgs) = ([], TunnelClosed)"
| "frames_until_end (Ok _ # msgs) = frames_until_end msgs"
| "frames_until_end (Err e # msgs) = ([], BridgeError (''ws read: '' @ e))"

lemma ws_to_stdin_bytes:
  assumes "pipe_laws P bytes" and "\<forall>t. Ok (WsText t) \<in> set msgs \<longrightarrow> newline_char \<notin> set t"
  shows "fst (ws_to_stdin P msgs w) = snd (frames_until_end msgs)
    \<and> bytes (snd (ws_to_stdin P msgs w)) = bytes w @ concat (map (\<lambda>l. l @ [newline_char]) (fst (frames_until_end msgs)))"
  using assms(2)
proof (induction msgs arbitrary: w rule: frames_until_end.induct)
  case (2 t msgs)
  obtain w1 where "write_frame P t w = (Ok (), w1)" "bytes w1 = bytes w @ t @ [newline_char]"
    using write_frame_bytes [OF assms(1), of t w] 2(2) by (metis list.set_intros(1) prod.collapse)
  with 2 show ?case by simp
qed simp_all

text \<open>The socket: a frame that is sent is received, and the two directions do not touch each other's bytes.\<close>

definition sink_laws ::
    "'w pipe \<Rightarrow> (ws_message \<Rightarrow> 'w \<Rightarrow> (unit, string) result \<times> 'w) \<Rightarrow> ('w \<Rightarrow> string) \<Rightarrow> ('w \<Rightarrow> string list) \<Rightarrow> bool" where
  "sink_laws P send bytes sent \<longleftrightarrow>
     (\<forall>t w. fst (send (WsText t) w) = Ok () \<and> sent (snd (send (WsText t) w)) = sent w @ [t]
        \<and> bytes (snd (send (WsText t) w)) = bytes w)
   \<and> (\<forall>t w. sent (snd (write_all P t w)) = sent w) \<and> (\<forall>w. sent (snd (flush P w)) = sent w)"

definition framed :: "string \<Rightarrow> string" where
  "framed t = (if ends_with t [newline_char] then t else t @ [newline_char])"

fun op_bytes :: "pipe_op \<Rightarrow> string" where
  "op_bytes (PWrite t) = t"
| "op_bytes PFlush = []"

lemma frame_ops_bytes: "concat (map op_bytes (frame_ops t)) = framed t"
  by (simp add: frame_ops_def framed_def)

text \<open>The bytes the side of the tunnel has still to write.\<close>

definition to_write :: "ws_side \<Rightarrow> string" where
  "to_write side = concat (map op_bytes (snd side)) @ concat (map framed (fst (frames_until_end (fst side))))"

lemma pipe_do_laws:
  assumes "pipe_laws P bytes" and "sink_laws P send bytes sent"
  shows "fst (pipe_do P x w) = Ok ()" "bytes (snd (pipe_do P x w)) = bytes w @ op_bytes x"
    "sent (snd (pipe_do P x w)) = sent w"
  using assms by (cases x; simp add: pipe_laws_def sink_laws_def)+

text \<open>A step of that side either writes what it has to write next, or ends with nothing to write.\<close>

lemma ws_step_effect:
  assumes "pipe_laws P bytes" and "sink_laws P send bytes sent" and "ws_step P side w = (x, side', w')"
  shows "sent w' = sent w
    \<and> (case x of
         None \<Rightarrow> \<exists>u. bytes w' = bytes w @ u \<and> to_write side = u @ to_write side'
       | Some e \<Rightarrow> bytes w' = bytes w \<and> to_write side = [])"
proof (cases "snd side")
  case Nil
  with assms(3) show ?thesis
    by (cases side; cases "fst side"; cases "hd (fst side)")
      (auto simp: to_write_def frame_ops_bytes split: ws_message.splits)
next
  case (Cons y ys)
  obtain w1 where "pipe_do P y w = (Ok (), w1)" "bytes w1 = bytes w @ op_bytes y" "sent w1 = sent w"
    using pipe_do_laws [OF assms(1,2), of y w] by (metis prod.collapse)
  with Cons assms(3) show ?thesis by (cases side) (auto simp: to_write_def)
qed

fun lines_until_end :: "(string, string) result list \<Rightarrow> string list" where
  "lines_until_end (Ok l # ls) = l # lines_until_end ls"
| "lines_until_end _ = []"

lemma out_step_effect:
  assumes "sink_laws P send bytes sent" and "out_step send ls w = (x, r, w')"
  shows "bytes w' = bytes w
    \<and> (case x of
         None \<Rightarrow> (\<exists>l. lines_until_end ls = l # lines_until_end r \<and> sent w' = sent w @ [trim_end l])
       | Some e \<Rightarrow> sent w' = sent w \<and> lines_until_end ls = [])"
proof (cases "\<exists>l ls0. ls = Ok l # ls0")
  case True
  then obtain l ls0 where l: "ls = Ok l # ls0" by blast
  obtain w1 where "send (WsText (trim_end l)) w = (Ok (), w1)" "sent w1 = sent w @ [trim_end l]" "bytes w1 = bytes w"
    using assms(1) unfolding sink_laws_def by (metis prod.collapse)
  with l assms(2) show ?thesis by (auto simp: out_step_def)
next
  case False
  with assms(2) show ?thesis
    by (auto simp: out_step_def split: list.splits result.splits)
qed

lemma race_prefix:
  assumes "pipe_laws P bytes" and "sink_laws P send bytes sent"
    and "race P send sched side ls w = Some (x, w')"
  shows "\<exists>u v k. to_write side = u @ v \<and> bytes w' = bytes w @ u
    \<and> sent w' = sent w @ map trim_end (take k (lines_until_end ls))
    \<and> (v = [] \<or> length (lines_until_end ls) \<le> k)"
  using assms(3)
proof (induction sched arbitrary: side ls w)
  case (Cons b sched)
  show ?case
  proof (cases b)
    case True
    obtain y side1 w1 where s: "ws_step P side w = (y, side1, w1)" by (metis surj_pair)
    note e = ws_step_effect [OF assms(1,2) s]
    show ?thesis
    proof (cases y)
      case (Some z)
      with Cons.prems True s have "w' = w1" by simp
      with e Some show ?thesis by (intro exI [of _ "[]"] exI [of _ 0]) simp
    next
      case None
      with e obtain u0 where f: "to_write side = u0 @ to_write side1" "bytes w1 = bytes w @ u0" "sent w1 = sent w" by auto
      from Cons.IH [of side1 ls w1] Cons.prems True s None obtain u v k where
        "to_write side1 = u @ v" "bytes w' = bytes w1 @ u"
        "sent w' = sent w1 @ map trim_end (take k (lines_until_end ls))" "v = [] \<or> length (lines_until_end ls) \<le> k"
        by auto
      with f show ?thesis by (intro exI [of _ "u0 @ u"] exI [of _ v] exI [of _ k]) simp
    qed
  next
    case False
    obtain y r w1 where s: "out_step send ls w = (y, r, w1)" by (metis surj_pair)
    note e = out_step_effect [OF assms(2) s]
    show ?thesis
    proof (cases y)
      case (Some z)
      with Cons.prems False s have "w' = w1" by simp
      with e Some show ?thesis by (intro exI [of _ "[]"] exI [of _ "to_write side"] exI [of _ 0]) simp
    next
      case None
      with e obtain l where l: "lines_until_end ls = l # lines_until_end r" "sent w1 = sent w @ [trim_end l]" "bytes w1 = bytes w"
        by auto
      from Cons.IH [of side r w1] Cons.prems False s None obtain u v k where
        "to_write side = u @ v" "bytes w' = bytes w1 @ u"
        "sent w' = sent w1 @ map trim_end (take k (lines_until_end r))" "v = [] \<or> length (lines_until_end r) \<le> k"
        by auto
      with l show ?thesis by (intro exI [of _ u] exI [of _ v] exI [of _ "Suc k"]) simp
    qed
  qed
qed simp

text \<open>Served alone, the side of the tunnel does what \<open>ws_to_stdin\<close> does, and the other side what \<open>stdout_to_ws\<close> does.\<close>

fun do_ops :: "'w pipe \<Rightarrow> pipe_op list \<Rightarrow> 'w \<Rightarrow> (unit, string) result \<times> 'w" where
  "do_ops P [] w = (Ok (), w)"
| "do_ops P (x # xs) w = then_write (pipe_do P x) (do_ops P xs) w"

lemma write_frame_ops: "write_frame P t w = do_ops P (frame_ops t) w"
  by (simp add: write_frame_def frame_ops_def then_write_def split: prod.split result.split)

lemma race_ops:
  "race P send (replicate (length xs) True @ sched) (msgs, xs) ls w =
     (case do_ops P xs w of
        (Ok _, w') \<Rightarrow> race P send sched (msgs, []) ls w'
      | (Err e, w') \<Rightarrow> Some (BridgeError (''write to stdin: '' @ e), w'))"
  by (induction xs arbitrary: w) (simp_all add: then_write_def split: prod.split result.split)

lemma race_ws_alone: "\<exists>n. race P send (replicate n True) (msgs, []) ls w = Some (ws_to_stdin P msgs w)"
proof (induction msgs arbitrary: w)
  case (Cons m msgs)
  show ?case
  proof (cases "\<exists>t. m = Ok (WsText t)")
    case True
    then obtain t where m: "m = Ok (WsText t)" by blast
    obtain r w1 where w1: "write_frame P t w = (r, w1)" by (metis surj_pair)
    from Cons.IH [of w1] obtain n where n: "race P send (replicate n True) (msgs, []) ls w1 = Some (ws_to_stdin P msgs w1)" ..
    have "race P send (replicate (Suc (length (frame_ops t) + n)) True) (m # msgs, []) ls w
        = Some (ws_to_stdin P (m # msgs) w)"
      using n w1 by (simp add: m replicate_add race_ops write_frame_ops split: result.split)
    then show ?thesis ..
  next
    case False
    from Cons.IH [of w] obtain n where "race P send (replicate n True) (msgs, []) ls w = Some (ws_to_stdin P msgs w)" ..
    with False have "race P send (replicate (Suc n) True) (m # msgs, []) ls w = Some (ws_to_stdin P (m # msgs) w)"
      by (cases m) (auto split: ws_message.splits)
    then show ?thesis ..
  qed
qed (rule exI [of _ 1], simp)

lemma race_out_alone: "race P send (replicate (Suc (length ls)) False) side ls w = Some (stdout_to_ws send ls w)"
proof (induction ls arbitrary: w)
  case (Cons l ls)
  then show ?case by (cases l) (auto simp: out_step_def split: prod.splits result.splits)
qed (simp add: out_step_def)

text \<open>Once nothing is left on a side, its steps end the bridge, so a schedule that serves a side often enough ends it.\<close>

definition side_steps :: "ws_side \<Rightarrow> nat" where
  "side_steps side = length (snd side) + sum_list (map (\<lambda>m. case m of Ok (WsText t) \<Rightarrow> Suc (length (frame_ops t)) | _ \<Rightarrow> 1) (fst side))"

lemma ws_step_progress:
  assumes "ws_step P side w = (None, side', w')" shows "side_steps side' < side_steps side"
  using assms
  by (cases side; cases "snd side"; cases "fst side"; cases "hd (fst side)")
    (auto simp: side_steps_def split: ws_message.splits prod.splits result.splits)

lemma out_step_progress:
  assumes "out_step send ls w = (None, r, w')" shows "length ls = Suc (length r)"
  using assms by (auto simp: out_step_def split: list.splits result.splits prod.splits)

lemma race_ends:
  "side_steps side < count_list sched True \<or> length ls < count_list sched False
    \<Longrightarrow> \<exists>r. race P send sched side ls w = Some r"
proof (induction sched arbitrary: side ls w)
  case (Cons b sched)
  show ?case
  proof (cases b)
    case True
    obtain y side1 w1 where s: "ws_step P side w = (y, side1, w1)" by (metis surj_pair)
    show ?thesis
    proof (cases y)
      case None
      with ws_step_progress [of P side w side1 w1] s Cons.prems True
      have "side_steps side1 < count_list sched True \<or> length ls < count_list sched False" by auto
      from Cons.IH [OF this, of w1] True s None show ?thesis by simp
    qed (use True s in simp)
  next
    case False
    obtain y r w1 where s: "out_step send ls w = (y, r, w1)" by (metis surj_pair)
    show ?thesis
    proof (cases y)
      case None
      with out_step_progress [of send ls w r w1] s Cons.prems False
      have "side_steps side < count_list sched True \<or> length r < count_list sched False" by auto
      from Cons.IH [OF this, of w1] False s None show ?thesis by simp
    qed (use False s in simp)
  qed
qed simp

subsection \<open>Properties\<close>

text \<open>
  What the server sends is what the agent reads, line by line. Text frames without a newline,
  as compact JSON is, arrive on the agent's standard input as one line each, in order, up to the
  frame that closes the tunnel or the error that ends it; binary frames and pings leave no trace.
\<close>

theorem bridge_framing:
  assumes "pipe_laws P bytes" and "bytes w = []"
    and "\<forall>t. Ok (WsText t) \<in> set msgs \<longrightarrow> newline_char \<notin> set t"
  shows "fst (ws_to_stdin P msgs w) = snd (frames_until_end msgs)
    \<and> read_lines (bytes (snd (ws_to_stdin P msgs w))) = map (\<lambda>t. t @ [newline_char]) (fst (frames_until_end msgs))"
proof -
  have "t \<in> set (fst (frames_until_end msgs)) \<Longrightarrow> Ok (WsText t) \<in> set msgs" for t
    by (induction msgs rule: frames_until_end.induct) auto
  then have "\<forall>t \<in> set (fst (frames_until_end msgs)). newline_char \<notin> set t" using assms(3) by blast
  from read_lines_framed [OF this] ws_to_stdin_bytes [OF assms(1,3), of w] assms(2) show ?thesis by simp
qed

definition string_pipe :: "string pipe" where
  "string_pipe = \<lparr>write_all = (\<lambda>t w. (Ok (), w @ t)), flush = (\<lambda>w. (Ok (), w))\<rparr>"

theorem bridge_framing_witness:
  "read_lines (snd (ws_to_stdin string_pipe [Ok (WsText ''a''), Ok WsPing, Ok (WsText ''b''), Ok WsClose, Ok (WsText ''c'')] []))
     = [[CHR ''a'', newline_char], [CHR ''b'', newline_char]]"
proof -
  have "pipe_laws string_pipe (\<lambda>w. w)" by (simp add: pipe_laws_def string_pipe_def)
  from bridge_framing [OF this, of "[]" "[Ok (WsText ''a''), Ok WsPing, Ok (WsText ''b''), Ok WsClose, Ok (WsText ''c'')]"]
  show ?thesis by (auto simp: newline_char_def)
qed


definition demo_pipe :: "(string \<times> string list) pipe" where
  "demo_pipe = \<lparr>write_all = (\<lambda>t (b, s). (Ok (), (b @ t, s))), flush = (\<lambda>w. (Ok (), w))\<rparr>"

definition demo_sink :: "ws_message \<Rightarrow> string \<times> string list \<Rightarrow> (unit, string) result \<times> string \<times> string list" where
  "demo_sink m w = (Ok (), case m of WsText t \<Rightarrow> (fst w, snd w @ [t]) | _ \<Rightarrow> w)"


end
