(* ===== verification/Supervisor.thy ===== *)
theory Supervisor
  imports Processes Bridge Protocol
begin

text \<open>
  The supervisor \<^verbatim>\<open>overacp-agent\<close> (\<^verbatim>\<open>agent/src\<close>): its configuration, the
  URL of its tunnel, the connection with its retries, the child process and the whole run from
  the pull of the workspace to its push. The network, the operating system and the workspace
  store are parameters; a call that may never return is option-valued, None being that it does not.
\<close>

subsection \<open>Configuration (\<^verbatim>\<open>config.rs\<close>)\<close>

record sup_config =
  sup_token :: string
  sup_server_url :: string
  sup_workspace :: string
  sup_agent_binary :: string
  sup_agent_name :: "string option"
  sup_sentry_dsn :: "string option"
  sup_sentry_environment :: string
  sup_traces_sample_rate :: "32 word"

definition trimmed_var :: "(string \<Rightarrow> string option) \<Rightarrow> string \<Rightarrow> string option" where
  "trimmed_var var key = Option.bind (map_option trim (var key)) (\<lambda>s. if s = [] then None else Some s)"

definition required :: "(string \<Rightarrow> string option) \<Rightarrow> string \<Rightarrow> (string, string) result" where
  "required var key = ok_or (''missing env var: '' @ key) (var key)"

text \<open>The default sample rate is the bit pattern of 0.1.\<close>

definition sup_from_env ::
    "(string \<Rightarrow> 32 word option) \<Rightarrow> (string \<Rightarrow> string option) \<Rightarrow> (sup_config, string) result" where
  "sup_from_env parse_f32 var =
     res_bind (required var ''OVERACP_TOKEN'') (\<lambda>token.
     res_bind (required var ''OVERACP_SERVER_URL'') (\<lambda>server_url.
       Ok \<lparr>sup_token = token, sup_server_url = server_url,
           sup_workspace = unwrap_or ''/workspace'' (var ''OVERACP_WORKSPACE''),
           sup_agent_binary = unwrap_or ''overloop'' (var ''OVERACP_AGENT_BINARY''),
           sup_agent_name = trimmed_var var ''OVERLOOP_AGENT_NAME'',
           sup_sentry_dsn = trimmed_var var ''SENTRY_DSN'',
           sup_sentry_environment = unwrap_or ''local'' (var ''SENTRY_ENVIRONMENT''),
           sup_traces_sample_rate =
             unwrap_or 0x3DCCCCCD (Option.bind (var ''SENTRY_TRACES_SAMPLE_RATE'') parse_f32)\<rparr>))"

text \<open>Replacing every occurrence of a non-empty pattern, from left to right.\<close>

function str_replace :: "string \<Rightarrow> string \<Rightarrow> string \<Rightarrow> string" where
  "str_replace pat rep s =
     (if pat \<noteq> [] \<and> starts_with s pat then rep @ str_replace pat rep (drop (length pat) s)
      else case s of [] \<Rightarrow> [] | c # cs \<Rightarrow> c # str_replace pat rep cs)"
  by auto
termination
  by (relation "measure (\<lambda>(pat, rep, s). length s)")
    (auto simp: str_simps prefix_def)

declare str_replace.simps [simp del]

definition tunnel_url :: "sup_config \<Rightarrow> string \<Rightarrow> string" where
  "tunnel_url cfg agent_id =
     str_replace ''http://'' ''ws://'' (str_replace ''https://'' ''wss://'' (sup_server_url cfg))
       @ ''/tunnel/'' @ agent_id"

subsection \<open>The tunnel (\<^verbatim>\<open>tunnel.rs\<close>)\<close>

definition MAX_BACKOFF_SECS :: u64 where "MAX_BACKOFF_SECS = 30"

record parsed_url =
  url_host :: "string option"
  url_port :: "nat option"

record ('w, 'c, 'r) network =
  url_parse :: "string \<Rightarrow> (parsed_url, string) result"
  generate_key :: "'w \<Rightarrow> string \<times> 'w"
  build_request :: "string \<Rightarrow> (string \<times> string) list \<Rightarrow> ('r, string) result"
  connect_async :: "'r \<Rightarrow> 'w \<Rightarrow> ('c, string) result \<times> 'w"
  sleep_secs :: "u64 \<Rightarrow> 'w \<Rightarrow> 'w"

definition in_context :: "string \<Rightarrow> ('a, string) result \<Rightarrow> ('a, string list) result" where
  "in_context c r = res_map_err (\<lambda>e. [c, e]) r"

definition host_header :: "string \<Rightarrow> nat option \<Rightarrow> string" where
  "host_header host port = (case port of Some p \<Rightarrow> host @ '':'' @ show_nat p | None \<Rightarrow> host)"

definition upgrade_headers :: "string \<Rightarrow> string \<Rightarrow> string \<Rightarrow> (string \<times> string) list" where
  "upgrade_headers host token key =
     [(''Host'', host), (''Authorization'', ''Bearer '' @ token), (''Connection'', ''Upgrade''),
      (''Upgrade'', ''websocket''), (''Sec-WebSocket-Version'', ''13''), (''Sec-WebSocket-Key'', key)]"

definition connect :: "('w, 'c, 'r) network \<Rightarrow> string \<Rightarrow> string \<Rightarrow> 'w \<Rightarrow> ('c, string list) result \<times> 'w" where
  "connect N url token w =
     (case in_context ''invalid tunnel URL'' (url_parse N url) of
        Err e \<Rightarrow> (Err e, w)
      | Ok parsed \<Rightarrow>
          (case url_host parsed of
             None \<Rightarrow> (Err [''tunnel URL missing host''], w)
           | Some host \<Rightarrow>
               (case generate_key N w of (key, w1) \<Rightarrow>
                  (case in_context ''build WebSocket request''
                      (build_request N url (upgrade_headers (host_header host (url_port parsed)) token key)) of
                     Err e \<Rightarrow> (Err e, w1)
                   | Ok request \<Rightarrow> apfst (in_context ''WebSocket connect failed'') (connect_async N request w1)))))"

definition backoff_secs :: "u32 \<Rightarrow> u64" where
  "backoff_secs attempt = min (push_bit (unat (min attempt 6)) 1) MAX_BACKOFF_SECS"

definition next_attempt :: "u32 \<Rightarrow> u32" where
  "next_attempt attempt = (if attempt = - 1 then attempt else attempt + 1)"

partial_function (option) retry_from ::
    "('w, 'c, 'r) network \<Rightarrow> string \<Rightarrow> string \<Rightarrow> u32 \<Rightarrow> 'w \<Rightarrow> ('c \<times> 'w) option" where
  "retry_from N url token attempt w =
     (case connect N url token w of
        (Ok streams, w') \<Rightarrow> Some (streams, w')
      | (Err e, w') \<Rightarrow> retry_from N url token (next_attempt attempt) (sleep_secs N (backoff_secs attempt) w'))"

definition connect_with_retry ::
    "('w, 'c, 'r) network \<Rightarrow> string \<Rightarrow> string \<Rightarrow> 'w \<Rightarrow> ('c \<times> 'w) option" where
  "connect_with_retry N url token w = retry_from N url token 0 w"

subsection \<open>The child process (\<^verbatim>\<open>adapter.rs\<close>, \<^verbatim>\<open>process.rs\<close>)\<close>

record loop_adapter =
  adapter_binary :: string
  adapter_workspace :: string

definition loop_command :: "loop_adapter \<Rightarrow> command" where
  "loop_command a = set_env ''OVERACP_WORKSPACE'' (adapter_workspace a) (command_new (adapter_binary a))"

text \<open>\<open>child_stdin\<close> and \<open>child_stdout\<close> are the handles a spawned process has, when piped.\<close>

record ('w, 'ch) os_process =
  os_spawn :: "command \<Rightarrow> 'w \<Rightarrow> ('ch, string) result \<times> 'w"
  child_stdin :: "'ch \<Rightarrow> 'w pipe option"
  child_stdout :: "'ch \<Rightarrow> 'w \<Rightarrow> (string, string) result list option"
  try_wait :: "'ch \<Rightarrow> 'w \<Rightarrow> (string option, string) result \<times> 'w"
  os_kill :: "'ch \<Rightarrow> 'w \<Rightarrow> (unit, string) result \<times> 'w"
  os_wait :: "'ch \<Rightarrow> 'w \<Rightarrow> 'w option"

record ('w, 'ch) agent_process =
  proc_stdin :: "'w pipe"
  proc_stdout :: "(string, string) result list"
  proc_child :: 'ch

definition piped :: "command \<Rightarrow> command" where
  "piped cmd = cmd\<lparr>cmd_stdin := Piped, cmd_stdout := Piped, cmd_stderr := Inherit\<rparr>"

definition spawn ::
    "('w, 'ch) os_process \<Rightarrow> command \<Rightarrow> 'w \<Rightarrow> (('w, 'ch) agent_process, string list) result \<times> 'w" where
  "spawn Q cmd w =
     (case os_spawn Q (piped cmd) w of
        (Err e, w') \<Rightarrow> (Err [''failed to spawn agent process'', e], w')
      | (Ok child, w') \<Rightarrow>
          (case child_stdin Q child of
             None \<Rightarrow> (Err [''no stdin on child''], w')
           | Some stdin \<Rightarrow>
               (case child_stdout Q child w' of
                  None \<Rightarrow> (Err [''no stdout on child''], w')
                | Some lines \<Rightarrow> (Ok \<lparr>proc_stdin = stdin, proc_stdout = lines, proc_child = child\<rparr>, w'))))"

definition write_line :: "'w pipe \<Rightarrow> string \<Rightarrow> 'w \<Rightarrow> (unit, string list) result \<times> 'w" where
  "write_line P line w =
     (case write_all P line w of
        (Err e, w1) \<Rightarrow> (Err [''write to agent stdin'', e], w1)
      | (Ok _, w1) \<Rightarrow>
          (case (if ends_with line [newline_char] then (Ok (), w1) else write_all P [newline_char] w1) of
             (Err e, w2) \<Rightarrow> (Err [''write newline'', e], w2)
           | (Ok _, w2) \<Rightarrow> apfst (in_context ''flush agent stdin'') (flush P w2)))"

definition proc_read_line :: "('w \<Rightarrow> (string, string) result \<times> 'w) \<Rightarrow> 'w \<Rightarrow> (string option, string list) result \<times> 'w" where
  "proc_read_line read w =
     (case read w of
        (Err e, w') \<Rightarrow> (Err [''read from agent stdout'', e], w')
      | (Ok buf, w') \<Rightarrow> (Ok (if length buf = 0 then None else Some buf), w'))"

subsection \<open>The run (\<^verbatim>\<open>run.rs\<close>, \<^verbatim>\<open>workspace.rs\<close>)\<close>

record 'w workspace_sync =
  sync_pull :: "'w \<Rightarrow> (unit, string) result \<times> 'w"
  sync_push :: "'w \<Rightarrow> (unit, string) result \<times> 'w"

definition noop_sync :: "'w workspace_sync" where
  "noop_sync = \<lparr>sync_pull = (\<lambda>w. (Ok (), w)), sync_push = (\<lambda>w. (Ok (), w))\<rparr>"

datatype reap_outcome = AlreadyExited | Killed | TryWaitErrored

text \<open>Waiting for a child that was not killed may take forever.\<close>

definition reap_child :: "('w, 'ch) os_process \<Rightarrow> 'ch \<Rightarrow> 'w \<Rightarrow> (reap_outcome \<times> 'w) option" where
  "reap_child Q child w =
     (case try_wait Q child w of
        (Ok (Some status), w') \<Rightarrow> Some (AlreadyExited, w')
      | (Ok None, w') \<Rightarrow>
          (case os_kill Q child w' of (_, w1) \<Rightarrow> map_option (Pair Killed) (os_wait Q child w1))
      | (Err e, w') \<Rightarrow> Some (TryWaitErrored, w'))"

datatype sup_error = SyncError string | TokenError string | SpawnError "string list"

text \<open>
  What the connection yields and accepts, and in which order the two directions of the bridge
  make their steps.
\<close>

record ('w, 'c, 'ch, 'r) sup_env =
  net :: "('w, 'c, 'r) network"
  procs :: "('w, 'ch) os_process"
  insecure_decode :: "string \<Rightarrow> (claims, string) result"
  show_agent_id :: "uuid \<Rightarrow> string"
  ws_read :: "'c \<Rightarrow> 'w \<Rightarrow> (ws_message, string) result list"
  ws_sink :: "'c \<Rightarrow> ws_message \<Rightarrow> 'w \<Rightarrow> (unit, string) result \<times> 'w"
  bridge_schedule :: "'w \<Rightarrow> bool list"

definition token_error :: "string protocol_error \<Rightarrow> sup_error" where
  "token_error e = TokenError (case e of Jwt m \<Rightarrow> m | InvalidRole r \<Rightarrow> ''invalid role: '' @ r)"

text \<open>Steps 1 to 4: pull, read the agent's id, connect, spawn.\<close>

definition start_session ::
    "('w, 'c, 'ch, 'r) sup_env \<Rightarrow> sup_config \<Rightarrow> command \<Rightarrow> 'w workspace_sync \<Rightarrow> 'w
      \<Rightarrow> (('c \<times> ('w, 'ch) agent_process, sup_error) result \<times> 'w) option" where
  "start_session E cfg cmd sync w =
     (case sync_pull sync w of
        (Err e, w1) \<Rightarrow> Some (Err (SyncError e), w1)
      | (Ok _, w1) \<Rightarrow>
          (case peek_claims_unverified (insecure_decode E) (sup_token cfg) of
             Err e \<Rightarrow> Some (Err (token_error e), w1)
           | Ok claims \<Rightarrow>
               (case connect_with_retry (net E) (tunnel_url cfg (show_agent_id E (sub claims))) (sup_token cfg) w1 of
                  None \<Rightarrow> None
                | Some (c, w2) \<Rightarrow>
                    (case spawn (procs E) cmd w2 of
                       (Err e, w3) \<Rightarrow> Some (Err (SpawnError e), w3)
                     | (Ok proc, w3) \<Rightarrow> Some (Ok (c, proc), w3)))))"

text \<open>Steps 5 to 7: pump, reap, push.\<close>

definition finish_session ::
    "('w, 'c, 'ch, 'r) sup_env \<Rightarrow> 'w workspace_sync \<Rightarrow> 'c \<Rightarrow> ('w, 'ch) agent_process \<Rightarrow> 'w
      \<Rightarrow> ((unit, sup_error) result \<times> 'w) option" where
  "finish_session E sync c proc w =
     (case bridge_run (proc_stdin proc) (ws_sink E c) (bridge_schedule E w) (ws_read E c w) (proc_stdout proc) w of
        None \<Rightarrow> None
      | Some (reason, w1) \<Rightarrow>
          (case reap_child (procs E) (proc_child proc) w1 of
             None \<Rightarrow> None
           | Some (outcome, w2) \<Rightarrow> Some (apfst (res_map_err SyncError) (sync_push sync w2))))"

definition run_with ::
    "('w, 'c, 'ch, 'r) sup_env \<Rightarrow> sup_config \<Rightarrow> command \<Rightarrow> 'w workspace_sync \<Rightarrow> 'w
      \<Rightarrow> ((unit, sup_error) result \<times> 'w) option" where
  "run_with E cfg cmd sync w =
     (case start_session E cfg cmd sync w of
        None \<Rightarrow> None
      | Some (Err e, w1) \<Rightarrow> Some (Err e, w1)
      | Some (Ok (c, proc), w1) \<Rightarrow> finish_session E sync c proc w1)"

definition run_supervisor ::
    "('w, 'c, 'ch, 'r) sup_env \<Rightarrow> sup_config \<Rightarrow> 'w \<Rightarrow> ((unit, sup_error) result \<times> 'w) option" where
  "run_supervisor E cfg w =
     run_with E cfg (loop_command \<lparr>adapter_binary = sup_agent_binary cfg, adapter_workspace = sup_workspace cfg\<rparr>)
       noop_sync w"

subsection \<open>Replacing\<close>

lemma str_replace_absent: "\<not> str_contains s pat \<Longrightarrow> str_replace pat rep s = s"
proof (induction s)
  case Nil
  then show ?case by (subst str_replace.simps) (auto simp: str_simps)
next
  case (Cons c cs)
  then have "\<not> starts_with (c # cs) pat" "\<not> str_contains cs pat"
    by (auto simp: str_simps sublist_Cons_right)
  with Cons.IH show ?case by (subst str_replace.simps) simp
qed

lemma str_replace_front: "pat \<noteq> [] \<Longrightarrow> str_replace pat rep (pat @ s) = rep @ str_replace pat rep s"
  by (subst str_replace.simps) (simp add: str_simps)

lemma str_replace_skip: "\<not> starts_with (c # s) pat \<Longrightarrow> str_replace pat rep (c # s) = c # str_replace pat rep s"
  by (subst str_replace.simps) simp

subsection \<open>The retry loop\<close>

lemma unat_min: "unat (min a b :: 'a::len word) = min (unat a) (unat b)"
  by (simp add: min_def word_le_nat_alt)

lemma backoff_closed_form: "unat (backoff_secs a) = min (2 ^ unat a) 30"
proof -
  have m: "unat (min a 6) = min (unat a) 6" by (simp add: unat_min)
  then have le: "unat (min a 6) \<le> 6" by simp
  have "unat (push_bit (unat (min a 6)) (1 :: u64)) = 2 ^ unat (min a 6)"
  proof -
    have "(2::nat) ^ unat (min a 6) \<le> 2 ^ 6" using le by (intro power_increasing) auto
    then have "(2::nat) ^ unat (min a 6) < 2 ^ 64" by simp
    then have "unat (of_nat (2 ^ unat (min a 6)) :: u64) = 2 ^ unat (min a 6)" unfolding unat_of_nat by simp
    then show ?thesis by simp
  qed
  then have e: "unat (backoff_secs a) = min (2 ^ min (unat a) 6) 30"
    by (simp add: backoff_secs_def MAX_BACKOFF_SECS_def unat_min m)
  show ?thesis
  proof (cases "unat a \<le> 6")
    case True
    with e show ?thesis by (simp add: min_def)
  next
    case False
    then have "(2::nat) ^ 6 \<le> 2 ^ unat a" by (intro power_increasing) auto
    with e False show ?thesis by (simp add: min_def)
  qed
qed

text \<open>The attempts that the supervisor makes, with the waiting in closed form.\<close>

fun nth_attempt :: "('w, 'c, 'r) network \<Rightarrow> string \<Rightarrow> string \<Rightarrow> 'w \<Rightarrow> nat \<Rightarrow> ('c, string list) result \<times> 'w" where
  "nth_attempt N url token w 0 = connect N url token w"
| "nth_attempt N url token w (Suc k) =
     connect N url token (sleep_secs N (of_nat (min (2 ^ k) 30)) (snd (nth_attempt N url token w k)))"

definition U32_MAX :: nat where "U32_MAX = 4294967295"

definition attempt_after :: "nat \<Rightarrow> u32" where
  "attempt_after k = of_nat (min k U32_MAX)"

lemma unat_attempt_after: "unat (attempt_after k) = min k U32_MAX"
  by (simp add: attempt_after_def unat_of_nat U32_MAX_def min_def)

lemma unat_max_u32: "unat (- 1 :: u32) = U32_MAX"
proof -
  have "(- 1 :: u32) = of_nat U32_MAX" by (simp add: U32_MAX_def)
  moreover have "unat (of_nat U32_MAX :: u32) = U32_MAX" unfolding unat_of_nat by (simp add: U32_MAX_def)
  ultimately show ?thesis by (simp only:)
qed

lemma attempt_after_Suc: "next_attempt (attempt_after k) = attempt_after (Suc k)"
proof (cases "k < U32_MAX")
  case True
  then have "attempt_after k \<noteq> - 1" using unat_attempt_after [of k] unat_max_u32 by (metis min.strict_order_iff nat_neq_iff)
  with True show ?thesis by (simp add: next_attempt_def attempt_after_def min_def)
next
  case False
  then have "unat (attempt_after k) = unat (- 1 :: u32)" "unat (attempt_after (Suc k)) = unat (- 1 :: u32)"
    unfolding unat_attempt_after unat_max_u32 by simp_all
  then have "attempt_after k = - 1" "attempt_after (Suc k) = - 1" by (simp_all only: word_unat_eq_iff)
  then show ?thesis by (simp add: next_attempt_def)
qed

lemma backoff_after: "backoff_secs (attempt_after k) = of_nat (min (2 ^ k) 30)"
proof -
  have big: "30 \<le> (2::nat) ^ n" if "5 \<le> n" for n
    using power_increasing [of 5 n "2::nat"] that by simp
  have "5 \<le> U32_MAX" by (simp add: U32_MAX_def)
  with big [of k] big [of U32_MAX] have "min (2 ^ min k U32_MAX) 30 = min (2 ^ k) (30::nat)"
    by (cases "k \<le> U32_MAX") (auto simp: min_def)
  then have "unat (backoff_secs (attempt_after k)) = min (2 ^ k) 30"
    by (simp add: backoff_closed_form unat_attempt_after)
  then have "of_nat (unat (backoff_secs (attempt_after k))) = (of_nat (min (2 ^ k) 30) :: u64)" by (simp only:)
  then show ?thesis by (simp only: of_nat_unat ucast_id)
qed

lemma nth_attempt_from:
  assumes "nth_attempt N url token w k = (Err e, w')"
  shows "nth_attempt N url token w (Suc k) = connect N url token (sleep_secs N (backoff_secs (attempt_after k)) w')"
  using assms by (simp add: backoff_after)

lemma retry_returns:
  assumes "\<And>k. k < n \<Longrightarrow> \<not> is_ok (fst (nth_attempt N url token w (m + k)))"
    and "nth_attempt N url token w (m + n) = (Ok s, w')"
    and "nth_attempt N url token w m = connect N url token v"
  shows "retry_from N url token (attempt_after m) v = Some (s, w')"
  using assms
proof (induction n arbitrary: m v)
  case 0
  then show ?case by (subst retry_from.simps) simp
next
  case (Suc n)
  obtain e w1 where e: "nth_attempt N url token w m = (Err e, w1)"
    using Suc.prems(1) [of 0] by (cases "nth_attempt N url token w m"; cases "fst (nth_attempt N url token w m)") auto
  have "retry_from N url token (attempt_after (Suc m)) (sleep_secs N (backoff_secs (attempt_after m)) w1) = Some (s, w')"
  proof (rule Suc.IH)
    show "\<not> is_ok (fst (nth_attempt N url token w (Suc m + k)))" if "k < n" for k
      using Suc.prems(1) [of "Suc k"] that by simp
    show "nth_attempt N url token w (Suc m + n) = (Ok s, w')" using Suc.prems(2) by simp
    show "nth_attempt N url token w (Suc m) = connect N url token (sleep_secs N (backoff_secs (attempt_after m)) w1)"
      by (rule nth_attempt_from [OF e])
  qed
  with e Suc.prems(3) show ?case by (subst retry_from.simps) (simp add: attempt_after_Suc)
qed

lemma retry_diverges:
  assumes "retry_from N url token a v = Some r" and "a = attempt_after m"
    and "nth_attempt N url token w m = connect N url token v"
  shows "\<exists>n. is_ok (fst (nth_attempt N url token w n))"
proof -
  define P where "P = (\<lambda>N url token a v (r :: 'a \<times> 'b). \<forall>m. a = attempt_after m
    \<longrightarrow> nth_attempt N url token w m = connect N url token v
    \<longrightarrow> (\<exists>n. is_ok (fst (nth_attempt (N :: ('b, 'a, 'c) network) url token w n))))"
  have "P N url token a v r"
  proof (rule retry_from.raw_induct [OF _ assms(1)])
    fix rec N url token a v r
    assume IH: "\<And>N url token a v r. rec N url token a v = Some r \<Longrightarrow> P N url token a v r"
      and step: "(case connect N url token v of (Ok s, w') \<Rightarrow> Some (s, w')
        | (Err e, w') \<Rightarrow> rec N url token (next_attempt a) (sleep_secs N (backoff_secs a) w')) = Some r"
    show "P N url token a v r"
      unfolding P_def
    proof (intro allI impI)
      fix m assume m: "a = attempt_after m" "nth_attempt N url token w m = connect N url token v"
      obtain q w1 where q: "connect N url token v = (q, w1)" by (metis surj_pair)
      show "\<exists>n. is_ok (fst (nth_attempt N url token w n))"
      proof (cases q)
        case (Ok x)
        with q m show ?thesis by (intro exI [of _ m]) simp
      next
        case (Err e)
        with q step have "rec N url token (next_attempt a) (sleep_secs N (backoff_secs a) w1) = Some r" by simp
        from IH [OF this, unfolded P_def] m attempt_after_Suc [of m] nth_attempt_from [of N url token w m e w1] q Err
        show ?thesis by metis
      qed
    qed
  qed
  with assms show ?thesis unfolding P_def by blast
qed

lemma connect_with_retry_iff:
  "connect_with_retry N url token w = Some (s, w') \<longleftrightarrow>
     (\<exists>n. (\<forall>k<n. \<not> is_ok (fst (nth_attempt N url token w k))) \<and> nth_attempt N url token w n = (Ok s, w'))"
proof
  assume n: "\<exists>n. (\<forall>k<n. \<not> is_ok (fst (nth_attempt N url token w k))) \<and> nth_attempt N url token w n = (Ok s, w')"
  have z: "attempt_after 0 = 0" by (simp add: attempt_after_def)
  from n obtain n where "\<forall>k<n. \<not> is_ok (fst (nth_attempt N url token w k))" "nth_attempt N url token w n = (Ok s, w')" by blast
  then have "retry_from N url token (attempt_after 0) w = Some (s, w')" by (intro retry_returns [where n = n and w = w]) simp_all
  then show "connect_with_retry N url token w = Some (s, w')" by (simp add: connect_with_retry_def z)
next
  assume r: "connect_with_retry N url token w = Some (s, w')"
  have z: "attempt_after 0 = 0" by (simp add: attempt_after_def)
  have ex: "\<exists>n. is_ok (fst (nth_attempt N url token w n))"
    using r by (intro retry_diverges [where m = 0 and w = w]) (simp_all add: connect_with_retry_def z)
  define n where "n = (LEAST n. is_ok (fst (nth_attempt N url token w n)))"
  from LeastI_ex [OF ex] have ok: "is_ok (fst (nth_attempt N url token w n))" unfolding n_def .
  have least: "\<not> is_ok (fst (nth_attempt N url token w k))" if "k < n" for k
    using that not_less_Least unfolding n_def by blast
  from ok obtain s' v' where n: "nth_attempt N url token w n = (Ok s', v')"
    by (cases "nth_attempt N url token w n") (auto simp: is_ok_iff)
  with retry_returns [where m = 0 and v = w and n = n and N = N and url = url and token = token and w = w and s = s' and w' = v'] least
  have "retry_from N url token 0 w = Some (s', v')" by (simp add: z)
  with r n least show "\<exists>n. (\<forall>k<n. \<not> is_ok (fst (nth_attempt N url token w k))) \<and> nth_attempt N url token w n = (Ok s, w')"
    unfolding connect_with_retry_def by (intro exI [of _ n]) simp
qed

subsection \<open>The interfaces\<close>

text \<open>
  An adapter leaves the standard streams to the supervisor. What is spawned is then the adapter's
  command with the pipes, and its environment is the adapter's.
\<close>

locale agent_adapter =
  fixes adapter_command :: "'a \<Rightarrow> command"
  assumes streams_not_set: "cmd_stdin (adapter_command a) = Inherit \<and> cmd_stdout (adapter_command a) = Inherit
    \<and> cmd_stderr (adapter_command a) = Inherit"
begin

lemma spawned_environment: "child_var inherited (piped (adapter_command a)) = child_var inherited (adapter_command a)"
  by (simp add: piped_def)

lemma stderr_reaches_supervisor: "piped (adapter_command a) = (adapter_command a)\<lparr>cmd_stdin := Piped, cmd_stdout := Piped\<rparr>"
  using streams_not_set [of a] by (simp add: piped_def)

end

interpretation loop_adapter: agent_adapter loop_command
  by unfold_locales (simp add: loop_command_def set_env_def command_new_def)

lemma loop_child_var:
  "child_var inherited (piped (loop_command a)) = inherited(''OVERACP_WORKSPACE'' \<mapsto> adapter_workspace a)"
  unfolding loop_adapter.spawned_environment by (simp add: loop_command_def)

text \<open>What the runtime documents of a child process; \<open>alive\<close> is whether it runs or waits to be reaped.\<close>

definition process_laws :: "('w, 'ch) os_process \<Rightarrow> ('w \<Rightarrow> 'ch \<Rightarrow> bool) \<Rightarrow> bool" where
  "process_laws Q alive \<longleftrightarrow>
     (\<forall>ch w st w'. try_wait Q ch w = (Ok (Some st), w') \<longrightarrow> \<not> alive w' ch)
   \<and> (\<forall>ch w w'. os_wait Q ch w = Some w' \<longrightarrow> \<not> alive w' ch)
   \<and> (\<forall>ch w w'. os_kill Q ch w = (Ok (), w') \<longrightarrow> (\<exists>w''. os_wait Q ch w' = Some w''))"

lemma reap_child_reaps:
  assumes "process_laws Q alive" and "reap_child Q ch w = Some (r, w')"
  shows "r = TryWaitErrored \<or> \<not> alive w' ch"
  using assms by (auto simp: process_laws_def reap_child_def split: prod.splits result.splits option.splits)

lemma reap_child_returns:
  assumes "process_laws Q alive" and "\<And>v. fst (os_kill Q ch v) = Ok ()"
  shows "\<exists>r w'. reap_child Q ch w = Some (r, w')"
proof -
  have "\<exists>w'. os_wait Q ch (snd (os_kill Q ch v)) = Some w'" for v
    using assms unfolding process_laws_def by (metis prod.collapse)
  then show ?thesis
    by (auto simp: reap_child_def case_prod_beta split: result.split option.split)
qed

text \<open>\<open>write_line\<close> and the bridge's \<open>write_frame\<close> write the same bytes and succeed together.\<close>

lemma write_line_frame:
  "snd (write_line P l w) = snd (write_frame P l w) \<and> is_ok (fst (write_line P l w)) = is_ok (fst (write_frame P l w))"
proof -
  have c: "is_ok (in_context c r) = is_ok r" for c and r :: "(unit, string) result"
    by (cases r) (simp_all add: in_context_def)
  show ?thesis
    by (simp add: write_line_def write_frame_def then_write_def case_prod_beta c split: result.split)
qed

lemma tunnel_url_cases:
  assumes "\<not> str_contains h ''http://''" and "\<not> str_contains h ''https://''"
  shows https_tunnel_url: "sup_server_url cfg = ''https://'' @ h \<Longrightarrow> tunnel_url cfg i = ''wss://'' @ h @ ''/tunnel/'' @ i"
    and http_tunnel_url: "sup_server_url cfg = ''http://'' @ h \<Longrightarrow> tunnel_url cfg i = ''ws://'' @ h @ ''/tunnel/'' @ i"
    and other_tunnel_url: "sup_server_url cfg = h \<Longrightarrow> tunnel_url cfg i = h @ ''/tunnel/'' @ i"
proof -
  note a = str_replace_absent [OF assms(1)] str_replace_absent [OF assms(2)]
  have s: "str_replace ''https://'' ''wss://'' (''https://'' @ h) = ''wss://'' @ h"
    "str_replace ''http://'' ''ws://'' (''http://'' @ h) = ''ws://'' @ h"
    by (simp_all only: str_replace_front a list.distinct not_False_eq_True)
  have t: "str_replace ''http://'' ''ws://'' (''wss://'' @ h) = ''wss://'' @ h"
    "str_replace ''https://'' ''wss://'' (''http://'' @ h) = ''http://'' @ h"
    by (simp_all add: str_replace_skip a)
  show "tunnel_url cfg i = ''wss://'' @ h @ ''/tunnel/'' @ i" if "sup_server_url cfg = ''https://'' @ h"
    unfolding tunnel_url_def that s t by simp
  show "tunnel_url cfg i = ''ws://'' @ h @ ''/tunnel/'' @ i" if "sup_server_url cfg = ''http://'' @ h"
    unfolding tunnel_url_def that s t by simp
  show "tunnel_url cfg i = h @ ''/tunnel/'' @ i" if "sup_server_url cfg = h"
    unfolding tunnel_url_def that a by simp
qed

subsection \<open>Properties\<close>

text \<open>
  The URL of the tunnel is the server's with the scheme of a WebSocket and the agent's id
  appended: \<^verbatim>\<open>https\<close> becomes \<^verbatim>\<open>wss\<close>, \<^verbatim>\<open>http\<close> becomes \<^verbatim>\<open>ws\<close>, and any other
  address is kept as it is.
\<close>

theorem tunnel_url_form:
  assumes "\<not> str_contains h ''http://''" and "\<not> str_contains h ''https://''"
  shows "sup_server_url cfg = ''https://'' @ h \<Longrightarrow> tunnel_url cfg i = ''wss://'' @ h @ ''/tunnel/'' @ i"
    and "sup_server_url cfg = ''http://'' @ h \<Longrightarrow> tunnel_url cfg i = ''ws://'' @ h @ ''/tunnel/'' @ i"
    and "sup_server_url cfg = h \<Longrightarrow> tunnel_url cfg i = h @ ''/tunnel/'' @ i"
  using tunnel_url_cases [OF assms] by blast+

definition demo_sup_config :: sup_config where
  "demo_sup_config =
     \<lparr>sup_token = ''T'', sup_server_url = ''https://acp'', sup_workspace = ''/workspace'', sup_agent_binary = ''overloop'',
      sup_agent_name = None, sup_sentry_dsn = None, sup_sentry_environment = ''local'', sup_traces_sample_rate = 0\<rparr>"

theorem tunnel_url_form_witness: "tunnel_url demo_sup_config ''7'' = ''wss://acp/tunnel/7''"
proof -
  have "\<not> str_contains ''acp'' ''http://''" "\<not> str_contains ''acp'' ''https://''" by (simp_all add: starts_with_def)
  from tunnel_url_form(1) [OF this, of demo_sup_config] show ?thesis by (simp add: demo_sup_config_def)
qed

text \<open>
  C21: connecting returns exactly when an attempt succeeds, with the connection of the first
  attempt that does, and after \<open>k\<close> failures in a row it has waited the smaller of
  \<open>2 ^ k\<close> and thirty seconds before the next; as long as no attempt succeeds it does not
  return, and the counter of attempts never overflows.
\<close>

theorem connect_retries_until_success:
  "connect_with_retry N url token w = Some (s, w') \<longleftrightarrow>
     (\<exists>n. (\<forall>k<n. \<not> is_ok (fst (nth_attempt N url token w k))) \<and> nth_attempt N url token w n = (Ok s, w'))"
  by (rule connect_with_retry_iff)

definition demo_network :: "(nat list, nat, string) network" where
  "demo_network =
     \<lparr>url_parse = (\<lambda>u. Ok \<lparr>url_host = Some ''acp'', url_port = None\<rparr>), generate_key = (\<lambda>w. (''k'', w)),
      build_request = (\<lambda>u hs. Ok u),
      connect_async = (\<lambda>r w. (if length w < 2 then Err ''refused'' else Ok (length w), w)),
      sleep_secs = (\<lambda>s w. w @ [unat s])\<rparr>"

theorem connect_retries_until_success_witness:
  "connect_with_retry demo_network ''ws://acp/tunnel/7'' ''T'' [] = Some (2, [1, 2])"
proof -
  let ?a = "nth_attempt demo_network ''ws://acp/tunnel/7'' ''T'' []"
  have c: "connect demo_network u t v = ((if length v < 2 then Err [''WebSocket connect failed'', ''refused''] else Ok (length v)), v)" for u t v
    by (simp add: connect_def demo_network_def in_context_def)
  have s: "sleep_secs demo_network n v = v @ [unat n]" for n v by (simp add: demo_network_def)
  have a: "?a 0 = (Err [''WebSocket connect failed'', ''refused''], [])" "?a (Suc 0) = (Err [''WebSocket connect failed'', ''refused''], [1])"
    "?a (Suc (Suc 0)) = (Ok 2, [1, 2])"
    by (simp_all add: c s)
  then have "\<forall>k<Suc (Suc 0). \<not> is_ok (fst (?a k))" by (simp add: less_Suc_eq)
  with a(3) show ?thesis unfolding connect_retries_until_success by blast
qed


text \<open>A run: a child that answers one line and goes on running until it is killed.\<close>

type_synonym demo_world = "string \<times> string list \<times> bool"

definition demo_sup_env :: "(demo_world, unit, unit, unit) sup_env" where
  "demo_sup_env =
     \<lparr>net = \<lparr>url_parse = (\<lambda>u. Ok \<lparr>url_host = Some ''acp'', url_port = None\<rparr>), generate_key = (\<lambda>w. (''k'', w)),
        build_request = (\<lambda>u hs. Ok ()), connect_async = (\<lambda>r w. (Ok (), w)), sleep_secs = (\<lambda>s w. w)\<rparr>,
      procs = \<lparr>os_spawn = (\<lambda>cmd (i, out, a). (Ok (), (i, out, True))),
        child_stdin = (\<lambda>ch. Some \<lparr>write_all = (\<lambda>t (i, out, a). (Ok (), (i @ t, out, a))), flush = (\<lambda>w. (Ok (), w))\<rparr>),
        child_stdout = (\<lambda>ch w. Some [Ok ''hello'']), try_wait = (\<lambda>ch w. (Ok None, w)),
        os_kill = (\<lambda>ch w. (Ok (), w)), os_wait = (\<lambda>ch (i, out, a). Some (i, out, False))\<rparr>,
      insecure_decode = (\<lambda>t. Ok (claims_agent 0 7 None 60 ''i'')), show_agent_id = (\<lambda>u. ''7''),
      ws_read = (\<lambda>c w. [Ok (WsText ''hi'')]),
      ws_sink = (\<lambda>c m (i, out, a). (Ok (), (i, (case m of WsText t \<Rightarrow> out @ [t] | _ \<Rightarrow> out), a))),
      bridge_schedule = (\<lambda>w. [False, True, True, True, True, True])\<rparr>"

lemma demo_sup_start:
  "start_session demo_sup_env demo_sup_config cmd noop_sync ([], [], False)
     = Some (Ok ((), \<lparr>proc_stdin = \<lparr>write_all = (\<lambda>t (i, out, a). (Ok (), (i @ t, out, a))), flush = (\<lambda>w. (Ok (), w))\<rparr>,
         proc_stdout = [Ok ''hello''], proc_child = ()\<rparr>), ([], [], True))"
proof -
  have "connect_with_retry (net demo_sup_env) u t w = Some ((), w)" for u t w
    unfolding connect_with_retry_def
    by (subst retry_from.simps) (simp add: connect_def demo_sup_env_def in_context_def)
  then show ?thesis
    by (simp add: start_session_def noop_sync_def peek_claims_unverified_def)
      (simp add: demo_sup_env_def spawn_def)
qed


text \<open>A child that cannot be killed and does not end keeps the supervisor from the push.\<close>

lemma failed_kill_blocks_push:
  assumes "start_session E cfg cmd sync w = Some (Ok (c, proc), w1)"
    and "bridge_run (proc_stdin proc) (ws_sink E c) (bridge_schedule E w1) (ws_read E c w1) (proc_stdout proc) w1 = Some (x, w2)"
    and "try_wait (procs E) (proc_child proc) w2 = (Ok None, w3)"
    and "os_wait (procs E) (proc_child proc) (snd (os_kill (procs E) (proc_child proc) w3)) = None"
  shows "run_with E cfg cmd sync w = None"
  using assms by (simp add: run_with_def finish_session_def reap_child_def case_prod_beta)

end
