(* ===== verification/Secret_Config.thy ===== *)
theory Secret_Config
  imports Acp_Prelude
begin

text \<open>
  Pool configuration and its secret references (\<^verbatim>\<open>compute/src/config/\<close>): the parser
  of \<open>${scheme:path:key}\<close> (\<^verbatim>\<open>reference.rs\<close>), the resolver
  (\<^verbatim>\<open>mod.rs\<close>) and the two providers (\<^verbatim>\<open>env.rs\<close>, \<^verbatim>\<open>file.rs\<close>).
  The environment, the file system, and the parsers of JSON and TOML are parameters.
\<close>

datatype config_error =
    MissingKey string
  | InvalidValue string string
  | UnknownProvider string
  | Resolution string string
  | BadReference string

datatype segment = Literal string | Ref string string "string option"

subsection \<open>References\<close>

definition parse_ref_body :: "string \<Rightarrow> string \<Rightarrow> (segment, config_error) result" where
  "parse_ref_body body full =
     (case split_once (CHR '':'') body of
        None \<Rightarrow> Err (BadReference full)
      | Some (scheme, rest) \<Rightarrow>
          if scheme = [] then Err (BadReference full)
          else
            let (path, key) = (case split_once (CHR '':'') rest of
                  Some (p, k) \<Rightarrow> (p, Some k) | None \<Rightarrow> (rest, None))
            in if path = [] then Err (BadReference full) else Ok (Ref scheme path key))"

text \<open>
  \<^verbatim>\<open>b as char\<close>: the code point with the value of the byte, which takes two bytes from 128 on.
\<close>

definition byte_as_char :: "char \<Rightarrow> string" where
  "byte_as_char b =
     (let n = of_char b :: nat
      in if n < 128 then [b] else [char_of (192 + n div 64), char_of (128 + n mod 64)])"

definition flush_literal :: "string \<Rightarrow> segment list \<Rightarrow> segment list" where
  "flush_literal buf out = (if buf = [] then out else out @ [Literal buf])"

text \<open>The loop over the bytes from position \<open>i\<close> on, with the literal read so far.\<close>

function parse_from :: "string \<Rightarrow> string \<Rightarrow> string \<Rightarrow> segment list \<Rightarrow> (segment list, config_error) result" where
  "parse_from full [] buf out = Ok (flush_literal buf out)"
| "parse_from full (b # bs) buf out =
     (if b = CHR ''$'' \<and> bs \<noteq> [] \<and> hd bs = CHR ''$'' then parse_from full (tl bs) (buf @ ''$'') out
      else if b = CHR ''$'' \<and> bs \<noteq> [] \<and> hd bs = CHR ''{'' then
        (case find_char (CHR ''}'') (tl bs) of
           None \<Rightarrow> Err (BadReference full)
         | Some e \<Rightarrow>
             (case parse_ref_body (take e (tl bs)) full of
                Err x \<Rightarrow> Err x
              | Ok seg \<Rightarrow> parse_from full (drop (Suc e) (tl bs)) [] (flush_literal buf out @ [seg])))
      else parse_from full bs (buf @ byte_as_char b) out)"
  by pat_completeness auto
termination
  by (relation "measure (\<lambda>(_, bs, _, _). length bs)") (auto intro: le_less_trans [OF diff_le_self])

declare parse_from.simps [simp del]

definition parse :: "string \<Rightarrow> (segment list, config_error) result" where
  "parse input = parse_from input input [] []"

subsection \<open>Providers\<close>

text \<open>A provider looks up a path and a key; it may keep a state, such as a cache.\<close>

type_synonym 's lookup = "string \<Rightarrow> string option \<Rightarrow> 's \<Rightarrow> (string, config_error) result \<times> 's"

definition env_lookup :: "(string \<Rightarrow> string option) \<Rightarrow> string \<Rightarrow> string option \<Rightarrow> (string, config_error) result" where
  "env_lookup var path key =
     (if key \<noteq> None then Err (InvalidValue path ''env references take a single segment: ${env:VAR}'')
      else ok_or (MissingKey (''env:'' @ path)) (var path))"

text \<open>The values of the TOML library.\<close>

datatype toml_value =
    TomlString string
  | TomlInteger int
  | TomlFloat f64
  | TomlBoolean bool
  | TomlDatetime string
  | TomlArray "toml_value list"
  | TomlTable "(string \<times> toml_value) list"

record 's file_env =
  read_to_string :: "string \<Rightarrow> 's \<Rightarrow> (string, string) result \<times> 's"
  file_extension :: "string \<Rightarrow> string option"
  from_json :: "string \<Rightarrow> (json, string) result"
  from_toml :: "string \<Rightarrow> (toml_value, string) result"
  is_finite :: "f64 \<Rightarrow> bool"
  show_number :: "json_number \<Rightarrow> string"

definition json_integer :: "int \<Rightarrow> json_number" where
  "json_integer i = (if 0 \<le> i then PosInt (of_int i) else NegInt i)"

fun toml_to_json :: "(f64 \<Rightarrow> bool) \<Rightarrow> toml_value \<Rightarrow> json" where
  "toml_to_json fin (TomlString s) = JString s"
| "toml_to_json fin (TomlInteger i) = JNumber (json_integer i)"
| "toml_to_json fin (TomlFloat f) = (if fin f then JNumber (Float f) else JNull)"
| "toml_to_json fin (TomlBoolean b) = JBool b"
| "toml_to_json fin (TomlDatetime d) = JString d"
| "toml_to_json fin (TomlArray vs) = JArray (map (toml_to_json fin) vs)"
| "toml_to_json fin (TomlTable kvs) = JObject (map (map_prod id (toml_to_json fin)) kvs)"

fun lookup_parts :: "json \<Rightarrow> string list \<Rightarrow> json option" where
  "lookup_parts cur [] = Some cur"
| "lookup_parts cur (part # parts) = Option.bind (json_get part cur) (\<lambda>v. lookup_parts v parts)"

definition lookup_dotted :: "json \<Rightarrow> string \<Rightarrow> json option" where
  "lookup_dotted root dotted = lookup_parts root (split_on (CHR ''.'') dotted)"

fun value_to_string :: "(json_number \<Rightarrow> string) \<Rightarrow> json \<Rightarrow> string option" where
  "value_to_string shown (JString s) = Some s"
| "value_to_string shown (JNumber n) = Some (shown n)"
| "value_to_string shown (JBool b) = Some (if b then ''true'' else ''false'')"
| "value_to_string shown _ = None"

record 's file_provider =
  cache :: "string \<rightharpoonup> json"
  files :: 's

definition parse_file :: "'s file_env \<Rightarrow> string \<Rightarrow> string \<Rightarrow> (json, config_error) result" where
  "parse_file F path raw =
     (case file_extension F path of
        Some e \<Rightarrow>
          if e = ''json'' then res_map_err (Resolution (''file:'' @ path)) (from_json F raw)
          else if e = ''toml'' then
            res_map_err (Resolution (''file:'' @ path)) (res_map (toml_to_json (is_finite F)) (from_toml F raw))
          else Err (InvalidValue path ''file must have .toml or .json extension'')
      | None \<Rightarrow> Err (InvalidValue path ''file must have .toml or .json extension''))"

definition load :: "'s file_env \<Rightarrow> string \<Rightarrow> 's file_provider \<Rightarrow> (json, config_error) result \<times> 's file_provider" where
  "load F path p =
     (case cache p path of
        Some v \<Rightarrow> (Ok v, p)
      | None \<Rightarrow>
          (case read_to_string F path (files p) of
             (Err e, s) \<Rightarrow> (Err (Resolution (''file:'' @ path) e), p\<lparr>files := s\<rparr>)
           | (Ok raw, s) \<Rightarrow>
               (case parse_file F path raw of
                  Err e \<Rightarrow> (Err e, p\<lparr>files := s\<rparr>)
                | Ok v \<Rightarrow> (Ok v, p\<lparr>files := s, cache := (cache p)(path \<mapsto> v)\<rparr>))))"

definition dotted_value :: "'s file_env \<Rightarrow> string \<Rightarrow> string \<Rightarrow> json \<Rightarrow> (string, config_error) result" where
  "dotted_value F path key v =
     res_bind (ok_or (MissingKey (''file:'' @ path @ '':'' @ key)) (lookup_dotted v key))
       (\<lambda>r. ok_or (InvalidValue (''file:'' @ path @ '':'' @ key) ''value is not a scalar'') (value_to_string (show_number F) r))"

definition file_lookup :: "'s file_env \<Rightarrow> 's file_provider lookup" where
  "file_lookup F path key p =
     (case key of
        None \<Rightarrow> (Err (InvalidValue path ''file references require a key: ${file:/path:key}''), p)
      | Some k \<Rightarrow> apfst (\<lambda>r. res_bind r (dotted_value F path k)) (load F path p))"

subsection \<open>The resolver\<close>

type_synonym 's resolver = "string \<rightharpoonup> 's lookup"

definition register_provider :: "string \<Rightarrow> 's lookup \<Rightarrow> 's resolver \<Rightarrow> 's resolver" where
  "register_provider scheme l R = R(scheme \<mapsto> l)"

definition with_defaults :: "(string \<Rightarrow> string option) \<Rightarrow> 's file_env \<Rightarrow> 's file_provider resolver" where
  "with_defaults var F =
     register_provider ''file'' (file_lookup F)
       (register_provider ''env'' (\<lambda>path key p. (env_lookup var path key, p)) Map.empty)"

fun resolve_segments :: "'s resolver \<Rightarrow> segment list \<Rightarrow> string \<Rightarrow> 's \<Rightarrow> (string, config_error) result \<times> 's" where
  "resolve_segments R [] out s = (Ok out, s)"
| "resolve_segments R (Literal t # segs) out s = resolve_segments R segs (out @ t) s"
| "resolve_segments R (Ref scheme path key # segs) out s =
     (case R scheme of
        None \<Rightarrow> (Err (UnknownProvider scheme), s)
      | Some l \<Rightarrow>
          (case l path key s of
             (Err e, s') \<Rightarrow> (Err e, s')
           | (Ok v, s') \<Rightarrow> resolve_segments R segs (out @ v) s'))"

definition resolve_value :: "'s resolver \<Rightarrow> string \<Rightarrow> 's \<Rightarrow> (string, config_error) result \<times> 's" where
  "resolve_value R v s =
     (case parse v of Err e \<Rightarrow> (Err e, s) | Ok segs \<Rightarrow> resolve_segments R segs [] s)"

text \<open>A configuration is an ordered map: its entries in the order of their keys.\<close>

record resolved_config =
  resolved :: "(string \<times> string) list"
  original :: "(string \<times> string) list"

fun resolve_entries ::
    "'s resolver \<Rightarrow> (string \<times> string) list \<Rightarrow> 's \<Rightarrow> ((string \<times> string) list, config_error) result \<times> 's" where
  "resolve_entries R [] s = (Ok [], s)"
| "resolve_entries R ((k, v) # kvs) s =
     (case resolve_value R v s of
        (Err e, s') \<Rightarrow> (Err e, s')
      | (Ok v', s') \<Rightarrow> apfst (res_map (Cons (k, v'))) (resolve_entries R kvs s'))"

definition resolve ::
    "'s resolver \<Rightarrow> (string \<times> string) list \<Rightarrow> 's \<Rightarrow> (resolved_config, config_error) result \<times> 's" where
  "resolve R raw s = apfst (res_map (\<lambda>kvs. \<lparr>resolved = kvs, original = raw\<rparr>)) (resolve_entries R raw s)"

definition config_get :: "resolved_config \<Rightarrow> string \<Rightarrow> string option" where
  "config_get c key = map_of (resolved c) key"

definition config_require :: "resolved_config \<Rightarrow> string \<Rightarrow> (string, config_error) result" where
  "config_require c key = ok_or (MissingKey key) (config_get c key)"

definition provider_class :: "resolved_config \<Rightarrow> (string, config_error) result" where
  "provider_class c = config_require c ''provider.class''"

subsection \<open>Lemmas\<close>

text \<open>How a value is written: a dollar sign of a literal is doubled.\<close>

definition escape :: "string \<Rightarrow> string" where
  "escape s = concat (map (\<lambda>c. if c = CHR ''$'' then ''$$'' else [c]) s)"

fun render :: "segment \<Rightarrow> string" where
  "render (Literal s) = escape s"
| "render (Ref scheme path key) =
     ''${'' @ scheme @ '':'' @ path @ (case key of None \<Rightarrow> [] | Some k \<Rightarrow> '':'' @ k) @ ''}''"

definition is_ascii :: "char \<Rightarrow> bool" where
  "is_ascii c \<longleftrightarrow> (of_char c :: nat) < 128"

fun wf_segment :: "segment \<Rightarrow> bool" where
  "wf_segment (Literal s) \<longleftrightarrow> s \<noteq> [] \<and> list_all is_ascii s"
| "wf_segment (Ref scheme path key) \<longleftrightarrow>
     scheme \<noteq> [] \<and> path \<noteq> [] \<and> CHR '':'' \<notin> set scheme \<and> CHR '':'' \<notin> set path
   \<and> CHR ''}'' \<notin> set scheme \<and> CHR ''}'' \<notin> set path
   \<and> (case key of None \<Rightarrow> True | Some k \<Rightarrow> CHR ''}'' \<notin> set k)"

fun is_literal :: "segment \<Rightarrow> bool" where
  "is_literal (Literal _) = True"
| "is_literal (Ref _ _ _) = False"

text \<open>Well-formed segments, with no two literals next to each other.\<close>

fun wf_segments :: "segment list \<Rightarrow> bool" where
  "wf_segments [] = True"
| "wf_segments (x # xs) \<longleftrightarrow> wf_segment x \<and> wf_segments xs
     \<and> (is_literal x \<longrightarrow> xs = [] \<or> \<not> is_literal (hd xs))"

lemma byte_as_char_ascii: "is_ascii c \<Longrightarrow> byte_as_char c = [c]"
  by (simp add: byte_as_char_def is_ascii_def Let_def)

lemma parse_from_char: "c \<noteq> CHR ''$'' \<Longrightarrow> parse_from full (c # rest) buf out = parse_from full rest (buf @ byte_as_char c) out"
  by (simp add: parse_from.simps)

lemma parse_from_dollar:
  "parse_from full (CHR ''$'' # CHR ''$'' # rest) buf out = parse_from full rest (buf @ ''$'') out"
  by (subst parse_from.simps) simp

lemma parse_from_open:
  assumes "CHR ''}'' \<notin> set body" and "parse_ref_body body full = Ok seg"
  shows "parse_from full (CHR ''$'' # CHR ''{'' # body @ CHR ''}'' # rest) buf out
    = parse_from full rest [] (flush_literal buf out @ [seg])"
  using assms by (subst parse_from.simps) simp

lemma parse_from_escape:
  "list_all is_ascii s \<Longrightarrow> parse_from full (escape s @ rest) buf out = parse_from full rest (buf @ s) out"
proof (induction s arbitrary: buf)
  case Nil
  show ?case by (simp add: escape_def)
next
  case (Cons c s)
  show ?case
  proof (cases "c = CHR ''$''")
    case True
    then have "escape (c # s) @ rest = CHR ''$'' # CHR ''$'' # escape s @ rest" by (simp add: escape_def)
    with Cons True show ?thesis by (simp add: parse_from_dollar)
  next
    case False
    then have "escape (c # s) @ rest = c # escape s @ rest" by (simp add: escape_def)
    with Cons False show ?thesis by (simp add: parse_from_char byte_as_char_ascii)
  qed
qed

lemma parse_ref_body_render:
  assumes "wf_segment (Ref scheme path key)"
  shows "parse_ref_body (scheme @ '':'' @ path @ (case key of None \<Rightarrow> [] | Some k \<Rightarrow> '':'' @ k)) full = Ok (Ref scheme path key)"
proof (cases key)
  case None
  with assms show ?thesis by (simp add: parse_ref_body_def split_once_None [THEN iffD2])
next
  case (Some k)
  with assms show ?thesis by (simp add: parse_ref_body_def)
qed

lemma parse_from_ref:
  assumes "wf_segment (Ref scheme path key)"
  shows "parse_from full (render (Ref scheme path key) @ rest) buf out
    = parse_from full rest [] (flush_literal buf out @ [Ref scheme path key])"
proof -
  let ?body = "scheme @ '':'' @ path @ (case key of None \<Rightarrow> [] | Some k \<Rightarrow> '':'' @ k)"
  have r: "render (Ref scheme path key) @ rest = CHR ''$'' # CHR ''{'' # ?body @ CHR ''}'' # rest" by simp
  have n: "CHR ''}'' \<notin> set ?body" using assms by (auto split: option.splits)
  show ?thesis unfolding r by (rule parse_from_open [OF n parse_ref_body_render [OF assms]])
qed

lemma parse_from_segments:
  assumes "wf_segments segs" and "segs \<noteq> [] \<Longrightarrow> is_literal (hd segs) \<Longrightarrow> buf = []"
  shows "parse_from full (concat (map render segs)) buf out = Ok (flush_literal buf out @ segs)"
  using assms
proof (induction segs arbitrary: buf out)
  case Nil
  show ?case by (simp add: parse_from.simps)
next
  case (Cons x xs)
  show ?case
  proof (cases x)
    case (Literal s)
    with Cons.prems have b: "buf = []" and s: "s \<noteq> []" "list_all is_ascii s" by simp_all
    have "parse_from full (concat (map render (x # xs))) buf out = parse_from full (concat (map render xs)) s out"
      using Literal b parse_from_escape [OF s(2)] by simp
    also have "\<dots> = Ok (flush_literal s out @ xs)"
      by (rule Cons.IH) (use Cons.prems Literal in auto)
    finally show ?thesis using Literal b s(1) by (simp add: flush_literal_def)
  next
    case (Ref scheme path key)
    with Cons.prems have w: "wf_segment (Ref scheme path key)" "wf_segments xs" by simp_all
    have "parse_from full (concat (map render (x # xs))) buf out
        = parse_from full (concat (map render xs)) [] (flush_literal buf out @ [x])"
      using parse_from_ref [OF w(1)] Ref by simp
    also have "\<dots> = Ok (flush_literal [] (flush_literal buf out @ [x]) @ xs)"
      by (rule Cons.IH [OF w(2)]) simp
    finally show ?thesis by (simp add: flush_literal_def)
  qed
qed

lemma parse_from_no_dollar:
  "CHR ''$'' \<notin> set v \<Longrightarrow> parse_from full v buf out = Ok (flush_literal (buf @ concat (map byte_as_char v)) out)"
  by (induction v arbitrary: buf) (auto simp: parse_from.simps(1) parse_from_char)

lemma byte_as_char_length: "length (byte_as_char c) = (if is_ascii c then 1 else 2)"
  by (simp add: byte_as_char_def is_ascii_def Let_def)

lemma concat_byte_as_char_eq: "concat (map byte_as_char v) = v \<longleftrightarrow> list_all is_ascii v"
proof
  have len: "length (concat (map byte_as_char v)) = length v + length (filter (\<lambda>c. \<not> is_ascii c) v)" for v
    by (induction v) (simp_all add: byte_as_char_length)
  assume "concat (map byte_as_char v) = v"
  with len [of v] have "filter (\<lambda>c. \<not> is_ascii c) v = []" by simp
  then show "list_all is_ascii v" by (simp add: filter_empty_conv list_all_iff)
next
  assume "list_all is_ascii v"
  then show "concat (map byte_as_char v) = v" by (induction v) (simp_all add: byte_as_char_ascii)
qed

lemma load_keeps_cache:
  "cache p q = Some v \<Longrightarrow> cache (snd (load F path p)) q = Some v"
  by (auto simp: load_def split: option.splits prod.splits result.splits)

lemma load_cached: "cache p path = Some v \<Longrightarrow> load F path p = (Ok v, p)"
  by (simp add: load_def)

lemma load_fills: "load F path p = (Ok v, p') \<Longrightarrow> cache p' path = Some v"
  by (auto simp: load_def split: option.splits prod.splits result.splits)

subsection \<open>What a provider promises\<close>

text \<open>
  The contract of a provider: a reference that was answered is settled, stays settled whatever is
  looked up, and is answered from then on without any effect.
\<close>

locale config_provider =
  fixes lookup :: "'s lookup" and settled :: "'s \<Rightarrow> string \<Rightarrow> string option \<Rightarrow> string option"
  assumes settles: "lookup p k s = (Ok v, s') \<Longrightarrow> settled s' p k = Some v"
    and keeps: "settled s p k = Some v \<Longrightarrow> settled (snd (lookup q j s)) p k = Some v"
    and answers: "settled s p k = Some v \<Longrightarrow> lookup p k s = (Ok v, s)"
begin

definition lookups :: "(string \<times> string option) list \<Rightarrow> 's \<Rightarrow> 's" where
  "lookups refs s = foldl (\<lambda>s (p, k). snd (lookup p k s)) s refs"

lemma lookups_keep: "settled s p k = Some v \<Longrightarrow> settled (lookups refs s) p k = Some v"
  unfolding lookups_def by (induction refs arbitrary: s) (auto simp: keeps)

lemma consistent:
  assumes "lookup p k s = (Ok v, s')"
  shows "lookup p k (lookups refs s') = (Ok v, lookups refs s')"
  by (rule answers, rule lookups_keep, rule settles [OF assms])

end

interpretation env_provider: config_provider "\<lambda>p k s. (env_lookup var p k, s)" "\<lambda>s p k. if k = None then var p else None"
  for var :: "string \<Rightarrow> string option"
  by unfold_locales (auto simp: env_lookup_def split: if_splits)

definition file_settled :: "'s file_env \<Rightarrow> 's file_provider \<Rightarrow> string \<Rightarrow> string option \<Rightarrow> string option" where
  "file_settled F s p k =
     Option.bind k (\<lambda>key. Option.bind (cache s p) (\<lambda>v.
       case dotted_value F p key v of Ok x \<Rightarrow> Some x | Err _ \<Rightarrow> None))"

interpretation file_provider: config_provider "file_lookup F" "file_settled F" for F :: "'s file_env"
proof unfold_locales
  fix p k s v s'
  assume l: "file_lookup F p k s = (Ok v, s')"
  then obtain key where k: "k = Some key" by (cases k) (auto simp: file_lookup_def)
  obtain r s1 where e: "load F p s = (r, s1)" by (cases "load F p s")
  with l k obtain x where x: "load F p s = (Ok x, s')" "dotted_value F p key x = Ok v"
    by (auto simp: file_lookup_def res_bind_Ok)
  with load_fills [OF x(1)] k show "file_settled F s' p k = Some v" by (simp add: file_settled_def)
next
  fix s p k v q j
  assume "file_settled F s p k = Some v"
  then show "file_settled F (snd (file_lookup F q j s)) p k = Some v"
    by (cases j) (auto simp: file_settled_def file_lookup_def bind_eq_Some_conv dest: load_keeps_cache)
next
  fix s p k v
  assume "file_settled F s p k = Some v"
  then obtain key x where "k = Some key" "cache s p = Some x"
      "(case dotted_value F p key x of Ok y \<Rightarrow> Some y | Err _ \<Rightarrow> None) = Some v"
    by (auto simp: file_settled_def bind_eq_Some_conv)
  then show "file_lookup F p k s = (Ok v, s)"
    by (cases "dotted_value F p key x") (simp_all add: file_lookup_def load_cached)
qed

lemma resolve_entries_keys:
  "resolve_entries R kvs s = (Ok r, s') \<Longrightarrow> map fst r = map fst kvs"
proof (induction kvs arbitrary: s r)
  case (Cons kv kvs)
  obtain k v where kv: "kv = (k, v)" by (cases kv)
  obtain x s1 where v: "resolve_value R v s = (x, s1)" by (cases "resolve_value R v s")
  with Cons.prems kv obtain v' where x: "x = Ok v'" by (cases x) auto
  obtain y s2 where e: "resolve_entries R kvs s1 = (y, s2)" by (cases "resolve_entries R kvs s1")
  with Cons.prems kv v x obtain r' where "y = Ok r'" "r = (k, v') # r'" "s' = s2" by auto
  with Cons.IH [of s1 r'] e kv show ?case by simp
qed simp

subsection \<open>Properties\<close>



text \<open>
  A literal value keeps its text only if it is ASCII. A value without a dollar sign resolves
  to its bytes turned into characters one by one; that is the value itself exactly when all of
  them are below 128, and every other byte becomes two.
\<close>

theorem literal_value_resolution:
  assumes "CHR ''$'' \<notin> set v"
  shows "resolve_value R v s = (Ok (concat (map byte_as_char v)), s)
    \<and> (concat (map byte_as_char v) = v \<longleftrightarrow> list_all is_ascii v)"
proof -
  have "parse v = Ok (flush_literal (concat (map byte_as_char v)) [])"
    using parse_from_no_dollar [OF assms, of v "[]" "[]"] by (simp add: parse_def)
  then show ?thesis by (simp add: resolve_value_def flush_literal_def concat_byte_as_char_eq)
qed

theorem literal_value_resolution_witness:
  "\<forall>R s. fst (resolve_value R [CHR 0xC3, CHR 0xA9] s) = Ok [CHR 0xC3, CHR 0x83, CHR 0xC2, CHR 0xA9]"
proof (intro allI)
  fix R :: "'a resolver" and s
  have "CHR ''$'' \<notin> set [CHR 0xC3, CHR 0xA9]" by simp
  moreover have "concat (map byte_as_char [CHR 0xC3, CHR 0xA9]) = [CHR 0xC3, CHR 0x83, CHR 0xC2, CHR 0xA9]" by code_simp
  ultimately show "fst (resolve_value R [CHR 0xC3, CHR 0xA9] s) = Ok [CHR 0xC3, CHR 0x83, CHR 0xC2, CHR 0xA9]"
    using literal_value_resolution [of "[CHR 0xC3, CHR 0xA9]" R s] by simp
qed

text \<open>
  A secret of a file is the same for every reference to it. Once a reference into a file was
  resolved, it resolves to the same value after any sequence of other lookups, successful or not,
  and without reading the file again, even if the file has changed in the meantime.
\<close>

theorem file_references_consistent:
  assumes "file_lookup F p k s = (Ok v, s')"
    and "s'' = foldl (\<lambda>s (q, j). snd (file_lookup F q j s)) s' refs"
  shows "file_lookup F p k s'' = (Ok v, s'')"
  using file_provider.consistent [OF assms(1), of refs] assms(2) by (simp add: file_provider.lookups_def)

text \<open>A file that is different at every read.\<close>

definition moody_files :: "nat file_env" where
  "moody_files =
     \<lparr>read_to_string = (\<lambda>p n. (Ok (if n = 0 then ''x'' else ''y''), n + 1)), file_extension = (\<lambda>_. Some ''json''),
      from_json = (\<lambda>t. Ok (JObject [(''k'', JString t)])), from_toml = (\<lambda>_. Err []), is_finite = (\<lambda>_. True),
      show_number = (\<lambda>_. [])\<rparr>"

theorem file_references_consistent_witness:
  "\<exists>s. fst (file_lookup moody_files ''f'' (Some ''k'') s) = Ok ''x'' \<and> files s = 2
     \<and> fst (file_lookup moody_files ''g'' (Some ''k'') s) = Ok ''y''"
proof -
  let ?s0 = "\<lparr>cache = Map.empty, files = 0\<rparr> :: nat file_provider"
  have k: "split_on (CHR ''.'') ''k'' = [''k'']" by simp
  note ev = file_lookup_def load_def moody_files_def parse_file_def dotted_value_def lookup_dotted_def k
  let ?s1 = "\<lparr>cache = [''f'' \<mapsto> JObject [(''k'', JString ''x'')]], files = 1\<rparr> :: nat file_provider"
  have 1: "file_lookup moody_files ''f'' (Some ''k'') ?s0 = (Ok ''x'', ?s1)" by (simp add: ev)
  let ?s2 = "foldl (\<lambda>s (q, j). snd (file_lookup moody_files q j s)) ?s1 [(''g'', Some ''k'')]"
  from file_references_consistent [OF 1 refl, of "[(''g'', Some ''k'')]"]
  have "fst (file_lookup moody_files ''f'' (Some ''k'') ?s2) = Ok ''x''" by simp
  moreover have "files ?s2 = 2" "fst (file_lookup moody_files ''g'' (Some ''k'') ?s2) = Ok ''y''"
    by (simp_all add: ev)
  ultimately show ?thesis by blast
qed

end
