(* ===== verification/Local_Provider.thy ===== *)
theory Local_Provider
  imports Secret_Config Processes Stream_Broker "HOL-Library.Char_ord" "HOL-Library.List_Lexorder"
begin

text \<open>
  The compute provider that runs every node as a local process
  (\<^verbatim>\<open>compute/src/providers/local.rs\<close>), with the types of nodes and the contract of a
  provider (\<^verbatim>\<open>node.rs\<close>, \<^verbatim>\<open>exec.rs\<close>, \<^verbatim>\<open>provider.rs\<close>). The operating system, the
  broadcast channel of the log and the clock are parameters.
\<close>

subsection \<open>Ordered maps\<close>

text \<open>The map of nodes is ordered by its keys, byte by byte.\<close>

fun bt_insert :: "'k::linorder \<Rightarrow> 'v \<Rightarrow> ('k \<times> 'v) list \<Rightarrow> ('k \<times> 'v) list" where
  "bt_insert k v [] = [(k, v)]"
| "bt_insert k v ((k', v') # m) =
     (if k < k' then (k, v) # (k', v') # m
      else if k = k' then (k, v) # m
      else (k', v') # bt_insert k v m)"

definition bt_remove :: "'k \<Rightarrow> ('k \<times> 'v) list \<Rightarrow> ('k \<times> 'v) list" where
  "bt_remove k m = filter (\<lambda>(k', _). k' \<noteq> k) m"

definition bt_sorted :: "('k::linorder \<times> 'v) list \<Rightarrow> bool" where
  "bt_sorted m \<longleftrightarrow> sorted_wrt (<) (map fst m)"

lemma bt_insert_lookup: "map_of (bt_insert k v m) = (map_of m)(k \<mapsto> v)"
  by (induction m) (auto simp: fun_eq_iff)

lemma bt_insert_keys: "fst ` set (bt_insert k v m) = insert k (fst ` set m)"
  by (induction k v m rule: bt_insert.induct) (simp_all add: insert_commute)

lemma bt_insert_sorted: "bt_sorted m \<Longrightarrow> bt_sorted (bt_insert k v m)"
proof (induction m)
  case (Cons p m)
  then show ?case using bt_insert_keys [of k v m]
    by (cases p) (force simp: bt_sorted_def)
qed (simp add: bt_sorted_def)

lemma bt_remove_lookup: "map_of (bt_remove k m) = (map_of m)(k := None)"
  unfolding bt_remove_def by (induction m) (auto simp: fun_eq_iff)

lemma bt_remove_keys: "fst ` set (bt_remove k m) = fst ` set m - {k}"
  unfolding bt_remove_def by force

lemma bt_remove_sorted: "bt_sorted m \<Longrightarrow> bt_sorted (bt_remove k m)"
  unfolding bt_sorted_def bt_remove_def by (induction m) auto

lemma bt_sorted_distinct: "bt_sorted m \<Longrightarrow> distinct (map fst m)"
  unfolding bt_sorted_def by (simp add: strict_sorted_iff)

subsection \<open>Nodes\<close>

datatype provider_error = NotFound string | InvalidConfig config_error | Backend string | Timeout | Io string

record node_spec =
  spec_image :: string
  spec_cpu :: "u32 option"
  spec_memory_gb :: "u32 option"
  spec_disk_gb :: "u32 option"
  spec_env :: "(string \<times> string) list"
  spec_jwt :: string

record node_handle =
  handle_id :: string
  provider_metadata :: json

datatype node_status = NodePending | NodeRunning | NodeIdle | NodeExited | NodeErrored

text \<open>An identifier of a node is a string, which it prints as and is read from; network data is not filled in by this provider.\<close>

type_synonym node_id = string

definition node_id_display :: "node_id \<Rightarrow> string" where "node_id_display i = i"

definition node_id_from_str :: "string \<Rightarrow> (node_id, unit) result" where "node_id_from_str s = Ok s"

record network_info =
  net_ip :: "string option"
  net_ssh_url :: "string option"
  net_extra :: "(string \<times> json) list"

record node_description =
  desc_handle :: node_handle
  desc_status :: node_status
  desc_image :: string
  desc_cpu :: "u32 option"
  desc_memory_gb :: "u32 option"
  desc_disk_gb :: "u32 option"
  desc_network :: "network_info option"
  desc_created_at :: nat

record exec_request =
  exec_command :: "string list"
  exec_cwd :: "string option"
  exec_env :: "(string \<times> string) list option"
  exec_timeout_s :: "u32 option"

record exec_result =
  exec_stdout :: string
  exec_stderr :: string
  exec_exit_code :: int

subsection \<open>The provider\<close>

definition PROVIDER_TYPE :: string where "PROVIDER_TYPE = ''local-process''"
definition DEFAULT_AGENT_BINARY :: string where "DEFAULT_AGENT_BINARY = ''overacp-agent''"
definition LOG_CHANNEL_CAPACITY :: nat where "LOG_CHANNEL_CAPACITY = 1024"

text \<open>\<open>node_pumps\<close> are the streams of the process that a background task copies to the log.\<close>

record ('ch, 'rd, 'tx) local_node =
  node_handle_of :: node_handle
  node_workspace :: string
  node_image :: string
  node_cpu :: "u32 option"
  node_memory_gb :: "u32 option"
  node_disk_gb :: "u32 option"
  node_created_at :: nat
  node_child :: "'ch option"
  node_logs_tx :: 'tx
  node_pumps :: "'rd list"
  node_status_of :: node_status

text \<open>
  A node that was deleted is no longer in the map; \<open>removed\<close> keeps what was last written to it,
  which no later call reads.
\<close>

record ('ch, 'rd, 'tx) local_provider =
  agent_binary :: string
  workspace_root :: string
  nodes :: "(string \<times> ('ch, 'rd, 'tx) local_node) list"
  removed :: "('ch, 'rd, 'tx) local_node list"

record raw_output =
  raw_stdout :: string
  raw_stderr :: string
  raw_code :: "int option"

text \<open>
  The operating system. Waiting may not return. Running a command under a deadline gives None when
  the deadline passes first.
\<close>

record ('ch, 'rd, 'tx, 'rx, 'w) node_os =
  new_uuid_simple :: "'w \<Rightarrow> string \<times> 'w"
  path_join :: "string \<Rightarrow> string \<Rightarrow> string"
  create_dir_all :: "string \<Rightarrow> 'w \<Rightarrow> (unit, string) result \<times> 'w"
  remove_dir_all :: "string \<Rightarrow> 'w \<Rightarrow> 'w"
  node_spawn :: "command \<Rightarrow> 'w \<Rightarrow> ('ch, string) result \<times> 'w"
  child_pid :: "'ch \<Rightarrow> nat option"
  take_stdout :: "'ch \<Rightarrow> 'rd option"
  take_stderr :: "'ch \<Rightarrow> 'rd option"
  start_kill :: "'ch \<Rightarrow> 'w \<Rightarrow> 'w"
  child_wait :: "'ch \<Rightarrow> 'w \<Rightarrow> 'w option"
  utc_now :: "'w \<Rightarrow> nat"
  log_channels :: "('tx, 'rx, 'w) broadcast_lib"
  command_output :: "command \<Rightarrow> nat option \<Rightarrow> 'w \<Rightarrow> (raw_output, string) result option \<times> 'w"
  utf8_lossy :: "string \<Rightarrow> string"

definition provider_new :: "string \<Rightarrow> string \<Rightarrow> ('ch, 'rd, 'tx) local_provider" where
  "provider_new binary root = \<lparr>agent_binary = binary, workspace_root = root, nodes = [], removed = []\<rparr>"

text \<open>What the trait says of a provider that does not say it itself, as this one.\<close>

definition provider_type :: string where "provider_type = PROVIDER_TYPE"
definition supports_multi_agent_nodes :: bool where "supports_multi_agent_nodes = False"
definition supports_node_reuse :: bool where "supports_node_reuse = False"

text \<open>A raw configuration is a map with strings for keys and values, and the resolver keeps it.\<close>

type_synonym raw_config = "(string \<times> string) list"

definition raw_config_new :: raw_config where "raw_config_new = []"

definition raw_config_insert :: "string \<Rightarrow> string \<Rightarrow> raw_config \<Rightarrow> raw_config" where
  "raw_config_insert k v m = bt_insert k v m"

definition raw_config_from_iter :: "(string \<times> string) list \<Rightarrow> raw_config" where
  "raw_config_from_iter kvs = fold (\<lambda>(k, v). bt_insert k v) kvs []"

definition config_original :: "resolved_config \<Rightarrow> raw_config" where "config_original c = original c"
definition config_resolved :: "resolved_config \<Rightarrow> raw_config" where "config_resolved c = resolved c"

definition get_node ::
    "('ch, 'rd, 'tx) local_provider \<Rightarrow> string \<Rightarrow> (('ch, 'rd, 'tx) local_node, provider_error) result" where
  "get_node p i = ok_or (NotFound i) (map_of (nodes p) i)"

definition provider_from_config ::
    "(string \<Rightarrow> string \<Rightarrow> string) \<Rightarrow> string \<Rightarrow> resolved_config \<Rightarrow> ('ch, 'rd, 'tx) local_provider" where
  "provider_from_config join temp_dir c =
     provider_new (unwrap_or DEFAULT_AGENT_BINARY (config_get c ''local.agent_binary''))
       (unwrap_or (join temp_dir ''overacp-local'') (config_get c ''local.workspace_root''))"

fun validate_keys :: "(string \<Rightarrow> json option) \<Rightarrow> string list \<Rightarrow> (unit, config_error) result" where
  "validate_keys cfg [] = Ok ()"
| "validate_keys cfg (key # keys) =
     (case cfg key of
        Some v \<Rightarrow> if as_str v = None then Err (InvalidValue key ''must be a string'') else validate_keys cfg keys
      | None \<Rightarrow> validate_keys cfg keys)"

definition validate_config :: "(string \<Rightarrow> json option) \<Rightarrow> (unit, config_error) result" where
  "validate_config cfg = validate_keys cfg [''local.agent_binary'', ''local.workspace_root'']"

text \<open>The variable of the agent's token is set last, over the ones of the request.\<close>

definition node_command :: "('ch, 'rd, 'tx) local_provider \<Rightarrow> string \<Rightarrow> node_spec \<Rightarrow> command" where
  "node_command p ws spec =
     set_env ''OVERACP_AGENT_JWT'' (spec_jwt spec)
       (set_envs (spec_env spec)
         ((command_new (agent_binary p))
            \<lparr>cmd_dir := Some ws, cmd_stdin := Null, cmd_stdout := Piped, cmd_stderr := Piped, kill_on_drop := True\<rparr>))"

definition spawned_node ::
    "('ch, 'rd, 'tx, 'rx, 'w) node_os \<Rightarrow> node_spec \<Rightarrow> string \<Rightarrow> 'ch \<Rightarrow> nat \<Rightarrow> 'tx \<Rightarrow> 'w \<Rightarrow> ('ch, 'rd, 'tx) local_node" where
  "spawned_node Q spec ws child pid tx w =
     \<lparr>node_handle_of =
        \<lparr>handle_id = show_nat pid,
         provider_metadata = JObject [(''pid'', JNumber (PosInt (of_nat pid))), (''workspace'', JString ws)]\<rparr>,
      node_workspace = ws, node_image = spec_image spec, node_cpu = spec_cpu spec,
      node_memory_gb = spec_memory_gb spec, node_disk_gb = spec_disk_gb spec, node_created_at = utc_now Q w,
      node_child = Some child, node_logs_tx = tx,
      node_pumps = (case take_stdout Q child of Some r \<Rightarrow> [r] | None \<Rightarrow> [])
        @ (case take_stderr Q child of Some r \<Rightarrow> [r] | None \<Rightarrow> []),
      node_status_of = NodeRunning\<rparr>"

definition create_node ::
    "('ch, 'rd, 'tx, 'rx, 'w) node_os \<Rightarrow> node_spec \<Rightarrow> ('ch, 'rd, 'tx) local_provider \<times> 'w
      \<Rightarrow> (node_handle, provider_error) result \<times> ('ch, 'rd, 'tx) local_provider \<times> 'w" where
  "create_node Q spec s =
     (case s of (p, w) \<Rightarrow>
      (case new_uuid_simple Q w of (u, w1) \<Rightarrow>
       let ws = path_join Q (workspace_root p) (''node-'' @ u) in
       (case create_dir_all Q ws w1 of
          (Err e, w2) \<Rightarrow> (Err (Io e), p, w2)
        | (Ok _, w2) \<Rightarrow>
            (case node_spawn Q (node_command p ws spec) w2 of
               (Err e, w3) \<Rightarrow> (Err (Backend (''spawn '' @ agent_binary p @ '': '' @ e)), p, w3)
             | (Ok child, w3) \<Rightarrow>
                 (case child_pid Q child of
                    None \<Rightarrow> (Err (Backend ''child has no pid''), p, w3)
                  | Some pid \<Rightarrow>
                      (case bc_channel (log_channels Q) LOG_CHANNEL_CAPACITY w3 of (tx, w4) \<Rightarrow>
                         let node = spawned_node Q spec ws child pid tx w4
                         in (Ok (node_handle_of node), p\<lparr>nodes := bt_insert (show_nat pid) node (nodes p)\<rparr>, w4)))))))"

definition list_nodes :: "('ch, 'rd, 'tx) local_provider \<times> 'w \<Rightarrow> node_handle list" where
  "list_nodes s = map (node_handle_of \<circ> snd) (nodes (fst s))"

definition describe_node ::
    "string \<Rightarrow> ('ch, 'rd, 'tx) local_provider \<times> 'w \<Rightarrow> (node_description, provider_error) result" where
  "describe_node i s =
     res_map (\<lambda>n.
       \<lparr>desc_handle = node_handle_of n, desc_status = node_status_of n, desc_image = node_image n,
        desc_cpu = node_cpu n, desc_memory_gb = node_memory_gb n, desc_disk_gb = node_disk_gb n,
        desc_network = None, desc_created_at = node_created_at n\<rparr>)
     (get_node (fst s) i)"

definition stop_child :: "('ch, 'rd, 'tx, 'rx, 'w) node_os \<Rightarrow> 'ch option \<Rightarrow> 'w \<Rightarrow> 'w option" where
  "stop_child Q ch w = (case ch of None \<Rightarrow> Some w | Some c \<Rightarrow> child_wait Q c (start_kill Q c w))"

definition delete_node ::
    "('ch, 'rd, 'tx, 'rx, 'w) node_os \<Rightarrow> string \<Rightarrow> ('ch, 'rd, 'tx) local_provider \<times> 'w
      \<Rightarrow> ((unit, provider_error) result \<times> ('ch, 'rd, 'tx) local_provider \<times> 'w) option" where
  "delete_node Q i s =
     (case s of (p, w) \<Rightarrow>
      (case map_of (nodes p) i of
         None \<Rightarrow> Some (Ok (), p, w)
       | Some node \<Rightarrow>
           (case stop_child Q (node_child node) w of
              None \<Rightarrow> None
            | Some w' \<Rightarrow>
                Some (Ok (),
                  p\<lparr>nodes := bt_remove i (nodes p),
                    removed := node\<lparr>node_child := None, node_status_of := NodeExited\<rparr> # removed p\<rparr>,
                  remove_dir_all Q (node_workspace node) w'))))"

definition exec_output :: "('ch, 'rd, 'tx, 'rx, 'w) node_os \<Rightarrow> raw_output \<Rightarrow> exec_result" where
  "exec_output Q r =
     \<lparr>exec_stdout = utf8_lossy Q (raw_stdout r), exec_stderr = utf8_lossy Q (raw_stderr r),
      exec_exit_code = unwrap_or (- 1) (raw_code r)\<rparr>"

definition exec_cmd :: "string \<Rightarrow> exec_request \<Rightarrow> command" where
  "exec_cmd ws req =
     set_envs (unwrap_or [] (exec_env req))
       ((command_new (hd (exec_command req)))
          \<lparr>cmd_args := tl (exec_command req), cmd_dir := Some (unwrap_or ws (exec_cwd req)),
           cmd_stdin := Null, cmd_stdout := Piped, cmd_stderr := Piped, kill_on_drop := True\<rparr>)"

definition exec ::
    "('ch, 'rd, 'tx, 'rx, 'w) node_os \<Rightarrow> string \<Rightarrow> exec_request \<Rightarrow> ('ch, 'rd, 'tx) local_provider \<times> 'w
      \<Rightarrow> (exec_result, provider_error) result \<times> ('ch, 'rd, 'tx) local_provider \<times> 'w" where
  "exec Q i req s =
     (case s of (p, w) \<Rightarrow>
      (case get_node p i of
         Err e \<Rightarrow> (Err e, p, w)
       | Ok node \<Rightarrow>
           if exec_command req = [] then (Err (Backend ''command must be a non-empty argv array''), p, w)
           else
             (case command_output Q (exec_cmd (node_workspace node) req) (map_option unat (exec_timeout_s req)) w of
                (None, w') \<Rightarrow> (Err Timeout, p, w')
              | (Some (Err e), w') \<Rightarrow> (Err (Io e), p, w')
              | (Some (Ok r), w') \<Rightarrow> (Ok (exec_output Q r), p, w'))))"

text \<open>The stream of the log: a subscription, and the items a reader is given; lost ones are skipped.\<close>

definition stream_logs ::
    "('ch, 'rd, 'tx, 'rx, 'w) node_os \<Rightarrow> string \<Rightarrow> ('ch, 'rd, 'tx) local_provider \<times> 'w
      \<Rightarrow> ('rx, provider_error) result \<times> ('ch, 'rd, 'tx) local_provider \<times> 'w" where
  "stream_logs Q i s =
     (case s of (p, w) \<Rightarrow>
      (case get_node p i of
         Err e \<Rightarrow> (Err e, p, w)
       | Ok node \<Rightarrow> (case bc_subscribe (log_channels Q) (node_logs_tx node) w of (rx, w') \<Rightarrow> (Ok rx, p, w'))))"

datatype log_item = LogBytes string | Lagged nat

definition log_items :: "log_item list \<Rightarrow> (string, provider_error) result list" where
  "log_items its = concat (map (\<lambda>i. case i of LogBytes b \<Rightarrow> [Ok b] | Lagged n \<Rightarrow> []) its)"

text \<open>The task that copies a stream of the process: what \<open>read_line\<close> gives, the empty line being the end.\<close>

fun log_pump :: "('tx, 'rx, 'w) broadcast_lib \<Rightarrow> 'tx \<Rightarrow> (string, string) result list \<Rightarrow> 'w \<Rightarrow> 'w" where
  "log_pump B tx [] w = w"
| "log_pump B tx (Err e # ls) w = w"
| "log_pump B tx (Ok l # ls) w = (if l = [] then w else log_pump B tx ls (bc_send B tx l w))"

text \<open>
  A line that is no UTF-8 ends the copying: what the process prints afterwards reaches nobody,
  whatever it is.
\<close>

lemma log_pump_stops: "log_pump B tx (ls @ Err e # ls') w = log_pump B tx ls w"
  by (induction B tx ls w rule: log_pump.induct) simp_all

text \<open>A configuration that is collected from pairs is in order and holds the last value of every key.\<close>

lemma fold_bt_insert:
  "bt_sorted m \<Longrightarrow> bt_sorted (fold (\<lambda>(k, v). bt_insert k v) kvs m)
     \<and> map_of (fold (\<lambda>(k, v). bt_insert k v) kvs m) k = (case map_of (rev kvs) k of Some v \<Rightarrow> Some v | None \<Rightarrow> map_of m k)"
proof (induction kvs arbitrary: m)
  case (Cons kv kvs)
  obtain a b where kv: "kv = (a, b)" by (cases kv)
  from Cons.IH [of "bt_insert a b m"] Cons.prems show ?case
    by (simp add: kv bt_insert_sorted bt_insert_lookup map_add_def split: option.split)
qed simp

lemma raw_config_last_wins:
  "bt_sorted (raw_config_from_iter kvs) \<and> map_of (raw_config_from_iter kvs) = map_of (rev kvs)"
  using fold_bt_insert [of "[]" kvs] by (simp add: raw_config_from_iter_def bt_sorted_def fun_eq_iff split: option.split)

lemma resolve_keeps_original: "fst (resolve R raw s) = Ok c \<Longrightarrow> config_original c = raw"
  by (auto simp: resolve_def config_original_def apfst_def map_prod_def split: prod.splits)

subsection \<open>The contract of a provider\<close>

text \<open>
  What the trait promises of the operations on nodes. Creating a node makes it visible under the
  id of its handle and leaves the others as they were; a failed creation changes nothing visible;
  deleting hides the node, succeeds also when there is none, and leaves the others; the list is
  what can be described, once each.
\<close>

locale compute_provider =
  fixes create :: "'spec \<Rightarrow> 's \<Rightarrow> (node_handle, provider_error) result \<times> 's"
    and listed :: "'s \<Rightarrow> node_handle list"
    and describe :: "string \<Rightarrow> 's \<Rightarrow> (node_description, provider_error) result"
    and delete :: "string \<Rightarrow> 's \<Rightarrow> ((unit, provider_error) result \<times> 's) option"
    and inv :: "'s \<Rightarrow> bool"
  assumes create_ok: "inv s \<Longrightarrow> create spec s = (Ok h, s') \<Longrightarrow>
      inv s' \<and> (\<exists>d. describe (handle_id h) s' = Ok d \<and> desc_handle d = h)
      \<and> (\<forall>j. j \<noteq> handle_id h \<longrightarrow> describe j s' = describe j s)"
    and create_err: "inv s \<Longrightarrow> create spec s = (Err e, s') \<Longrightarrow> inv s' \<and> (\<forall>j. describe j s' = describe j s)"
    and delete_ok: "inv s \<Longrightarrow> delete i s = Some (r, s') \<Longrightarrow>
      r = Ok () \<and> inv s' \<and> describe i s' = Err (NotFound i) \<and> (\<forall>j. j \<noteq> i \<longrightarrow> describe j s' = describe j s)"
    and listed_described: "inv s \<Longrightarrow> distinct (map handle_id (listed s))
      \<and> (\<forall>h. h \<in> set (listed s) \<longleftrightarrow> (\<exists>d. describe (handle_id h) s = Ok d \<and> desc_handle d = h))"
    and described_handle: "inv s \<Longrightarrow> describe i s = Ok d \<Longrightarrow> handle_id (desc_handle d) = i"
begin

lemma listed_ids: "inv s \<Longrightarrow> handle_id ` set (listed s) = {i. is_ok (describe i s)}"
proof (intro equalityI subsetI)
  fix i assume "inv s" and "i \<in> handle_id ` set (listed s)"
  with listed_described [of s] show "i \<in> {i. is_ok (describe i s)}" by (auto simp: is_ok_iff)
next
  fix i assume s: "inv s" and "i \<in> {i. is_ok (describe i s)}"
  then obtain d where d: "describe i s = Ok d" by (auto simp: is_ok_iff)
  with described_handle [OF s d] have "desc_handle d \<in> set (listed s)" using listed_described [OF s] by blast
  with described_handle [OF s d] show "i \<in> handle_id ` set (listed s)" by force
qed

lemma delete_idempotent:
  assumes "inv s" and "delete i s = Some (r, s')" and "delete i s' = Some (r', s'')"
  shows "r = Ok () \<and> r' = Ok () \<and> handle_id ` set (listed s'') = handle_id ` set (listed s')"
proof -
  from delete_ok [OF assms(1,2)] have 1: "r = Ok ()" "inv s'" "describe i s' = Err (NotFound i)" by auto
  from delete_ok [OF 1(2) assms(3)] have 2: "r' = Ok ()" "inv s''" "describe i s'' = Err (NotFound i)"
    "\<And>j. j \<noteq> i \<Longrightarrow> describe j s'' = describe j s'" by auto
  have "is_ok (describe j s'') = is_ok (describe j s')" for j using 1 2 by (cases "j = i") simp_all
  with 1 2 show ?thesis by (simp add: listed_ids)
qed

end

text \<open>Sequences of operations: the ids they leave, by what each of them answered.\<close>

datatype node_op = CreateNode node_spec | DeleteNode string

definition node_step ::
    "('ch, 'rd, 'tx, 'rx, 'w) node_os \<Rightarrow> node_op \<Rightarrow> ('ch, 'rd, 'tx) local_provider \<times> 'w \<Rightarrow> string set
      \<Rightarrow> ((('ch, 'rd, 'tx) local_provider \<times> 'w) \<times> string set) option" where
  "node_step Q x s ids =
     (case x of
        CreateNode spec \<Rightarrow>
          (case create_node Q spec s of (Ok h, s') \<Rightarrow> Some (s', insert (handle_id h) ids) | (Err e, s') \<Rightarrow> Some (s', ids))
      | DeleteNode i \<Rightarrow> map_option (\<lambda>(_, s'). (s', ids - {i})) (delete_node Q i s))"

fun node_run ::
    "('ch, 'rd, 'tx, 'rx, 'w) node_os \<Rightarrow> node_op list \<Rightarrow> ('ch, 'rd, 'tx) local_provider \<times> 'w \<Rightarrow> string set
      \<Rightarrow> ((('ch, 'rd, 'tx) local_provider \<times> 'w) \<times> string set) option" where
  "node_run Q [] s ids = Some (s, ids)"
| "node_run Q (x # xs) s ids = Option.bind (node_step Q x s ids) (\<lambda>(s', ids'). node_run Q xs s' ids')"

subsection \<open>Lemmas\<close>

definition provider_inv :: "('ch, 'rd, 'tx) local_provider \<times> 'w \<Rightarrow> bool" where
  "provider_inv s \<longleftrightarrow> bt_sorted (nodes (fst s))
     \<and> (\<forall>i n. map_of (nodes (fst s)) i = Some n \<longrightarrow>
          handle_id (node_handle_of n) = i \<and> node_status_of n = NodeRunning \<and> node_child n \<noteq> None)"

lemma describe_Ok:
  "describe_node i s = Ok d \<longleftrightarrow> (\<exists>n. map_of (nodes (fst s)) i = Some n \<and>
     d = \<lparr>desc_handle = node_handle_of n, desc_status = node_status_of n, desc_image = node_image n,
        desc_cpu = node_cpu n, desc_memory_gb = node_memory_gb n, desc_disk_gb = node_disk_gb n,
        desc_network = None, desc_created_at = node_created_at n\<rparr>)"
  by (auto simp: describe_node_def get_node_def ok_or_def split: option.splits)

lemma describe_cong: "map_of (nodes (fst s)) i = map_of (nodes (fst t)) i \<Longrightarrow> describe_node i s = describe_node i t"
  by (simp add: describe_node_def get_node_def)

lemma spawned_node_fields:
  "handle_id (node_handle_of (spawned_node Q spec ws child pid tx w)) = show_nat pid"
  "node_status_of (spawned_node Q spec ws child pid tx w) = NodeRunning"
  "node_child (spawned_node Q spec ws child pid tx w) \<noteq> None"
  "node_image (spawned_node Q spec ws child pid tx w) = spec_image spec"
  by (simp_all add: spawned_node_def)

lemma create_node_result:
  "(\<exists>e. fst (create_node Q spec s) = Err e \<and> fst (snd (create_node Q spec s)) = fst s)
   \<or> (\<exists>ws child pid tx w. create_node Q spec s
        = (Ok (node_handle_of (spawned_node Q spec ws child pid tx w)),
           (fst s)\<lparr>nodes := bt_insert (show_nat pid) (spawned_node Q spec ws child pid tx w) (nodes (fst s))\<rparr>, w))"
proof -
  obtain p w u w1 where s: "s = (p, w)" and u: "new_uuid_simple Q w = (u, w1)" by (metis surj_pair)
  define ws where "ws = path_join Q (workspace_root p) (''node-'' @ u)"
  show ?thesis
    unfolding create_node_def s u ws_def [symmetric] Let_def prod.case fst_conv
    by (simp split: prod.split result.split option.split) blast
qed

lemma create_node_cases:
  assumes "create_node Q spec s = (r, s')"
  obtains (created) n where "r = Ok (node_handle_of n)"
      "nodes (fst s') = bt_insert (handle_id (node_handle_of n)) n (nodes (fst s))"
      "node_status_of n = NodeRunning" "node_child n \<noteq> None" "node_image n = spec_image spec"
  | (failed) e where "r = Err e" "fst s' = fst s"
  using create_node_result [of Q spec s]
proof (elim disjE exE conjE)
  fix e assume "fst (create_node Q spec s) = Err e" "fst (snd (create_node Q spec s)) = fst s"
  with assms failed show thesis by simp
next
  fix ws child pid tx w
  let ?n = "spawned_node Q spec ws child pid tx w"
  assume "create_node Q spec s = (Ok (node_handle_of ?n), (fst s)\<lparr>nodes := bt_insert (show_nat pid) ?n (nodes (fst s))\<rparr>, w)"
  with assms have "r = Ok (node_handle_of ?n)" "s' = ((fst s)\<lparr>nodes := bt_insert (show_nat pid) ?n (nodes (fst s))\<rparr>, w)"
    by simp_all
  then show thesis by (intro created [of ?n]) (simp_all add: spawned_node_fields)
qed

lemma create_node_inv:
  assumes "provider_inv s" and "create_node Q spec s = (r, s')"
  shows "provider_inv s'"
  using assms(2)
proof (cases rule: create_node_cases)
  case (created n)
  with assms(1) show ?thesis by (auto simp: provider_inv_def bt_insert_lookup bt_insert_sorted split: if_splits)
next
  case (failed e)
  with assms(1) show ?thesis by (simp add: provider_inv_def)
qed

lemma delete_node_effect:
  assumes "delete_node Q i s = Some (r, s')"
  shows "r = Ok () \<and> map_of (nodes (fst s')) = (map_of (nodes (fst s)))(i := None)
    \<and> (provider_inv s \<longrightarrow> provider_inv s')"
proof (cases "map_of (nodes (fst s)) i")
  case None
  with assms show ?thesis by (cases s) (auto simp: delete_node_def fun_eq_iff)
next
  case (Some n)
  with assms have "r = Ok ()" "nodes (fst s') = bt_remove i (nodes (fst s))"
    by (auto simp: delete_node_def split: prod.splits option.splits)
  then show ?thesis by (auto simp: bt_remove_lookup provider_inv_def bt_remove_sorted)
qed

interpretation local_provider: compute_provider "create_node Q" list_nodes describe_node "delete_node Q" provider_inv
  for Q :: "('ch, 'rd, 'tx, 'rx, 'w) node_os"
proof unfold_locales
  fix s s' :: "('ch, 'rd, 'tx) local_provider \<times> 'w" and spec h
  assume i: "provider_inv s" and c: "create_node Q spec s = (Ok h, s')"
  from c show "provider_inv s' \<and> (\<exists>d. describe_node (handle_id h) s' = Ok d \<and> desc_handle d = h)
      \<and> (\<forall>j. j \<noteq> handle_id h \<longrightarrow> describe_node j s' = describe_node j s)"
  proof (cases rule: create_node_cases)
    case (created n)
    with create_node_inv [OF i c] show ?thesis
      by (auto simp: describe_Ok bt_insert_lookup intro: describe_cong)
  qed simp
next
  fix s s' :: "('ch, 'rd, 'tx) local_provider \<times> 'w" and spec e
  assume i: "provider_inv s" and c: "create_node Q spec s = (Err e, s')"
  from c show "provider_inv s' \<and> (\<forall>j. describe_node j s' = describe_node j s)"
    using create_node_inv [OF i c] by (cases rule: create_node_cases) (auto intro: describe_cong)
next
  fix s s' :: "('ch, 'rd, 'tx) local_provider \<times> 'w" and i r
  assume i: "provider_inv s" and d: "delete_node Q i s = Some (r, s')"
  from delete_node_effect [OF d] i show "r = Ok () \<and> provider_inv s' \<and> describe_node i s' = Err (NotFound i)
      \<and> (\<forall>j. j \<noteq> i \<longrightarrow> describe_node j s' = describe_node j s)"
    by (auto intro: describe_cong simp: describe_node_def get_node_def)
next
  fix s :: "('ch, 'rd, 'tx) local_provider \<times> 'w"
  assume i: "provider_inv s"
  have d: "distinct (map fst (nodes (fst s)))" using i by (simp add: provider_inv_def bt_sorted_distinct)
  have h: "handle_id (node_handle_of n) = k" if "(k, n) \<in> set (nodes (fst s))" for k n
    using i d that by (auto simp: provider_inv_def)
  have "map handle_id (list_nodes s) = map fst (nodes (fst s))" using h by (auto simp: list_nodes_def)
  moreover have "x \<in> set (list_nodes s) \<longleftrightarrow> (\<exists>d. describe_node (handle_id x) s = Ok d \<and> desc_handle d = x)" for x
  proof
    assume "x \<in> set (list_nodes s)"
    then obtain k n where k: "(k, n) \<in> set (nodes (fst s))" "x = node_handle_of n" by (auto simp: list_nodes_def)
    with h [OF k(1)] map_of_is_SomeI [OF d k(1)] show "\<exists>d. describe_node (handle_id x) s = Ok d \<and> desc_handle d = x"
      by (simp add: describe_Ok)
  next
    assume "\<exists>d. describe_node (handle_id x) s = Ok d \<and> desc_handle d = x"
    then obtain n where "map_of (nodes (fst s)) (handle_id x) = Some n" "x = node_handle_of n" by (auto simp: describe_Ok)
    from map_of_SomeD [OF this(1)] this(2) show "x \<in> set (list_nodes s)" by (force simp: list_nodes_def)
  qed
  ultimately show "distinct (map handle_id (list_nodes s))
      \<and> (\<forall>h. h \<in> set (list_nodes s) \<longleftrightarrow> (\<exists>d. describe_node (handle_id h) s = Ok d \<and> desc_handle d = h))"
    using d by simp
next
  fix s :: "('ch, 'rd, 'tx) local_provider \<times> 'w" and i d
  assume "provider_inv s" and "describe_node i s = Ok d"
  then show "handle_id (desc_handle d) = i" by (auto simp: describe_Ok provider_inv_def)
qed

lemma node_step_ids:
  assumes "provider_inv s" and "{i. is_ok (describe_node i s)} = ids" and "node_step Q x s ids = Some (s', ids')"
  shows "provider_inv s' \<and> {i. is_ok (describe_node i s')} = ids'"
proof (cases x)
  case (CreateNode spec)
  obtain r t where c: "create_node Q spec s = (r, t)" by (metis surj_pair)
  show ?thesis
  proof (cases r)
    case (Ok h)
    with CreateNode c assms(3) have "s' = t" "ids' = insert (handle_id h) ids" by (auto simp: node_step_def)
    with local_provider.create_ok [OF assms(1), of Q spec h t] c Ok assms(2) show ?thesis
      by (auto simp: is_ok_iff) metis
  next
    case (Err e)
    with CreateNode c assms(3) have "s' = t" "ids' = ids" by (auto simp: node_step_def)
    with local_provider.create_err [OF assms(1), of Q spec e t] c Err assms(2) show ?thesis by auto
  qed
next
  case (DeleteNode i)
  with assms(3) obtain r where d: "delete_node Q i s = Some (r, s')" "ids' = ids - {i}" by (auto simp: node_step_def)
  from local_provider.delete_ok [OF assms(1) d(1)] have
    "provider_inv s'" "\<not> is_ok (describe_node i s')" "\<And>j. j \<noteq> i \<Longrightarrow> describe_node j s' = describe_node j s" by auto
  with d(2) assms(2) show ?thesis by auto metis+
qed

lemma node_run_ids:
  assumes "provider_inv s" and "{i. is_ok (describe_node i s)} = ids" and "node_run Q xs s ids = Some (s', ids')"
  shows "provider_inv s' \<and> {i. is_ok (describe_node i s')} = ids'"
  using assms
proof (induction xs arbitrary: s ids)
  case (Cons x xs)
  from Cons.prems(3) obtain t ids1 where t: "node_step Q x s ids = Some (t, ids1)" "node_run Q xs t ids1 = Some (s', ids')"
    by (auto split: Option.bind_splits)
  from node_step_ids [OF Cons.prems(1,2) t(1)] Cons.IH [OF _ _ t(2)] show ?case by blast
qed simp

lemma provider_inv_new: "provider_inv (provider_new b r, w)" "{i. is_ok (describe_node i (provider_new b r, w))} = {}"
  by (auto simp: provider_inv_def provider_new_def bt_sorted_def describe_node_def get_node_def is_ok_iff)

lemma log_pump_log:
  assumes "broadcast_laws B chans log"
  shows "log (log_pump B tx (map Ok ls) w) = (log w)(tx := log w tx @ takeWhile (\<lambda>l. l \<noteq> []) ls)"
  using assms by (induction ls arbitrary: w) (auto simp: broadcast_laws_def fun_eq_iff)

subsection \<open>Properties\<close>

text \<open>
  C23: the nodes of the provider are those created and not deleted since. After any sequence of
  creations, failed ones included, and deletions, of existing nodes or not, the list has exactly
  those nodes, each once and in the order of the ids, and exactly those can be described.
\<close>

theorem local_nodes_refine_set:
  assumes "node_run Q xs (provider_new b r, w) {} = Some (s, ids)"
  shows "set (map handle_id (list_nodes s)) = ids \<and> sorted_wrt (<) (map handle_id (list_nodes s))
    \<and> (\<forall>i. is_ok (describe_node i s) \<longleftrightarrow> i \<in> ids)"
proof -
  from node_run_ids [OF provider_inv_new(1,2) assms] have i: "provider_inv s" "{i. is_ok (describe_node i s)} = ids" by auto
  then have "map handle_id (list_nodes s) = map fst (nodes (fst s))"
    using bt_sorted_distinct [of "nodes (fst s)"] by (auto simp: list_nodes_def provider_inv_def)
  with i(1) have "sorted_wrt (<) (map handle_id (list_nodes s))" by (simp add: provider_inv_def bt_sorted_def)
  with i(2) local_provider.listed_ids [OF i(1)] show ?thesis by auto
qed

type_synonym demo_os_state = "nat \<times> string list"

definition demo_node_os :: "(nat, unit, nat, nat, demo_os_state) node_os" where
  "demo_node_os =
     \<lparr>new_uuid_simple = (\<lambda>w. (''u'', w)), path_join = (\<lambda>a b. a @ ''/'' @ b), create_dir_all = (\<lambda>d w. (Ok (), w)),
      remove_dir_all = (\<lambda>d w. w), node_spawn = (\<lambda>c (n, l). (Ok n, (Suc n, l))), child_pid = Some, take_stdout = (\<lambda>c. Some ()),
      take_stderr = (\<lambda>c. None), start_kill = (\<lambda>c w. w), child_wait = (\<lambda>c w. Some w), utc_now = fst,
      log_channels = \<lparr>bc_channel = (\<lambda>n w. (0, w)), bc_send = (\<lambda>c f (n, l). (n, l @ [f])), bc_subscribe = (\<lambda>c w. (0, w))\<rparr>,
      command_output = (\<lambda>c t w. (None, w)), utf8_lossy = (\<lambda>s. s)\<rparr>"

definition demo_spec :: node_spec where
  "demo_spec = \<lparr>spec_image = ''i'', spec_cpu = None, spec_memory_gb = None, spec_disk_gb = None, spec_env = [], spec_jwt = ''T''\<rparr>"

definition demo_provider :: "(nat, unit, nat) local_provider" where
  "demo_provider = provider_new ''overacp-agent'' ''/tmp''"

lemma demo_create:
  "create_node demo_node_os spec (p, (n, l)) =
     (let node = spawned_node demo_node_os spec (workspace_root p @ ''/node-u'') n n 0 (Suc n, l)
      in (Ok (node_handle_of node), p\<lparr>nodes := bt_insert (show_nat n) node (nodes p)\<rparr>, (Suc n, l)))"
  by (simp add: create_node_def demo_node_os_def Let_def)

lemma demo_node_run:
  "\<exists>s. node_run demo_node_os [CreateNode demo_spec, DeleteNode ''3'', DeleteNode ''9'', CreateNode demo_spec] (demo_provider, (3, [])) {}
     = Some (s, {''4''})"
proof -
  have n: "show_nat 3 = ''3''" "show_nat 4 = ''4''" by code_simp+
  have d: "stop_child demo_node_os ch w = Some w" for ch w by (cases ch) (simp_all add: stop_child_def demo_node_os_def)
  have rm: "remove_dir_all demo_node_os x w = w" for x w by (simp add: demo_node_os_def)
  have i: "node_handle_of (spawned_node demo_node_os spec ws c pid tx w)
      = \<lparr>handle_id = show_nat pid, provider_metadata = JObject [(''pid'', JNumber (PosInt (of_nat pid))), (''workspace'', JString ws)]\<rparr>" for spec ws c pid tx w
    by (simp add: spawned_node_def)
  show ?thesis
    by (simp add: node_step_def demo_create Let_def n i demo_provider_def provider_new_def delete_node_def d rm bt_remove_def)
qed

theorem local_nodes_refine_set_witness:
  "\<exists>s. node_run demo_node_os [CreateNode demo_spec, DeleteNode ''3'', DeleteNode ''9'', CreateNode demo_spec] (demo_provider, (3, [])) {}
       = Some (s, {''4''})
     \<and> set (map handle_id (list_nodes s)) = {''4''} \<and> \<not> is_ok (describe_node ''3'' s)"
proof -
  from demo_node_run obtain s where s: "node_run demo_node_os [CreateNode demo_spec, DeleteNode ''3'', DeleteNode ''9'', CreateNode demo_spec]
      (demo_provider, (3, [])) {} = Some (s, {''4''})" by blast
  from local_nodes_refine_set [OF s [unfolded demo_provider_def]] s show ?thesis by simp
qed

text \<open>
  A node that can be described is always described as running, whatever became of its
  process: no operation takes the end of the process into account, and the status written by a
  deletion is on a node that is no longer in the map.
\<close>

theorem described_nodes_run:
  assumes "node_run Q xs (provider_new b r, w) {} = Some (s, ids)" and "i \<in> ids"
  shows "\<exists>d. describe_node i s = Ok d \<and> desc_status d = NodeRunning"
proof -
  from node_run_ids [OF provider_inv_new(1,2) assms(1)] assms(2) have i: "provider_inv s" "is_ok (describe_node i s)" by auto
  then show ?thesis by (auto simp: is_ok_iff describe_Ok provider_inv_def)
qed

theorem described_nodes_run_witness:
  "\<exists>s d. node_run demo_node_os [CreateNode demo_spec, DeleteNode ''3'', DeleteNode ''9'', CreateNode demo_spec] (demo_provider, (3, [])) {}
       = Some (s, {''4''}) \<and> describe_node ''4'' s = Ok d \<and> desc_status d = NodeRunning"
proof -
  from demo_node_run obtain s where s: "node_run demo_node_os [CreateNode demo_spec, DeleteNode ''3'', DeleteNode ''9'', CreateNode demo_spec]
      (demo_provider, (3, [])) {} = Some (s, {''4''})" by blast
  from described_nodes_run [OF s [unfolded demo_provider_def], of "''4''"] s show ?thesis by simp
qed

text \<open>Once a deletion returns, the process of the node has been waited for.\<close>

lemma delete_waits_for_child:
  assumes "map_of (nodes p) i = Some n" and "node_child n = Some c" and "delete_node Q i (p, w) = Some (r, p', w')"
    and "\<And>v v'. child_wait Q c v = Some v' \<Longrightarrow> \<not> alive v' c" and "\<And>d v. alive (remove_dir_all Q d v) c = alive v c"
  shows "r = Ok () \<and> \<not> alive w' c"
  using assms by (auto simp: delete_node_def stop_child_def split: option.splits)

text \<open>Which directory and which program \<open>exec\<close> runs in a node, and that it leaves the nodes as they are.\<close>

lemma exec_keeps_nodes: "fst (snd (exec Q i req s)) = fst s"
  by (auto simp: exec_def split: prod.splits result.splits option.splits)

end
