(* ===== verification/Tests_Config.thy ===== *)
theory Tests_Config
  imports Tests_Prelude Overloop Supervisor Local_Provider
begin

text \<open>
  The unit tests of the configurations: of the agent (\<^verbatim>\<open>loop/src/config.rs\<close>), of the supervisor
  (\<^verbatim>\<open>agent/src/config.rs\<close>) and of the compute pools (\<^verbatim>\<open>compute/src/config/\<close>). A test that sets
  variables passes whatever the environment was before, as it clears the variables it is about. A rate is
  compared by its bit pattern, where the sources allow the distance of one unit.
\<close>

type_synonym env = "string \<Rightarrow> string option"

definition set_var :: "string \<times> string \<Rightarrow> env \<Rightarrow> env" where
  "set_var kv e = e(fst kv := Some (snd kv))"

definition set_vars :: "(string \<times> string) list \<Rightarrow> env \<Rightarrow> env" where
  "set_vars kvs e = fold set_var kvs e"

lemma set_vars_apply:
  "set_vars [] e k = e k" "set_vars ((x, v) # kvs) e k = set_vars kvs (set_var (x, v) e) k"
  "set_var (x, v) e k = (if k = x then Some v else e k)"
  by (simp_all add: set_vars_def set_var_def)

text \<open>The parsers of numbers: the tests need the values of the two rates they write.\<close>

definition reads_rates :: "(string \<Rightarrow> 32 word option) \<Rightarrow> bool" where
  "reads_rates parse_f32 \<longleftrightarrow> parse_f32 ''0.25'' = Some 0x3E800000 \<and> parse_f32 ''not-a-number'' = None"

subsection \<open>The agent\<close>

definition cleanup_env :: "env \<Rightarrow> env" where
  "cleanup_env e =
     (\<lambda>k. if k \<in> {''LLM_API_KEY'', ''LLM_API_URL'', ''OVERFOLDER_MODEL'', ''OVERFOLDER_WORKSPACE'', ''MCP_SERVERS'',
        ''MAX_ITERATIONS'', ''TIMEOUT_MINUTES'', ''CONTEXT_WINDOW'', ''COMPACTION_THRESHOLD'', ''COMPACTION_KEEP_RECENT'',
        ''MAX_COMPACTIONS'', ''OVERLOOP_AGENT_NAME'', ''SENTRY_DSN'', ''SENTRY_ENVIRONMENT'', ''SENTRY_TRACES_SAMPLE_RATE'',
        ''LANGFUSE_PUBLIC_KEY'', ''LANGFUSE_SECRET_KEY'', ''LANGFUSE_HOST'', ''LANGFUSE_ENVIRONMENT'',
        ''LANGFUSE_CAPTURE_INPUT''} then None else e k)"

type_synonym parsers = "(string \<Rightarrow> f64 option) \<times> (string \<Rightarrow> 32 word option)"

definition agent_config :: "parsers \<Rightarrow> env \<Rightarrow> (string \<times> string) list \<Rightarrow> (config, string) result" where
  "agent_config ps e kvs = from_env (fst ps) (snd ps) (set_vars kvs (cleanup_env e))"

definition ok_and :: "('a, 'e) result \<Rightarrow> ('a \<Rightarrow> bool) \<Rightarrow> bool" where
  "ok_and r P = (case r of Ok x \<Rightarrow> P x | Err _ \<Rightarrow> False)"

definition test_from_env_missing_key :: "parsers \<Rightarrow> env \<Rightarrow> bool" where
  "test_from_env_missing_key ps e \<longleftrightarrow> \<not> is_ok (agent_config ps e [])"

definition test_from_env_defaults :: "parsers \<Rightarrow> env \<Rightarrow> bool" where
  "test_from_env_defaults ps e \<longleftrightarrow>
     ok_and (agent_config ps e [(''LLM_API_KEY'', ''test'')]) (\<lambda>cfg.
       llm_api_key cfg = ''test'' \<and> llm_api_url cfg = ''https://openrouter.ai/api/v1''
       \<and> conf_model cfg = ''anthropic/claude-sonnet-4-20250514'' \<and> workspace cfg = ''.''
       \<and> mcp_servers cfg = [] \<and> conf_max_iterations cfg = 100 \<and> timeout_minutes cfg = 60
       \<and> conf_context_window cfg = 128000 \<and> conf_compaction_threshold cfg = 0x3FE999999999999A
       \<and> conf_compaction_keep_recent cfg = 10 \<and> conf_max_compactions cfg = 3
       \<and> agent_name cfg = None \<and> sentry_dsn cfg = None \<and> sentry_environment cfg = ''local''
       \<and> sentry_traces_sample_rate cfg = 0x3DCCCCCD
       \<and> langfuse_public_key cfg = None \<and> langfuse_secret_key cfg = None
       \<and> langfuse_host cfg = ''https://cloud.langfuse.com'' \<and> langfuse_environment cfg = ''local''
       \<and> \<not> conf_langfuse_capture_input cfg)"

definition test_langfuse_custom :: "parsers \<Rightarrow> env \<Rightarrow> bool" where
  "test_langfuse_custom ps e \<longleftrightarrow>
     ok_and (agent_config ps e [(''LLM_API_KEY'', ''test''), (''LANGFUSE_PUBLIC_KEY'', ''pk-xyz''),
         (''LANGFUSE_SECRET_KEY'', ''sk-xyz''), (''LANGFUSE_HOST'', ''https://self.hosted.langfuse''),
         (''LANGFUSE_ENVIRONMENT'', ''prod'')]) (\<lambda>cfg.
       langfuse_public_key cfg = Some ''pk-xyz'' \<and> langfuse_secret_key cfg = Some ''sk-xyz''
       \<and> langfuse_host cfg = ''https://self.hosted.langfuse'' \<and> langfuse_environment cfg = ''prod'')"

definition test_langfuse_capture_input_toggle :: "parsers \<Rightarrow> env \<Rightarrow> bool" where
  "test_langfuse_capture_input_toggle ps e \<longleftrightarrow>
     list_all (\<lambda>(val, expected).
         ok_and (agent_config ps e [(''LLM_API_KEY'', ''test''), (''LANGFUSE_CAPTURE_INPUT'', val)])
           (\<lambda>cfg. conf_langfuse_capture_input cfg = expected))
       [(''1'', True), (''true'', True), (''TRUE'', True), (''yes'', True),
        (''0'', False), (''false'', False), (''bogus'', False), ([], False)]"

definition test_langfuse_empty_keys_treated_as_unset :: "parsers \<Rightarrow> env \<Rightarrow> bool" where
  "test_langfuse_empty_keys_treated_as_unset ps e \<longleftrightarrow>
     ok_and (agent_config ps e [(''LLM_API_KEY'', ''test''), (''LANGFUSE_PUBLIC_KEY'', ''   ''), (''LANGFUSE_SECRET_KEY'', [])])
       (\<lambda>cfg. langfuse_public_key cfg = None \<and> langfuse_secret_key cfg = None)"

definition test_from_env_custom :: "parsers \<Rightarrow> env \<Rightarrow> bool" where
  "test_from_env_custom ps e \<longleftrightarrow>
     ok_and (agent_config ps e [(''LLM_API_KEY'', ''key123''), (''LLM_API_URL'', ''http://localhost:8080''),
         (''OVERFOLDER_MODEL'', ''gpt-4''), (''OVERFOLDER_WORKSPACE'', ''/tmp/ws''), (''MCP_SERVERS'', ''http://a''),
         (''MAX_ITERATIONS'', ''50''), (''TIMEOUT_MINUTES'', ''30'')]) (\<lambda>cfg.
       llm_api_key cfg = ''key123'' \<and> llm_api_url cfg = ''http://localhost:8080'' \<and> conf_model cfg = ''gpt-4''
       \<and> workspace cfg = ''/tmp/ws'' \<and> mcp_servers cfg = [''http://a''] \<and> conf_max_iterations cfg = 50
       \<and> timeout_minutes cfg = 30)"

definition test_sentry_and_agent_name_custom :: "parsers \<Rightarrow> env \<Rightarrow> bool" where
  "test_sentry_and_agent_name_custom ps e \<longleftrightarrow>
     ok_and (agent_config ps e [(''LLM_API_KEY'', ''test''), (''OVERLOOP_AGENT_NAME'', ''worker-42''),
         (''SENTRY_DSN'', ''https://key@example.ingest.sentry.io/1''), (''SENTRY_ENVIRONMENT'', ''prod''),
         (''SENTRY_TRACES_SAMPLE_RATE'', ''0.25'')]) (\<lambda>cfg.
       agent_name cfg = Some ''worker-42'' \<and> sentry_dsn cfg = Some ''https://key@example.ingest.sentry.io/1''
       \<and> sentry_environment cfg = ''prod'' \<and> sentry_traces_sample_rate cfg = 0x3E800000)"

definition test_empty_agent_name_and_dsn_treated_as_unset :: "parsers \<Rightarrow> env \<Rightarrow> bool" where
  "test_empty_agent_name_and_dsn_treated_as_unset ps e \<longleftrightarrow>
     ok_and (agent_config ps e [(''LLM_API_KEY'', ''test''), (''OVERLOOP_AGENT_NAME'', ''   ''), (''SENTRY_DSN'', [])])
       (\<lambda>cfg. agent_name cfg = None \<and> sentry_dsn cfg = None)"

definition test_invalid_traces_sample_rate_falls_back_to_default :: "parsers \<Rightarrow> env \<Rightarrow> bool" where
  "test_invalid_traces_sample_rate_falls_back_to_default ps e \<longleftrightarrow>
     ok_and (agent_config ps e [(''LLM_API_KEY'', ''test''), (''SENTRY_TRACES_SAMPLE_RATE'', ''not-a-number'')])
       (\<lambda>cfg. sentry_traces_sample_rate cfg = 0x3DCCCCCD)"

definition test_mcp_servers_parsing :: "parsers \<Rightarrow> env \<Rightarrow> bool" where
  "test_mcp_servers_parsing ps e \<longleftrightarrow>
     ok_and (agent_config ps e [(''LLM_API_KEY'', ''test''), (''MCP_SERVERS'', ''http://a, http://b , '')])
       (\<lambda>cfg. mcp_servers cfg = [''http://a'', ''http://b''])"

lemma ok_and_Ok [simp]: "ok_and (Ok x) P = P x"
  by (simp add: ok_and_def)

lemma ok_and_Err [simp]: "\<not> ok_and (Err x) P"
  by (simp add: ok_and_def)

lemma agent_config_key:
  "agent_config ps e ((''LLM_API_KEY'', v) # kvs) = from_env (fst ps) (snd ps) (set_vars kvs (set_var (''LLM_API_KEY'', v) (cleanup_env e)))"
  by (simp add: agent_config_def set_vars_def)

lemma trims:
  "trim [] = []" "trim ''1'' = ''1''" "trim ''true'' = ''true''" "trim ''TRUE'' = ''TRUE''"
  "trim ''yes'' = ''yes''" "trim ''0'' = ''0''" "trim ''false'' = ''false''" "trim ''bogus'' = ''bogus''"
  "trim ''pk-xyz'' = ''pk-xyz''" "trim ''sk-xyz'' = ''sk-xyz''" "trim ''   '' = []" "trim '' '' = []"
  "trim ''http://a'' = ''http://a''" "trim '' http://b '' = ''http://b''" "trim ''worker-42'' = ''worker-42''" "trim ''https://key@example.ingest.sentry.io/1'' = ''https://key@example.ingest.sentry.io/1''"
  by code_simp+

lemma lowers:
  "to_ascii_lowercase [] = []" "to_ascii_lowercase ''1'' = ''1''" "to_ascii_lowercase ''true'' = ''true''"
  "to_ascii_lowercase ''TRUE'' = ''true''" "to_ascii_lowercase ''yes'' = ''yes''" "to_ascii_lowercase ''0'' = ''0''"
  "to_ascii_lowercase ''false'' = ''false''" "to_ascii_lowercase ''bogus'' = ''bogus''"
  by code_simp+

lemma cleaned:
  "cleanup_env e ''LLM_API_KEY'' = None" "cleanup_env e ''LLM_API_URL'' = None" "cleanup_env e ''OVERFOLDER_MODEL'' = None"
  "cleanup_env e ''OVERFOLDER_WORKSPACE'' = None" "cleanup_env e ''MCP_SERVERS'' = None" "cleanup_env e ''MAX_ITERATIONS'' = None"
  "cleanup_env e ''TIMEOUT_MINUTES'' = None" "cleanup_env e ''CONTEXT_WINDOW'' = None" "cleanup_env e ''COMPACTION_THRESHOLD'' = None"
  "cleanup_env e ''COMPACTION_KEEP_RECENT'' = None" "cleanup_env e ''MAX_COMPACTIONS'' = None" "cleanup_env e ''OVERLOOP_AGENT_NAME'' = None"
  "cleanup_env e ''SENTRY_DSN'' = None" "cleanup_env e ''SENTRY_ENVIRONMENT'' = None" "cleanup_env e ''SENTRY_TRACES_SAMPLE_RATE'' = None"
  "cleanup_env e ''LANGFUSE_PUBLIC_KEY'' = None" "cleanup_env e ''LANGFUSE_SECRET_KEY'' = None" "cleanup_env e ''LANGFUSE_HOST'' = None"
  "cleanup_env e ''LANGFUSE_ENVIRONMENT'' = None" "cleanup_env e ''LANGFUSE_CAPTURE_INPUT'' = None"
  by (simp_all add: cleanup_env_def)

lemmas agent_env = agent_config_key from_env_def nonempty_trimmed_def set_vars_apply cleaned trims lowers

lemma agent_missing_key_test: "test_from_env_missing_key ps e"
  by (simp add: test_from_env_missing_key_def agent_config_def from_env_def set_vars_def cleaned)

text \<open>The threshold is the value that the parser gives for its default, written 0.80.\<close>

lemma agent_defaults_test: "fst ps ''0.80'' = Some 0x3FE999999999999A \<Longrightarrow> test_from_env_defaults ps e"
  by (simp add: test_from_env_defaults_def agent_env parse_u64_def digits_value_def is_digit_def)

lemma agent_langfuse_tests:
  "test_langfuse_custom ps e" "test_langfuse_empty_keys_treated_as_unset ps e" "test_langfuse_capture_input_toggle ps e"
  by (simp_all add: test_langfuse_custom_def test_langfuse_empty_keys_treated_as_unset_def
      test_langfuse_capture_input_toggle_def agent_env)

lemma agent_custom_tests:
  "test_from_env_custom ps e" "test_mcp_servers_parsing ps e" "test_empty_agent_name_and_dsn_treated_as_unset ps e"
  by (simp_all add: test_from_env_custom_def test_mcp_servers_parsing_def
      test_empty_agent_name_and_dsn_treated_as_unset_def agent_env parse_u64_def digits_value_def is_digit_def)

lemma agent_rate_tests:
  assumes "reads_rates (snd ps)"
  shows "test_sentry_and_agent_name_custom ps e" "test_invalid_traces_sample_rate_falls_back_to_default ps e"
  using assms by (simp_all add: test_sentry_and_agent_name_custom_def
      test_invalid_traces_sample_rate_falls_back_to_default_def agent_env reads_rates_def)

subsection \<open>The supervisor\<close>

definition clear_overacp_env :: "env \<Rightarrow> env" where
  "clear_overacp_env e =
     (\<lambda>k. if starts_with k ''OVERACP_''
            \<or> k \<in> {''OVERLOOP_AGENT_NAME'', ''SENTRY_DSN'', ''SENTRY_ENVIRONMENT'', ''SENTRY_TRACES_SAMPLE_RATE''}
          then None else e k)"

definition sup_config_with ::
    "(string \<Rightarrow> 32 word option) \<Rightarrow> env \<Rightarrow> (string \<times> string) list \<Rightarrow> (sup_config, string) result" where
  "sup_config_with parse_f32 e kvs = sup_from_env parse_f32 (set_vars kvs (clear_overacp_env e))"

definition dummy_config :: "string \<Rightarrow> sup_config" where
  "dummy_config server_url =
     \<lparr>sup_token = ''tok'', sup_server_url = server_url, sup_workspace = ''/workspace'', sup_agent_binary = ''overloop'',
      sup_agent_name = None, sup_sentry_dsn = None, sup_sentry_environment = ''local'',
      sup_traces_sample_rate = 0x3DCCCCCD\<rparr>"

definition tunnel_url_rewrites_https_to_wss :: bool where
  "tunnel_url_rewrites_https_to_wss \<longleftrightarrow>
     tunnel_url (dummy_config ''https://acp.example.com'') ''abc-123'' = ''wss://acp.example.com/tunnel/abc-123''"

definition tunnel_url_rewrites_http_to_ws :: bool where
  "tunnel_url_rewrites_http_to_ws \<longleftrightarrow>
     tunnel_url (dummy_config ''http://localhost:8080'') ''deadbeef-0001'' = ''ws://localhost:8080/tunnel/deadbeef-0001''"

definition tunnel_url_preserves_port_and_path_prefix :: bool where
  "tunnel_url_preserves_port_and_path_prefix \<longleftrightarrow>
     (let url = tunnel_url (dummy_config ''http://127.0.0.1:8080'') ''00000000-0000-0000-0000-000000000001''
      in starts_with url ''ws://127.0.0.1:8080/tunnel/'' \<and> ends_with url ''00000000-0000-0000-0000-000000000001'')"

definition tunnel_url_passes_through_already_ws_scheme :: bool where
  "tunnel_url_passes_through_already_ws_scheme \<longleftrightarrow>
     tunnel_url (dummy_config ''ws://broker:9000'') ''x'' = ''ws://broker:9000/tunnel/x''"

definition from_env_happy_path_with_defaults :: "(string \<Rightarrow> 32 word option) \<Rightarrow> env \<Rightarrow> bool" where
  "from_env_happy_path_with_defaults parse_f32 e \<longleftrightarrow>
     ok_and (sup_config_with parse_f32 e [(''OVERACP_TOKEN'', ''abc123''), (''OVERACP_SERVER_URL'', ''http://localhost:8080'')])
       (\<lambda>cfg. sup_token cfg = ''abc123'' \<and> sup_server_url cfg = ''http://localhost:8080''
         \<and> sup_workspace cfg = ''/workspace'' \<and> sup_agent_binary cfg = ''overloop''
         \<and> sup_agent_name cfg = None \<and> sup_sentry_dsn cfg = None \<and> sup_sentry_environment cfg = ''local''
         \<and> sup_traces_sample_rate cfg = 0x3DCCCCCD)"

definition from_env_reads_agent_name_and_sentry_vars :: "(string \<Rightarrow> 32 word option) \<Rightarrow> env \<Rightarrow> bool" where
  "from_env_reads_agent_name_and_sentry_vars parse_f32 e \<longleftrightarrow>
     ok_and (sup_config_with parse_f32 e [(''OVERACP_TOKEN'', ''t''), (''OVERACP_SERVER_URL'', ''http://x''),
         (''OVERLOOP_AGENT_NAME'', ''worker-42''), (''SENTRY_DSN'', ''https://key@example.ingest.sentry.io/1''),
         (''SENTRY_ENVIRONMENT'', ''prod''), (''SENTRY_TRACES_SAMPLE_RATE'', ''0.25'')])
       (\<lambda>cfg. sup_agent_name cfg = Some ''worker-42''
         \<and> sup_sentry_dsn cfg = Some ''https://key@example.ingest.sentry.io/1''
         \<and> sup_sentry_environment cfg = ''prod'' \<and> sup_traces_sample_rate cfg = 0x3E800000)"

definition from_env_treats_empty_agent_name_and_dsn_as_unset :: "(string \<Rightarrow> 32 word option) \<Rightarrow> env \<Rightarrow> bool" where
  "from_env_treats_empty_agent_name_and_dsn_as_unset parse_f32 e \<longleftrightarrow>
     ok_and (sup_config_with parse_f32 e [(''OVERACP_TOKEN'', ''t''), (''OVERACP_SERVER_URL'', ''http://x''),
         (''OVERLOOP_AGENT_NAME'', ''   ''), (''SENTRY_DSN'', [])])
       (\<lambda>cfg. sup_agent_name cfg = None \<and> sup_sentry_dsn cfg = None)"

definition from_env_invalid_traces_sample_rate_falls_back_to_default :: "(string \<Rightarrow> 32 word option) \<Rightarrow> env \<Rightarrow> bool" where
  "from_env_invalid_traces_sample_rate_falls_back_to_default parse_f32 e \<longleftrightarrow>
     ok_and (sup_config_with parse_f32 e [(''OVERACP_TOKEN'', ''t''), (''OVERACP_SERVER_URL'', ''http://x''),
         (''SENTRY_TRACES_SAMPLE_RATE'', ''not-a-number'')])
       (\<lambda>cfg. sup_traces_sample_rate cfg = 0x3DCCCCCD)"

definition from_env_respects_optional_overrides :: "(string \<Rightarrow> 32 word option) \<Rightarrow> env \<Rightarrow> bool" where
  "from_env_respects_optional_overrides parse_f32 e \<longleftrightarrow>
     ok_and (sup_config_with parse_f32 e [(''OVERACP_TOKEN'', ''abc''), (''OVERACP_SERVER_URL'', ''https://broker.example.com''),
         (''OVERACP_WORKSPACE'', ''/tmp/my-ws''), (''OVERACP_AGENT_BINARY'', ''/usr/bin/my-agent'')])
       (\<lambda>cfg. sup_workspace cfg = ''/tmp/my-ws'' \<and> sup_agent_binary cfg = ''/usr/bin/my-agent'')"

definition fails_naming :: "('a, string) result \<Rightarrow> string \<Rightarrow> bool" where
  "fails_naming r name = (case r of Ok _ \<Rightarrow> False | Err msg \<Rightarrow> str_contains msg name)"

definition from_env_fails_when_token_missing :: "(string \<Rightarrow> 32 word option) \<Rightarrow> env \<Rightarrow> bool" where
  "from_env_fails_when_token_missing parse_f32 e \<longleftrightarrow>
     fails_naming (sup_config_with parse_f32 e [(''OVERACP_SERVER_URL'', ''http://x'')]) ''OVERACP_TOKEN''"

definition from_env_fails_when_server_url_missing :: "(string \<Rightarrow> 32 word option) \<Rightarrow> env \<Rightarrow> bool" where
  "from_env_fails_when_server_url_missing parse_f32 e \<longleftrightarrow>
     fails_naming (sup_config_with parse_f32 e [(''OVERACP_TOKEN'', ''abc'')]) ''OVERACP_SERVER_URL''"

lemma tunnel_url_tests:
  "tunnel_url_rewrites_https_to_wss" "tunnel_url_rewrites_http_to_ws" "tunnel_url_preserves_port_and_path_prefix"
  "tunnel_url_passes_through_already_ws_scheme"
  by code_simp+

lemmas sup_env_simps = sup_config_with_def sup_from_env_def required_def trimmed_var_def set_vars_apply clear_overacp_env_def
  str_simps trims

lemma sup_env_tests:
  "from_env_happy_path_with_defaults parse_f32 e" "from_env_treats_empty_agent_name_and_dsn_as_unset parse_f32 e"
  "from_env_respects_optional_overrides parse_f32 e"
  by (simp_all add: from_env_happy_path_with_defaults_def from_env_treats_empty_agent_name_and_dsn_as_unset_def
      from_env_respects_optional_overrides_def sup_env_simps)

lemma sup_rate_tests:
  assumes "reads_rates parse_f32"
  shows "from_env_reads_agent_name_and_sentry_vars parse_f32 e"
    "from_env_invalid_traces_sample_rate_falls_back_to_default parse_f32 e"
  using assms by (simp_all add: from_env_reads_agent_name_and_sentry_vars_def
      from_env_invalid_traces_sample_rate_falls_back_to_default_def sup_env_simps reads_rates_def)

lemma names_missing_var: "str_contains (''missing env var: '' @ v) v"
  unfolding str_contains_sublist sublist_def by (metis append_Nil2)

lemma sup_missing_tests: "from_env_fails_when_token_missing parse_f32 e" "from_env_fails_when_server_url_missing parse_f32 e"
  using names_missing_var [of "''OVERACP_TOKEN''"] names_missing_var [of "''OVERACP_SERVER_URL''"]
  by (simp_all add: from_env_fails_when_token_missing_def from_env_fails_when_server_url_missing_def fails_naming_def sup_env_simps
      del: str_contains_sublist)

subsection \<open>Compute pools\<close>

definition plain_literal :: bool where
  "plain_literal \<longleftrightarrow> parse ''hello'' = Ok [Literal ''hello'']"

definition single_ref_no_key :: bool where
  "single_ref_no_key \<longleftrightarrow> parse ''${env:FOO}'' = Ok [Ref ''env'' ''FOO'' None]"

definition single_ref_with_key :: bool where
  "single_ref_with_key \<longleftrightarrow>
     parse ''${file:/etc/x.toml:db.password}'' = Ok [Ref ''file'' ''/etc/x.toml'' (Some ''db.password'')]"

definition mixed_literal_and_refs :: bool where
  "mixed_literal_and_refs \<longleftrightarrow>
     ok_and (parse ''https://${env:HOST}/v1/${env:VER}'')
       (\<lambda>s. length s = 4 \<and> s ! 0 = Literal ''https://'' \<and> s ! 2 = Literal ''/v1/'')"

definition dollar_escape :: bool where
  "dollar_escape \<longleftrightarrow> parse ''price: $$5'' = Ok [Literal ''price: $5'']"

definition is_bad_reference :: "('a, config_error) result \<Rightarrow> bool" where
  "is_bad_reference r = (case r of Err (BadReference _) \<Rightarrow> True | _ \<Rightarrow> False)"

definition unmatched_brace :: bool where
  "unmatched_brace \<longleftrightarrow> is_bad_reference (parse ''${env:FOO'')"

definition empty_scheme :: bool where
  "empty_scheme \<longleftrightarrow> is_bad_reference (parse ''${:FOO}'')"

definition is_missing_key :: "('a, config_error) result \<Rightarrow> bool" where
  "is_missing_key r = (case r of Err (MissingKey _) \<Rightarrow> True | _ \<Rightarrow> False)"

definition is_invalid_value :: "('a, config_error) result \<Rightarrow> bool" where
  "is_invalid_value r = (case r of Err (InvalidValue _ _) \<Rightarrow> True | _ \<Rightarrow> False)"

definition looks_up_env_var :: "env \<Rightarrow> bool" where
  "looks_up_env_var e \<longleftrightarrow>
     (let name = ''OVERACP_COMPUTE_CORE_ENV_TEST_VAR'' in
      env_lookup (set_var (name, ''hello'') e) name None = Ok ''hello''
      \<and> is_missing_key (env_lookup (e(name := None)) name None))"

definition rejects_key_segment :: "env \<Rightarrow> bool" where
  "rejects_key_segment e \<longleftrightarrow> is_invalid_value (env_lookup e ''FOO'' (Some ''bar''))"

text \<open>
  A temporary file has a name with the suffix of the test and what the test writes to it. What the JSON and
  TOML libraries make of that text is what the tests need of them.
\<close>

definition temp_file :: "'s file_env \<Rightarrow> string \<Rightarrow> 's \<Rightarrow> string \<Rightarrow> string \<Rightarrow> bool" where
  "temp_file F path s ext text \<longleftrightarrow> file_extension F path = Some ext \<and> fst (read_to_string F path s) = Ok text"

definition new_lookup :: "'s file_env \<Rightarrow> 's \<Rightarrow> string \<Rightarrow> string option \<Rightarrow> (string, config_error) result" where
  "new_lookup F s path key = fst (file_lookup F path key \<lparr>cache = Map.empty, files = s\<rparr>)"

definition reads_toml_nested_key :: "'s file_env \<Rightarrow> string \<Rightarrow> 's \<Rightarrow> bool" where
  "reads_toml_nested_key F path s \<longleftrightarrow>
     (temp_file F path s ''toml'' (''[db]'' @ [CHR 0x0A] @ ''password = '' @ [CHR 0x22] @ ''s3cret'' @ [CHR 0x22, CHR 0x0A])
      \<longrightarrow> new_lookup F s path (Some ''db.password'') = Ok ''s3cret'')"

definition reads_json_nested_key :: "'s file_env \<Rightarrow> string \<Rightarrow> 's \<Rightarrow> bool" where
  "reads_json_nested_key F path s \<longleftrightarrow>
     (temp_file F path s ''json'' ([CHR 0x7B, CHR 0x22] @ ''db'' @ [CHR 0x22] @ '':'' @ [CHR 0x7B, CHR 0x22] @ ''password''
          @ [CHR 0x22] @ '':'' @ [CHR 0x22] @ ''s3cret'' @ [CHR 0x22, CHR 0x7D, CHR 0x7D, CHR 0x0A])
      \<longrightarrow> new_lookup F s path (Some ''db.password'') = Ok ''s3cret'')"

definition missing_key_errors :: "'s file_env \<Rightarrow> string \<Rightarrow> 's \<Rightarrow> bool" where
  "missing_key_errors F path s \<longleftrightarrow>
     (temp_file F path s ''toml'' (''x = 1'' @ [CHR 0x0A]) \<longrightarrow> is_missing_key (new_lookup F s path (Some ''nope'')))"

definition rejects_unknown_extension :: "'s file_env \<Rightarrow> string \<Rightarrow> 's \<Rightarrow> bool" where
  "rejects_unknown_extension F path s \<longleftrightarrow>
     (temp_file F path s ''yaml'' [] \<longrightarrow> is_invalid_value (new_lookup F s path (Some ''k'')))"

definition TEST_VAR :: string where "TEST_VAR = ''OVERACP_TEST_MORPH_API_KEY''"

definition end_to_end_morph_pool_config_round_trips :: "'s file_env \<Rightarrow> env \<Rightarrow> 's file_provider \<Rightarrow> bool" where
  "end_to_end_morph_pool_config_round_trips F e p \<longleftrightarrow>
     (let var = TEST_VAR;
          reference = ''${env:'' @ var @ ''}'';
          raw = raw_config_from_iter [(''provider.class'', ''morph''), (''morph.api_key'', reference),
            (''morph.base_url'', ''https://api.morph.so''), (''default.image'', ''ghcr.io/overfolder/overacp-agent:latest'')]
      in ok_and (fst (resolve (with_defaults (set_var (var, ''sk-test-123'') e) F) raw p)) (\<lambda>c.
           provider_class c = Ok ''morph'' \<and> config_require c ''morph.api_key'' = Ok ''sk-test-123''
           \<and> map_of (config_original c) ''morph.api_key'' = Some reference))"

definition unknown_scheme_errors :: "'s file_env \<Rightarrow> env \<Rightarrow> 's file_provider \<Rightarrow> bool" where
  "unknown_scheme_errors F e p \<longleftrightarrow>
     fst (resolve (with_defaults e F) (raw_config_from_iter [(''k'', ''${vault:foo:bar}'')]) p) = Err (UnknownProvider ''vault'')"

lemma reference_tests:
  "plain_literal" "single_ref_no_key" "single_ref_with_key" "mixed_literal_and_refs" "dollar_escape" "unmatched_brace"
  "empty_scheme"
  by code_simp+

lemma env_provider_tests: "looks_up_env_var e" "rejects_key_segment e"
  by (simp_all add: looks_up_env_var_def rejects_key_segment_def env_lookup_def set_var_def is_missing_key_def
      is_invalid_value_def)

lemma new_lookup_temp:
  assumes "temp_file F path s ext text"
  shows "new_lookup F s path (Some k) = res_bind (parse_file F path text) (dotted_value F path k)"
  using assms by (cases "read_to_string F path s") (simp add: temp_file_def new_lookup_def file_lookup_def load_def
      split: result.split)

lemma file_provider_toml_tests:
  assumes "from_toml F (''[db]'' @ [CHR 0x0A] @ ''password = '' @ [CHR 0x22] @ ''s3cret'' @ [CHR 0x22, CHR 0x0A])
      = Ok (TomlTable [(''db'', TomlTable [(''password'', TomlString ''s3cret'')])])"
    and "from_toml F (''x = 1'' @ [CHR 0x0A]) = Ok (TomlTable [(''x'', TomlInteger 1)])"
  shows "reads_toml_nested_key F path s" "missing_key_errors F path s"
  using assms by (auto simp: reads_toml_nested_key_def missing_key_errors_def new_lookup_temp parse_file_def temp_file_def
      dotted_value_def lookup_dotted_def is_missing_key_def)

lemma file_provider_json_test:
  assumes "from_json F ([CHR 0x7B, CHR 0x22] @ ''db'' @ [CHR 0x22] @ '':'' @ [CHR 0x7B, CHR 0x22] @ ''password''
          @ [CHR 0x22] @ '':'' @ [CHR 0x22] @ ''s3cret'' @ [CHR 0x22, CHR 0x7D, CHR 0x7D, CHR 0x0A])
      = Ok (JObject [(''db'', JObject [(''password'', JString ''s3cret'')])])"
  shows "reads_json_nested_key F path s"
  using assms by (auto simp: reads_json_nested_key_def new_lookup_temp parse_file_def temp_file_def
      dotted_value_def lookup_dotted_def)

lemma file_provider_extension_test: "rejects_unknown_extension F path s"
  by (auto simp: rejects_unknown_extension_def new_lookup_temp parse_file_def temp_file_def is_invalid_value_def)

lemma pool_values:
  "parse ''morph'' = Ok [Literal ''morph'']" "parse ''https://api.morph.so'' = Ok [Literal ''https://api.morph.so'']"
  "parse ''ghcr.io/overfolder/overacp-agent:latest'' = Ok [Literal ''ghcr.io/overfolder/overacp-agent:latest'']"
  "parse (''${env:'' @ TEST_VAR @ ''}'') = Ok [Ref ''env'' TEST_VAR None]"
  "parse ''${vault:foo:bar}'' = Ok [Ref ''vault'' ''foo'' (Some ''bar'')]"
  by code_simp+

lemma pool_order:
  "raw_config_from_iter [(''provider.class'', ''morph''), (''morph.api_key'', r),
      (''morph.base_url'', ''https://api.morph.so''), (''default.image'', ''ghcr.io/overfolder/overacp-agent:latest'')]
    = [(''default.image'', ''ghcr.io/overfolder/overacp-agent:latest''), (''morph.api_key'', r),
       (''morph.base_url'', ''https://api.morph.so''), (''provider.class'', ''morph'')]"
  "raw_config_from_iter [(''k'', v)] = [(''k'', v)]"
  by code_simp+

lemma resolver_tests: "end_to_end_morph_pool_config_round_trips F e p" "unknown_scheme_errors F e p"
  by (simp_all only: end_to_end_morph_pool_config_round_trips_def unknown_scheme_errors_def Let_def pool_order)
    (simp_all add: resolve_def resolve_value_def pool_values with_defaults_def register_provider_def env_lookup_def
      set_var_def provider_class_def config_require_def config_get_def config_original_def del: append.simps)

end
