(* ===== verification/Tests_Agent.thy ===== *)
theory Tests_Agent
  imports Tests_Prelude Supervisor
begin

text \<open>
  The unit tests of the supervisor (\<^verbatim>\<open>agent/src/bridge.rs\<close>, \<^verbatim>\<open>tunnel.rs\<close>,
  \<^verbatim>\<open>adapter.rs\<close>, \<^verbatim>\<open>process.rs\<close>, \<^verbatim>\<open>run.rs\<close>) on the model. The sinks, pipes and children of
  the tests are stand-ins for them here too, over a state that says what they have taken.
\<close>

subsection \<open>The bridge\<close>

text \<open>The bytes of the writer, the frames of the sink, and whether the sink fails.\<close>

record bench =
  stdin_bytes :: string
  sent_frames :: "ws_message list"
  fail_on_send :: bool

definition vec_sink :: "ws_message \<Rightarrow> bench \<Rightarrow> (unit, string) result \<times> bench" where
  "vec_sink item b =
     (if fail_on_send b then (Err ''Connection closed normally'', b)
      else (Ok (), b\<lparr>sent_frames := sent_frames b @ [item]\<rparr>))"

definition vec_writer :: "bench pipe" where
  "vec_writer = \<lparr>write_all = (\<lambda>t b. (Ok (), b\<lparr>stdin_bytes := stdin_bytes b @ t\<rparr>)), flush = (\<lambda>b. (Ok (), b))\<rparr>"

definition bench_default :: bench where
  "bench_default = \<lparr>stdin_bytes = [], sent_frames = [], fail_on_send = False\<rparr>"

text \<open>A text with the back quotes for double ones.\<close>

definition double_quoted :: "string \<Rightarrow> string" where
  "double_quoted t = map (\<lambda>c. if c = CHR 0x60 then CHR 0x22 else c) t"

definition ws_to_stdin_forwards_text_frames_with_newline :: bool where
  "ws_to_stdin_forwards_text_frames_with_newline \<longleftrightarrow>
     (case ws_to_stdin vec_writer [Ok (WsText (double_quoted ''{`hello`:1}'')), Ok (WsText (double_quoted ''{`hello`:2}''))] bench_default of
        (exit, b) \<Rightarrow> exit = TunnelClosed
          \<and> stdin_bytes b = double_quoted ''{`hello`:1}'' @ [CHR 0x0A] @ double_quoted ''{`hello`:2}'' @ [CHR 0x0A])"

definition ws_to_stdin_returns_tunnel_closed_on_close_frame :: bool where
  "ws_to_stdin_returns_tunnel_closed_on_close_frame \<longleftrightarrow> fst (ws_to_stdin vec_writer [Ok WsClose] bench_default) = TunnelClosed"

definition ws_to_stdin_ignores_ping_and_binary_frames :: bool where
  "ws_to_stdin_ignores_ping_and_binary_frames \<longleftrightarrow>
     stdin_bytes (snd (ws_to_stdin vec_writer
       [Ok WsPing, Ok (WsBinary [CHR 0x01, CHR 0x02, CHR 0x03]), Ok (WsText ''after'')] bench_default)) = ''after'' @ [CHR 0x0A]"

text \<open>An exit with an error that names the phrase, whatever the case of its letters.\<close>

definition exits_naming :: "bridge_exit \<Rightarrow> string \<Rightarrow> bool" where
  "exits_naming x phrase = (case x of BridgeError msg \<Rightarrow> str_contains (to_ascii_lowercase msg) phrase | _ \<Rightarrow> False)"

definition ws_to_stdin_surfaces_error_on_ws_read_failure :: "string \<Rightarrow> bool" where
  "ws_to_stdin_surfaces_error_on_ws_read_failure e \<longleftrightarrow>
     exits_naming (fst (ws_to_stdin vec_writer [Err e] bench_default)) ''ws read''"

text \<open>What the buffered reader gives for the bytes of an input.\<close>

definition lines_of :: "string \<Rightarrow> (string, string) result list" where
  "lines_of input = map Ok (read_lines input)"

definition stdout_to_ws_forwards_lines_as_text_frames :: bool where
  "stdout_to_ws_forwards_lines_as_text_frames \<longleftrightarrow>
     (case stdout_to_ws vec_sink (lines_of (double_quoted ''{`a`:1}'' @ [CHR 0x0A] @ double_quoted ''{`a`:2}'' @ [CHR 0x0A])) bench_default of
        (exit, b) \<Rightarrow> exit = ProcessExited
          \<and> sent_frames b = [WsText (double_quoted ''{`a`:1}''), WsText (double_quoted ''{`a`:2}'')])"

definition stdout_to_ws_returns_process_exited_on_eof :: bool where
  "stdout_to_ws_returns_process_exited_on_eof \<longleftrightarrow> fst (stdout_to_ws vec_sink (lines_of []) bench_default) = ProcessExited"

definition stdout_to_ws_surfaces_error_on_sink_failure :: bool where
  "stdout_to_ws_surfaces_error_on_sink_failure \<longleftrightarrow>
     exits_naming (fst (stdout_to_ws vec_sink (lines_of (''line'' @ [CHR 0x0A])) (bench_default\<lparr>fail_on_send := True\<rparr>)))
       ''ws write''"

text \<open>
  A side that hangs makes no step: the schedules of the first and the last of these tests have only steps of
  the tunnel, those of the second only steps of the process, as many as there are.
\<close>

definition run_ends_when_ws_closes_first :: "nat \<Rightarrow> (string, string) result list \<Rightarrow> bool" where
  "run_ends_when_ws_closes_first k hanging \<longleftrightarrow>
     map_option fst (bridge_run vec_writer vec_sink (replicate (Suc k) True) [Ok WsClose] hanging bench_default)
       = Some TunnelClosed"

definition run_ends_when_child_stdout_hits_eof :: "nat \<Rightarrow> (ws_message, string) result list \<Rightarrow> bool" where
  "run_ends_when_child_stdout_hits_eof k pending \<longleftrightarrow>
     map_option fst (bridge_run vec_writer vec_sink (replicate (Suc k) False) pending (lines_of []) bench_default)
       = Some ProcessExited"

definition run_forwards_text_frame_to_stdin_before_ws_close :: "nat \<Rightarrow> (string, string) result list \<Rightarrow> bool" where
  "run_forwards_text_frame_to_stdin_before_ws_close k hanging \<longleftrightarrow>
     map_option (map_prod id stdin_bytes)
       (bridge_run vec_writer vec_sink (replicate (4 + k) True)
          [Ok (WsText (''from-server'' @ [CHR 0x0A])), Ok WsClose] hanging bench_default)
       = Some (TunnelClosed, ''from-server'' @ [CHR 0x0A])"

definition multimodal_frame :: string where
  "multimodal_frame = double_quoted (''{`jsonrpc`:`2.0`,`method`:`session/message`,`params`:{`role`:`user`,`content`:[''
     @ ''{`type`:`text`,`text`:`hi`},{`type`:`image_url`,`image_url`:{`url`:`data:image/png;base64,abc`}},''
     @ ''{`type`:`hologram`,`mesh`:`xyz`}]}}'')"

text \<open>The value that this text denotes, and that a JSON library reads from it.\<close>

definition multimodal_value :: json where
  "multimodal_value = JObject [(''jsonrpc'', JString ''2.0''), (''method'', JString ''session/message''),
     (''params'', JObject [(''role'', JString ''user''), (''content'', JArray
        [JObject [(''type'', JString ''text''), (''text'', JString ''hi'')],
         JObject [(''type'', JString ''image_url''), (''image_url'', JObject [(''url'', JString ''data:image/png;base64,abc'')])],
         JObject [(''type'', JString ''hologram''), (''mesh'', JString ''xyz'')]])])]"

definition ws_to_stdin_forwards_multimodal_json_verbatim :: "serde \<Rightarrow> bool" where
  "ws_to_stdin_forwards_multimodal_json_verbatim S \<longleftrightarrow>
     (let out = stdin_bytes (snd (ws_to_stdin vec_writer [Ok (WsText multimodal_frame)] bench_default))
      in trim out = multimodal_frame
         \<and> (case json_at [''params'', ''content''] (parse_json S (trim out)) of
              Some (JArray bs) \<Rightarrow> map (json_get ''type'') bs
                = [Some (JString ''text''), Some (JString ''image_url''), Some (JString ''hologram'')]
            | _ \<Rightarrow> False))"

definition turn_end_line :: string where
  "turn_end_line = double_quoted (''{`jsonrpc`:`2.0`,`method`:`turn/end`,`params`:{`messages`:[{`role`:`user`,`content`:[''
     @ ''{`type`:`text`,`text`:`describe`},{`type`:`image_url`,`image_url`:{`url`:`data:image/png;base64,abc`}}]},''
     @ ''{`role`:`assistant`,`content`:`A pixel.`}],`usage`:{`input_tokens`:100,`output_tokens`:10}}}'')"

definition stdout_to_ws_forwards_multimodal_turn_end_verbatim :: bool where
  "stdout_to_ws_forwards_multimodal_turn_end_verbatim \<longleftrightarrow>
     sent_frames (snd (stdout_to_ws vec_sink (lines_of (turn_end_line @ [CHR 0x0A])) bench_default)) = [WsText turn_end_line]"

lemma ws_to_stdin_tests:
  "ws_to_stdin_forwards_text_frames_with_newline" "ws_to_stdin_returns_tunnel_closed_on_close_frame"
  "ws_to_stdin_ignores_ping_and_binary_frames"
  by code_simp+

lemma lower_ws_read: "to_ascii_lowercase ''ws read: '' = ''ws read: ''"
  by code_simp

lemma ws_read_failure_test: "ws_to_stdin_surfaces_error_on_ws_read_failure e"
proof -
  have "to_ascii_lowercase (''ws read: '' @ e) = [] @ ''ws read'' @ '': '' @ to_ascii_lowercase e"
    using lower_ws_read by (simp add: to_ascii_lowercase_def)
  then show ?thesis
    unfolding ws_to_stdin_surfaces_error_on_ws_read_failure_def exits_naming_def
    by (simp add: str_contains_sublist sublist_def del: append_Nil append_Cons) blast
qed

lemma stdout_to_ws_tests:
  "stdout_to_ws_forwards_lines_as_text_frames" "stdout_to_ws_returns_process_exited_on_eof"
  "stdout_to_ws_surfaces_error_on_sink_failure"
  by code_simp+

lemma run_tests:
  "run_ends_when_ws_closes_first k hanging" "run_ends_when_child_stdout_hits_eof k pending"
  "run_forwards_text_frame_to_stdin_before_ws_close k hanging"
  by (simp_all add: run_ends_when_ws_closes_first_def run_ends_when_child_stdout_hits_eof_def
      run_forwards_text_frame_to_stdin_before_ws_close_def bridge_run_def out_step_def lines_of_def read_lines_def
      frame_ops_def vec_writer_def bench_default_def newline_char_def str_simps numeral_eq_Suc suffix_def)

text \<open>A line that opens and closes with a brace keeps both when the newline after it is cut off.\<close>

lemma trim_end_brace: "trim_end (p @ ''}'' @ [newline_char]) = p @ ''}''"
  by (simp add: trim_end_def ws_suffix_def ws_units_def newline_char_def ends_with_suffix suffix_to_prefix)

lemma trim_start_brace: "trim_start (''{'' @ p) = ''{'' @ p"
  by (simp add: trim_start_def ws_prefix_def ws_units_def str_simps)

lemma trim_framed: "trim (multimodal_frame @ [newline_char]) = multimodal_frame" "trim_end (turn_end_line @ [newline_char]) = turn_end_line"
proof -
  have "turn_end_line = butlast turn_end_line @ ''}''" by code_simp
  then show "trim_end (turn_end_line @ [newline_char]) = turn_end_line" by (metis append_assoc trim_end_brace)
  have "multimodal_frame = butlast multimodal_frame @ ''}''" by code_simp
  then have "trim_end (multimodal_frame @ [newline_char]) = multimodal_frame" by (metis append_assoc trim_end_brace)
  moreover have "multimodal_frame = ''{'' @ tl multimodal_frame" by code_simp
  then have "trim_start (multimodal_frame @ [newline_char]) = multimodal_frame @ [newline_char]" by (metis append_assoc trim_start_brace)
  ultimately show "trim (multimodal_frame @ [newline_char]) = multimodal_frame" by (simp add: trim_def)
qed

lemma frames_one_line: "\<not> ends_with multimodal_frame [newline_char]" "newline_char \<notin> set turn_end_line"
  by code_simp+

lemma verbatim_tests:
  "parse_json S multimodal_frame = Some multimodal_value \<Longrightarrow> ws_to_stdin_forwards_multimodal_json_verbatim S"
  "stdout_to_ws_forwards_multimodal_turn_end_verbatim"
proof -
  have "snd (ws_to_stdin vec_writer [Ok (WsText multimodal_frame)] bench_default)
      = bench_default\<lparr>stdin_bytes := multimodal_frame @ [newline_char]\<rparr>"
    using frames_one_line(1) by (simp add: write_frame_def then_write_def vec_writer_def bench_default_def)
  then show "parse_json S multimodal_frame = Some multimodal_value \<Longrightarrow> ws_to_stdin_forwards_multimodal_json_verbatim S"
    by (simp add: ws_to_stdin_forwards_multimodal_json_verbatim_def trim_framed multimodal_value_def)
  have "read_lines (turn_end_line @ [newline_char]) = [turn_end_line @ [newline_char]]"
    using read_lines_line [OF frames_one_line(2), of "[]"] by (simp add: read_lines_def)
  then show "stdout_to_ws_forwards_multimodal_turn_end_verbatim"
    by (simp add: stdout_to_ws_forwards_multimodal_turn_end_verbatim_def lines_of_def trim_framed vec_sink_def bench_default_def
        flip: newline_char_def)
qed

subsection \<open>The tunnel\<close>

definition backoff_doubles_on_each_attempt_until_cap :: bool where
  "backoff_doubles_on_each_attempt_until_cap \<longleftrightarrow>
     backoff_secs 0 = 1 \<and> backoff_secs 1 = 2 \<and> backoff_secs 2 = 4 \<and> backoff_secs 3 = 8 \<and> backoff_secs 4 = 16"

definition backoff_capped_at_max :: bool where
  "backoff_capped_at_max \<longleftrightarrow>
     backoff_secs 5 = MAX_BACKOFF_SECS \<and> backoff_secs 6 = MAX_BACKOFF_SECS \<and> backoff_secs 1000 = MAX_BACKOFF_SECS"

text \<open>A network on which nobody listens at the address.\<close>

definition nobody_listens :: "('w, 'c, 'r) network \<Rightarrow> bool" where
  "nobody_listens N \<longleftrightarrow> (\<forall>r w. \<not> is_ok (fst (connect_async N r w)))"

definition connect_fails_fast_against_unreachable_host :: "('w, 'c, 'r) network \<Rightarrow> 'w \<Rightarrow> bool" where
  "connect_fails_fast_against_unreachable_host N w \<longleftrightarrow>
     \<not> is_ok (fst (connect N ''ws://127.0.0.1:1/tunnel/x'' ''dummy-token'' w))"

definition connect_rejects_malformed_url :: "('w, 'c, 'r) network \<Rightarrow> 'w \<Rightarrow> bool" where
  "connect_rejects_malformed_url N w \<longleftrightarrow>
     (case fst (connect N ''not a url'' ''tok'' w) of
        Err (msg # _) \<Rightarrow> str_contains (to_ascii_lowercase msg) ''tunnel url'' | _ \<Rightarrow> False)"

text \<open>The test aborts the attempt while it sleeps: as long as nobody listens, it does not return.\<close>

definition connect_with_retry_eventually_succeeds_after_initial_failure ::
    "('w, 'c, 'r) network \<Rightarrow> string \<Rightarrow> 'w \<Rightarrow> bool" where
  "connect_with_retry_eventually_succeeds_after_initial_failure N addr w \<longleftrightarrow>
     connect_with_retry N (''ws://'' @ addr @ ''/tunnel/test'') ''tok'' w = None"

lemma backoff_tests: "backoff_doubles_on_each_attempt_until_cap" "backoff_capped_at_max"
  by code_simp+

lemma is_ok_map_err [simp]: "is_ok (res_map_err f r) = is_ok r"
  by (cases r) simp_all

lemma connect_fails: "nobody_listens N \<Longrightarrow> \<not> is_ok (fst (connect N url token w))"
  by (simp add: connect_def nobody_listens_def in_context_def split: result.split option.split prod.split)

lemma connect_tests:
  "nobody_listens N \<Longrightarrow> connect_fails_fast_against_unreachable_host N w"
  "url_parse N ''not a url'' = Err e \<Longrightarrow> connect_rejects_malformed_url N w"
proof -
  show "nobody_listens N \<Longrightarrow> connect_fails_fast_against_unreachable_host N w"
    unfolding connect_fails_fast_against_unreachable_host_def by (rule connect_fails)
  have "str_contains (to_ascii_lowercase ''invalid tunnel URL'') ''tunnel url''" by code_simp
  then show "url_parse N ''not a url'' = Err e \<Longrightarrow> connect_rejects_malformed_url N w"
    by (simp add: connect_rejects_malformed_url_def connect_def in_context_def del: str_contains_sublist)
qed

lemma retry_test:
  assumes "nobody_listens N"
  shows "connect_with_retry_eventually_succeeds_after_initial_failure N addr w"
proof -
  have "\<not> is_ok (fst (nth_attempt N url token w k))" for url token k
    by (cases k) (simp_all add: connect_fails [OF assms])
  then have "connect_with_retry N url token w \<noteq> Some (c, w')" for url token c w'
    by (metis connect_with_retry_iff fst_conv is_ok.simps(1))
  then show ?thesis
    unfolding connect_with_retry_eventually_succeeds_after_initial_failure_def by (metis not_None_eq surj_pair)
qed

subsection \<open>The child process\<close>

definition loop_adapter_sets_workspace_env_var :: bool where
  "loop_adapter_sets_workspace_env_var \<longleftrightarrow>
     (let cmd = loop_command \<lparr>adapter_binary = ''overloop'', adapter_workspace = ''/tmp/ws''\<rparr>
      in cmd_program cmd = ''overloop'' \<and> map_of (cmd_env cmd) ''OVERACP_WORKSPACE'' = Some ''/tmp/ws'')"

definition loop_adapter_command_is_reusable_across_calls :: bool where
  "loop_adapter_command_is_reusable_across_calls \<longleftrightarrow>
     (let adapter = \<lparr>adapter_binary = ''/bin/cat'', adapter_workspace = ''/tmp/ws''\<rparr>;
          cmd_a = loop_command adapter; cmd_b = loop_command adapter
      in cmd_program cmd_a = cmd_program cmd_b)"

text \<open>
  The program that writes what it reads: the bytes on their way, and whether its input is closed. A read
  that would block is an error here, so that a test in which one blocks fails.
\<close>

record cat_process =
  passing :: string
  input_closed :: bool

definition cat_stdin :: "cat_process pipe" where
  "cat_stdin = \<lparr>write_all = (\<lambda>t c. (Ok (), c\<lparr>passing := passing c @ t\<rparr>)), flush = (\<lambda>c. (Ok (), c))\<rparr>"

definition cat_read :: "cat_process \<Rightarrow> (string, string) result \<times> cat_process" where
  "cat_read c =
     (case read_lines (passing c) of
        [] \<Rightarrow> (if input_closed c then Ok [] else Err ''blocks'', c)
      | l # _ \<Rightarrow>
          if ends_with l [newline_char] \<or> input_closed c then (Ok l, c\<lparr>passing := drop (length l) (passing c)\<rparr>)
          else (Err ''blocks'', c))"

definition cat_fresh :: cat_process where "cat_fresh = \<lparr>passing = [], input_closed = False\<rparr>"

definition spawn_echo_process :: bool where
  "spawn_echo_process \<longleftrightarrow>
     (case write_line cat_stdin (''hello'' @ [newline_char]) cat_fresh of (r, c) \<Rightarrow>
        r = Ok () \<and> fst (proc_read_line cat_read c) = Ok (Some (''hello'' @ [newline_char])))"

definition write_line_adds_newline_when_missing :: bool where
  "write_line_adds_newline_when_missing \<longleftrightarrow>
     (case write_line cat_stdin ''no-newline'' cat_fresh of (r, c) \<Rightarrow>
        r = Ok () \<and> fst (proc_read_line cat_read c) = Ok (Some (''no-newline'' @ [newline_char])))"

definition write_line_does_not_double_newline :: bool where
  "write_line_does_not_double_newline \<longleftrightarrow>
     (case write_line cat_stdin (''with-newline'' @ [newline_char]) cat_fresh of (r, c) \<Rightarrow>
      case proc_read_line cat_read c of (line, c1) \<Rightarrow>
        r = Ok () \<and> line = Ok (Some (''with-newline'' @ [newline_char]))
        \<and> fst (proc_read_line cat_read (c1\<lparr>input_closed := True\<rparr>)) = Ok None)"

definition read_line_returns_none_on_eof :: bool where
  "read_line_returns_none_on_eof \<longleftrightarrow> fst (proc_read_line cat_read (cat_fresh\<lparr>input_closed := True\<rparr>)) = Ok None"

definition spawn_errors_on_missing_binary :: "('w, 'ch) os_process \<Rightarrow> 'w \<Rightarrow> bool" where
  "spawn_errors_on_missing_binary Q w \<longleftrightarrow>
     \<not> is_ok (fst (spawn Q (command_new ''/nonexistent/binary/definitely-not-here'') w))"

lemma adapter_tests: "loop_adapter_sets_workspace_env_var" "loop_adapter_command_is_reusable_across_calls"
  by code_simp+

lemma process_tests:
  "spawn_echo_process" "write_line_adds_newline_when_missing" "write_line_does_not_double_newline" "read_line_returns_none_on_eof"
  by code_simp+

text \<open>The operating system starts no program that is not there.\<close>

lemma spawn_test:
  assumes "\<And>cmd. cmd_program cmd = ''/nonexistent/binary/definitely-not-here'' \<Longrightarrow> \<not> is_ok (fst (os_spawn Q cmd w))"
  shows "spawn_errors_on_missing_binary Q w"
  using assms [of "piped (command_new ''/nonexistent/binary/definitely-not-here'')"]
  by (auto simp: spawn_errors_on_missing_binary_def spawn_def piped_def command_new_def split: prod.split result.split)

text \<open>One child that ends when it is killed; the state is whether it runs.\<close>

definition one_child :: "(bool, unit) os_process" where
  "one_child = \<lparr>os_spawn = (\<lambda>_ _. (Ok (), True)), child_stdin = (\<lambda>_. None), child_stdout = (\<lambda>_ _. None),
     try_wait = (\<lambda>_ runs. (Ok (if runs then None else Some ''exit status: 0''), runs)),
     os_kill = (\<lambda>_ _. (Ok (), False)), os_wait = (\<lambda>_ runs. if runs then None else Some runs)\<rparr>"

definition reap_child_already_exited :: bool where
  "reap_child_already_exited \<longleftrightarrow> map_option fst (reap_child one_child () False) = Some AlreadyExited"

definition reap_child_kills_long_running_process :: bool where
  "reap_child_kills_long_running_process \<longleftrightarrow>
     (case reap_child one_child () True of
        Some (outcome, runs) \<Rightarrow> outcome = Killed \<and> (case fst (try_wait one_child () runs) of Ok (Some _) \<Rightarrow> True | _ \<Rightarrow> False)
      | None \<Rightarrow> False)"

lemma reap_tests: "reap_child_already_exited" "reap_child_kills_long_running_process"
  by code_simp+

end
