(* ===== verification/Observability.thy ===== *)
theory Observability
  imports Overloop
begin

text \<open>
  The optional tracing of the agent's model calls (\<^verbatim>\<open>loop/src/observability/langfuse.rs\<close>).
  The HTTP client, fresh identifiers and the clock are parameters. Every operation of a trace
  starts a task of its own; the model gives what that task does to the outside, and leaves open
  when it runs.
\<close>

record langfuse_inner =
  lf_base_url :: string
  lf_public_key :: string
  lf_secret_key :: string

record langfuse_tracer =
  tracer_inner :: "langfuse_inner option"
  tracer_environment :: string

definition trim_end_matches :: "char \<Rightarrow> string \<Rightarrow> string" where
  "trim_end_matches c s = rev (dropWhile (\<lambda>x. x = c) (rev s))"

definition langfuse_new :: "config \<Rightarrow> langfuse_tracer" where
  "langfuse_new cfg =
     \<lparr>tracer_inner =
        (case (langfuse_public_key cfg, langfuse_secret_key cfg) of
           (Some pk, Some sk) \<Rightarrow>
             Some \<lparr>lf_base_url = trim_end_matches (CHR ''/'') (langfuse_host cfg), lf_public_key = pk, lf_secret_key = sk\<rparr>
         | _ \<Rightarrow> None),
      tracer_environment = langfuse_environment cfg\<rparr>"

definition is_enabled :: "langfuse_tracer \<Rightarrow> bool" where
  "is_enabled t \<longleftrightarrow> tracer_inner t \<noteq> None"

record session_trace_inner =
  st_client :: langfuse_inner
  st_trace_id :: string
  st_session_id :: string
  st_environment :: string

type_synonym session_trace = "session_trace_inner option"

record 'w lf_env =
  fresh_uuid :: "'w \<Rightarrow> string \<times> 'w"
  timestamp :: "'w \<Rightarrow> string \<times> 'w"
  http_post :: "string \<Rightarrow> string \<times> string \<Rightarrow> json \<Rightarrow> 'w \<Rightarrow> (nat, string) result \<times> 'w"

definition lf_start_session :: "'w lf_env \<Rightarrow> langfuse_tracer \<Rightarrow> string \<Rightarrow> 'w \<Rightarrow> session_trace \<times> 'w" where
  "lf_start_session L t sid w =
     (case tracer_inner t of
        None \<Rightarrow> (None, w)
      | Some i \<Rightarrow> (case fresh_uuid L w of (u, w') \<Rightarrow>
          (Some \<lparr>st_client = i, st_trace_id = u, st_session_id = sid, st_environment = tracer_environment t\<rparr>, w')))"

definition noop_trace :: session_trace where "noop_trace = None"

definition is_active :: "session_trace \<Rightarrow> bool" where "is_active t \<longleftrightarrow> t \<noteq> None"

text \<open>The outcome of the request is only logged.\<close>

definition post_ingestion :: "'w lf_env \<Rightarrow> langfuse_inner \<Rightarrow> json \<Rightarrow> 'w \<Rightarrow> 'w" where
  "post_ingestion L i body w =
     snd (http_post L (lf_base_url i @ ''/api/public/ingestion'') (lf_public_key i, lf_secret_key i) body w)"

definition batch :: "string \<Rightarrow> string \<Rightarrow> string \<Rightarrow> json \<Rightarrow> json" where
  "batch event_id kind ts body =
     JObject [(''batch'', JArray [JObject
       [(''id'', JString event_id), (''type'', JString kind), (''timestamp'', JString ts), (''body'', body)]])]"

definition json_u64 :: "u64 \<Rightarrow> json" where "json_u64 n = JNumber (PosInt n)"

definition json_opt :: "string option \<Rightarrow> json" where
  "json_opt v = (case v of None \<Rightarrow> JNull | Some s \<Rightarrow> JString s)"

definition create_trace :: "'w lf_env \<Rightarrow> session_trace \<Rightarrow> string \<Rightarrow> string list \<Rightarrow> 'w \<Rightarrow> 'w" where
  "create_trace L t user_message tags w =
     (case t of None \<Rightarrow> w
      | Some i \<Rightarrow>
          (case timestamp L w of (ts, w1) \<Rightarrow>
          (case fresh_uuid L w1 of (u, w2) \<Rightarrow>
             post_ingestion L (st_client i)
               (batch u ''trace-create'' ts
                 (JObject [(''id'', JString (st_trace_id i)), (''timestamp'', JString ts), (''name'', JString ''agent-session''),
                    (''sessionId'', JString (st_session_id i)), (''environment'', JString (st_environment i)),
                    (''input'', JString user_message), (''tags'', JArray (map JString (st_environment i # tags)))])) w2)))"

text \<open>The sum of the tokens wraps, as a release build computes it. \<open>span\<close> are the start and the end.\<close>

definition generation_body :: "session_trace_inner \<Rightarrow> string \<Rightarrow> string \<times> string \<Rightarrow> generation_params \<Rightarrow> json" where
  "generation_body i u span p =
     JObject ([(''id'', JString u), (''traceId'', JString (st_trace_id i)), (''name'', JString ''llm-call''),
       (''environment'', JString (st_environment i)), (''model'', JString (gen_model p)),
       (''input'', gen_input_preview p), (''output'', json_opt (gen_output_text p)),
       (''metadata'', JObject [(''stop_reason'', JString (gen_stop_reason p)),
          (''message_count'', json_u64 (of_nat (gen_message_count p))), (''cost_usd'', JNumber (Float (gen_cost p))),
          (''cache_read_tokens'', json_u64 (gen_cache_read_tokens p)),
          (''cache_creation_tokens'', json_u64 (gen_cache_creation_tokens p))]),
       (''usage'', JObject [(''promptTokens'', json_u64 (gen_prompt_tokens p)),
          (''completionTokens'', json_u64 (gen_completion_tokens p)),
          (''totalTokens'', json_u64 (gen_prompt_tokens p + gen_completion_tokens p))]),
       (''startTime'', JString (fst span)), (''endTime'', JString (snd span))]
       @ (case gen_level p of None \<Rightarrow> [] | Some l \<Rightarrow> [(''level'', JString l)])
       @ (case gen_status_message p of None \<Rightarrow> [] | Some m \<Rightarrow> [(''statusMessage'', JString m)]))"

definition lf_record_generation ::
    "'w lf_env \<Rightarrow> session_trace \<Rightarrow> string \<times> string \<Rightarrow> generation_params \<Rightarrow> 'w \<Rightarrow> 'w" where
  "lf_record_generation L t span p w =
     (case t of None \<Rightarrow> w
      | Some i \<Rightarrow>
          (case timestamp L w of (ts, w1) \<Rightarrow>
          (case fresh_uuid L w1 of (u, w2) \<Rightarrow>
          (case fresh_uuid L w2 of (v, w3) \<Rightarrow>
             post_ingestion L (st_client i) (batch v ''generation-create'' ts (generation_body i u span p)) w3))))"

definition span_body :: "session_trace_inner \<Rightarrow> string \<Rightarrow> string \<times> string \<Rightarrow> tool_span_params \<Rightarrow> json" where
  "span_body i u span p =
     JObject [(''id'', JString u), (''traceId'', JString (st_trace_id i)), (''name'', JString (span_name p)),
       (''environment'', JString (st_environment i)), (''startTime'', JString (fst span)), (''endTime'', JString (snd span)),
       (''level'', JString (if span_is_error p then ''ERROR'' else ''DEFAULT'')),
       (''input'', JString (span_input p)), (''output'', JString (span_output p)),
       (''metadata'', JObject [(''is_error'', JBool (span_is_error p))])]"

definition lf_record_tool_span ::
    "'w lf_env \<Rightarrow> session_trace \<Rightarrow> string \<times> string \<Rightarrow> tool_span_params \<Rightarrow> 'w \<Rightarrow> 'w" where
  "lf_record_tool_span L t span p w =
     (case t of None \<Rightarrow> w
      | Some i \<Rightarrow>
          (case timestamp L w of (ts, w1) \<Rightarrow>
          (case fresh_uuid L w1 of (v, w2) \<Rightarrow>
          (case fresh_uuid L w2 of (u, w3) \<Rightarrow>
             post_ingestion L (st_client i) (batch v ''span-create'' ts (span_body i u span p)) w3))))"

definition lf_finalize ::
    "'w lf_env \<Rightarrow> session_trace \<Rightarrow> u64 \<Rightarrow> f64 \<Rightarrow> nat \<Rightarrow> string \<Rightarrow> 'w \<Rightarrow> 'w" where
  "lf_finalize L t tokens total_cost tools response w =
     (case t of None \<Rightarrow> w
      | Some i \<Rightarrow>
          (case timestamp L w of (ts, w1) \<Rightarrow>
          (case fresh_uuid L w1 of (u, w2) \<Rightarrow>
             post_ingestion L (st_client i)
               (batch u ''trace-create'' ts
                 (JObject [(''id'', JString (st_trace_id i)), (''timestamp'', JString ts), (''name'', JString ''agent-session''),
                    (''sessionId'', JString (st_session_id i)), (''environment'', JString (st_environment i)),
                    (''output'', JString response),
                    (''metadata'', JObject [(''total_tokens'', json_u64 tokens), (''total_cost_usd'', JNumber (Float total_cost)),
                       (''tool_calls'', json_u64 (of_nat tools))])])) w2)))"

subsection \<open>Properties\<close>

datatype trace_op =
    CreateTrace string "string list"
  | RecordGeneration "string \<times> string" generation_params
  | RecordSpan "string \<times> string" tool_span_params
  | Finalize u64 f64 nat string

fun trace_do :: "'w lf_env \<Rightarrow> session_trace \<Rightarrow> trace_op \<Rightarrow> 'w \<Rightarrow> 'w" where
  "trace_do L t (CreateTrace m tags) = create_trace L t m tags"
| "trace_do L t (RecordGeneration s p) = lf_record_generation L t s p"
| "trace_do L t (RecordSpan s p) = lf_record_tool_span L t s p"
| "trace_do L t (Finalize k c n r) = lf_finalize L t k c n r"

text \<open>The body of the one event of a batch, and the trace that it names.\<close>

fun event_trace :: "json \<Rightarrow> string option" where
  "event_trace (JObject [(_, JArray [JObject kvs])]) =
     Option.bind (map_of kvs ''body'') (\<lambda>b.
       case json_get ''traceId'' b of
         Some i \<Rightarrow> as_str i
       | None \<Rightarrow> Option.bind (json_get ''id'' b) as_str)"
| "event_trace _ = None"

text \<open>What is posted, seen through \<open>posts\<close>; identifiers and the clock post nothing.\<close>

definition lf_laws :: "'w lf_env \<Rightarrow> ('w \<Rightarrow> (string \<times> (string \<times> string) \<times> json) list) \<Rightarrow> bool" where
  "lf_laws L posts \<longleftrightarrow>
     (\<forall>w. posts (snd (fresh_uuid L w)) = posts w) \<and> (\<forall>w. posts (snd (timestamp L w)) = posts w)
   \<and> (\<forall>u a b w. posts (snd (http_post L u a b w)) = posts w @ [(u, a, b)])"

lemma trace_do_posts:
  assumes "lf_laws L posts"
  shows "\<exists>body. event_trace body = Some (st_trace_id i)
    \<and> posts (trace_do L (Some i) x w) = posts w
        @ [(lf_base_url (st_client i) @ ''/api/public/ingestion'', (lf_public_key (st_client i), lf_secret_key (st_client i)), body)]"
proof -
  have p: "posts (snd (fresh_uuid L v)) = posts v" "posts (snd (timestamp L v)) = posts v"
    "posts (post_ingestion L c b v) = posts v @ [(lf_base_url c @ ''/api/public/ingestion'', (lf_public_key c, lf_secret_key c), b)]" for v c b
    using assms by (simp_all add: lf_laws_def post_ingestion_def)
  show ?thesis
    by (cases x)
      (auto simp: create_trace_def lf_record_generation_def lf_record_tool_span_def lf_finalize_def case_prod_beta p
        batch_def generation_body_def span_body_def)
qed

lemma trim_end_matches_not_last: "trim_end_matches c s \<noteq> [] \<Longrightarrow> last (trim_end_matches c s) \<noteq> c"
  unfolding trim_end_matches_def using hd_dropWhile [of "\<lambda>x. x = c" "rev s"] by (simp add: last_rev)

text \<open>
  Tracing does nothing unless both keys are configured, and otherwise every operation of a
  session's trace is one request to the ingestion address of the configured host, without doubled
  slashes, with the configured keys and the id of that session's trace.
\<close>

theorem tracing_needs_both_keys:
  assumes "lf_laws L posts" and "lf_start_session L (langfuse_new cfg) sid w = (t, w')"
  shows "if langfuse_public_key cfg = None \<or> langfuse_secret_key cfg = None then w' = w \<and> foldl (\<lambda>v x. trace_do L t x v) w' xs = w
    else \<exists>pk sk base bodies. langfuse_public_key cfg = Some pk \<and> langfuse_secret_key cfg = Some sk
      \<and> base = trim_end_matches (CHR ''/'') (langfuse_host cfg) \<and> (base = [] \<or> last base \<noteq> CHR ''/'')
      \<and> length bodies = length xs \<and> (\<forall>b \<in> set bodies. event_trace b = map_option st_trace_id t)
      \<and> posts (foldl (\<lambda>v x. trace_do L t x v) w' xs) = posts w @ map (\<lambda>b. (base @ ''/api/public/ingestion'', (pk, sk), b)) bodies"
proof (cases "langfuse_public_key cfg = None \<or> langfuse_secret_key cfg = None")
  case True
  with assms(2) have "t = None" "w' = w" by (auto simp: lf_start_session_def langfuse_new_def split: option.splits)
  moreover have "trace_do L None x v = v" for x v
    by (cases x) (simp_all add: create_trace_def lf_record_generation_def lf_record_tool_span_def lf_finalize_def)
  then have "foldl (\<lambda>v x. trace_do L None x v) v xs = v" for v by (induction xs) simp_all
  ultimately show ?thesis using True by simp
next
  case False
  then obtain pk sk where k: "langfuse_public_key cfg = Some pk" "langfuse_secret_key cfg = Some sk" by auto
  let ?base = "trim_end_matches (CHR ''/'') (langfuse_host cfg)"
  from k assms(2) obtain i where i: "t = Some i"
    "st_client i = \<lparr>lf_base_url = ?base, lf_public_key = pk, lf_secret_key = sk\<rparr>" "w' = snd (fresh_uuid L w)"
    by (auto simp: lf_start_session_def langfuse_new_def split: prod.splits)
  have "\<exists>bodies. length bodies = length xs \<and> (\<forall>b \<in> set bodies. event_trace b = Some (st_trace_id i))
      \<and> posts (foldl (\<lambda>v x. trace_do L t x v) v xs) = posts v @ map (\<lambda>b. (?base @ ''/api/public/ingestion'', (pk, sk), b)) bodies" for v
  proof (induction xs arbitrary: v)
    case (Cons x xs)
    from trace_do_posts [OF assms(1), of i x v] i obtain b where b: "event_trace b = Some (st_trace_id i)"
      "posts (trace_do L t x v) = posts v @ [(?base @ ''/api/public/ingestion'', (pk, sk), b)]" by auto
    from Cons.IH [of "trace_do L t x v"] obtain bs where "length bs = length xs" "\<forall>b \<in> set bs. event_trace b = Some (st_trace_id i)"
      "posts (foldl (\<lambda>v x. trace_do L t x v) (trace_do L t x v) xs)
         = posts (trace_do L t x v) @ map (\<lambda>b. (?base @ ''/api/public/ingestion'', (pk, sk), b)) bs" by blast
    with b show ?case by (intro exI [of _ "b # bs"]) simp
  qed (auto intro: exI [of _ "[]"])
  from this [of w'] i assms(1) k False trim_end_matches_not_last show ?thesis by (auto simp: lf_laws_def)
qed

definition demo_lf_env :: "(string \<times> (string \<times> string) \<times> json) list lf_env" where
  "demo_lf_env = \<lparr>fresh_uuid = (\<lambda>w. (''u'', w)), timestamp = (\<lambda>w. (''ts'', w)), http_post = (\<lambda>u a b w. (Ok 200, w @ [(u, a, b)]))\<rparr>"

definition demo_traced_conf :: config where
  "demo_traced_conf = demo_conf\<lparr>langfuse_public_key := Some ''pk'', langfuse_secret_key := Some ''sk'', langfuse_host := ''https://lf/''\<rparr>"

theorem tracing_needs_both_keys_witness:
  "\<exists>t b. lf_start_session demo_lf_env (langfuse_new demo_traced_conf) ''s'' [] = (t, [])
     \<and> trace_do demo_lf_env t (Finalize 3 0 1 ''bye'') [] = [(''https://lf/api/public/ingestion'', (''pk'', ''sk''), b)]"
proof -
  have 1: "lf_laws demo_lf_env (\<lambda>w. w)" by (simp add: lf_laws_def demo_lf_env_def)
  obtain t where t: "lf_start_session demo_lf_env (langfuse_new demo_traced_conf) ''s'' [] = (t, [])"
    by (simp add: lf_start_session_def langfuse_new_def demo_traced_conf_def demo_lf_env_def)
  have k: "langfuse_public_key demo_traced_conf = Some ''pk''" "langfuse_secret_key demo_traced_conf = Some ''sk''"
    "trim_end_matches (CHR ''/'') (langfuse_host demo_traced_conf) = ''https://lf''"
    by (simp_all add: demo_traced_conf_def trim_end_matches_def)
  show ?thesis
    using tracing_needs_both_keys [OF 1 t, of "[Finalize 3 0 1 ''bye'']"] t k by (auto simp: length_Suc_conv)
qed

end
