(* ===== verification/Tests_Overloop.thy ===== *)
theory Tests_Overloop
  imports Tests_Prelude Observability
begin

text \<open>
  The unit tests of files in messages (\<^verbatim>\<open>loop/src/llm/resolve.rs\<close>) and of the
  traces (\<^verbatim>\<open>loop/src/observability/langfuse.rs\<close>). What a test sets up outside the program, such as a file that
  is there, is a hypothesis on the operating system.
\<close>

subsection \<open>Files in messages\<close>

definition image_url_block :: "string \<Rightarrow> content_block" where
  "image_url_block url = BImageUrl (JObject [(''url'', JString url)])"

fun block_url :: "content_block \<Rightarrow> string option" where
  "block_url (BImageUrl v) = Option.bind (json_get ''url'' v) as_str"
| "block_url _ = None"

fun block_text :: "content_block \<Rightarrow> string option" where
  "block_text (BText t) = Some t"
| "block_text _ = None"

text \<open>What there is at a path: the bytes of a file, or none.\<close>

definition file_is :: "'s os \<Rightarrow> 's \<Rightarrow> string \<Rightarrow> string option \<Rightarrow> bool" where
  "file_is os s path data \<longleftrightarrow>
     (case data of Some d \<Rightarrow> fst (os_read os path s) = Ok d | None \<Rightarrow> \<not> is_ok (fst (os_read os path s)))"

definition passthrough_https_url :: "'s os \<Rightarrow> 's \<Rightarrow> bool" where
  "passthrough_https_url os s \<longleftrightarrow>
     block_url (fst (resolve_content_block os (image_url_block ''https://example.com/img.png'') s)) = Some ''https://example.com/img.png''"

definition passthrough_data_url :: "'s os \<Rightarrow> 's \<Rightarrow> bool" where
  "passthrough_data_url os s \<longleftrightarrow>
     (let url = ''data:image/png;base64,abc'' in block_url (fst (resolve_content_block os (image_url_block url) s)) = Some url)"

definition png_data :: string where
  "png_data = [CHR 0x89] @ ''PNG'' @ [CHR 0x0D, CHR 0x0A, CHR 0x1A, CHR 0x0A] @ ''fake''"

definition PNG_DATA_URL :: string where "PNG_DATA_URL = ''data:image/png;base64,''"

definition resolve_file_url_png :: "(string \<Rightarrow> string option) \<Rightarrow> 's os \<Rightarrow> string \<Rightarrow> 's \<Rightarrow> bool" where
  "resolve_file_url_png decode os png_path s \<longleftrightarrow>
     (case block_url (fst (resolve_content_block os (image_url_block (''file://'' @ png_path)) s)) of
        Some url \<Rightarrow> starts_with url PNG_DATA_URL \<and> decode (drop (length PNG_DATA_URL) url) = Some png_data
      | None \<Rightarrow> False)"

definition resolve_missing_file :: "'s os \<Rightarrow> 's \<Rightarrow> bool" where
  "resolve_missing_file os s \<longleftrightarrow>
     (case block_text (fst (resolve_content_block os (image_url_block ''file:///nonexistent/path/image.png'') s)) of
        Some t \<Rightarrow> str_contains t ''Image not available'' \<and> str_contains t ''/nonexistent/path/image.png''
      | None \<Rightarrow> False)"

definition resolve_unknown_extension :: "'s os \<Rightarrow> string \<Rightarrow> 's \<Rightarrow> bool" where
  "resolve_unknown_extension os path s \<longleftrightarrow>
     (case block_text (fst (resolve_content_block os (image_url_block (''file://'' @ path)) s)) of
        Some t \<Rightarrow> str_contains t ''unsupported file extension'' | None \<Rightarrow> False)"

definition mime_detection :: "'s os \<Rightarrow> bool" where
  "mime_detection os \<longleftrightarrow>
     resolve_mime os ''x.png'' = Some ''image/png'' \<and> resolve_mime os ''x.jpg'' = Some ''image/jpeg''
     \<and> resolve_mime os ''x.jpeg'' = Some ''image/jpeg'' \<and> resolve_mime os ''x.gif'' = Some ''image/gif''
     \<and> resolve_mime os ''x.webp'' = Some ''image/webp'' \<and> resolve_mime os ''x.pdf'' = Some ''application/pdf''
     \<and> resolve_mime os ''x.bmp'' = None \<and> resolve_mime os ''noext'' = None"

definition mixed_message :: "string \<Rightarrow> message" where
  "mixed_message file_url =
     \<lparr>m_role = RUser,
      m_content = Some (CBlocks [Known (BText ''describe these''), Known (image_url_block file_url),
        Known (image_url_block ''https://example.com/other.png'')]),
      m_tool_calls = None, m_tool_call_id = None\<rparr>"

definition resolve_message_mixed_blocks :: "'s os \<Rightarrow> string \<Rightarrow> 's \<Rightarrow> bool" where
  "resolve_message_mixed_blocks os path s \<longleftrightarrow>
     (case m_content (fst (resolve_file_urls_in_message os (mixed_message (''file://'' @ path)) s)) of
        Some (CBlocks [Known b0, Known b1, Known b2]) \<Rightarrow>
          block_text b0 = Some ''describe these''
          \<and> (case block_url b1 of Some url \<Rightarrow> starts_with url PNG_DATA_URL | None \<Rightarrow> False)
          \<and> block_url b2 = Some ''https://example.com/other.png''
      | _ \<Rightarrow> False)"

definition resolve_text_message_noop :: "'s os \<Rightarrow> 's \<Rightarrow> bool" where
  "resolve_text_message_noop os s \<longleftrightarrow>
     m_content (fst (resolve_file_urls_in_message os
       \<lparr>m_role = RUser, m_content = Some (CText ''hello''), m_tool_calls = None, m_tool_call_id = None\<rparr> s))
       = Some (CText ''hello'')"

lemma lower_extensions:
  "to_ascii_lowercase ''png'' = ''png''" "to_ascii_lowercase ''jpg'' = ''jpg''" "to_ascii_lowercase ''jpeg'' = ''jpeg''"
  "to_ascii_lowercase ''gif'' = ''gif''" "to_ascii_lowercase ''webp'' = ''webp''" "to_ascii_lowercase ''pdf'' = ''pdf''"
  "to_ascii_lowercase ''bmp'' = ''bmp''"
  by code_simp+

lemma passthrough_tests: "passthrough_https_url os s" "passthrough_data_url os s" "resolve_text_message_noop os s"
  by (simp_all add: passthrough_https_url_def passthrough_data_url_def resolve_text_message_noop_def
      resolve_content_block_def image_url_block_def resolve_file_urls_in_message_def str_simps)

text \<open>A file in a block, by what its path has for an extension and what is there.\<close>

lemma resolve_png:
  assumes "path_extension os (''/'' @ q) = Some ''png''" and "file_is os s (''/'' @ q) (Some d)"
  shows "fst (resolve_content_block os (image_url_block (''file:///'' @ q)) s)
    = image_url_block (PNG_DATA_URL @ base64 os d)"
  using assms by (cases "os_read os (''/'' @ q) s")
    (simp add: resolve_content_block_def image_url_block_def resolve_file_url_def resolve_mime_def file_is_def
      lower_extensions PNG_DATA_URL_def str_simps)

lemma unchanged_blocks:
  "resolve_content_block os (BText t) s = (BText t, s)"
  "resolve_content_block os (image_url_block ''https://example.com/other.png'') s
    = (image_url_block ''https://example.com/other.png'', s)"
  by (simp_all add: resolve_content_block_def image_url_block_def str_simps)

lemma png_tests:
  assumes "path_extension os (''/'' @ q) = Some ''png''"
  shows "file_is os s (''/'' @ q) (Some png_data) \<Longrightarrow> (\<And>d. decode (base64 os d) = Some d) \<Longrightarrow> resolve_file_url_png decode os (''/'' @ q) s"
    "file_is os s (''/'' @ q) (Some ''fakepng'') \<Longrightarrow> resolve_message_mixed_blocks os (''/'' @ q) s"
proof -
  assume "file_is os s (''/'' @ q) (Some png_data)" "\<And>d. decode (base64 os d) = Some d"
  with resolve_png [OF assms] show "resolve_file_url_png decode os (''/'' @ q) s"
    by (simp add: resolve_file_url_png_def image_url_block_def str_simps)
next
  assume "file_is os s (''/'' @ q) (Some ''fakepng'')"
  from resolve_png [OF assms this] show "resolve_message_mixed_blocks os (''/'' @ q) s"
    by (cases "resolve_content_block os (image_url_block (''file:///'' @ q)) s")
      (simp add: resolve_message_mixed_blocks_def mixed_message_def resolve_file_urls_in_message_def resolve_typed_block_def
        unchanged_blocks, simp add: image_url_block_def str_simps)
qed

lemma missing_file_test:
  assumes "path_extension os ''/nonexistent/path/image.png'' = Some ''png''" and "file_is os s ''/nonexistent/path/image.png'' None"
  shows "resolve_missing_file os s"
proof -
  obtain e s' where r: "os_read os ''/nonexistent/path/image.png'' s = (Err e, s')"
    using assms(2) by (cases "os_read os ''/nonexistent/path/image.png'' s"; cases "fst (os_read os ''/nonexistent/path/image.png'' s)")
      (auto simp: file_is_def)
  have "block_text (fst (resolve_content_block os (image_url_block ''file:///nonexistent/path/image.png'') s))
      = Some (''['' @ ''Image not available'' @ '': '' @ ''/nonexistent/path/image.png'' @ '': '' @ e @ '']'')"
    using assms(1) r by (simp add: resolve_content_block_def image_url_block_def resolve_file_url_def resolve_mime_def
        lower_extensions str_simps)
  then show ?thesis
    unfolding resolve_missing_file_def option.case str_contains_sublist sublist_def
    by (simp only: option.case) (metis append_assoc)
qed

lemma unknown_extension_test:
  assumes "path_extension os (''/'' @ q) = Some ''bmp''"
  shows "resolve_unknown_extension os (''/'' @ q) s"
proof -
  have "block_text (fst (resolve_content_block os (image_url_block (''file:///'' @ q)) s))
      = Some ((''[Image not available: '' @ ''/'' @ q @ '': '') @ ''unsupported file extension'' @ '': '' @ (''/'' @ q) @ '']'')"
    using assms by (simp add: resolve_content_block_def image_url_block_def resolve_file_url_def resolve_mime_def
        lower_extensions str_simps)
  moreover have "''file:///'' @ q = ''file://'' @ ''/'' @ q" by simp
  ultimately show ?thesis
    unfolding resolve_unknown_extension_def str_contains_sublist sublist_def by (simp only: option.case) blast
qed

text \<open>The extension of a path is what follows its last dot.\<close>

lemma mime_test:
  assumes "\<And>e. e \<in> {''png'', ''jpg'', ''jpeg'', ''gif'', ''webp'', ''pdf'', ''bmp''} \<Longrightarrow> path_extension os (''x.'' @ e) = Some e"
    and "path_extension os ''noext'' = None"
  shows "mime_detection os"
  using assms(1) [of "''png''"] assms(1) [of "''jpg''"] assms(1) [of "''jpeg''"] assms(1) [of "''gif''"]
    assms(1) [of "''webp''"] assms(1) [of "''pdf''"] assms(1) [of "''bmp''"] assms(2)
  by (simp add: mime_detection_def resolve_mime_def lower_extensions)

subsection \<open>Traces\<close>

definition lf_test_config :: "string option \<Rightarrow> string option \<Rightarrow> config" where
  "lf_test_config public secret =
     \<lparr>llm_api_key = ''k'', llm_api_url = ''http://x'', conf_model = ''m'', workspace = ''.'', mcp_servers = [],
      conf_max_iterations = 1, timeout_minutes = 1, conf_context_window = 128000,
      conf_compaction_threshold = 0x3FE999999999999A, conf_compaction_keep_recent = 10, conf_max_compactions = 3,
      agent_name = None, sentry_dsn = None, sentry_environment = ''local'', sentry_traces_sample_rate = 0,
      langfuse_public_key = public, langfuse_secret_key = secret, langfuse_host = ''https://cloud.langfuse.com'',
      langfuse_environment = ''test'', conf_langfuse_capture_input = False\<rparr>"

text \<open>No call on a disabled trace does anything: the state comes back as it was. The times are given as texts.\<close>

definition disabled_tracer_is_noop :: "'w lf_env \<Rightarrow> string \<times> string \<Rightarrow> string \<times> string \<Rightarrow> 'w \<Rightarrow> bool" where
  "disabled_tracer_is_noop L gen_times span_times w \<longleftrightarrow>
     (let tracer = langfuse_new (lf_test_config None None) in
      \<not> is_enabled tracer
      \<and> (case lf_start_session L tracer ''sess-1'' w of (trace, w1) \<Rightarrow>
           \<not> is_active trace \<and> map_option st_trace_id trace = None \<and> w1 = w
           \<and> create_trace L trace ''hi'' [''tag''] w1 = w
           \<and> lf_record_generation L trace gen_times
               \<lparr>gen_model = ''m'', gen_message_count = 2,
                gen_input_preview = JObject [(''message_count'', JNumber (PosInt 2))], gen_output_text = Some ''ok'',
                gen_stop_reason = ''stop'', gen_prompt_tokens = 10, gen_completion_tokens = 5, gen_cost = 0,
                gen_cache_read_tokens = 0, gen_cache_creation_tokens = 0, gen_level = None, gen_status_message = None\<rparr> w1 = w
           \<and> lf_record_tool_span L trace span_times
               \<lparr>span_name = ''read'', span_input = ''{}'', span_output = ''ok'', span_is_error = False\<rparr> w1 = w
           \<and> lf_finalize L trace 15 0 1 ''done'' w1 = w))"

definition enabled_tracer_yields_active_session :: "'w lf_env \<Rightarrow> 'w \<Rightarrow> bool" where
  "enabled_tracer_yields_active_session L w \<longleftrightarrow>
     (let tracer = langfuse_new (lf_test_config (Some ''pk'') (Some ''sk'')) in
      is_enabled tracer
      \<and> (case lf_start_session L tracer ''sess'' w of (trace, w1) \<Rightarrow>
           is_active trace \<and> map_option st_trace_id trace \<noteq> None))"

lemma langfuse_tests: "disabled_tracer_is_noop L gt st w" "enabled_tracer_yields_active_session L w"
  by (simp_all add: disabled_tracer_is_noop_def enabled_tracer_yields_active_session_def langfuse_new_def lf_test_config_def
      is_enabled_def is_active_def lf_start_session_def create_trace_def lf_record_generation_def lf_record_tool_span_def
      lf_finalize_def split: prod.split)

end
