(* ===== verification/Tests_Compute.thy ===== *)
theory Tests_Compute
  imports Tests_Prelude Local_Provider
begin

text \<open>
  The unit tests of the local provider of compute nodes (\<^verbatim>\<open>compute/src/providers/local.rs\<close>). What
  the operating system does with the commands of a test is a hypothesis.
\<close>

definition local_test_spec :: "string \<Rightarrow> node_spec" where
  "local_test_spec img =
     \<lparr>spec_image = img, spec_cpu = None, spec_memory_gb = None, spec_disk_gb = None, spec_env = [], spec_jwt = ''test-jwt''\<rparr>"

definition run_request :: "string list \<Rightarrow> u32 option \<Rightarrow> exec_request" where
  "run_request argv timeout_s = \<lparr>exec_command = argv, exec_cwd = None, exec_env = None, exec_timeout_s = timeout_s\<rparr>"

text \<open>The steps of the test in their order; each must have succeeded for the next.\<close>

definition lifecycle :: "('ch, 'rd, 'tx, 'rx, 'w) node_os \<Rightarrow> string \<Rightarrow> 'w \<Rightarrow> bool" where
  "lifecycle Q root w \<longleftrightarrow>
     (case create_node Q (local_test_spec ''test:latest'') (provider_new ''cat'' root, w) of
        (Ok h, s1) \<Rightarrow>
          handle_id h \<noteq> [] \<and> length (list_nodes s1) = 1
          \<and> (case describe_node (handle_id h) s1 of Ok d \<Rightarrow> desc_image d = ''test:latest'' | Err _ \<Rightarrow> False)
          \<and> (case exec Q (handle_id h) (run_request [''sh'', ''-c'', ''echo hello''] None) s1 of
               (Ok x, s2) \<Rightarrow>
                 exec_exit_code x = 0 \<and> str_contains (exec_stdout x) ''hello''
                 \<and> (case delete_node Q (handle_id h) s2 of
                      Some (Ok _, s3) \<Rightarrow> list_nodes s3 = [] | _ \<Rightarrow> False)
             | _ \<Rightarrow> False)
      | _ \<Rightarrow> False)"

definition exec_on_unknown_node_is_not_found :: "('ch, 'rd, 'tx, 'rx, 'w) node_os \<Rightarrow> string \<Rightarrow> 'w \<Rightarrow> bool" where
  "exec_on_unknown_node_is_not_found Q root w \<longleftrightarrow>
     (case fst (exec Q ''nope'' (run_request [''true''] None) (provider_new ''cat'' root, w)) of
        Err (NotFound _) \<Rightarrow> True | _ \<Rightarrow> False)"

definition exec_timeout_returns_timeout_error :: "('ch, 'rd, 'tx, 'rx, 'w) node_os \<Rightarrow> string \<Rightarrow> 'w \<Rightarrow> bool" where
  "exec_timeout_returns_timeout_error Q root w \<longleftrightarrow>
     (case create_node Q (local_test_spec ''test'') (provider_new ''cat'' root, w) of
        (Ok h, s1) \<Rightarrow> fst (exec Q (handle_id h) (run_request [''sleep'', ''5''] (Some 1)) s1) = Err Timeout
      | _ \<Rightarrow> False)"

definition capability_flags_match_design_doc_defaults :: bool where
  "capability_flags_match_design_doc_defaults \<longleftrightarrow> \<not> supports_multi_agent_nodes \<and> \<not> supports_node_reuse"

definition validate_config_rejects_non_string :: bool where
  "validate_config_rejects_non_string \<longleftrightarrow>
     \<not> is_ok (validate_config [''local.agent_binary'' \<mapsto> JNumber (PosInt 42)])"

lemma capability_tests: "capability_flags_match_design_doc_defaults" "validate_config_rejects_non_string"
  by (simp_all add: capability_flags_match_design_doc_defaults_def validate_config_rejects_non_string_def
      supports_multi_agent_nodes_def supports_node_reuse_def validate_config_def)

lemma unknown_node_test: "exec_on_unknown_node_is_not_found Q root w"
  by (simp add: exec_on_unknown_node_is_not_found_def exec_def get_node_def provider_new_def)

text \<open>
  A machine on which directories can be made, every program starts and has a process id, a command prints
  what it is told to before its deadline and a sleep does not end before it, and what was killed ends.
\<close>

definition test_machine :: "('ch, 'rd, 'tx, 'rx, 'w) node_os \<Rightarrow> bool" where
  "test_machine Q \<longleftrightarrow>
     (\<forall>d w. is_ok (fst (create_dir_all Q d w)))
   \<and> (\<forall>c w. \<exists>ch w' n. node_spawn Q c w = (Ok ch, w') \<and> child_pid Q ch = Some n)
   \<and> (\<forall>ch w. child_wait Q ch w \<noteq> None)
   \<and> (\<forall>c w. cmd_program c = ''sh'' \<longrightarrow> cmd_args c = [''-c'', ''echo hello''] \<longrightarrow>
        fst (command_output Q c None w) = Some (Ok \<lparr>raw_stdout = ''hello'' @ [CHR 0x0A], raw_stderr = [], raw_code = Some 0\<rparr>))
   \<and> (\<forall>c w. cmd_program c = ''sleep'' \<longrightarrow> cmd_args c = [''5''] \<longrightarrow> fst (command_output Q c (Some 1) w) = None)
   \<and> (\<forall>t. list_all (\<lambda>c. of_char c < (128 :: nat)) t \<longrightarrow> utf8_lossy Q t = t)"

lemma show_nat_nonempty: "show_nat n \<noteq> []"
  by (subst show_nat.simps) simp

lemma created:
  fixes Q :: "('ch, 'rd, 'tx, 'rx, 'w) node_os"
  assumes "test_machine Q"
  shows "\<exists>h n w' c. create_node Q spec (provider_new b root, w)
      = (Ok h, (provider_new b root)\<lparr>nodes := [(handle_id h, n)]\<rparr>, w')
    \<and> handle_id h \<noteq> [] \<and> node_handle_of n = h \<and> node_image n = spec_image spec \<and> node_child n = Some c"
proof -
  obtain u w1 where u: "new_uuid_simple Q w = (u, w1)" by fastforce
  define ws where "ws = path_join Q root (''node-'' @ u)"
  have "is_ok (fst (create_dir_all Q ws w1))" using assms by (simp add: test_machine_def)
  then obtain w2 where d: "create_dir_all Q ws w1 = (Ok (), w2)"
    by (cases "create_dir_all Q ws w1") (auto simp: is_ok_iff)
  obtain ch w3 k where n: "node_spawn Q (node_command (provider_new b root :: ('ch, 'rd, 'tx) local_provider) ws spec) w2 = (Ok ch, w3)" "child_pid Q ch = Some k"
    using assms unfolding test_machine_def by blast
  obtain tx w4 where "bc_channel (log_channels Q) LOG_CHANNEL_CAPACITY w3 = (tx, w4)" by fastforce
  with u d n show ?thesis
    by (intro exI [of _ "node_handle_of (spawned_node Q spec ws ch k tx w4)"] exI [of _ "spawned_node Q spec ws ch k tx w4"]
        exI [of _ w4] exI [of _ ch])
      (simp add: create_node_def provider_new_def spawned_node_def ws_def show_nat_nonempty Let_def)
qed

lemma exec_cmd_fields [simp]:
  "cmd_program (exec_cmd ws (run_request (p # args) t)) = p" "cmd_args (exec_cmd ws (run_request (p # args) t)) = args"
  by (simp_all add: exec_cmd_def run_request_def set_envs_def command_new_def)

lemma lifecycle_test:
  assumes "test_machine Q"
  shows "lifecycle Q root w"
proof -
  obtain h n w1 c where c: "create_node Q (local_test_spec ''test:latest'') (provider_new ''cat'' root, w)
      = (Ok h, (provider_new ''cat'' root)\<lparr>nodes := [(handle_id h, n)]\<rparr>, w1)"
    "handle_id h \<noteq> []" "node_handle_of n = h" "node_image n = ''test:latest''" "node_child n = Some c"
    using created [OF assms, of "local_test_spec ''test:latest''" "''cat''" root w] by (auto simp: local_test_spec_def)
  let ?p = "(provider_new ''cat'' root)\<lparr>nodes := [(handle_id h, n)]\<rparr>"
  let ?cmd = "exec_cmd (node_workspace n) (run_request [''sh'', ''-c'', ''echo hello''] None)"
  have "fst (command_output Q ?cmd None w1) = Some (Ok \<lparr>raw_stdout = ''hello'' @ [CHR 0x0A], raw_stderr = [], raw_code = Some 0\<rparr>)"
    using assms unfolding test_machine_def by (metis exec_cmd_fields)
  then obtain w2 where o: "command_output Q ?cmd None w1
      = (Some (Ok \<lparr>raw_stdout = ''hello'' @ [CHR 0x0A], raw_stderr = [], raw_code = Some 0\<rparr>), w2)"
    by (metis prod.collapse)
  have l: "utf8_lossy Q (''hello'' @ [CHR 0x0A]) = ''hello'' @ [CHR 0x0A]" "utf8_lossy Q [] = []"
    using assms by (simp_all add: test_machine_def)
  have x: "exec Q (handle_id h) (run_request [''sh'', ''-c'', ''echo hello''] None) (?p, w1)
      = (Ok \<lparr>exec_stdout = ''hello'' @ [CHR 0x0A], exec_stderr = [], exec_exit_code = 0\<rparr>, ?p, w2)"
    using o l by (simp add: exec_def get_node_def run_request_def exec_output_def)
  obtain w3 where "child_wait Q c (start_kill Q c w2) = Some w3"
    using assms unfolding test_machine_def by (metis not_None_eq)
  then have "delete_node Q (handle_id h) (?p, w2) = Some (Ok (), ?p\<lparr>nodes := [],
      removed := [n\<lparr>node_child := None, node_status_of := NodeExited\<rparr>]\<rparr>, remove_dir_all Q (node_workspace n) w3)"
    using c(5) by (simp add: delete_node_def stop_child_def bt_remove_def provider_new_def)
  then show ?thesis
    using c(1-4) by (simp add: lifecycle_def x list_nodes_def describe_node_def get_node_def str_simps)
qed

lemma exec_timeout_test:
  assumes "test_machine Q"
  shows "exec_timeout_returns_timeout_error Q root w"
proof -
  obtain h n w1 where c: "create_node Q (local_test_spec ''test'') (provider_new ''cat'' root, w)
      = (Ok h, (provider_new ''cat'' root)\<lparr>nodes := [(handle_id h, n)]\<rparr>, w1)"
    using created [OF assms] by blast
  let ?cmd = "exec_cmd (node_workspace n) (run_request [''sleep'', ''5''] (Some 1))"
  have "fst (command_output Q ?cmd (Some 1) w1) = None"
    using assms unfolding test_machine_def by (metis exec_cmd_fields)
  then obtain w2 where "command_output Q ?cmd (Some 1) w1 = (None, w2)" by (metis prod.collapse)
  then show ?thesis
    by (simp add: exec_timeout_returns_timeout_error_def c exec_def get_node_def run_request_def)
qed

text \<open>There is such a machine.\<close>

definition demo_machine :: "(unit, unit, unit, unit, unit) node_os" where
  "demo_machine =
     \<lparr>new_uuid_simple = Pair ''u'', path_join = (@), create_dir_all = (\<lambda>_ _. (Ok (), ())), remove_dir_all = (\<lambda>_ w. w),
      node_spawn = (\<lambda>_ _. (Ok (), ())), child_pid = (\<lambda>_. Some 42), take_stdout = (\<lambda>_. None), take_stderr = (\<lambda>_. None),
      start_kill = (\<lambda>_ w. w), child_wait = (\<lambda>_ w. Some w), utc_now = (\<lambda>_. 0),
      log_channels = \<lparr>bc_channel = (\<lambda>_ w. ((), w)), bc_send = (\<lambda>_ _ w. w), bc_subscribe = (\<lambda>_ w. ((), w))\<rparr>,
      command_output = (\<lambda>c _ _.
        (if cmd_program c = ''sleep'' then None
         else Some (Ok \<lparr>raw_stdout = ''hello'' @ [CHR 0x0A], raw_stderr = [], raw_code = Some 0\<rparr>), ())),
      utf8_lossy = id\<rparr>"

lemma demo_machine_test: "test_machine demo_machine"
  by (simp add: test_machine_def demo_machine_def)

end
