(* ===== verification/Process_Startup.thy ===== *)
theory Process_Startup
  imports Supervisor Overloop Rate_Limit
begin

text \<open>
  The start of the two processes of the agent's side (\<^verbatim>\<open>agent/src/main.rs\<close>,
  \<^verbatim>\<open>loop/src/main.rs\<close>): configuration, error reporting, logging, runtime, run, and the flush of
  what is left to report. The client of the reporting service, the subscriber of the log, the
  runtime and the error stream are parameters; the cargo feature \<^verbatim>\<open>sentry\<close> is a flag. A guard keeps
  the client alive; it is dropped when \<^verbatim>\<open>main\<close> returns, or at once when the client is disabled.
\<close>

subsection \<open>Error reporting\<close>

type_synonym event_hook = "event \<Rightarrow> nat \<Rightarrow> last_seen \<Rightarrow> event option \<times> last_seen"

record 'd client_options =
  opt_dsn :: "'d option"
  opt_release :: "string option"
  opt_traces_sample_rate :: "32 word"
  opt_environment :: "string option"
  opt_server_name :: "string option"
  opt_before_send :: "event_hook option"

record ('d, 'g, 'w) process_os =
  po_var :: "string \<Rightarrow> string option"
  po_eprintln :: "string \<Rightarrow> 'w \<Rightarrow> 'w"
  po_parse_dsn :: "string \<Rightarrow> ('d, string) result"
  po_release_name :: "string option"
  po_sentry_init :: "'d client_options \<Rightarrow> 'w \<Rightarrow> 'g \<times> 'w"
  po_set_tag :: "string \<Rightarrow> string \<Rightarrow> 'w \<Rightarrow> 'w"
  po_is_enabled :: "'g \<Rightarrow> bool"
  po_drop_guard :: "'g \<Rightarrow> 'w \<Rightarrow> 'w"
  po_flush :: "'w \<Rightarrow> 'w"
  po_init_tracing :: "bool \<Rightarrow> 'w \<Rightarrow> 'w"
  po_install_crypto :: "'w \<Rightarrow> 'w"
  po_build_runtime :: "'w \<Rightarrow> (unit, string) result \<times> 'w"

definition agent_options :: "('d, 'g, 'w) process_os \<Rightarrow> sup_config \<Rightarrow> 'd \<Rightarrow> 'd client_options" where
  "agent_options P cfg dsn =
     \<lparr>opt_dsn = Some dsn, opt_release = po_release_name P, opt_traces_sample_rate = sup_traces_sample_rate cfg,
      opt_environment = Some (sup_sentry_environment cfg), opt_server_name = sup_agent_name cfg,
      opt_before_send = Some before_send\<rparr>"

definition loop_options :: "('d, 'g, 'w) process_os \<Rightarrow> config \<Rightarrow> 'd \<Rightarrow> 'd client_options" where
  "loop_options P c dsn =
     \<lparr>opt_dsn = Some dsn, opt_release = po_release_name P, opt_traces_sample_rate = sentry_traces_sample_rate c,
      opt_environment = Some (sentry_environment c), opt_server_name = None, opt_before_send = Some before_send\<rparr>"

text \<open>What the two start-ups share: a client with options, the tag of the agent's name, and a guard only if it is enabled.\<close>

definition init_client ::
    "('d, 'g, 'w) process_os \<Rightarrow> 'd client_options \<Rightarrow> string option \<Rightarrow> 'w \<Rightarrow> 'g option \<times> 'w" where
  "init_client P opts name w =
     (case po_sentry_init P opts w of (guard, w1) \<Rightarrow>
        (let w2 = (case name of Some n \<Rightarrow> po_set_tag P ''agent_name'' n w1 | None \<Rightarrow> w1)
         in if po_is_enabled P guard then (Some guard, w2) else (None, po_drop_guard P guard w2)))"

definition init_sentry_agent :: "('d, 'g, 'w) process_os \<Rightarrow> sup_config \<Rightarrow> 'w \<Rightarrow> 'g option \<times> 'w" where
  "init_sentry_agent P cfg w =
     (case sup_sentry_dsn cfg of
        None \<Rightarrow> (None, w)
      | Some dsn_str \<Rightarrow>
          (case po_parse_dsn P dsn_str of
             Err e \<Rightarrow> (None, po_eprintln P (''overacp-agent: invalid SENTRY_DSN ('' @ e @ ''); Sentry disabled'') w)
           | Ok dsn \<Rightarrow> init_client P (agent_options P cfg dsn) (sup_agent_name cfg) w))"

definition init_sentry_loop :: "('d, 'g, 'w) process_os \<Rightarrow> config \<Rightarrow> 'w \<Rightarrow> 'g option \<times> 'w" where
  "init_sentry_loop P c w =
     (case sentry_dsn c of
        None \<Rightarrow> (None, w)
      | Some dsn_str \<Rightarrow>
          (case po_parse_dsn P dsn_str of
             Err e \<Rightarrow> (None, po_eprintln P (''overloop: invalid SENTRY_DSN ('' @ e @ ''); Sentry disabled'') w)
           | Ok dsn \<Rightarrow> init_client P (loop_options P c dsn) (agent_name c) w))"

definition drop_guard :: "('d, 'g, 'w) process_os \<Rightarrow> 'g option \<Rightarrow> 'w \<Rightarrow> 'w" where
  "drop_guard P guard w = (case guard of Some g \<Rightarrow> po_drop_guard P g w | None \<Rightarrow> w)"

subsection \<open>The supervisor\<close>

datatype 'e start_error = ConfigFailed string | RuntimeFailed string | RunFailed 'e

text \<open>Everything before the run.\<close>

definition agent_setup ::
    "bool \<Rightarrow> ('d, 'g, 'w) process_os \<Rightarrow> sup_config \<Rightarrow> 'w \<Rightarrow> 'g option \<times> 'w" where
  "agent_setup sentry P cfg w =
     (let w1 = (if \<not> sentry \<and> sup_sentry_dsn cfg \<noteq> None
                then po_eprintln P (''overacp-agent: SENTRY_DSN is set but this build was compiled ''
                       @ ''without the `sentry` feature; Sentry is disabled. Rebuild ''
                       @ ''with `--features sentry` to enable.'') w
                else w)
      in case (if sentry then init_sentry_agent P cfg w1 else (None, w1)) of
           (guard, w2) \<Rightarrow> (guard, po_install_crypto P (po_init_tracing P sentry w2)))"

definition agent_main ::
    "bool \<Rightarrow> ('d, 'g, 'w) process_os \<Rightarrow> (string \<Rightarrow> 32 word option) \<Rightarrow> ('w, 'c, 'ch, 'r) sup_env \<Rightarrow> 'w
      \<Rightarrow> ((unit, sup_error start_error) result \<times> 'w) option" where
  "agent_main sentry P parse_f32 E w =
     (case sup_from_env parse_f32 (po_var P) of
        Err e \<Rightarrow> Some (Err (ConfigFailed e), w)
      | Ok cfg \<Rightarrow>
          (case agent_setup sentry P cfg w of (guard, w1) \<Rightarrow>
           (case po_build_runtime P w1 of
              (Err e, w2) \<Rightarrow> Some (Err (RuntimeFailed e), drop_guard P guard w2)
            | (Ok _, w2) \<Rightarrow>
                (case run_supervisor E cfg w2 of
                   None \<Rightarrow> None
                 | Some (res, w3) \<Rightarrow>
                     Some (res_map_err RunFailed res, drop_guard P guard (if sentry then po_flush P w3 else w3))))))"

subsection \<open>The loop\<close>

definition loop_setup ::
    "bool \<Rightarrow> ('d, 'g, 'v) process_os \<Rightarrow> config \<Rightarrow> 'v \<Rightarrow> 'g option \<times> 'v" where
  "loop_setup sentry P c w =
     (let w1 = (if \<not> sentry \<and> sentry_dsn c \<noteq> None
                then po_eprintln P (''overloop: SENTRY_DSN is set but this build was compiled without ''
                       @ ''the `sentry` feature; Sentry is disabled. Rebuild with ''
                       @ ''`--features sentry` to enable.'') w
                else w)
      in case (if sentry then init_sentry_loop P c w1 else (None, w1)) of
           (guard, w2) \<Rightarrow> (guard, po_init_tracing P sentry w2))"

text \<open>A panic of the run unwinds: nothing is flushed, and the guard is dropped.\<close>

definition loop_main ::
    "bool \<Rightarrow> ('d, 'g, ('w, 'x) host) process_os \<Rightarrow> (string \<Rightarrow> f64 option) \<Rightarrow> (string \<Rightarrow> 32 word option)
      \<Rightarrow> ('w, 'x) main_env \<Rightarrow> ('w, 'x) host \<Rightarrow> ((exit_kind, main_error start_error) result \<times> ('w, 'x) host) option" where
  "loop_main sentry P parse_f64 parse_f32 M w =
     (case from_env parse_f64 parse_f32 (po_var P) of
        Err e \<Rightarrow> Some (Err (ConfigFailed e), w)
      | Ok c \<Rightarrow>
          (case loop_setup sentry P c w of (guard, w1) \<Rightarrow>
           (case po_build_runtime P w1 of
              (Err e, w2) \<Rightarrow> Some (Err (RuntimeFailed e), drop_guard P guard w2)
            | (Ok _, w2) \<Rightarrow>
                (case agent_run M c w2 of
                   None \<Rightarrow> None
                 | Some (ExitPanic, s) \<Rightarrow> Some (Ok ExitPanic, drop_guard P guard (s_host s))
                 | Some (Cancelled, s) \<Rightarrow>
                     Some (Ok Cancelled, drop_guard P guard (if sentry then po_flush P (s_host s) else s_host s))
                 | Some (Exited e, s) \<Rightarrow>
                     Some (Err (RunFailed e), drop_guard P guard (if sentry then po_flush P (s_host s) else s_host s))))))"

subsection \<open>Lemmas\<close>

text \<open>A guard is held only for a client that is enabled and was made from a DSN that parses.\<close>

lemma init_client_guard: "init_client P opts name w = (Some g, w') \<Longrightarrow> po_is_enabled P g \<and> fst (po_sentry_init P opts w) = g"
  by (auto simp: init_client_def Let_def split: prod.splits if_splits)

lemma agent_guard:
  assumes "agent_setup sentry P cfg w = (Some g, w')"
  shows "sentry \<and> (\<exists>s dsn. sup_sentry_dsn cfg = Some s \<and> po_parse_dsn P s = Ok dsn
    \<and> po_is_enabled P g \<and> fst (po_sentry_init P (agent_options P cfg dsn) w) = g)"
  using assms
  by (auto simp: agent_setup_def init_sentry_agent_def Let_def split: prod.splits if_splits option.splits result.splits
      dest: init_client_guard)

lemma loop_guard:
  assumes "loop_setup sentry P c w = (Some g, w')"
  shows "sentry \<and> (\<exists>s dsn. sentry_dsn c = Some s \<and> po_parse_dsn P s = Ok dsn
    \<and> po_is_enabled P g \<and> fst (po_sentry_init P (loop_options P c dsn) w) = g)"
  using assms
  by (auto simp: loop_setup_def init_sentry_loop_def Let_def split: prod.splits if_splits option.splits result.splits
      dest: init_client_guard)

text \<open>The hook of both clients is the limiter.\<close>

lemma options_limited:
  "opt_before_send (agent_options P cfg dsn) = Some before_send" "opt_before_send (loop_options P c dsn) = Some before_send"
  by (simp_all add: agent_options_def loop_options_def)

text \<open>
  Reporting decides nothing: with a runtime, what the supervisor returns is what its run returns
  from the state that the set-up leaves, whatever became of the reporting.
\<close>

lemma agent_main_runs:
  assumes "sup_from_env parse_f32 (po_var P) = Ok cfg" and "agent_setup sentry P cfg w = (guard, w1)"
    and "po_build_runtime P w1 = (Ok u, w2)"
  shows "map_option fst (agent_main sentry P parse_f32 E w) = map_option (res_map_err RunFailed \<circ> fst) (run_supervisor E cfg w2)"
  using assms by (simp add: agent_main_def case_prod_beta split: option.split)

lemma loop_main_runs:
  assumes "from_env parse_f64 parse_f32 (po_var P) = Ok c" and "loop_setup sentry P c w = (guard, w1)"
    and "po_build_runtime P w1 = (Ok u, w2)"
  shows "map_option fst (loop_main sentry P parse_f64 parse_f32 M w) =
    map_option (\<lambda>(k, s). case k of Exited e \<Rightarrow> Err (RunFailed e) | _ \<Rightarrow> Ok k) (agent_run M c w2)"
  using assms by (simp add: loop_main_def case_prod_beta split: option.split exit_kind.split)

text \<open>A DSN that does not parse leaves a line on the error stream, and nothing else of the reporting.\<close>

lemma bad_dsn:
  assumes "sup_sentry_dsn cfg = Some s" and "po_parse_dsn P s = Err e"
  shows "agent_setup True P cfg w =
    (None, po_install_crypto P (po_init_tracing P True
       (po_eprintln P (''overacp-agent: invalid SENTRY_DSN ('' @ e @ ''); Sentry disabled'') w)))"
  using assms by (simp add: agent_setup_def init_sentry_agent_def)

subsection \<open>Properties\<close>

text \<open>
  A wrong DSN costs the reports and nothing else. The supervisor says so on the error stream and
  then does what it does without a DSN, from the state that this line leaves: it ends when that one
  ends and returns the same; a DSN for a build without reporting costs a line in the same way.
\<close>

theorem wrong_dsn_is_harmless:
  assumes "po_var P ''SENTRY_DSN'' = Some s" and "trim s = d" and "po_parse_dsn P d = Err e"
    and "Q = P\<lparr>po_var := (po_var P)(''SENTRY_DSN'' := None)\<rparr>"
    and "sup_from_env parse_f32 (po_var P) = Ok cfg" and "d \<noteq> []"
  shows "agent_main True P parse_f32 E w =
    agent_main True Q parse_f32 E (po_eprintln P (''overacp-agent: invalid SENTRY_DSN ('' @ e @ ''); Sentry disabled'') w)"
proof -
  have c: "sup_sentry_dsn cfg = Some d" "sup_from_env parse_f32 (po_var Q) = Ok (cfg\<lparr>sup_sentry_dsn := None\<rparr>)"
    using assms(1,2,4,5,6) by (auto simp: sup_from_env_def required_def trimmed_var_def res_bind_Ok)
  have r: "run_supervisor E (cfg\<lparr>sup_sentry_dsn := None\<rparr>) v = run_supervisor E cfg v" for v
  proof -
    have t: "tunnel_url (cfg\<lparr>sup_sentry_dsn := None\<rparr>) = tunnel_url cfg" "sup_token (cfg\<lparr>sup_sentry_dsn := None\<rparr>) = sup_token cfg"
      by (simp_all add: fun_eq_iff tunnel_url_def)
    have "start_session E (cfg\<lparr>sup_sentry_dsn := None\<rparr>) cmd sync v = start_session E cfg cmd sync v" for cmd sync v
      unfolding start_session_def t ..
    then show ?thesis by (simp add: run_supervisor_def run_with_def)
  qed
  have "agent_setup True Q (cfg\<lparr>sup_sentry_dsn := None\<rparr>) v = (None, po_install_crypto P (po_init_tracing P True v))" for v
    using assms(4) by (simp add: agent_setup_def init_sentry_agent_def)
  with bad_dsn [OF c(1) assms(3)] c(2) assms(5) show ?thesis
    using assms(4) by (simp add: agent_main_def r drop_guard_def split: prod.split result.split option.split)
qed

definition demo_process_os :: "string option \<Rightarrow> (unit, unit, string \<times> string list \<times> bool) process_os" where
  "demo_process_os dsn =
     \<lparr>po_var = [''OVERACP_TOKEN'' \<mapsto> ''T'', ''OVERACP_SERVER_URL'' \<mapsto> ''https://acp''](''SENTRY_DSN'' := dsn),
      po_eprintln = (\<lambda>_ w. w), po_parse_dsn = (\<lambda>_. Err ''InvalidUrl''), po_release_name = None, po_sentry_init = (\<lambda>_ w. ((), w)),
      po_set_tag = (\<lambda>_ _ w. w), po_is_enabled = (\<lambda>_. True), po_drop_guard = (\<lambda>_ w. w), po_flush = (\<lambda>w. w),
      po_init_tracing = (\<lambda>_ w. w), po_install_crypto = (\<lambda>w. w), po_build_runtime = (\<lambda>w. (Ok (), w))\<rparr>"

theorem wrong_dsn_is_harmless_witness:
  "agent_main True (demo_process_os (Some '' dsn '')) (\<lambda>_. None) demo_sup_env ([], [], False)
     = agent_main True (demo_process_os None) (\<lambda>_. None) demo_sup_env ([], [], False)"
proof -
  let ?P = "demo_process_os (Some '' dsn '')"
  have v: "po_var ?P ''SENTRY_DSN'' = Some '' dsn ''" "trim '' dsn '' = ''dsn''" "po_parse_dsn ?P ''dsn'' = Err ''InvalidUrl''"
    and q: "demo_process_os None = ?P\<lparr>po_var := (po_var ?P)(''SENTRY_DSN'' := None)\<rparr>"
    by (simp_all add: demo_process_os_def, code_simp)
  have "is_ok (sup_from_env (\<lambda>_. None) (po_var ?P))" by (simp add: demo_process_os_def sup_from_env_def required_def)
  then obtain cfg where c: "sup_from_env (\<lambda>_. None) (po_var ?P) = Ok cfg" by (auto simp: is_ok_iff)
  have e: "po_eprintln ?P m w = w" for m w by (simp add: demo_process_os_def)
  from wrong_dsn_is_harmless [OF v q c, of demo_sup_env "([], [], False)"] e show ?thesis by simp
qed

end
