(* ===== verification/Spec2Isabelle.thy ===== *)
theory Spec2Isabelle
  imports Tests_Prelude Tests_Common Tests_Dispatch Tests_Server Tests_Api Tests_Acp Tests_Llm
    Tests_Types Tests_Loop Tests_Config Tests_Agent Tests_Overloop Tests_Compute
    Server_Auth Message_Queue Channels Agent_Registry Stream_Broker Dispatch Rest_Api Routes Tunnel
    Llm_Types Compaction Retry Llm_Client Protocol Acp_Client Tools Agentic_Loop Overloop Bridge Rate_Limit
    Secret_Config Processes Supervisor Local_Provider Preview Observability Redis_Store Redis_Inbox
    Redis_Expiry Redis_Pubsub Redis_Cluster Backends Redis_Server Server_Startup Process_Startup
begin

text \<open>
  over/ACP is a broker between operators and agents. The \<^emph>\<open>server\<close> (\<^verbatim>\<open>server/\<close>) offers a REST
  API to operators and one WebSocket tunnel per agent. A \<^emph>\<open>supervisor\<close> (\<^verbatim>\<open>agent/\<close>) in the
  agent's compute environment opens the tunnel, starts the agent process and carries lines between
  the two. The reference agent \<^emph>\<open>overloop\<close> (\<^verbatim>\<open>loop/\<close>) turns every message pushed to it into a
  turn of model calls and tool calls. A compute provider (\<^verbatim>\<open>compute/\<close>) starts supervisors. The
  crates \<^verbatim>\<open>protocol/\<close> and \<^verbatim>\<open>common/\<close> hold what they share.

  \<^bold>\<open>Conventions.\<close> A Rust struct is a record, an enum a datatype, a function one definition of the same
  name, prefixed where the name is taken. Errors are values of \<^typ>\<open>('a, 'e) result\<close>. Strings are lists
  of bytes. Unsigned integers are words where the code can overflow and natural numbers where it
  cannot. Code outside the repository is a parameter: the JSON library and derived decoders, the
  JWT library, channels, HTTP, the file system, processes, floating-point arithmetic and the clock
  are fields of records such as \<^typ>\<open>serde\<close> or \<^typ>\<open>'w pipe\<close>, which act on a state of type
  \<open>'w\<close> that is passed on. What a theorem relies on of them is a predicate with a name, such as
  \<open>mpsc_laws\<close>, \<open>jwt_roundtrip\<close>, \<open>pipe_laws\<close> or \<open>stream_laws\<close>, and the witness of the theorem
  instantiates it with a concrete function. Concurrency is explicit: an inductive step relation for
  the server, a schedule for the two directions of the bridge, sequences of operations elsewhere.

  \<^bold>\<open>Shared theories.\<close> \<open>Acp_Prelude\<close> has results, JSON values and the string operations of the
  standard library; \<open>Channels\<close> the unbounded channels; \<open>Processes\<close> commands and the environment
  that a started process sees.

  \<^bold>\<open>Server.\<close>
  \<^item> \<open>Server_Auth\<close> (\<^verbatim>\<open>auth.rs\<close>): claims, minting and validation. A minted token validates to its
    claims exactly when its role is known.
  \<^item> \<open>Message_Queue\<close> (\<^verbatim>\<open>registry/queue.rs\<close>): the in-memory buffer refines one bounded FIFO per agent.
    The trait is a locale.
  \<^item> \<open>Agent_Registry\<close> (\<^verbatim>\<open>registry/agent.rs\<close>): connections, recently seen agents, leases; invariants of
    every operation, and that list and describe agree.
  \<^item> \<open>Stream_Broker\<close> (\<^verbatim>\<open>tunnel/broker.rs\<close>): the fan-out per agent.
  \<^item> \<open>Dispatch\<close> (\<^verbatim>\<open>tunnel/dispatch.rs\<close>, \<^verbatim>\<open>hooks/\<close>): which frames are answered, and with what.
  \<^item> \<open>Rest_Api\<close> and \<open>Routes\<close> (\<^verbatim>\<open>api/\<close>, \<^verbatim>\<open>routes.rs\<close>, \<^verbatim>\<open>state.rs\<close>): every handler and the
    authorisation of every route.
  \<^item> \<open>Tunnel\<close> (\<^verbatim>\<open>tunnel/run.rs\<close>): a connection from upgrade to close, and the server as a step
    relation. In every reachable state the accepted messages of an agent are those delivered
    followed by those queued, in order.
  \<^item> \<open>Redis_Store\<close> and \<open>Redis_Inbox\<close> (\<^verbatim>\<open>redis_backend/\<close>): the backend for several instances, with
    its Lua scripts over the commands of a Redis server. The buffer refines the same FIFO, a
    takeover is not undone by stale leases of other instances, and a consumer delivers what is
    pending and what is new in order.
  \<^item> \<open>Redis_Expiry\<close> (\<^verbatim>\<open>lease.rs\<close>): leases in time, with the heartbeat task. A lease is held exactly as
    long as its owner renews it within thirty seconds; what becomes of a failed renewal and of a
    crashed instance.
  \<^item> \<open>Redis_Pubsub\<close> (\<^verbatim>\<open>broker.rs\<close>, \<^verbatim>\<open>registry.rs\<close>): subscriptions to the notifications and to the
    control signals of an agent. A subscriber gets what any instance publishes for its agent.
  \<^item> \<open>Redis_Cluster\<close>: the connections of several instances over one Redis, an acquisition taken apart
    into the commands that others can come between. A takeover is announced before it is made; a
    connection that does not listen yet misses it.
  \<^item> \<open>Backends\<close> and \<open>Redis_Server\<close>: the REST handlers and the tunnel over the provider traits, which are a
    record of functions; over memory they are those of \<open>Rest_Api\<close> and \<open>Tunnel\<close>. Both backends refine one
    specification of mailboxes, so they answer alike, and a message posted on one instance reaches the
    tunnel on another.
  \<^item> \<open>Server_Startup\<close> (\<^verbatim>\<open>main.rs\<close>, \<^verbatim>\<open>startup.rs\<close>, \<^verbatim>\<open>state.rs\<close>, \<^verbatim>\<open>redis_backend/mod.rs\<close>): which server an
    environment makes, and what a bad one leads to.

  \<^bold>\<open>Agent.\<close>
  \<^item> \<open>Protocol\<close> (\<^verbatim>\<open>protocol/\<close>) and \<open>Acp_Client\<close> (\<^verbatim>\<open>acp.rs\<close>): methods, payloads, and the client of
    the tunnel, whose requests lose no notification.
  \<^item> \<open>Llm_Types\<close>, \<open>Retry\<close>, \<open>Llm_Client\<close> (\<^verbatim>\<open>llm/\<close>): messages, the retry schedule, streaming. The text
    of a failed attempt is not repeated, and cutting the stream into chunks at character
    boundaries does not matter.
  \<^item> \<open>Compaction\<close> (\<^verbatim>\<open>compaction.rs\<close>): where a history may be cut, and that no call is separated from
    its answer.
  \<^item> \<open>Tools\<close> (\<^verbatim>\<open>tools/\<close>, \<^verbatim>\<open>mcp/\<close>): the built-in tools, the registry and the MCP client.
  \<^item> \<open>Preview\<close> and \<open>Observability\<close> (\<^verbatim>\<open>observability/\<close>): the redacted snapshot and the trace.
  \<^item> \<open>Agentic_Loop\<close> (\<^verbatim>\<open>agentic_loop.rs\<close>): one turn, as stages; it keeps calls and answers paired and
    reports them in pairs.
  \<^item> \<open>Overloop\<close> (\<^verbatim>\<open>main.rs\<close>, \<^verbatim>\<open>config.rs\<close>, \<^verbatim>\<open>llm/resolve.rs\<close>): configuration and the outer loop; the
    process comes to an exit on every finite input and its history stays paired.
  \<^item> \<open>Process_Startup\<close> (\<^verbatim>\<open>agent/src/main.rs\<close>, \<^verbatim>\<open>loop/src/main.rs\<close>): what comes before and after the run of the
    supervisor and of overloop. Error reporting decides nothing about the run.
  \<^item> \<open>Rate_Limit\<close> (\<^verbatim>\<open>common/\<close>): the limiter of error reports equals one with unlimited memory.

  \<^bold>\<open>Supervisor and compute.\<close>
  \<^item> \<open>Bridge\<close> (\<^verbatim>\<open>agent/src/bridge.rs\<close>): the two directions and their race.
  \<^item> \<open>Supervisor\<close> (\<^verbatim>\<open>agent/src\<close>): configuration, retries, the child, the run. The child is reaped before
    the workspace is pushed.
  \<^item> \<open>Secret_Config\<close> (\<^verbatim>\<open>compute/src/config\<close>): references in configuration values and their providers.
  \<^item> \<open>Local_Provider\<close> (\<^verbatim>\<open>compute/src/providers/local.rs\<close>): nodes as local processes; the trait of a
    provider is a locale.

  \<^bold>\<open>Tests.\<close> The theories \<open>Tests_*\<close> state the unit tests of the sources over the model, a definition per
  test with the name it has there, and prove that the model passes them for every id, clock and JSON
  library. They tie the model to the code at the points where the code itself says what it does:
  \<open>Tests_Common\<close> (\<^verbatim>\<open>common/\<close>), \<open>Tests_Dispatch\<close>, \<open>Tests_Server\<close> and \<open>Tests_Api\<close> (\<^verbatim>\<open>server/\<close>),
  \<open>Tests_Acp\<close>, \<open>Tests_Llm\<close>, \<open>Tests_Types\<close>, \<open>Tests_Loop\<close> and \<open>Tests_Overloop\<close> (\<^verbatim>\<open>loop/\<close>),
  \<open>Tests_Config\<close> (the configurations), \<open>Tests_Agent\<close> (\<^verbatim>\<open>agent/\<close>) and \<open>Tests_Compute\<close>
  (\<^verbatim>\<open>compute/\<close>). \<open>Tests_Types\<close> also has the derived decoders of messages and tool results, with the
  round trip of messages.

  \<^bold>\<open>This theory\<close> has the properties that span components: a posted message from the server through
  the bridge into the agent's conversation, a message that ends the agent, the supervisor's
  admission to its tunnel, and the environment that one process prepares for the next.

  \<^bold>\<open>Interfaces.\<close> The traits of the sources are locales, interpreted on the model: \<open>authenticator\<close>,
  \<open>message_queue\<close>, \<open>agent_registry\<close>, \<open>config_provider\<close> (twice), \<open>agent_adapter\<close>,
  \<open>compute_provider\<close>, and \<open>message_backend\<close> (once for memory and once for Redis).

  \<^bold>\<open>Termination and bounds.\<close> The retry loop of model calls is bounded by its budgets (\<open>Retry\<close>); the
  outer loop of the agent takes a number of pushes as fuel, and one more than the size of its input is
  proved enough; trimming takes the length of the string as fuel; the supervisor's connection may
  never return and is a partial function, with None for that; waiting for a process may not return
  either; the inbox consumer runs forever by design, so its theorems are about numbers of rounds.

  \<^bold>\<open>Not modelled.\<close> The HTTP framework, the async runtime, the log subscriber and the client of the
  error reports, which are parameters; times in trace spans; the ping timer of the tunnel;
  interleavings inside one REST handler, but for the one race that \<open>Tunnel\<close> shows; concurrent calls on
  one compute node; Redis itself, beyond what the named laws say of its commands.
\<close>

section \<open>From the operator to the agent\<close>

text \<open>
  What the two ends rely on of the JSON library and of the derived decoders: a printed object is
  one line that parses back, also with the newline the bridge adds; a notification is decoded
  from its method and parameters; and an unknown role is rejected.
\<close>

definition posted_value :: "send_message_request \<Rightarrow> json" where
  "posted_value req =
     JObject [(''jsonrpc'', JString ''2.0''), (''method'', JString ''session/message''),
       (''params'', JObject [(''role'', JString (msg_role req)), (''content'', msg_content req)])]"

definition wire_law :: "serde \<Rightarrow> json \<Rightarrow> bool" where
  "wire_law S v \<longleftrightarrow> newline_char \<notin> set (print_json S v) \<and> parse_json S (print_json S v @ [newline_char]) = Some v"

definition notification_decode_laws :: "(json \<Rightarrow> notification option) \<Rightarrow> bool" where
  "notification_decode_laws decode \<longleftrightarrow> (\<forall>kvs m p.
     map_of kvs ''method'' = Some (JString m) \<longrightarrow> map_of kvs ''params'' = Some p
     \<longrightarrow> decode (JObject kvs) = Some \<lparr>notif_method = m, notif_params = p\<rparr>)"

definition params_reject_laws :: "(json \<Rightarrow> session_message_params option) \<Rightarrow> bool" where
  "params_reject_laws decode \<longleftrightarrow> (\<forall>kvs r.
     map_of kvs ''role'' = Some (JString r) \<longrightarrow> proto_role_decode r = None \<longrightarrow> decode (JObject kvs) = None)"

lemma session_message_frame_value: "session_message_frame S req = print_json S (posted_value req)"
  by (simp add: session_message_frame_def posted_value_def)

text \<open>The agent's step on a line that carries a posted message.\<close>

lemma next_push_posted:
  assumes "wire_law (acp_serde A) (posted_value req)" and "notification_decode_laws (decode_notification A)"
    and "pending_notifications c = []"
    and "reader c = Ok (session_message_frame (acp_serde A) req @ [newline_char]) # rest"
  shows "next_push A c =
    (res_bind (ok_or ParseParams (decode_params A (JObject [(''role'', JString (msg_role req)), (''content'', msg_content req)])))
       (\<lambda>p. res_map PushMessage (session_message_to_llm_message A p)), c\<lparr>reader := rest\<rparr>)"
proof -
  have "parse_notification A (session_message_frame (acp_serde A) req @ [newline_char])
      = Ok \<lparr>notif_method = SESSION_MESSAGE,
          notif_params = JObject [(''role'', JString (msg_role req)), (''content'', msg_content req)]\<rparr>"
    using assms(1,2)
    by (simp add: parse_notification_def session_message_frame_value wire_law_def)
      (simp add: notification_decode_laws_def posted_value_def SESSION_MESSAGE_def)
  with assms(3,4) show ?thesis
    by (subst next_push.simps) (simp add: recv_notification_def)
qed

fun pushes :: "'w acp_env \<Rightarrow> nat \<Rightarrow> 'w acp_client \<Rightarrow> (push, acp_error) result list" where
  "pushes A 0 c = []"
| "pushes A (Suc n) c = (case next_push A c of (r, c') \<Rightarrow> r # pushes A n c')"

definition request_of :: "session_message_params \<Rightarrow> send_message_request" where
  "request_of p = \<lparr>msg_role = proto_role_encode (smp_role p), msg_content = smp_content p\<rparr>"

lemma pushes_posted:
  assumes "\<forall>p \<in> set ps. wire_law (acp_serde A) (posted_value (request_of p))"
    and "notification_decode_laws (decode_notification A)" and "params_decode_laws (decode_params A)"
    and "pending_notifications c = []"
    and "reader c = map (\<lambda>p. Ok (session_message_frame (acp_serde A) (request_of p) @ [newline_char])) ps"
  shows "pushes A (length ps) c = map (\<lambda>p. res_map PushMessage (session_message_to_llm_message A p)) ps"
  using assms(1,4,5)
proof (induction ps arbitrary: c)
  case (Cons p ps)
  have "decode_params A (JObject [(''role'', JString (msg_role (request_of p))), (''content'', msg_content (request_of p))]) = Some p"
    using assms(3) by (simp add: params_decode_laws_def request_of_def session_message_params_encode_def)
  with next_push_posted [OF _ assms(2), of "request_of p" c] Cons.prems
  have "next_push A c = (res_map PushMessage (session_message_to_llm_message A p),
      c\<lparr>reader := map (\<lambda>p. Ok (session_message_frame (acp_serde A) (request_of p) @ [newline_char])) ps\<rparr>)"
    by simp
  with Cons show ?case by simp
qed simp

text \<open>Decoders with these laws, and a wire that carries one posted message.\<close>

definition demo_decode_notification :: "json \<Rightarrow> notification option" where
  "demo_decode_notification v =
     (case (Option.bind (json_get ''method'' v) as_str, json_get ''params'' v) of
        (Some m, Some p) \<Rightarrow> Some \<lparr>notif_method = m, notif_params = p\<rparr> | _ \<Rightarrow> None)"

definition demo_decode_params :: "json \<Rightarrow> session_message_params option" where
  "demo_decode_params v =
     (case (Option.bind (Option.bind (json_get ''role'' v) as_str) proto_role_decode, json_get ''content'' v) of
        (Some r, Some x) \<Rightarrow> Some \<lparr>smp_role = r, smp_content = x\<rparr> | _ \<Rightarrow> None)"

definition wire_env :: "send_message_request \<Rightarrow> unit acp_env" where
  "wire_env req =
     \<lparr>acp_serde = \<lparr>parse_json = (\<lambda>s. if s = [CHR ''f'', newline_char] then Some (posted_value req) else None),
        print_json = (\<lambda>_. ''f'')\<rparr>,
      acp_write = (\<lambda>_ w. (True, w)), decode_response = (\<lambda>_. None),
      decode_notification = demo_decode_notification, decode_params = demo_decode_params, decode_block = (\<lambda>_. None)\<rparr>"

lemma wire_env_laws:
  "wire_law (acp_serde (wire_env req)) (posted_value req)"
  "notification_decode_laws (decode_notification (wire_env req))"
  "params_decode_laws (decode_params (wire_env req))" "params_reject_laws (decode_params (wire_env req))"
proof -
  show "wire_law (acp_serde (wire_env req)) (posted_value req)"
    by (simp add: wire_law_def wire_env_def newline_char_def)
  show "notification_decode_laws (decode_notification (wire_env req))"
    by (simp add: notification_decode_laws_def wire_env_def demo_decode_notification_def)
  show "params_decode_laws (decode_params (wire_env req))"
    by (simp add: params_decode_laws_def wire_env_def demo_decode_params_def session_message_params_encode_def)
  show "params_reject_laws (decode_params (wire_env req))"
    by (simp add: params_reject_laws_def wire_env_def demo_decode_params_def)
qed

lemma wire_env_frame: "session_message_frame (acp_serde (wire_env req)) r = ''f''"
  by (simp add: session_message_frame_def wire_env_def)



text \<open>
  C34: a message with a role the agent does not know is accepted and ends the agent. The server
  checks only that the role is not empty: for a connected agent it answers 202 and sends the
  frame down the tunnel; the agent cannot decode the frame's parameters, and its process exits
  with that error instead of skipping the message.
\<close>

theorem unknown_role_ends_agent:
  assumes "mpsc_laws send alive sent" and "live_tunnel alive st a = Some t"
    and "msg_role req \<noteq> []" and "proto_role_decode (msg_role req) = None"
    and "S = acp_serde (me_acp M)" and "wire_law S (posted_value req)"
    and "notification_decode_laws (decode_notification (me_acp M))" and "params_reject_laws (decode_params (me_acp M))"
    and "pending_notifications (client (s_host ses)) = []"
    and "reader (client (s_host ses)) = Ok (session_message_frame S req @ [newline_char]) # rest"
  shows "(\<exists>w. send_message S U send st a req = (Ok (202, DeliveryLive), st\<lparr>channels := w\<rparr>)
      \<and> sent w t = sent (channels st) t @ [session_message_frame S req])
    \<and> (\<exists>ses'. turns M c (Suc n) ses = Some (Exited (PushFailed ParseParams), ses'))"
proof
  show "\<exists>w. send_message S U send st a req = (Ok (202, DeliveryLive), st\<lparr>channels := w\<rparr>)
      \<and> sent w t = sent (channels st) t @ [session_message_frame S req]"
    by (rule send_message_live [OF assms(1,3,2), of S U]) auto
  have "decode_params (me_acp M) (JObject [(''role'', JString (msg_role req)), (''content'', msg_content req)]) = None"
    using assms(4,8) by (simp add: params_reject_laws_def)
  with next_push_posted [OF _ assms(7,9), of req rest] assms(5,6,10)
  show "\<exists>ses'. turns M c (Suc n) ses = Some (Exited (PushFailed ParseParams), ses')"
    by (simp add: on_client_def)
qed

text \<open>The connected agent 7 is sent a message of an unknown role, which its process then reads.\<close>

definition alien_request :: send_message_request where
  "alien_request = \<lparr>msg_role = ''alien'', msg_content = JString ''hi''\<rparr>"

definition alien_main :: "(unit, unit) main_env" where
  "alien_main = demo_main\<lparr>me_acp := wire_env alien_request\<rparr>"

definition alien_session :: "(unit, unit) session" where
  "alien_session = \<lparr>s_messages = [], s_registry = tools_new idle_os,
     s_host = \<lparr>client = \<lparr>reader = [Ok [CHR ''f'', newline_char]], writer = (), pending_notifications = [], next_id = 1\<rparr>,
       outside = ()\<rparr>\<rparr>"

theorem unknown_role_ends_agent_witness:
  "fst (send_message (acp_serde (wire_env alien_request)) (\<lambda>_. ''7'') world_send demo_connected 7 alien_request)
     = Ok (202, DeliveryLive)
   \<and> (\<exists>ses'. turns alien_main demo_conf 1 alien_session = Some (Exited (PushFailed ParseParams), ses'))"
proof -
  have l: "live_tunnel fst demo_connected 7 = Some 3"
    by (simp add: live_tunnel_def demo_connected_sel world_init_def)
  have r: "msg_role alien_request \<noteq> []" "proto_role_decode (msg_role alien_request) = None"
    by (simp_all add: alien_request_def proto_role_decode_def)
  have m: "me_acp alien_main = wire_env alien_request" by (simp add: alien_main_def)
  have s: "pending_notifications (client (s_host alien_session)) = []"
    "reader (client (s_host alien_session))
       = Ok (session_message_frame (acp_serde (wire_env alien_request)) alien_request @ [newline_char]) # []"
    by (simp_all add: alien_session_def wire_env_frame)
  from unknown_role_ends_agent [of world_send fst snd demo_connected 7 3 alien_request
      "acp_serde (wire_env alien_request)" alien_main alien_session "[]" "\<lambda>_. ''7''" demo_conf 0,
      unfolded m, OF world_laws l r refl wire_env_laws(1,2,4) s]
  show ?thesis by (auto simp: One_nat_def)
qed

section \<open>From the controlplane to the agent process\<close>

text \<open>The request for the tunnel as the server's router sees it.\<close>

definition seen_by_server :: "string \<Rightarrow> string \<Rightarrow> string \<Rightarrow> request \<Rightarrow> bool" where
  "seen_by_server host token key req \<longleftrightarrow> authorization req = map_of (upgrade_headers host token key) ''Authorization''"

text \<open>
  C22: the supervisor is let in with its token. For a token that the server validates as an
  agent's, the supervisor reads the agent's id from the token without checking it, dials the
  path of that id with the token as bearer, and the server grants exactly this upgrade, with the
  claims of the token.
\<close>

theorem supervisor_tunnel_granted:
  assumes "static_validate J au (sup_token cfg) = Ok c" and "is_agent c"
    and "insecure_decode E (sup_token cfg) = Ok c"
    and "sup_server_url cfg = ''https://'' @ h" and "\<not> str_contains h ''http://''" and "\<not> str_contains h ''https://''"
    and "seen_by_server host (sup_token cfg) key req"
  shows "\<exists>c'. peek_claims_unverified (insecure_decode E) (sup_token cfg) = Ok c'
    \<and> tunnel_url cfg (show_agent_id E (sub c')) = ''wss://'' @ h @ ''/tunnel/'' @ show_agent_id E (sub c)
    \<and> tunnel_upgrade (static_validate J au) (sub c') req = RUpgrade c"
proof -
  have "authorization req = Some (''Bearer '' @ sup_token cfg)"
    using assms(7) by (simp add: seen_by_server_def upgrade_headers_def)
  then have "bearer (authorization req) = Some (sup_token cfg)"
    by (simp only: bearer_def strip_prefix_append Option.bind.simps)
  with assms(1,2) have "tunnel_upgrade (static_validate J au) (sub c) req = RUpgrade c"
    by (simp add: tunnel_upgrade_def extract_bearer_token_def authorize_tunnel_def)
  moreover have "peek_claims_unverified (insecure_decode E) (sup_token cfg) = Ok c"
    using assms(3) by (simp add: peek_claims_unverified_def)
  ultimately show ?thesis using https_tunnel_url [OF assms(5,6,4)] by simp
qed

theorem supervisor_tunnel_granted_witness:
  "let c = claims_agent 1000 7 None 60 ''overacp'';
       E = demo_sup_env\<lparr>insecure_decode := (\<lambda>_. Ok c)\<rparr>; cfg = demo_sup_config\<lparr>sup_token := ''tok''\<rparr>
   in tunnel_url cfg (show_agent_id E (sub c)) = ''wss://acp/tunnel/7''
    \<and> tunnel_upgrade (static_validate demo_jwt demo_authenticator) (sub c) demo_http_request = RUpgrade c"
proof -
  let ?c = "claims_agent 1000 7 None 60 ''overacp''"
  let ?E = "demo_sup_env\<lparr>insecure_decode := (\<lambda>_. Ok ?c)\<rparr>"
  let ?cfg = "demo_sup_config\<lparr>sup_token := ''tok''\<rparr>"
  have 1: "static_validate demo_jwt demo_authenticator (sup_token ?cfg) = Ok ?c" using demo_token_valid by simp
  have 2: "is_agent ?c" by (simp add: is_agent_def claims_agent_def)
  have 3: "insecure_decode ?E (sup_token ?cfg) = Ok ?c" by simp
  have 4: "sup_server_url ?cfg = ''https://'' @ ''acp''" by (simp add: demo_sup_config_def)
  have 5: "\<not> str_contains ''acp'' ''http://''" "\<not> str_contains ''acp'' ''https://''" by (simp_all add: starts_with_def)
  have 6: "seen_by_server ''acp'' (sup_token ?cfg) ''k'' demo_http_request"
    by (simp add: seen_by_server_def upgrade_headers_def demo_http_request_def)
  have "show_agent_id ?E u = ''7''" for u by (simp add: demo_sup_env_def)
  then show ?thesis
    using supervisor_tunnel_granted [OF 1 2 3 4 5 6] unfolding Let_def by (simp add: peek_claims_unverified_def)
qed

text \<open>
  The workspace that the supervisor gives its child does not reach the agent's
  configuration. The adapter exports it as \<^verbatim>\<open>OVERACP_WORKSPACE\<close>, the agent reads
  \<^verbatim>\<open>OVERFOLDER_WORKSPACE\<close>: the agent's configuration is the one it would have without the
  adapter's variable.
\<close>

theorem workspace_not_passed_on:
  "from_env parse_f64 parse_f32 (child_var inherited (piped (loop_command a))) = from_env parse_f64 parse_f32 inherited"
  by (simp add: loop_child_var from_env_def)

text \<open>
  A supervisor started as a local node does not find its token. The provider sets
  \<^verbatim>\<open>OVERACP_AGENT_JWT\<close>, the supervisor requires \<^verbatim>\<open>OVERACP_TOKEN\<close>; unless the variable is
  inherited or named in the node's own environment, the supervisor ends at its configuration.
\<close>

theorem local_node_lacks_token:
  assumes "inherited ''OVERACP_TOKEN'' = None" and "map_of (rev (spec_env spec)) ''OVERACP_TOKEN'' = None"
  shows "sup_from_env parse_f32 (child_var inherited (node_command p ws spec)) = Err ''missing env var: OVERACP_TOKEN''"
  using assms by (simp add: sup_from_env_def required_def node_command_def child_var_set_envs map_add_def)

theorem local_node_lacks_token_witness:
  "sup_from_env (\<lambda>_. None) (child_var (\<lambda>_. None) (node_command demo_provider ''/tmp/node-u'' demo_spec))
     = Err ''missing env var: OVERACP_TOKEN''"
  by (rule local_node_lacks_token) (simp_all add: demo_spec_def)

end
